(* ===== verification/Prelude.thy ===== *)
theory Prelude
  imports Complex_Main "HOL-Library.Sublist" "HOL-Library.Char_ord"
    "HOL-Library.List_Lexorder" "HOL-Library.Product_Lexorder"
begin

text \<open>
  The vocabulary every component theory shares.

  \<^item> Exceptions: every module of \<^verbatim>\<open>core/runner_vnext_*.py\<close>, \<^verbatim>\<open>core/runner_task.py\<close> and \<^verbatim>\<open>core/runner_lease_store.py\<close>, defines one exception class that
    carries a \<open>reason_code\<close>.  Type \<open>exn\<close> has one constructor per class, so that an
    \<^verbatim>\<open>except\<close> clause is a case distinction and a re-raise keeps the code.
  \<^item> Results: a call that may raise returns \<open>exn + 'a\<close>; \<open>rbind\<close> sequences such calls
    and \<open>check_all\<close> is the loop that raises at the first bad element.
  \<^item> Stateful calls have type \<open>'s \<Rightarrow> 'a res \<times> 's\<close>; \<open>transaction\<close> is the
    BEGIN IMMEDIATE / COMMIT / ROLLBACK context manager of the SQLite-backed stores.
  \<^item> Python strings are \<open>string\<close>: code points 0 to 255.  The character classes below
    are those of CPython restricted to that range.
\<close>

named_theorems guard_simps \<open>unfolding of the validation helpers\<close>
named_theorems step_simps \<open>one operation of a store on each of its branches\<close>

subsection \<open>Exceptions and results\<close>

datatype exn =
    LeaseError string
  | LedgerError string
  | AdapterContractError string
  | EnvironmentContractError string
  | RoutingError string
  | PEPError string
  | ControlPlaneError string
  | ExecutionGateError string
  | GreenExecutionError string
  | ReconciliationError string
  | RecoveryError string
  | CompatError string
  | CutoverReadinessError string
  | VNextCutoverBridgeError string
  | RunnerTaskValidationError string
  | RunnerVNextAuthorityError string
  | RunnerVNextDispatchError string
  | RunnerVNextLiveCodegenError string
  | RunnerLeaseStoreError string
  | ValueError string
  | IntegrityError
  | OtherException string

fun reason_code :: "exn \<Rightarrow> string" where
  "reason_code (LeaseError r) = r"
| "reason_code (LedgerError r) = r"
| "reason_code (AdapterContractError r) = r"
| "reason_code (EnvironmentContractError r) = r"
| "reason_code (RoutingError r) = r"
| "reason_code (PEPError r) = r"
| "reason_code (ControlPlaneError r) = r"
| "reason_code (ExecutionGateError r) = r"
| "reason_code (GreenExecutionError r) = r"
| "reason_code (ReconciliationError r) = r"
| "reason_code (RecoveryError r) = r"
| "reason_code (CompatError r) = r"
| "reason_code (CutoverReadinessError r) = r"
| "reason_code (VNextCutoverBridgeError r) = r"
| "reason_code (RunnerTaskValidationError r) = r"
| "reason_code (RunnerVNextAuthorityError r) = r"
| "reason_code (RunnerVNextDispatchError r) = r"
| "reason_code (RunnerVNextLiveCodegenError r) = r"
| "reason_code (RunnerLeaseStoreError r) = r"
| "reason_code (ValueError r) = r"
| "reason_code IntegrityError = ''IntegrityError''"
| "reason_code (OtherException r) = r"

type_synonym 'a res = "exn + 'a"

definition rbind :: "'a res \<Rightarrow> ('a \<Rightarrow> 'b res) \<Rightarrow> 'b res" where
  "rbind m f = (case m of Inl e \<Rightarrow> Inl e | Inr x \<Rightarrow> f x)"

lemma rbind_simps [simp]: "rbind (Inl e) f = Inl e" "rbind (Inr x) f = f x"
  by (simp_all add: rbind_def)

lemma rbind_Inr_iff [simp]: "rbind m f = Inr y \<longleftrightarrow> (\<exists>x. m = Inr x \<and> f x = Inr y)"
  by (cases m) simp_all

lemma rbind_Inl_iff [simp]:
  "rbind m f = Inl e \<longleftrightarrow> m = Inl e \<or> (\<exists>x. m = Inr x \<and> f x = Inl e)"
  by (cases m) simp_all

text \<open>\<^verbatim>\<open>if bad: raise e\<close>\<close>

definition raise_if :: "bool \<Rightarrow> exn \<Rightarrow> unit res" where
  "raise_if b e = (if b then Inl e else Inr ())"

lemma raise_if_simps [simp]:
  "raise_if b e = Inr u \<longleftrightarrow> \<not> b"
  "raise_if b e = Inl e' \<longleftrightarrow> b \<and> e' = e"
  "raise_if True e = Inl e" "raise_if False e = Inr ()"
  by (auto simp: raise_if_def)

text \<open>\<^verbatim>\<open>for x in xs: if not ok(x): raise e\<close>\<close>

fun check_all :: "('a \<Rightarrow> bool) \<Rightarrow> exn \<Rightarrow> 'a list \<Rightarrow> unit res" where
  "check_all ok e [] = Inr ()"
| "check_all ok e (x # xs) = (if ok x then check_all ok e xs else Inl e)"

lemma check_all_Inr [simp]: "check_all ok e xs = Inr u \<longleftrightarrow> (\<forall>x\<in>set xs. ok x)"
  by (induction xs) auto

lemma check_all_Inl [simp]: "check_all ok e xs = Inl e' \<longleftrightarrow> e' = e \<and> (\<exists>x\<in>set xs. \<not> ok x)"
  by (induction xs) auto

text \<open>A sequence of \<^verbatim>\<open>if bad: raise e\<close> statements.\<close>

fun guards :: "(bool \<times> exn) list \<Rightarrow> unit res" where
  "guards [] = Inr ()"
| "guards (g # gs) = (if fst g then Inl (snd g) else guards gs)"

lemma guards_Inr [simp]: "guards gs = Inr u \<longleftrightarrow> (\<forall>g\<in>set gs. \<not> fst g)"
  by (induction gs) auto

lemma guards_Inl: "guards gs = Inl e \<Longrightarrow> \<exists>g\<in>set gs. fst g \<and> e = snd g"
  by (induction gs) (auto split: if_splits)

declare guards.simps [simp del]

text \<open>A loop whose body raises by itself.\<close>

fun for_each :: "('a \<Rightarrow> unit res) \<Rightarrow> 'a list \<Rightarrow> unit res" where
  "for_each f [] = Inr ()"
| "for_each f (x # xs) = rbind (f x) (\<lambda>_. for_each f xs)"

lemma for_each_Inr [simp]: "for_each f xs = Inr u \<longleftrightarrow> (\<forall>x\<in>set xs. f x = Inr ())"
  by (induction xs) auto

lemma for_each_Inl: "for_each f xs = Inl e \<Longrightarrow> \<exists>x\<in>set xs. f x = Inl e"
  by (induction xs) auto

text \<open>\<^verbatim>\<open>try: body / except C as exc: raise New(exc.reason_code) from exc\<close>\<close>

definition reraise_as :: "(string \<Rightarrow> exn) \<Rightarrow> (exn \<Rightarrow> bool) \<Rightarrow> 'a res \<Rightarrow> 'a res" where
  "reraise_as mk caught r =
     (case r of Inl e \<Rightarrow> Inl (if caught e then mk (reason_code e) else e) | Inr v \<Rightarrow> Inr v)"

lemma reraise_as_Inr [simp]: "reraise_as mk caught r = Inr v \<longleftrightarrow> r = Inr v"
  by (cases r) (simp_all add: reraise_as_def)

lemma reraise_as_of_Inr [simp]: "reraise_as mk caught (Inr v) = Inr v"
  by simp

lemma reraise_as_Inl: "reraise_as mk caught r = Inl e \<Longrightarrow> \<exists>e'. r = Inl e' \<and> e = (if caught e' then mk (reason_code e') else e')"
  by (cases r) (simp_all add: reraise_as_def)

subsection \<open>State, exceptions and transactions\<close>

type_synonym ('s, 'a) op = "'s \<Rightarrow> 'a res \<times> 's"

text \<open>
  The context manager \<^verbatim>\<open>_transaction\<close> of the lane-lease store and of the ledger: any
  exception rolls the database back to the state at BEGIN and is re-raised.
\<close>

definition transaction :: "('s, 'a) op \<Rightarrow> ('s, 'a) op" where
  "transaction body s = (case body s of (Inl e, s') \<Rightarrow> (Inl e, s) | (Inr v, s') \<Rightarrow> (Inr v, s'))"

lemma transaction_Inr [simp]: "transaction body s = (Inr v, s') \<longleftrightarrow> body s = (Inr v, s')"
  by (auto simp: transaction_def split: prod.splits sum.splits)

lemma transaction_Inl [simp]:
  "transaction body s = (Inl e, s') \<longleftrightarrow> (\<exists>t. body s = (Inl e, t)) \<and> s' = s"
  by (auto simp: transaction_def split: prod.splits sum.splits)

text \<open>A call that validates first, and the sequencing of two stateful calls.\<close>

definition guarded :: "'a res \<Rightarrow> ('a \<Rightarrow> ('s, 'b) op) \<Rightarrow> ('s, 'b) op" where
  "guarded r k s = (case r of Inl e \<Rightarrow> (Inl e, s) | Inr x \<Rightarrow> k x s)"

lemma guarded_simps [simp]: "guarded (Inl e) k s = (Inl e, s)" "guarded (Inr x) k s = k x s"
  by (simp_all add: guarded_def)

lemma guarded_Inr_iff: "guarded r k s = (Inr v, s') \<longleftrightarrow> (\<exists>x. r = Inr x \<and> k x s = (Inr v, s'))"
  by (cases r) simp_all

lemma guarded_Inl_iff:
  "guarded r k s = (Inl e, s') \<longleftrightarrow> r = Inl e \<and> s' = s \<or> (\<exists>x. r = Inr x \<and> k x s = (Inl e, s'))"
  by (cases r) auto

definition sbind :: "('s, 'a) op \<Rightarrow> ('a \<Rightarrow> ('s, 'b) op) \<Rightarrow> ('s, 'b) op" where
  "sbind m k s = (case m s of (Inl e, s') \<Rightarrow> (Inl e, s') | (Inr x, s') \<Rightarrow> k x s')"

lemma sbind_simps [simp]:
  "m s = (Inl e, s') \<Longrightarrow> sbind m k s = (Inl e, s')"
  "m s = (Inr x, s') \<Longrightarrow> sbind m k s = k x s'"
  by (simp_all add: sbind_def)

lemma sbind_Inr_iff: "sbind m k s = (Inr v, s') \<longleftrightarrow> (\<exists>x t. m s = (Inr x, t) \<and> k x t = (Inr v, s'))"
  by (auto simp: sbind_def split: prod.splits sum.splits)

lemma sbind_Inl_iff:
  "sbind m k s = (Inl e, s') \<longleftrightarrow> m s = (Inl e, s') \<or> (\<exists>x t. m s = (Inr x, t) \<and> k x t = (Inl e, s'))"
  by (auto simp: sbind_def split: prod.splits sum.splits)

text \<open>The same handler around a stateful call.\<close>

definition sreraise :: "(string \<Rightarrow> exn) \<Rightarrow> (exn \<Rightarrow> bool) \<Rightarrow> ('s, 'a) op \<Rightarrow> ('s, 'a) op" where
  "sreraise mk caught m s = (case m s of (r, s') \<Rightarrow> (reraise_as mk caught r, s'))"

lemma sreraise_Inr [simp]: "sreraise mk caught m s = (Inr v, s') \<longleftrightarrow> m s = (Inr v, s')"
  by (auto simp: sreraise_def split: prod.splits)

lemma sreraise_of_Inr: "m s = (Inr v, s') \<Longrightarrow> sreraise mk caught m s = (Inr v, s')"
  by simp

lemma sreraise_Inl: "sreraise mk caught m s = (Inl e, s') \<Longrightarrow> \<exists>e'. m s = (Inl e', s')"
  by (auto simp: sreraise_def split: prod.splits dest: reraise_as_Inl)

lemma fst_transaction [simp]: "fst (transaction body s) = fst (body s)"
  by (simp add: transaction_def split: prod.splits sum.splits)

text \<open>What every rolled-back operation promises its callers.\<close>

locale atomic_op =
  fixes run :: "('s, 'a) op"
  assumes abort_unchanged: "run s = (Inl e, s') \<Longrightarrow> s' = s"
begin

lemma outcome: "(\<exists>e. run s = (Inl e, s)) \<or> (\<exists>v s'. run s = (Inr v, s'))"
  using abort_unchanged by (cases "run s"; cases "fst (run s)") auto

lemma keeps_invariant:
  assumes "\<And>v s'. run s = (Inr v, s') \<Longrightarrow> I s'" and "I s"
  shows "I (snd (run s))"
  using outcome [of s] assms by auto

lemma changed_means_returned: "snd (run s) \<noteq> s \<Longrightarrow> \<exists>v. fst (run s) = Inr v"
  using outcome [of s] by auto

end

lemma guarded_transaction_abort: "guarded r (\<lambda>x. transaction (body x)) s = (Inl e, s') \<Longrightarrow> s' = s"
  by (auto simp: guarded_Inl_iff)

subsection \<open>Runs of operations and fencing tokens\<close>

text \<open>A sequence of calls on one store: the results, in order, and the final state.\<close>

fun run_ops :: "('op \<Rightarrow> ('s, 'r) op) \<Rightarrow> 'op list \<Rightarrow> 's \<Rightarrow> 'r res list \<times> 's" where
  "run_ops exec [] s = ([], s)"
| "run_ops exec (x # xs) s =
     (case exec x s of (r, s') \<Rightarrow> case run_ops exec xs s' of (rs, s'') \<Rightarrow> (r # rs, s''))"

lemma run_ops_Cons [simp]:
  "fst (run_ops exec (x # xs) s) = fst (exec x s) # fst (run_ops exec xs (snd (exec x s)))"
  "snd (run_ops exec (x # xs) s) = snd (run_ops exec xs (snd (exec x s)))"
  by (simp_all split: prod.splits)

declare run_ops.simps(2) [simp del]

definition tokens_for :: "('r \<Rightarrow> ('k \<times> int) option) \<Rightarrow> 'k \<Rightarrow> 'r res list \<Rightarrow> int list" where
  "tokens_for issued k rs =
     List.map_filter (\<lambda>r. case r of Inl e \<Rightarrow> None | Inr v \<Rightarrow>
       (case issued v of None \<Rightarrow> None | Some (k', t) \<Rightarrow> if k' = k then Some t else None)) rs"

lemma tokens_for_Nil [simp]: "tokens_for issued k [] = []"
  by (simp add: tokens_for_def map_filter_def)

lemma tokens_for_Cons:
  "tokens_for issued k (r # rs) =
     (case r of Inl e \<Rightarrow> [] | Inr v \<Rightarrow> (case issued v of None \<Rightarrow> [] | Some (k', t) \<Rightarrow> if k' = k then [t] else []))
       @ tokens_for issued k rs"
  by (auto simp: tokens_for_def map_filter_def split: sum.splits option.splits)

lemma tokens_for_none:
  "(\<And>v t. r = Inr v \<Longrightarrow> issued v \<noteq> Some (k, t)) \<Longrightarrow> tokens_for issued k (r # rs) = tokens_for issued k rs"
  by (auto simp: tokens_for_Cons split: sum.splits option.splits)

text \<open>
  The contract of a store that hands out fencing tokens: the token on record for a key never
  decreases, and a call that issues a token records a strictly larger one.
\<close>

locale fencing =
  fixes exec :: "'op \<Rightarrow> ('s, 'r) op"
    and inv :: "'s \<Rightarrow> bool"
    and fence :: "'s \<Rightarrow> 'k \<Rightarrow> int"
    and issued :: "'r \<Rightarrow> ('k \<times> int) option"
  assumes inv_step: "inv s \<Longrightarrow> inv (snd (exec x s))"
    and fence_mono: "inv s \<Longrightarrow> fence s k \<le> fence (snd (exec x s)) k"
    and issue_larger: "inv s \<Longrightarrow> exec x s = (Inr v, s') \<Longrightarrow> issued v = Some (k, t) \<Longrightarrow>
      fence s k < t \<and> fence s' k = t"
begin

lemma run_inv: "inv s \<Longrightarrow> inv (snd (run_ops exec xs s))"
  by (induction xs arbitrary: s) (simp_all add: inv_step)

lemma run_fence_mono: "inv s \<Longrightarrow> fence s k \<le> fence (snd (run_ops exec xs s)) k"
proof (induction xs arbitrary: s)
  case (Cons x xs)
  have "fence s k \<le> fence (snd (exec x s)) k" using Cons.prems by (rule fence_mono)
  also have "\<dots> \<le> fence (snd (run_ops exec xs (snd (exec x s)))) k"
    using Cons.prems by (intro Cons.IH inv_step)
  finally show ?case by simp
qed simp

lemma run_tokens_above:
  "inv s \<Longrightarrow> t \<in> set (tokens_for issued k (fst (run_ops exec xs s))) \<Longrightarrow> fence s k < t"
proof (induction xs arbitrary: s)
  case (Cons x xs)
  obtain r s' where e: "exec x s = (r, s')" by (cases "exec x s")
  have mono: "fence s k \<le> fence s' k" and inv': "inv s'"
    using fence_mono [of s k x] inv_step [of s x] Cons.prems(1) e by simp_all
  from Cons.prems e consider "t \<in> set (tokens_for issued k (fst (run_ops exec xs s')))"
    | v where "r = Inr v" "issued v = Some (k, t)"
    by (auto simp: tokens_for_Cons split: sum.splits option.splits if_splits)
  then show ?case
    using Cons.IH [OF inv'] mono issue_larger [OF Cons.prems(1), of x] e by cases fastforce+
qed simp

lemma run_tokens_increasing:
  "inv s \<Longrightarrow> sorted_wrt (<) (tokens_for issued k (fst (run_ops exec xs s)))"
proof (induction xs arbitrary: s)
  case (Cons x xs)
  obtain r s' where e: "exec x s = (r, s')" by (cases "exec x s")
  have inv': "inv s'" using inv_step [of s x] Cons.prems e by simp
  have "issued v = Some (k, t) \<Longrightarrow> r = Inr v \<Longrightarrow>
      \<forall>u\<in>set (tokens_for issued k (fst (run_ops exec xs s'))). t < u" for v t
    using run_tokens_above [OF inv'] issue_larger [OF Cons.prems, of x v s' k t] e by auto
  then show ?case
    using Cons.IH [OF inv'] e
    by (auto simp: tokens_for_Cons sorted_wrt_append split: sum.splits option.splits)
qed simp

end

subsection \<open>Characters and strings\<close>

abbreviation code_point :: "char \<Rightarrow> nat" where
  "code_point c \<equiv> of_char c"

definition py_isspace :: "char \<Rightarrow> bool" where
  "py_isspace c = (let n = code_point c in
     9 \<le> n \<and> n \<le> 13 \<or> 28 \<le> n \<and> n \<le> 32 \<or> n = 133 \<or> n = 160)"

definition py_isupper :: "char \<Rightarrow> bool" where
  "py_isupper c = (let n = code_point c in
     65 \<le> n \<and> n \<le> 90 \<or> 192 \<le> n \<and> n \<le> 214 \<or> 216 \<le> n \<and> n \<le> 222)"

definition py_islower :: "char \<Rightarrow> bool" where
  "py_islower c = (let n = code_point c in
     97 \<le> n \<and> n \<le> 122 \<or> n = 170 \<or> n = 181 \<or> n = 186 \<or>
     223 \<le> n \<and> n \<le> 246 \<or> 248 \<le> n)"

definition py_isdigit :: "char \<Rightarrow> bool" where
  "py_isdigit c = (let n = code_point c in
     48 \<le> n \<and> n \<le> 57 \<or> n = 178 \<or> n = 179 \<or> n = 185)"

definition py_isalnum :: "char \<Rightarrow> bool" where
  "py_isalnum c = (let n = code_point c in
     48 \<le> n \<and> n \<le> 57 \<or> 65 \<le> n \<and> n \<le> 90 \<or> 97 \<le> n \<and> n \<le> 122 \<or> n = 170 \<or>
     n = 178 \<or> n = 179 \<or> n = 181 \<or> n = 185 \<or> n = 186 \<or> 188 \<le> n \<and> n \<le> 190 \<or>
     192 \<le> n \<and> n \<le> 214 \<or> 216 \<le> n \<and> n \<le> 246 \<or> 248 \<le> n)"

text \<open>
  \<^verbatim>\<open>str.upper\<close> and \<^verbatim>\<open>str.lower\<close>.  The two characters whose capital lies outside the range
  (code points 181 and 255) are left as they are.
\<close>

definition py_upper_char :: "char \<Rightarrow> string" where
  "py_upper_char c = (let n = code_point c in
     if n = 223 then ''SS''
     else if 97 \<le> n \<and> n \<le> 122 \<or> 224 \<le> n \<and> n \<le> 254 \<and> n \<noteq> 247 then [char_of (n - 32)]
     else [c])"

definition py_upper :: "string \<Rightarrow> string" where
  "py_upper s = concat (map py_upper_char s)"

definition py_lower_char :: "char \<Rightarrow> char" where
  "py_lower_char c = (let n = code_point c in
     if 65 \<le> n \<and> n \<le> 90 \<or> 192 \<le> n \<and> n \<le> 222 \<and> n \<noteq> 215 then char_of (n + 32) else c)"

definition py_lower :: "string \<Rightarrow> string" where
  "py_lower s = map py_lower_char s"

definition py_strip :: "string \<Rightarrow> string" where
  "py_strip s = rev (dropWhile py_isspace (rev (dropWhile py_isspace s)))"

abbreviation py_startswith :: "string \<Rightarrow> string \<Rightarrow> bool" where
  "py_startswith s p \<equiv> prefix p s"

abbreviation py_contains :: "string \<Rightarrow> string \<Rightarrow> bool" where
  "py_contains s sub \<equiv> sublist sub s"

definition startswith_any :: "string list \<Rightarrow> string \<Rightarrow> bool" where
  "startswith_any ps s = list_ex (\<lambda>p. prefix p s) ps"

text \<open>\<^verbatim>\<open>value.partition(sep)\<close> for a one-character separator: (head, found, tail).\<close>

fun py_partition :: "char \<Rightarrow> string \<Rightarrow> string \<times> bool \<times> string" where
  "py_partition sep [] = ([], False, [])"
| "py_partition sep (c # cs) =
     (if c = sep then ([], True, cs)
      else (case py_partition sep cs of (h, f, t) \<Rightarrow> (c # h, f, t)))"

lemma py_partition_found:
  "py_partition sep s = (h, True, t) \<Longrightarrow> s = h @ sep # t \<and> sep \<notin> set h"
  by (induction s arbitrary: h) (auto split: if_splits prod.splits)

lemma py_partition_missing:
  "py_partition sep s = (h, False, t) \<Longrightarrow> sep \<notin> set s \<and> h = s \<and> t = []"
  by (induction s arbitrary: h) (auto split: if_splits prod.splits)

lemma py_partition_True_iff: "fst (snd (py_partition sep s)) \<longleftrightarrow> sep \<in> set s"
  by (induction s) (auto split: prod.splits)

definition upper_digits_underscore :: string where
  "upper_digits_underscore = ''ABCDEFGHIJKLMNOPQRSTUVWXYZ0123456789_''"

definition hex_lower :: string where
  "hex_lower = ''0123456789abcdef''"

text \<open>
  Each module has its own copy of a public-reference check, with small differences.  What all of
  them promise: an accepted reference is a namespaced name without a backslash or a parent segment.
  Most of them also refuse a reference that starts like an absolute or home path.
\<close>

lemma sublist_singleton [simp]: "sublist [c] s \<longleftrightarrow> c \<in> set s"
  by (auto simp: sublist_def in_set_conv_decomp)

lemma prefix_singleton: "prefix [c] s \<longleftrightarrow> s \<noteq> [] \<and> hd s = c"
  by (cases s) auto

locale ref_guard =
  fixes accepts :: "string \<Rightarrow> bool"
  assumes namespaced: "accepts r \<Longrightarrow> CHR '':'' \<in> set r"
    and no_backslash: "accepts r \<Longrightarrow> CHR 0x5C \<notin> set r"
    and no_dots: "accepts r \<Longrightarrow> \<not> sublist ''..'' r"
begin

lemma accepted_split: "accepts r \<Longrightarrow> \<exists>h t. r = h @ CHR '':'' # t \<and> CHR '':'' \<notin> set h"
  using namespaced split_list_first by metis

lemma accepted_no_parent: "\<not> accepts (u @ ''..'' @ v)"
proof
  assume "accepts (u @ ''..'' @ v)"
  then have "\<not> sublist ''..'' (u @ ''..'' @ v)" by (rule no_dots)
  then show False
    unfolding sublist_def by blast
qed

lemma accepted_nonempty: "accepts r \<Longrightarrow> r \<noteq> []"
  using namespaced by fastforce

end

locale relative_ref_guard = ref_guard +
  assumes not_rooted: "accepts r \<Longrightarrow> hd r \<notin> {CHR ''/'', CHR ''~''}"
begin

lemma rooted_refused: "c \<in> {CHR ''/'', CHR ''~''} \<Longrightarrow> \<not> accepts (c # r)"
  using not_rooted [of "c # r"] by auto

end

text \<open>The two texts of the check most modules share.\<close>

definition public_ref :: "string \<Rightarrow> bool" where
  "public_ref v \<longleftrightarrow> v \<noteq> [] \<and> \<not> startswith_any [''/'', ''~''] v \<and> \<not> py_contains v [CHR 0x5C] \<and>
     \<not> py_contains v ''..'' \<and> py_contains v '':'' \<and> \<not> list_ex py_isspace v"

definition partition_ref :: "string \<Rightarrow> bool" where
  "partition_ref v =
     (if v = [] \<or> py_contains v [CHR 0x5C] \<or> py_contains v ''..'' \<or> list_ex py_isspace v then False
      else (case py_partition (CHR '':'') v of (namespace, sep, tail) \<Rightarrow>
        (sep \<and> namespace \<noteq> [] \<and> tail \<noteq> []) \<and> \<not> startswith_any [''/'', ''~''] tail))"

interpretation public_ref: relative_ref_guard public_ref
  by unfold_locales (auto simp: public_ref_def startswith_any_def prefix_singleton)

interpretation partition_ref: ref_guard partition_ref
  by unfold_locales (auto simp: partition_ref_def split: if_splits prod.splits dest: py_partition_found)

lemma public_ref_no_space: "public_ref v \<Longrightarrow> c \<in> set v \<Longrightarrow> \<not> py_isspace c"
  by (auto simp: public_ref_def list_ex_iff)

text \<open>\<^verbatim>\<open>len(set(xs)) != len(xs)\<close>\<close>

lemma distinct_len_set: "(length (remdups xs) \<noteq> length xs) = (\<not> distinct xs)"
  by simp

definition py_join :: "string \<Rightarrow> string list \<Rightarrow> string" where
  "py_join sep xs = concat (case xs of [] \<Rightarrow> [] | y # ys \<Rightarrow> y # map (\<lambda>z. sep @ z) ys)"

subsection \<open>Searching and sorting\<close>

lemma find_append: "find P (xs @ ys) = (case find P xs of None \<Rightarrow> find P ys | Some x \<Rightarrow> Some x)"
  by (induction xs) simp_all

lemma find_SomeD: "find P xs = Some x \<Longrightarrow> P x \<and> x \<in> set xs"
  by (induction xs) (auto split: if_splits)

lemma find_None_iff_all: "find P xs = None \<longleftrightarrow> (\<forall>x\<in>set xs. \<not> P x)"
  by (induction xs) auto

lemma sort_key_fixed: "sorted (map f xs) \<Longrightarrow> sort_key f xs = xs"
  by (induction xs) (auto simp: insort_is_Cons)

lemma hd_sort_key_le:
  assumes "x \<in> set xs"
  shows "f (hd (sort_key f xs)) \<le> f x"
proof -
  have "sorted (map f (sort_key f xs))" and "x \<in> set (sort_key f xs)"
    using assms by simp_all
  then show ?thesis
    by (cases "sort_key f xs") auto
qed

lemma hd_sort_key_in: "xs \<noteq> [] \<Longrightarrow> hd (sort_key f xs) \<in> set xs"
  by (metis hd_in_set list.set_sel(1) set_empty set_sort)

end
