(* ===== verification/Contracts.thy ===== *)
theory Contracts
  imports Prelude
begin

text \<open>
  \<^verbatim>\<open>core/runner_vnext_contracts.py\<close>: the typed vocabulary of the vNext runner and the policy
  classifier \<open>classify_policy\<close>.  Effects and operation kinds are strings, as in the source;
  the three effect classes are ordered GREEN < YELLOW < RED, the order
  \<^verbatim>\<open>_RANK\<close> of \<^verbatim>\<open>core/runner_vnext_shadow.py\<close> gives them.
\<close>

subsection \<open>Definitions\<close>

datatype effect_class = GREEN | YELLOW | RED

datatype privacy_class = PUBLIC_SAFE | PRIVATE

datatype reversibility = REVERSIBLE | BOUNDED_REVERSIBLE | IRREVERSIBLE

fun effect_class_value :: "effect_class \<Rightarrow> string" where
  "effect_class_value GREEN = ''GREEN''"
| "effect_class_value YELLOW = ''YELLOW''"
| "effect_class_value RED = ''RED''"

fun privacy_value :: "privacy_class \<Rightarrow> string" where
  "privacy_value PUBLIC_SAFE = ''PUBLIC_SAFE''"
| "privacy_value PRIVATE = ''PRIVATE''"

definition green_effects :: "string list" where
  "green_effects = [''read'', ''workspace_write'', ''branch_commit_push'', ''draft_pr_open'', ''test'',
     ''validate'', ''bounded_service_restart'', ''artifact_transform'', ''private_compute'',
     ''mailbox_label_sort'', ''workspace_bind'']"

definition yellow_effects :: "string list" where
  "yellow_effects = [''protected_edit'', ''privileged_maintenance'', ''service_configuration'',
     ''control_plane_change'', ''external_send'']"

definition red_effects :: "string list" where
  "red_effects = [''protected_merge'', ''deploy'', ''runtime_activation'', ''secret_export'',
     ''secret_rotation'', ''firmware_flash'', ''ota'', ''destructive_storage'',
     ''destructive_account'', ''financial_commitment'', ''legal_commitment'']"

definition known_effects :: "string list" where
  "known_effects = green_effects @ yellow_effects @ red_effects"

definition ordinary_operation_kinds :: "string list" where
  "ordinary_operation_kinds = green_effects"

definition state_bound_mutation_kinds :: "string list" where
  "state_bound_mutation_kinds = [''workspace_write'', ''branch_commit_push'', ''draft_pr_open'',
     ''bounded_service_restart'', ''artifact_transform'', ''mailbox_label_sort'', ''workspace_bind'']"

definition red_resource_prefixes :: "string list" where
  "red_resource_prefixes = [''secret:'', ''deploy:'', ''firmware:'', ''finance:'', ''legal:'']"

definition yellow_resource_prefixes :: "string list" where
  "yellow_resource_prefixes = [''protected:'', ''control:'', ''service-config:'']"

record universal_task =
  task_id :: string
  task_intent :: string
  task_domain :: string
  task_target_resources :: "string list"
  task_required_capabilities :: "string list"
  task_privacy :: privacy_class
  task_reversibility :: reversibility
  task_expected_effects :: "string list"
  task_validation :: "string list"
  task_rollback :: "string list"
  task_idempotency_key :: string
  task_operator_boundary_evidence :: "string list"

record operation_ir =
  ir_operation_id :: string
  ir_kind :: string
  ir_resources :: "string list"
  ir_effects :: "string list"
  ir_idempotency_key :: string

text \<open>The constructor call with its \<^verbatim>\<open>__post_init__\<close> check.\<close>

definition mk_operation_ir :: "string \<Rightarrow> string \<Rightarrow> string list \<Rightarrow> string list \<Rightarrow> string \<Rightarrow> operation_ir res" where
  "mk_operation_ir oid kind rs effs key =
     (if kind \<notin> set ordinary_operation_kinds then Inl (ValueError ''ORDINARY_OPERATION_KIND_REQUIRED'')
      else Inr \<lparr>ir_operation_id = oid, ir_kind = kind, ir_resources = rs, ir_effects = effs,
                ir_idempotency_key = key\<rparr>)"

record policy_input =
  pi_operation :: operation_ir
  pi_reversibility :: reversibility
  pi_privacy :: privacy_class
  pi_target_state_ref :: "string option"
  pi_operator_boundary_evidence :: "string list"

record policy_decision =
  pd_effect_class :: effect_class
  pd_reason_code :: string
  pd_separate_privileged_pep_required :: bool

abbreviation mk_decision :: "effect_class \<Rightarrow> string \<Rightarrow> bool \<Rightarrow> policy_decision" where
  "mk_decision c r p \<equiv> \<lparr>pd_effect_class = c, pd_reason_code = r,
     pd_separate_privileged_pep_required = p\<rparr>"

text \<open>\<^verbatim>\<open>not value\<close> for an optional string: missing or empty.\<close>

definition falsy :: "string option \<Rightarrow> bool" where
  "falsy v = (case v of None \<Rightarrow> True | Some s \<Rightarrow> s = [])"

definition red_resource :: "string \<Rightarrow> bool" where
  "red_resource r = startswith_any red_resource_prefixes r"

definition yellow_resource :: "string \<Rightarrow> bool" where
  "yellow_resource r = startswith_any yellow_resource_prefixes r"

definition classify_policy :: "policy_input \<Rightarrow> policy_decision" where
  "classify_policy p =
     (let op = pi_operation p; effects = ir_effects op; resources = ir_resources op in
      if effects = [] \<or> list_ex (\<lambda>e. e \<notin> set known_effects) effects
      then mk_decision YELLOW ''UNRECOGNIZED_EFFECT_FAIL_CLOSED'' True
      else if pi_reversibility p = IRREVERSIBLE
      then mk_decision RED ''IRREVERSIBLE_EFFECT_BOUNDARY'' True
      else if list_ex (\<lambda>e. e \<in> set red_effects) effects \<or> list_ex red_resource resources
      then mk_decision RED ''RED_EFFECT_BOUNDARY'' True
      else if list_ex (\<lambda>e. e \<in> set yellow_effects) effects \<or> list_ex yellow_resource resources
      then mk_decision YELLOW ''YELLOW_EFFECT_BOUNDARY'' True
      else if ir_kind op \<in> set state_bound_mutation_kinds \<and> falsy (pi_target_state_ref p)
      then mk_decision YELLOW ''TARGET_STATE_EVIDENCE_REQUIRED'' True
      else mk_decision GREEN ''GREEN_AUTONOMOUS_TYPED_EFFECT'' False)"

instantiation effect_class :: linorder
begin

definition less_eq_effect_class :: "effect_class \<Rightarrow> effect_class \<Rightarrow> bool" where
  "less_eq_effect_class a b = (case a of GREEN \<Rightarrow> True | YELLOW \<Rightarrow> b \<noteq> GREEN | RED \<Rightarrow> b = RED)"

definition less_effect_class :: "effect_class \<Rightarrow> effect_class \<Rightarrow> bool" where
  "less_effect_class a b = (a \<le> b \<and> a \<noteq> b)"

instance
  by standard (auto simp: less_eq_effect_class_def less_effect_class_def split: effect_class.splits)

end

subsection \<open>The effect vocabulary\<close>

lemma effect_classes_disjoint:
  "set green_effects \<inter> set yellow_effects = {}" "set green_effects \<inter> set red_effects = {}"
  "set yellow_effects \<inter> set red_effects = {}"
  by (simp_all add: green_effects_def yellow_effects_def red_effects_def)

lemma known_effects_set:
  "set known_effects = set green_effects \<union> set yellow_effects \<union> set red_effects"
  by (auto simp: known_effects_def)

lemma GREEN_least [simp]: "GREEN \<le> c"
  by (simp add: less_eq_effect_class_def)

lemma RED_greatest [simp]: "c \<le> RED"
  by (cases c) (simp_all add: less_eq_effect_class_def)

lemma not_green_iff: "c \<noteq> GREEN \<longleftrightarrow> YELLOW \<le> c"
  by (cases c) (simp_all add: less_eq_effect_class_def)

subsection \<open>The classifier\<close>

lemma classify_GREEN_iff:
  "pd_effect_class (classify_policy p) = GREEN \<longleftrightarrow>
     ir_effects (pi_operation p) \<noteq> [] \<and>
     set (ir_effects (pi_operation p)) \<subseteq> set green_effects \<and>
     pi_reversibility p \<noteq> IRREVERSIBLE \<and>
     (\<forall>r\<in>set (ir_resources (pi_operation p)). \<not> red_resource r \<and> \<not> yellow_resource r) \<and>
     (ir_kind (pi_operation p) \<in> set state_bound_mutation_kinds \<longrightarrow> \<not> falsy (pi_target_state_ref p))"
  (is "?L \<longleftrightarrow> ?R")
proof
  assume ?L
  then show ?R
    using known_effects_set
    by (auto simp: classify_policy_def Let_def list_ex_iff split: if_splits)
next
  assume ?R
  then show ?L
    using known_effects_set effect_classes_disjoint
    by (auto simp: classify_policy_def Let_def list_ex_iff subset_iff)
qed

lemma classify_pep_required:
  "pd_separate_privileged_pep_required (classify_policy p) \<longleftrightarrow> pd_effect_class (classify_policy p) \<noteq> GREEN"
  by (simp add: classify_policy_def Let_def)

lemma classify_RED_iff:
  "pd_effect_class (classify_policy p) = RED \<longleftrightarrow>
     ir_effects (pi_operation p) \<noteq> [] \<and>
     set (ir_effects (pi_operation p)) \<subseteq> set known_effects \<and>
     (pi_reversibility p = IRREVERSIBLE \<or> (\<exists>e\<in>set (ir_effects (pi_operation p)). e \<in> set red_effects) \<or>
      (\<exists>r\<in>set (ir_resources (pi_operation p)). red_resource r))"
  by (auto simp: classify_policy_def Let_def list_ex_iff)

text \<open>The input without its reason code: what the class depends on.\<close>

definition policy_le :: "policy_input \<Rightarrow> policy_input \<Rightarrow> bool" where
  "policy_le p q \<longleftrightarrow>
     set (ir_effects (pi_operation p)) \<subseteq> set (ir_effects (pi_operation q)) \<and>
     set (ir_resources (pi_operation p)) \<subseteq> set (ir_resources (pi_operation q)) \<and>
     ir_kind (pi_operation p) = ir_kind (pi_operation q) \<and>
     pi_target_state_ref p = pi_target_state_ref q \<and>
     (pi_reversibility p = IRREVERSIBLE \<longrightarrow> pi_reversibility q = IRREVERSIBLE)"

lemma classify_mono:
  assumes "policy_le p q" "ir_effects (pi_operation p) \<noteq> []"
    and "set (ir_effects (pi_operation q)) \<subseteq> set known_effects"
  shows "pd_effect_class (classify_policy p) \<le> pd_effect_class (classify_policy q)"
proof (cases "pd_effect_class (classify_policy p)")
  case GREEN
  then show ?thesis by simp
next
  case RED
  moreover have "ir_effects (pi_operation q) \<noteq> []"
    using assms by (auto simp: policy_le_def)
  ultimately have "pd_effect_class (classify_policy q) = RED"
    using assms unfolding classify_RED_iff policy_le_def by blast
  then show ?thesis by simp
next
  case YELLOW
  then have "pd_effect_class (classify_policy p) \<noteq> GREEN" by simp
  then have "pd_effect_class (classify_policy q) \<noteq> GREEN"
    using assms unfolding classify_GREEN_iff policy_le_def by auto
  with YELLOW show ?thesis by (simp add: not_green_iff)
qed

text \<open>
  The first test looks only for unknown effects, so one of them beside a RED effect lowers the
  class of the operation from RED to YELLOW.
\<close>

lemma unknown_effect_masks_red:
  assumes "e \<in> set (ir_effects (pi_operation p))" "e \<notin> set known_effects"
  shows "pd_effect_class (classify_policy p) = YELLOW"
  using assms by (auto simp: classify_policy_def Let_def list_ex_iff)

subsection \<open>Properties\<close>

text \<open>
  C21. The classifier is exact.  An operation is GREEN if and only if it names at least one effect, all its
  effects are in the green vocabulary, it is not irreversible, no resource lies in a red or yellow namespace,
  and a state-bound mutation names the state it is bound to.  It is RED if and only if its effects are known
  and it is irreversible or has a red effect or a red resource.  The privileged enforcement point is waived for
  GREEN and for nothing else, and neither the privacy of the data nor the evidence of the operator
  changes the decision.
\<close>

theorem policy_green_exact:
  "(pd_effect_class (classify_policy p) = GREEN \<longleftrightarrow>
     ir_effects (pi_operation p) \<noteq> [] \<and>
     set (ir_effects (pi_operation p)) \<subseteq> set green_effects \<and>
     pi_reversibility p \<noteq> IRREVERSIBLE \<and>
     filter (\<lambda>r. red_resource r \<or> yellow_resource r) (ir_resources (pi_operation p)) = [] \<and>
     \<not> (ir_kind (pi_operation p) \<in> set state_bound_mutation_kinds \<and> falsy (pi_target_state_ref p))) \<and>
   (pd_effect_class (classify_policy p) = RED \<longleftrightarrow>
     ir_effects (pi_operation p) \<noteq> [] \<and>
     set (ir_effects (pi_operation p)) \<subseteq> set known_effects \<and>
     (pi_reversibility p = IRREVERSIBLE \<or> (\<exists>e. e \<in> set (ir_effects (pi_operation p)) \<and> e \<in> set red_effects) \<or>
      (\<exists>r. r \<in> set (ir_resources (pi_operation p)) \<and> red_resource r))) \<and>
   (pd_separate_privileged_pep_required (classify_policy p) \<longleftrightarrow> pd_effect_class (classify_policy p) \<noteq> GREEN) \<and>
   classify_policy (p\<lparr>pi_privacy := privacy, pi_operator_boundary_evidence := evidence\<rparr>) = classify_policy p"
proof (intro conjI)
  show "classify_policy (p\<lparr>pi_privacy := privacy, pi_operator_boundary_evidence := evidence\<rparr>) = classify_policy p"
    by (simp add: classify_policy_def Let_def)
qed (auto simp: classify_GREEN_iff classify_RED_iff classify_pep_required filter_empty_conv)

text \<open>
  The classifier is monotone on the known vocabulary: an operation with more effects or
  resources, or made irreversible, is never put in a lower class.
\<close>

theorem policy_monotone:
  assumes "policy_le p q" "ir_effects (pi_operation p) \<noteq> []"
    and "set (ir_effects (pi_operation q)) \<subseteq> set known_effects"
  shows "pd_effect_class (classify_policy p) \<le> pd_effect_class (classify_policy q)"
  using assms by (rule classify_mono)

definition demo_input :: "string list \<Rightarrow> policy_input" where
  "demo_input effs = \<lparr>pi_operation = \<lparr>ir_operation_id = ''op:1'', ir_kind = ''read'', ir_resources = [''repo:x''],
     ir_effects = effs, ir_idempotency_key = ''key:1''\<rparr>, pi_reversibility = REVERSIBLE, pi_privacy = PUBLIC_SAFE,
     pi_target_state_ref = None, pi_operator_boundary_evidence = []\<rparr>"

theorem policy_monotone_witness:
  "pd_effect_class (classify_policy (demo_input [''read''])) \<le> pd_effect_class (classify_policy (demo_input [''read'', ''deploy'']))
   \<and> pd_effect_class (classify_policy (demo_input [''read''])) \<noteq> pd_effect_class (classify_policy (demo_input [''read'', ''deploy'']))"
proof (rule conjI)
  show "pd_effect_class (classify_policy (demo_input [''read''])) \<le> pd_effect_class (classify_policy (demo_input [''read'', ''deploy'']))"
    by (rule policy_monotone)
      (simp_all add: policy_le_def demo_input_def known_effects_def green_effects_def red_effects_def)
  show "pd_effect_class (classify_policy (demo_input [''read''])) \<noteq> pd_effect_class (classify_policy (demo_input [''read'', ''deploy'']))"
    by code_simp
qed

end
