(* ===== verification/Fnmatch.thy ===== *)
theory Fnmatch
  imports Prelude
begin

text \<open>
  \<^verbatim>\<open>fnmatch.fnmatch\<close> of the Python standard library on a POSIX system, where case folding is the
  identity: a star, a question mark, bracketed character sets with ranges and negation, and literal
  characters.  An unclosed bracket is a literal; an empty range contributes nothing; a set that
  becomes empty matches no character and its negation every character; when dropping empty ranges
  uncovers an exclamation mark at the front, the library reads it as a negation.
\<close>

datatype set_item = Single char | Range char char

datatype fn_tok = Star | AnyChar | Lit char | CharSet bool "set_item list"

fun set_items :: "string \<Rightarrow> set_item list" where
  "set_items (a # d # b # r) = (if d = CHR ''-'' then Range a b # set_items r else Single a # set_items (d # b # r))"
| "set_items (a # r) = Single a # set_items r"
| "set_items [] = []"

definition keep_item :: "set_item \<Rightarrow> bool" where
  "keep_item i = (case i of Single c \<Rightarrow> True | Range a b \<Rightarrow> a \<le> b)"

definition char_set :: "string \<Rightarrow> fn_tok" where
  "char_set stuff = (case stuff of
     c # r \<Rightarrow>
       if c = CHR ''!'' then CharSet True (filter keep_item (set_items r))
       else (case filter keep_item (set_items stuff) of
           Single x # is \<Rightarrow> if x = CHR ''!'' then CharSet True is else CharSet False (Single x # is)
         | Range a b # is \<Rightarrow>
             if a = CHR ''!'' then CharSet True (Single (CHR ''-'') # Single b # is) else CharSet False (Range a b # is)
         | [] \<Rightarrow> CharSet False [])
   | [] \<Rightarrow> CharSet False [])"

text \<open>The text of a set and what follows its closing bracket, if there is one.\<close>

definition split_set :: "string \<Rightarrow> (string \<times> string) option" where
  "split_set p =
     (let (bang, p1) = (case p of c # r \<Rightarrow> if c = CHR ''!'' then ([c], r) else ([], p) | [] \<Rightarrow> ([], p));
          (brk, p2) = (case p1 of c # r \<Rightarrow> if c = CHR '']'' then ([c], r) else ([], p1) | [] \<Rightarrow> ([], p1))
      in case py_partition (CHR '']'') p2 of
           (body, found, rest) \<Rightarrow> if found then Some (bang @ brk @ body, rest) else None)"

lemma py_partition_length: "py_partition c s = (h, f, t) \<Longrightarrow> length t \<le> length s"
  by (induction s arbitrary: h) (fastforce split: if_splits prod.splits)+

lemma split_set_length: "split_set p = Some (stuff, rest) \<Longrightarrow> length rest \<le> length p"
  by (auto simp: split_set_def split: list.splits if_splits prod.splits dest!: py_partition_length)

function fn_tokens :: "string \<Rightarrow> fn_tok list" where
  "fn_tokens [] = []"
| "fn_tokens (c # p) =
     (if c = CHR ''*'' then Star # fn_tokens p
      else if c = CHR ''?'' then AnyChar # fn_tokens p
      else if c = CHR ''['' then
        (case split_set p of
           None \<Rightarrow> Lit c # fn_tokens p
         | Some (stuff, rest) \<Rightarrow> char_set stuff # fn_tokens rest)
      else Lit c # fn_tokens p)"
  by pat_completeness auto
termination
  by (relation "measure length") (auto dest: split_set_length)

definition item_has :: "char \<Rightarrow> set_item \<Rightarrow> bool" where
  "item_has c i = (case i of Single x \<Rightarrow> c = x | Range a b \<Rightarrow> a \<le> c \<and> c \<le> b)"

fun tok_accepts :: "fn_tok \<Rightarrow> char \<Rightarrow> bool" where
  "tok_accepts AnyChar c = True"
| "tok_accepts (Lit x) c = (c = x)"
| "tok_accepts (CharSet neg items) c = (if neg then \<not> list_ex (item_has c) items else list_ex (item_has c) items)"
| "tok_accepts Star c = False"

fun fn_match :: "fn_tok list \<Rightarrow> string \<Rightarrow> bool" where
  "fn_match [] s = (s = [])"
| "fn_match (Star # ts) [] = fn_match ts []"
| "fn_match (Star # ts) (c # s) = (fn_match ts (c # s) \<or> fn_match (Star # ts) s)"
| "fn_match (t # ts) [] = False"
| "fn_match (t # ts) (c # s) = (tok_accepts t c \<and> fn_match ts s)"

definition fnmatch :: "string \<Rightarrow> string \<Rightarrow> bool" where
  "fnmatch name pat = fn_match (fn_tokens pat) name"

text \<open>A pattern that starts with plain characters matches only names that start with them.\<close>

definition plain_char :: "char \<Rightarrow> bool" where
  "plain_char c \<longleftrightarrow> c \<notin> set ''*?[''"

lemma fnmatch_plain_Cons:
  "plain_char c \<Longrightarrow> fnmatch s (c # p) \<longleftrightarrow> (\<exists>t. s = c # t \<and> fnmatch t p)"
  by (cases s) (auto simp: fnmatch_def plain_char_def)

lemma fnmatch_plain_prefix:
  "list_all plain_char h \<Longrightarrow> fnmatch s (h @ p) \<longleftrightarrow> (\<exists>t. s = h @ t \<and> fnmatch t p)"
  by (induction h arbitrary: s) (auto simp: fnmatch_plain_Cons)

lemma fnmatch_refl: "list_all plain_char r \<Longrightarrow> fnmatch r r"
  using fnmatch_plain_prefix [of r r "[]"] by (simp add: fnmatch_def)

lemma fn_match_Star: "fn_match (Star # ts) s \<longleftrightarrow> (\<exists>u v. s = u @ v \<and> fn_match ts v)"
proof (induction s)
  case (Cons c s)
  have "(\<exists>u v. c # s = u @ v \<and> fn_match ts v) \<longleftrightarrow> fn_match ts (c # s) \<or> (\<exists>u v. s = u @ v \<and> fn_match ts v)"
    by (metis append_Cons append_Nil neq_Nil_conv list.inject)
  then show ?case using Cons.IH by simp
qed simp

lemma fnmatch_star: "fnmatch s (CHR ''*'' # p) \<longleftrightarrow> (\<exists>u v. s = u @ v \<and> fnmatch v p)"
  by (simp add: fnmatch_def fn_match_Star)

end
