(* ===== verification/Adapters.thy ===== *)
theory Adapters
  imports Contracts Fnmatch
begin

text \<open>
  \<^verbatim>\<open>core/runner_vnext_adapters.py\<close>: adapter manifests and the dry-run planner that turns a task, its
  operation and its policy decision into an execution envelope.  The registry is the association
  list of the mapping the planner is constructed with.
\<close>

subsection \<open>Definitions\<close>

record adapter_manifest =
  am_adapter_id :: string
  am_operation_kinds :: "string list"
  am_capabilities :: "string list"
  am_allowed_effect_classes :: "effect_class list"
  am_resource_patterns :: "string list"
  am_privacy_classes :: "privacy_class list"
  am_privileged_pep_required :: bool

record execution_envelope =
  ev_operation_id :: string
  ev_adapter_id :: string
  ev_target_state_ref :: string
  ev_fence_token :: int
  ev_idempotency_key :: string
  ev_resources :: "string list"
  ev_effects :: "string list"
  ev_effect_class :: effect_class
  ev_policy_reason_code :: string
  ev_required_capabilities :: "string list"
  ev_privacy :: privacy_class
  ev_dry_run :: bool

text \<open>The check both this module and the router make of a declared resource pattern.\<close>

definition bounded_pattern :: "(string \<Rightarrow> bool) \<Rightarrow> string \<Rightarrow> bool" where
  "bounded_pattern ref p \<longleftrightarrow> ref p \<and> p \<notin> {''*'', ''*:*''} \<and>
     (case py_partition (CHR '':'') p of (namespace, sep, tail) \<Rightarrow>
        namespace \<noteq> [] \<and> \<not> list_ex (\<lambda>ch. ch \<in> set namespace) ''*?[]'' \<and> tail \<noteq> [])"

definition adapter_resource_pattern :: "string \<Rightarrow> unit res" where
  "adapter_resource_pattern p =
     raise_if (\<not> bounded_pattern public_ref p) (AdapterContractError ''ADAPTER_RESOURCE_PATTERN_INVALID'')"

definition validate_manifest :: "adapter_manifest \<Rightarrow> unit res" where
  "validate_manifest m = rbind (guards [
       (am_adapter_id m = [] \<or> list_ex py_isspace (am_adapter_id m), AdapterContractError ''ADAPTER_ID_INVALID''),
       (am_operation_kinds m = [] \<or> am_capabilities m = [] \<or> am_resource_patterns m = [],
          AdapterContractError ''ADAPTER_POSITIVE_DECLARATION_REQUIRED''),
       (am_allowed_effect_classes m = [] \<or> am_privacy_classes m = [],
          AdapterContractError ''ADAPTER_BOUNDARY_DECLARATION_REQUIRED'')])
     (\<lambda>_. for_each adapter_resource_pattern (am_resource_patterns m))"

type_synonym adapter_planner = "(string \<times> adapter_manifest) list"

text \<open>The constructor of \<^verbatim>\<open>AdapterPlanner\<close>.\<close>

definition mk_adapter_planner :: "(string \<times> adapter_manifest) list \<Rightarrow> adapter_planner res" where
  "mk_adapter_planner ms =
     (if length (remdups (map fst ms)) \<noteq> length ms then Inl (AdapterContractError ''ADAPTER_ID_DUPLICATE'')
      else rbind (for_each (\<lambda>(key, m). rbind (validate_manifest m) (\<lambda>_.
               raise_if (key \<noteq> am_adapter_id m) (AdapterContractError ''ADAPTER_REGISTRY_ID_MISMATCH''))) ms)
             (\<lambda>_. Inr ms))"

definition resource_matches :: "string \<Rightarrow> string list \<Rightarrow> bool" where
  "resource_matches r patterns = (if \<not> public_ref r then False else list_ex (\<lambda>p. fnmatch r p) patterns)"

definition adapter_plan ::
    "adapter_planner \<Rightarrow> string \<Rightarrow> universal_task \<Rightarrow> operation_ir \<Rightarrow> policy_input \<Rightarrow> policy_decision
      \<Rightarrow> string \<Rightarrow> int \<Rightarrow> execution_envelope res" where
  "adapter_plan planner adapter_id task operation policy decision target fence =
     (case map_of planner adapter_id of
        None \<Rightarrow> Inl (AdapterContractError ''ADAPTER_UNKNOWN'')
      | Some m \<Rightarrow>
        let caps = task_required_capabilities task; privacy = task_privacy task in
        rbind (guards [
          (\<not> public_ref target, AdapterContractError ''ADAPTER_TARGET_STATE_REF_INVALID''),
          (fence < 1, AdapterContractError ''ADAPTER_FENCE_INVALID''),
          (pi_operation policy \<noteq> operation, AdapterContractError ''ADAPTER_POLICY_OPERATION_MISMATCH''),
          (pi_target_state_ref policy \<noteq> Some target, AdapterContractError ''ADAPTER_POLICY_TARGET_STATE_MISMATCH''),
          (task_idempotency_key task \<noteq> ir_idempotency_key operation,
             AdapterContractError ''ADAPTER_TASK_OPERATION_IDEMPOTENCY_MISMATCH''),
          (task_target_resources task \<noteq> ir_resources operation \<or> task_expected_effects task \<noteq> ir_effects operation,
             AdapterContractError ''ADAPTER_TASK_OPERATION_SCOPE_MISMATCH''),
          (task_privacy task \<noteq> pi_privacy policy, AdapterContractError ''ADAPTER_TASK_POLICY_PRIVACY_MISMATCH''),
          (classify_policy policy \<noteq> decision, AdapterContractError ''ADAPTER_POLICY_DECISION_MISMATCH''),
          (ir_kind operation \<notin> set (am_operation_kinds m), AdapterContractError ''ADAPTER_OPERATION_KIND_UNSUPPORTED''),
          (\<not> set caps \<subseteq> set (am_capabilities m), AdapterContractError ''ADAPTER_CAPABILITY_UNSUPPORTED''),
          (privacy \<notin> set (am_privacy_classes m), AdapterContractError ''ADAPTER_PRIVACY_UNSUPPORTED''),
          (pd_effect_class decision \<notin> set (am_allowed_effect_classes m),
             AdapterContractError ''ADAPTER_EFFECT_CLASS_UNSUPPORTED''),
          (pd_effect_class decision = RED \<and> \<not> am_privileged_pep_required m,
             AdapterContractError ''ADAPTER_RED_REQUIRES_PRIVILEGED_PEP''),
          (pd_separate_privileged_pep_required decision \<and> \<not> am_privileged_pep_required m,
             AdapterContractError ''ADAPTER_POLICY_REQUIRES_PRIVILEGED_PEP'')]) (\<lambda>_.
        rbind (check_all (\<lambda>r. resource_matches r (am_resource_patterns m))
                (AdapterContractError ''ADAPTER_RESOURCE_OUT_OF_SCOPE'') (ir_resources operation)) (\<lambda>_.
        Inr \<lparr>ev_operation_id = ir_operation_id operation, ev_adapter_id = adapter_id, ev_target_state_ref = target,
             ev_fence_token = fence, ev_idempotency_key = ir_idempotency_key operation,
             ev_resources = ir_resources operation, ev_effects = ir_effects operation,
             ev_effect_class = pd_effect_class decision, ev_policy_reason_code = pd_reason_code decision,
             ev_required_capabilities = caps, ev_privacy = privacy, ev_dry_run = True\<rparr>)))"

subsection \<open>Declared patterns are bounded to one namespace\<close>

lemma bounded_pattern_split:
  assumes "bounded_pattern ref p"
  obtains h t where "p = h @ '':'' @ t" "h \<noteq> []" "list_all plain_char h" "CHR '':'' \<notin> set h"
proof -
  obtain h f t where part: "py_partition (CHR '':'') p = (h, f, t)"
    by (cases "py_partition (CHR '':'') p")
  then have h: "h \<noteq> []" "\<not> list_ex (\<lambda>ch. ch \<in> set h) ''*?[]''" "t \<noteq> []"
    using assms by (auto simp: bounded_pattern_def)
  have f: "f"
    using part h(3) py_partition_missing [of "CHR '':''" p h t] by (cases f) auto
  have "list_all plain_char h"
    using h(2) by (auto simp: list_all_iff plain_char_def)
  with that part f h(1) py_partition_found [of "CHR '':''" p h t] show thesis
    by auto
qed

lemma bounded_pattern_namespace:
  assumes "bounded_pattern ref p" "fnmatch r p"
  shows "\<exists>h t u. p = h @ '':'' @ t \<and> r = h @ '':'' @ u \<and> h \<noteq> [] \<and> CHR '':'' \<notin> set h"
proof -
  obtain h t where p: "p = h @ '':'' @ t" "h \<noteq> []" "list_all plain_char h" "CHR '':'' \<notin> set h"
    using bounded_pattern_split [OF assms(1)] .
  then have "list_all plain_char (h @ '':'')"
    by (simp add: plain_char_def)
  then obtain u where "r = (h @ '':'') @ u"
    using assms(2) p(1) fnmatch_plain_prefix [of "h @ '':''" r t] by auto
  with p show ?thesis by auto
qed

definition planner_ok :: "adapter_planner \<Rightarrow> bool" where
  "planner_ok ms \<longleftrightarrow> mk_adapter_planner ms = Inr ms"

lemma planner_manifest:
  assumes "planner_ok ms" "map_of ms a = Some m"
  shows "validate_manifest m = Inr ()" "am_adapter_id m = a"
  using assms map_of_SomeD [OF assms(2)] by (auto simp: planner_ok_def mk_adapter_planner_def split: if_splits)

lemma manifest_pattern:
  "validate_manifest m = Inr () \<Longrightarrow> p \<in> set (am_resource_patterns m) \<Longrightarrow> bounded_pattern public_ref p"
  by (auto simp: validate_manifest_def adapter_resource_pattern_def)

lemma adapter_plan_InrD:
  assumes "adapter_plan ms a task op pol d target f = Inr env"
  obtains m where "map_of ms a = Some m" "public_ref target" "1 \<le> f" "pi_operation pol = op"
    "pi_target_state_ref pol = Some target" "d = classify_policy pol" "ir_kind op \<in> set (am_operation_kinds m)"
    "set (task_required_capabilities task) \<subseteq> set (am_capabilities m)" "task_privacy task \<in> set (am_privacy_classes m)"
    "pd_effect_class d \<in> set (am_allowed_effect_classes m)"
    "pd_effect_class d \<noteq> GREEN \<Longrightarrow> am_privileged_pep_required m"
    "\<forall>r\<in>set (ir_resources op). resource_matches r (am_resource_patterns m)"
    "task_target_resources task = ir_resources op" "task_expected_effects task = ir_effects op"
    "task_idempotency_key task = ir_idempotency_key op"
    "env = \<lparr>ev_operation_id = ir_operation_id op, ev_adapter_id = a, ev_target_state_ref = target,
             ev_fence_token = f, ev_idempotency_key = ir_idempotency_key op,
             ev_resources = ir_resources op, ev_effects = ir_effects op,
             ev_effect_class = pd_effect_class d, ev_policy_reason_code = pd_reason_code d,
             ev_required_capabilities = task_required_capabilities task, ev_privacy = task_privacy task,
             ev_dry_run = True\<rparr>"
proof -
  obtain m where m: "map_of ms a = Some m"
    using assms by (cases "map_of ms a") (simp_all add: adapter_plan_def)
  show thesis
    by (rule that [OF m]) (use assms m classify_pep_required [of pol] in
        \<open>auto simp: adapter_plan_def Let_def\<close>)
qed

lemma adapter_plan_error: "adapter_plan ms a task op pol d target f = Inl e \<Longrightarrow> \<exists>r. e = AdapterContractError r"
  by (auto simp: adapter_plan_def Let_def split: option.splits dest!: guards_Inl)

subsection \<open>Properties\<close>

text \<open>
  A planned envelope stays inside the manifest of its adapter: on every registry the constructor
  accepts, an envelope that is returned is a dry run that carries exactly the operation, the caller's
  target state and fence and the recomputed policy class; the adapter declares the kind, the
  capabilities and the class, is behind the privileged enforcement point unless the class is GREEN,
  and every resource lies in the literal namespace of one of its declared patterns.
\<close>

theorem adapter_plan_confined:
  assumes "planner_ok ms" "adapter_plan ms a task op pol d target f = Inr env"
  shows "\<exists>m. map_of ms a = Some m \<and> am_adapter_id m = a \<and> ev_dry_run env \<and>
    ev_operation_id env = ir_operation_id op \<and> ev_resources env = ir_resources op \<and> ev_effects env = ir_effects op \<and>
    ev_target_state_ref env = target \<and> ev_fence_token env = f \<and>
    ev_effect_class env = pd_effect_class (classify_policy pol) \<and>
    ir_kind op \<in> set (am_operation_kinds m) \<and> ev_effect_class env \<in> set (am_allowed_effect_classes m) \<and>
    set (ev_required_capabilities env) \<subseteq> set (am_capabilities m) \<and>
    (am_privileged_pep_required m \<or> ev_effect_class env = GREEN) \<and>
    list_all (\<lambda>r. \<exists>h t u. h @ '':'' @ t \<in> set (am_resource_patterns m) \<and> r = h @ '':'' @ u \<and>
      h \<noteq> [] \<and> CHR '':'' \<notin> set h) (ev_resources env)"
  using assms(2)
proof (rule adapter_plan_InrD)
  fix m
  assume m: "map_of ms a = Some m" and kind: "ir_kind op \<in> set (am_operation_kinds m)"
    and caps: "set (task_required_capabilities task) \<subseteq> set (am_capabilities m)"
    and cls: "d = classify_policy pol" "pd_effect_class d \<in> set (am_allowed_effect_classes m)"
    and pep: "pd_effect_class d \<noteq> GREEN \<Longrightarrow> am_privileged_pep_required m"
    and res: "\<forall>r\<in>set (ir_resources op). resource_matches r (am_resource_patterns m)"
    and env: "env = \<lparr>ev_operation_id = ir_operation_id op, ev_adapter_id = a, ev_target_state_ref = target,
             ev_fence_token = f, ev_idempotency_key = ir_idempotency_key op,
             ev_resources = ir_resources op, ev_effects = ir_effects op,
             ev_effect_class = pd_effect_class d, ev_policy_reason_code = pd_reason_code d,
             ev_required_capabilities = task_required_capabilities task, ev_privacy = task_privacy task,
             ev_dry_run = True\<rparr>"
  note manifest = planner_manifest [OF assms(1) m]
  have "\<exists>h t u. h @ '':'' @ t \<in> set (am_resource_patterns m) \<and> r = h @ '':'' @ u \<and> h \<noteq> [] \<and> CHR '':'' \<notin> set h"
    if r: "r \<in> set (ir_resources op)" for r
  proof -
    obtain p where "p \<in> set (am_resource_patterns m)" "fnmatch r p"
      using bspec [OF res r] by (auto simp: resource_matches_def list_ex_iff split: if_splits)
    then show ?thesis
      using bounded_pattern_namespace [OF manifest_pattern [OF manifest(1)]] by metis
  qed
  then show ?thesis
    using m manifest(2) kind caps cls pep env by (intro exI [of _ m]) (auto simp: list_all_iff)
qed

definition demo_manifest :: adapter_manifest where
  "demo_manifest = \<lparr>am_adapter_id = ''adapter:git'', am_operation_kinds = [''read''], am_capabilities = [''git''],
     am_allowed_effect_classes = [GREEN], am_resource_patterns = [''repo:*''], am_privacy_classes = [PUBLIC_SAFE],
     am_privileged_pep_required = False\<rparr>"

definition demo_task :: universal_task where
  "demo_task = \<lparr>task_id = ''task:1'', task_intent = ''inspect'', task_domain = ''code'',
     task_target_resources = [''repo:x''], task_required_capabilities = [''git''], task_privacy = PUBLIC_SAFE,
     task_reversibility = REVERSIBLE, task_expected_effects = [''read''], task_validation = [], task_rollback = [],
     task_idempotency_key = ''idem:1'', task_operator_boundary_evidence = []\<rparr>"

definition demo_operation :: operation_ir where
  "demo_operation = \<lparr>ir_operation_id = ''op:1'', ir_kind = ''read'', ir_resources = [''repo:x''],
     ir_effects = [''read''], ir_idempotency_key = ''idem:1''\<rparr>"

definition demo_policy :: policy_input where
  "demo_policy = \<lparr>pi_operation = demo_operation, pi_reversibility = REVERSIBLE, pi_privacy = PUBLIC_SAFE,
     pi_target_state_ref = Some ''state:a'', pi_operator_boundary_evidence = []\<rparr>"

definition demo_planner :: adapter_planner where
  "demo_planner = [(''adapter:git'', demo_manifest)]"

definition demo_envelope :: execution_envelope where
  "demo_envelope = \<lparr>ev_operation_id = ''op:1'', ev_adapter_id = ''adapter:git'', ev_target_state_ref = ''state:a'',
     ev_fence_token = 1, ev_idempotency_key = ''idem:1'', ev_resources = [''repo:x''], ev_effects = [''read''],
     ev_effect_class = GREEN, ev_policy_reason_code = ''GREEN_AUTONOMOUS_TYPED_EFFECT'',
     ev_required_capabilities = [''git''], ev_privacy = PUBLIC_SAFE, ev_dry_run = True\<rparr>"

lemma demo_planner_ok: "planner_ok demo_planner"
  unfolding planner_ok_def demo_planner_def demo_manifest_def by code_simp

lemma demo_plan:
  "adapter_plan demo_planner ''adapter:git'' demo_task demo_operation demo_policy (classify_policy demo_policy) ''state:a'' 1
     = Inr demo_envelope"
  by code_simp

theorem adapter_plan_confined_witness:
  "\<exists>m. map_of demo_planner ''adapter:git'' = Some m \<and> ev_dry_run demo_envelope \<and>
     (am_privileged_pep_required m \<or> ev_effect_class demo_envelope = GREEN)"
  using adapter_plan_confined [OF demo_planner_ok demo_plan] by blast

end
