(* ===== verification/Json.thy ===== *)
theory Json
  imports Sha256
begin

text \<open>
  The JSON text the code hashes and stores: \<^verbatim>\<open>json.dumps(payload, sort_keys=True,
  separators=(",", ":"))\<close> with the default \<^verbatim>\<open>ensure_ascii=True\<close>.  A dictionary is the list
  of its items, in insertion order.  \<open>JFloat\<close> carries the text \<^verbatim>\<open>float.__repr__\<close>
  produced.  The main result is \<open>render_inject\<close>: two float-free documents with the same
  text are equal, so a digest of the text pins every field that went into it.
\<close>

datatype json =
    JNull
  | JBool bool
  | JInt int
  | JFloat string
  | JStr string
  | JArr "json list"
  | JObj "(string \<times> json) list"

fun nat_text :: "nat \<Rightarrow> string" where
  "nat_text n = (if n < 10 then [char_of (48 + n)] else nat_text (n div 10) @ [char_of (48 + n mod 10)])"

declare nat_text.simps [simp del]

definition int_text :: "int \<Rightarrow> string" where
  "int_text i = (if i < 0 then CHR ''-'' # nat_text (nat (- i)) else nat_text (nat i))"

definition escape_char :: "char \<Rightarrow> string" where
  "escape_char c = (let n = code_point c in
     if n = 34 then [CHR 0x5C, CHR 0x22]
     else if n = 92 then [CHR 0x5C, CHR 0x5C]
     else if n = 8 then [CHR 0x5C, CHR ''b'']
     else if n = 9 then [CHR 0x5C, CHR ''t'']
     else if n = 10 then [CHR 0x5C, CHR ''n'']
     else if n = 12 then [CHR 0x5C, CHR ''f'']
     else if n = 13 then [CHR 0x5C, CHR ''r'']
     else if 32 \<le> n \<and> n \<le> 126 then [c]
     else [CHR 0x5C, CHR ''u'', CHR ''0'', CHR ''0'', hex_digit (n div 16), hex_digit (n mod 16)])"

definition escape :: "string \<Rightarrow> string" where
  "escape s = concat (map escape_char s)"

definition quote :: "string \<Rightarrow> string" where
  "quote s = CHR 0x22 # escape s @ [CHR 0x22]"

fun render :: "json \<Rightarrow> string"
and render_items :: "json list \<Rightarrow> string"
and render_fields :: "(string \<times> json) list \<Rightarrow> string" where
  "render JNull = ''null''"
| "render (JBool b) = (if b then ''true'' else ''false'')"
| "render (JInt i) = int_text i"
| "render (JFloat t) = t"
| "render (JStr s) = quote s"
| "render (JArr xs) = CHR ''['' # render_items xs"
| "render (JObj kvs) = CHR ''{'' # render_fields kvs"
| "render_items [] = '']''"
| "render_items [x] = render x @ '']''"
| "render_items (x # y # ys) = render x @ CHR '','' # render_items (y # ys)"
| "render_fields [] = ''}''"
| "render_fields [(k, v)] = quote k @ CHR '':'' # render v @ ''}''"
| "render_fields ((k, v) # f # fs) =
     quote k @ CHR '':'' # render v @ CHR '','' # render_fields (f # fs)"

text \<open>\<^verbatim>\<open>sort_keys=True\<close> sorts the items of every dictionary by key.\<close>

fun sort_keys :: "json \<Rightarrow> json"
and sort_keys_items :: "json list \<Rightarrow> json list"
and sort_keys_fields :: "(string \<times> json) list \<Rightarrow> (string \<times> json) list" where
  "sort_keys (JArr xs) = JArr (sort_keys_items xs)"
| "sort_keys (JObj kvs) = JObj (sort_key fst (sort_keys_fields kvs))"
| "sort_keys j = j"
| "sort_keys_items [] = []"
| "sort_keys_items (x # xs) = sort_keys x # sort_keys_items xs"
| "sort_keys_fields [] = []"
| "sort_keys_fields ((k, v) # kvs) = (k, sort_keys v) # sort_keys_fields kvs"

definition dumps_sorted :: "json \<Rightarrow> string" where
  "dumps_sorted j = render (sort_keys j)"

definition json_digest :: "json \<Rightarrow> string" where
  "json_digest j = sha256_hex (dumps_sorted j)"

definition jstrs :: "string list \<Rightarrow> json" where
  "jstrs xs = JArr (map JStr xs)"

fun no_floats :: "json \<Rightarrow> bool"
and no_floats_items :: "json list \<Rightarrow> bool"
and no_floats_fields :: "(string \<times> json) list \<Rightarrow> bool" where
  "no_floats (JFloat t) = False"
| "no_floats (JArr xs) = no_floats_items xs"
| "no_floats (JObj kvs) = no_floats_fields kvs"
| "no_floats j = True"
| "no_floats_items [] = True"
| "no_floats_items (x # xs) = (no_floats x \<and> no_floats_items xs)"
| "no_floats_fields [] = True"
| "no_floats_fields (kv # kvs) = (no_floats (snd kv) \<and> no_floats_fields kvs)"

text \<open>
  CPython converts no int of more than 4300 digits to or from text (\<^verbatim>\<open>sys.get_int_max_str_digits\<close> at its default): it
  raises a plain ValueError.
\<close>

definition max_int_digits :: nat where
  "max_int_digits = 4300"

definition int_limit_error :: exn where
  "int_limit_error = ValueError ''Exceeds the limit for integer string conversion''"

definition printable_int :: "int \<Rightarrow> bool" where
  "printable_int i \<longleftrightarrow> length (nat_text (nat \<bar>i\<bar>)) \<le> max_int_digits"

fun printable_ints :: "json \<Rightarrow> bool"
and printable_items :: "json list \<Rightarrow> bool"
and printable_fields :: "(string \<times> json) list \<Rightarrow> bool" where
  "printable_ints (JInt i) = printable_int i"
| "printable_ints (JArr xs) = printable_items xs"
| "printable_ints (JObj kvs) = printable_fields kvs"
| "printable_ints j = True"
| "printable_items [] = True"
| "printable_items (x # xs) = (printable_ints x \<and> printable_items xs)"
| "printable_fields [] = True"
| "printable_fields (kv # kvs) = (printable_ints (snd kv) \<and> printable_fields kvs)"

subsection \<open>Numbers\<close>

definition digit_val :: "char \<Rightarrow> nat" where
  "digit_val c = code_point c - 48"

definition text_val :: "string \<Rightarrow> nat" where
  "text_val = foldl (\<lambda>a c. 10 * a + digit_val c) 0"

definition is_digit :: "char \<Rightarrow> bool" where
  "is_digit c = (48 \<le> code_point c \<and> code_point c \<le> 57)"

lemma of_char_digit [simp]: "d < 10 \<Longrightarrow> of_char (char_of (48 + d) :: char) = 48 + (d :: nat)"
  by simp

lemma text_val_nat_text: "text_val (nat_text n) = n"
proof (induction n rule: nat_text.induct)
  case (1 n)
  then show ?case
    by (cases "n < 10") (simp_all add: nat_text.simps [of n] text_val_def digit_val_def)
qed

lemma nat_text_digits: "c \<in> set (nat_text n) \<Longrightarrow> is_digit c"
proof (induction n rule: nat_text.induct)
  case (1 n)
  then show ?case
    by (cases "n < 10") (auto simp: nat_text.simps [of n] is_digit_def)
qed

lemma nat_text_nonempty [simp]: "nat_text n \<noteq> []"
  by (simp add: nat_text.simps [of n])

lemma digits_split:
  assumes "\<forall>c\<in>set a. is_digit c" "\<forall>c\<in>set b. is_digit c" "a @ x = b @ y"
    and "x = [] \<or> \<not> is_digit (hd x)" "y = [] \<or> \<not> is_digit (hd y)"
  shows "a = b \<and> x = y"
  using assms
proof (induction a arbitrary: b)
  case Nil
  then show ?case by (cases b) auto
next
  case (Cons c a)
  then show ?case by (cases b) auto
qed

lemma nat_text_split:
  assumes "nat_text m @ x = nat_text n @ y"
    and "x = [] \<or> \<not> is_digit (hd x)" "y = [] \<or> \<not> is_digit (hd y)"
  shows "m = n \<and> x = y"
proof -
  have "nat_text m = nat_text n \<and> x = y"
    by (rule digits_split) (use assms nat_text_digits in auto)
  then show ?thesis
    by (metis text_val_nat_text)
qed

lemma minus_not_digit: "\<not> is_digit (CHR ''-'')"
  by (simp add: is_digit_def)

lemma hd_nat_text: "is_digit (hd (nat_text n))"
  using nat_text_digits hd_in_set nat_text_nonempty by blast

lemma int_text_split:
  assumes "int_text i @ x = int_text j @ y"
    and "x = [] \<or> \<not> is_digit (hd x)" "y = [] \<or> \<not> is_digit (hd y)"
  shows "i = j \<and> x = y"
proof (cases "i < 0"; cases "j < 0")
  assume "i < 0" "j < 0"
  then show ?thesis using assms nat_text_split [of "nat (- i)" x "nat (- j)" y]
    by (auto simp: int_text_def)
next
  assume "\<not> i < 0" "\<not> j < 0"
  then show ?thesis using assms nat_text_split [of "nat i" x "nat j" y]
    by (auto simp: int_text_def)
next
  assume "i < 0" "\<not> j < 0"
  then show ?thesis using assms(1) hd_nat_text [of "nat j"] minus_not_digit
    by (cases "nat_text (nat j)") (auto simp: int_text_def)
next
  assume "\<not> i < 0" "j < 0"
  then show ?thesis using assms(1) hd_nat_text [of "nat i"] minus_not_digit
    by (cases "nat_text (nat i)") (auto simp: int_text_def)
qed

subsection \<open>Strings\<close>

text \<open>Reading one escaped character back.\<close>

definition hex_val :: "char \<Rightarrow> nat" where
  "hex_val c = (if is_digit c then code_point c - 48 else code_point c - 87)"

fun unescape :: "string \<Rightarrow> char" where
  "unescape [a] = a"
| "unescape [a, b] =
     (if b = CHR ''b'' then CHR 0x08 else if b = CHR ''t'' then CHR 0x09
      else if b = CHR ''n'' then CHR 0x0A else if b = CHR ''f'' then CHR 0x0C
      else if b = CHR ''r'' then CHR 0x0D else b)"
| "unescape [a, b, c, d, e, f] = char_of (16 * hex_val e + hex_val f)"
| "unescape r = CHR 0x00"

definition escape_len :: "string \<Rightarrow> nat" where
  "escape_len s = (if hd s \<noteq> CHR 0x5C then 1 else if s ! 1 = CHR ''u'' then 6 else 2)"

lemma escape_len_escape_char: "escape_len (escape_char c @ u) = length (escape_char c)"
  by (simp add: escape_char_def escape_len_def Let_def) (auto split: if_splits)

lemma escape_char_nonempty [simp]: "escape_char c \<noteq> []"
  by (simp add: escape_char_def Let_def)

lemma escape_char_not_quote: "hd (escape_char c) \<noteq> CHR 0x22"
  by (auto simp: escape_char_def Let_def split: if_splits)

lemma hex_val_digit [simp]: "n < 16 \<Longrightarrow> hex_val (hex_digit n) = n"
  by (auto simp: hex_val_def hex_digit_def is_digit_def)

lemma char_eqI: "of_char c = n \<Longrightarrow> char_of (n :: nat) = c"
  by (metis char_of_char)

lemma unescape_escape_char: "unescape (escape_char c) = c"
proof -
  have "of_char c div 16 < (16 :: nat)"
    using of_char_eq_iff [of c c] by (simp add: less_mult_imp_div_less)
  then show ?thesis
    by (auto simp: escape_char_def Let_def char_eqI split: if_splits dest!: char_eqI)
      (simp_all add: char_of_def bit_0)
qed

lemma escape_char_split:
  assumes "escape_char c @ u = escape_char d @ v"
  shows "c = d \<and> u = v"
proof -
  have "length (escape_char c) = length (escape_char d)"
    by (metis assms escape_len_escape_char)
  with assms have "escape_char c = escape_char d" and "u = v"
    by simp_all
  then show ?thesis by (metis unescape_escape_char)
qed

lemma escape_split:
  assumes "escape s @ CHR 0x22 # x = escape t @ CHR 0x22 # y"
  shows "s = t \<and> x = y"
  using assms
proof (induction s arbitrary: t)
  case Nil
  show ?case
  proof (cases t)
    case (Cons c t')
    with Nil have "hd (escape_char c) = CHR 0x22"
      by (cases "escape_char c") (simp_all add: escape_def)
    then show ?thesis using escape_char_not_quote by simp
  qed (use Nil in \<open>simp add: escape_def\<close>)
next
  case (Cons c s)
  show ?case
  proof (cases t)
    case Nil
    with Cons.prems have "hd (escape_char c) = CHR 0x22"
      by (cases "escape_char c") (simp_all add: escape_def)
    then show ?thesis using escape_char_not_quote by simp
  next
    case (Cons d t')
    from Cons.prems Cons have "escape_char c @ escape s @ CHR 0x22 # x = escape_char d @ escape t' @ CHR 0x22 # y"
      by (simp add: escape_def)
    then have "c = d" "escape s @ CHR 0x22 # x = escape t' @ CHR 0x22 # y"
      using escape_char_split by blast+
    then show ?thesis using Cons.IH Cons by simp
  qed
qed

lemma quote_split: "quote s @ x = quote t @ y \<Longrightarrow> s = t \<and> x = y"
  using escape_split [of s x t y] by (simp add: quote_def)

subsection \<open>Documents\<close>

text \<open>What may follow a value: the end of the text or a delimiter.\<close>

definition delimited :: "string \<Rightarrow> bool" where
  "delimited x = (x = [] \<or> hd x \<in> {CHR '','', CHR '']'', CHR ''}''})"

lemma delimited_simps [simp]:
  "delimited []" "delimited (CHR '','' # x)" "delimited (CHR '']'' # x)" "delimited (CHR ''}'' # x)"
  by (simp_all add: delimited_def)

lemma delimited_digit: "delimited x \<Longrightarrow> x = [] \<or> \<not> is_digit (hd x)"
  by (auto simp: delimited_def is_digit_def)

definition int_start :: "char \<Rightarrow> bool" where
  "int_start c = (is_digit c \<or> c = CHR ''-'')"

lemma int_text_nonempty [simp]: "int_text i \<noteq> []"
  by (simp add: int_text_def)

lemma int_start_int_text: "int_start (hd (int_text i))"
  by (simp add: int_text_def int_start_def hd_nat_text)

fun head_char :: "json \<Rightarrow> char" where
  "head_char JNull = CHR ''n''"
| "head_char (JBool b) = (if b then CHR ''t'' else CHR ''f'')"
| "head_char (JInt i) = hd (int_text i)"
| "head_char (JFloat t) = hd t"
| "head_char (JStr s) = CHR 0x22"
| "head_char (JArr xs) = CHR ''[''"
| "head_char (JObj kvs) = CHR ''{''"

lemma render_head: "no_floats j \<Longrightarrow> render j \<noteq> [] \<and> hd (render j) = head_char j"
  by (cases j) (simp_all add: quote_def)

lemma render_Cons:
  assumes "no_floats j"
  obtains r where "render j = head_char j # r"
  using render_head [OF assms] by (cases "render j") auto

lemma head_char_clash:
  assumes "render a @ x = render b @ y" "no_floats a" "no_floats b"
  shows "head_char a = head_char b"
  using assms by (metis hd_append render_head)

lemma int_start_not [simp]:
  "\<not> int_start (CHR ''n'')" "\<not> int_start (CHR ''t'')" "\<not> int_start (CHR ''f'')"
  "\<not> int_start (CHR 0x22)" "\<not> int_start (CHR ''['')" "\<not> int_start (CHR ''{'')"
  "\<not> int_start (CHR '']'')" "\<not> int_start (CHR ''}'')" "\<not> int_start (CHR '','')"
  by (simp_all add: int_start_def is_digit_def)

lemma hd_int_text_not [simp]: "\<not> int_start c \<Longrightarrow> hd (int_text i) \<noteq> c"
  using int_start_int_text by metis

lemma head_char_not_close:
  "no_floats j \<Longrightarrow> head_char j \<notin> {CHR '']'', CHR ''}'', CHR '',''}"
  by (cases j) simp_all

definition char_kind :: "char \<Rightarrow> nat" where
  "char_kind c = (if c = CHR ''n'' then 0 else if c = CHR ''t'' then 1 else if c = CHR ''f'' then 2
     else if c = CHR 0x22 then 4 else if c = CHR ''['' then 5 else if c = CHR ''{'' then 6 else 3)"

fun kind :: "json \<Rightarrow> nat" where
  "kind JNull = 0"
| "kind (JBool b) = (if b then 1 else 2)"
| "kind (JInt i) = 3"
| "kind (JFloat t) = 7"
| "kind (JStr s) = 4"
| "kind (JArr xs) = 5"
| "kind (JObj kvs) = 6"

lemma char_kind_head: "no_floats j \<Longrightarrow> char_kind (head_char j) = kind j"
  by (cases j) (simp_all add: char_kind_def)

lemma render_kind:
  assumes "render a @ x = render b @ y" "no_floats a" "no_floats b"
  shows "kind a = kind b"
  using assms head_char_clash char_kind_head by metis

lemma list_cases3 [case_names 1 2 3]:
  obtains "xs = []" | v where "xs = [v]" | v w r where "xs = v # w # r"
  by (metis neq_Nil_conv)

lemma fields_cases3 [case_names 1 2 3]:
  obtains "fs = []" | k v where "fs = [(k, v)]" | k v f r where "fs = (k, v) # f # r"
  by (metis list_cases3 surj_pair)

lemma render_split:
  "render a @ x = render b @ y \<Longrightarrow> no_floats a \<Longrightarrow> no_floats b \<Longrightarrow>
     delimited x \<Longrightarrow> delimited y \<Longrightarrow> a = b \<and> x = y"
  "render_items xs @ x = render_items ys @ y \<Longrightarrow> no_floats_items xs \<Longrightarrow> no_floats_items ys \<Longrightarrow>
     xs = ys \<and> x = y"
  "render_fields fs @ x = render_fields gs @ y \<Longrightarrow> no_floats_fields fs \<Longrightarrow> no_floats_fields gs \<Longrightarrow>
     fs = gs \<and> x = y"
proof (induction a and xs and fs arbitrary: b x y and ys x y and gs x y rule: render_render_items_render_fields.induct)
  case (1 b x y)
  then show ?case using render_kind [OF "1.prems"(1-3)] by (cases b) (auto split: if_splits)
next
  case (2 p b x y)
  then show ?case using render_kind [OF "2.prems"(1-3)] by (cases b) (auto split: if_splits)
next
  case (3 i b x y)
  obtain j where b: "b = JInt j"
    using render_kind [OF "3.prems"(1-3)] "3.prems"(3) by (cases b) (simp_all split: if_splits)
  have "i = j \<and> x = y"
    by (rule int_text_split) (use "3.prems" b delimited_digit in simp_all)
  with b show ?case by simp
next
  case (4 t b x y)
  then show ?case by simp
next
  case (5 s b x y)
  obtain t where b: "b = JStr t"
    using render_kind [OF "5.prems"(1-3)] "5.prems"(3) by (cases b) (simp_all split: if_splits)
  have "s = t \<and> x = y"
    by (rule quote_split) (use "5.prems" b in simp)
  with b show ?case by simp
next
  case (6 xs b x y)
  obtain ys where b: "b = JArr ys"
    using render_kind [OF "6.prems"(1-3)] "6.prems"(3) by (cases b) (simp_all split: if_splits)
  have "xs = ys \<and> x = y"
    by (rule "6.IH") (use "6.prems" b in simp_all)
  with b show ?case by simp
next
  case (7 fs b x y)
  obtain gs where b: "b = JObj gs"
    using render_kind [OF "7.prems"(1-3)] "7.prems"(3) by (cases b) (simp_all split: if_splits)
  have "fs = gs \<and> x = y"
    by (rule "7.IH") (use "7.prems" b in simp_all)
  with b show ?case by simp
next
  case (8 ys x y)
  show ?case
  proof (cases ys rule: list_cases3)
    case (2 v)
    with "8.prems" show ?thesis using head_char_not_close [of v] by (auto elim!: render_Cons)
  next
    case (3 v w r)
    with "8.prems" show ?thesis using head_char_not_close [of v] by (auto elim!: render_Cons)
  qed (use "8.prems" in auto)
next
  case (9 v ys x y)
  show ?case
  proof (cases ys rule: list_cases3)
    case 1
    with "9.prems" show ?thesis using head_char_not_close [of v] by (auto elim!: render_Cons)
  next
    case (2 w)
    with "9.prems" "9.IH" [of "CHR '']'' # x" w "CHR '']'' # y"] show ?thesis by simp
  next
    case (3 w u r)
    with "9.prems" "9.IH" [of "CHR '']'' # x" w "CHR '','' # render_items (u # r) @ y"] show ?thesis by simp
  qed
next
  case (10 v w r ys x y)
  show ?case
  proof (cases ys rule: list_cases3)
    case 1
    with "10.prems" show ?thesis using head_char_not_close [of v] by (auto elim!: render_Cons)
  next
    case (2 u)
    with "10.prems" "10.IH"(1) [of "CHR '','' # render_items (w # r) @ x" u "CHR '']'' # y"] show ?thesis by simp
  next
    case (3 u u' r')
    with "10.prems" "10.IH"(1) [of "CHR '','' # render_items (w # r) @ x" u "CHR '','' # render_items (u' # r') @ y"]
    have "v = u" "render_items (w # r) @ x = render_items (u' # r') @ y" by simp_all
    with "10.prems" 3 "10.IH"(2) [of x "u' # r'" y] show ?thesis by simp
  qed
next
  case (11 gs x y)
  then show ?case by (cases gs rule: fields_cases3) (auto simp: quote_def)
next
  case (12 k v gs x y)
  show ?case
  proof (cases gs rule: fields_cases3)
    case (2 k' v')
    with "12.prems" have "quote k @ CHR '':'' # render v @ CHR ''}'' # x = quote k' @ CHR '':'' # render v' @ CHR ''}'' # y" by simp
    then have "k = k'" "render v @ CHR ''}'' # x = render v' @ CHR ''}'' # y" using quote_split by blast+
    with 2 "12.prems" "12.IH" [of "CHR ''}'' # x" v' "CHR ''}'' # y"] show ?thesis by simp
  next
    case (3 k' v' f r)
    with "12.prems" have "quote k @ CHR '':'' # render v @ CHR ''}'' # x = quote k' @ CHR '':'' # render v' @ CHR '','' # render_fields (f # r) @ y" by simp
    then have "k = k'" "render v @ CHR ''}'' # x = render v' @ CHR '','' # render_fields (f # r) @ y" using quote_split by blast+
    with 3 "12.prems" "12.IH" [of "CHR ''}'' # x" v' "CHR '','' # render_fields (f # r) @ y"] show ?thesis by simp
  qed (use "12.prems" in \<open>auto simp: quote_def\<close>)
next
  case (13 k v f r gs x y)
  show ?case
  proof (cases gs rule: fields_cases3)
    case (2 k' v')
    with "13.prems" have "quote k @ CHR '':'' # render v @ CHR '','' # render_fields (f # r) @ x = quote k' @ CHR '':'' # render v' @ CHR ''}'' # y" by simp
    then have "k = k'" "render v @ CHR '','' # render_fields (f # r) @ x = render v' @ CHR ''}'' # y" using quote_split by blast+
    with 2 "13.prems" "13.IH"(1) [of "CHR '','' # render_fields (f # r) @ x" v' "CHR ''}'' # y"] show ?thesis by simp
  next
    case (3 k' v' f' r')
    with "13.prems" have "quote k @ CHR '':'' # render v @ CHR '','' # render_fields (f # r) @ x = quote k' @ CHR '':'' # render v' @ CHR '','' # render_fields (f' # r') @ y" by simp
    then have k: "k = k'" and "render v @ CHR '','' # render_fields (f # r) @ x = render v' @ CHR '','' # render_fields (f' # r') @ y" using quote_split by blast+
    with 3 "13.prems" "13.IH"(1) [of "CHR '','' # render_fields (f # r) @ x" v' "CHR '','' # render_fields (f' # r') @ y"]
    have "v = v'" "render_fields (f # r) @ x = render_fields (f' # r') @ y" by simp_all
    with k 3 "13.prems" "13.IH"(2) [of x "f' # r'" y] show ?thesis by simp
  qed (use "13.prems" in \<open>auto simp: quote_def\<close>)
qed

lemma render_inject: "render a = render b \<Longrightarrow> no_floats a \<Longrightarrow> no_floats b \<Longrightarrow> a = b"
  using render_split(1) [of a "[]" b "[]"] by simp

subsection \<open>Payloads\<close>

text \<open>
  The payloads the code hashes are dictionaries with a fixed list of keys whose values are
  scalars or lists of strings.
\<close>

fun flat_value :: "json \<Rightarrow> bool" where
  "flat_value (JFloat t) = False"
| "flat_value (JObj kvs) = False"
| "flat_value (JArr xs) = list_all (\<lambda>x. \<exists>s. x = JStr s) xs"
| "flat_value j = True"

definition flat_payload :: "(string \<times> json) list \<Rightarrow> bool" where
  "flat_payload kvs = (distinct (map fst kvs) \<and> list_all (\<lambda>kv. flat_value (snd kv)) kvs)"

lemma sort_keys_items_strs: "list_all (\<lambda>x. \<exists>s. x = JStr s) xs \<Longrightarrow> sort_keys_items xs = xs \<and> no_floats_items xs"
  by (induction xs) auto

lemma flat_value_plain: "flat_value j \<Longrightarrow> sort_keys j = j \<and> no_floats j"
  by (cases j) (simp_all add: sort_keys_items_strs)

lemma flat_fields_plain:
  "list_all (\<lambda>kv. flat_value (snd kv)) kvs \<Longrightarrow> sort_keys_fields kvs = kvs \<and> no_floats_fields kvs"
  by (induction kvs rule: list.induct) (auto simp: flat_value_plain)

lemma no_floats_fields_iff: "no_floats_fields kvs \<longleftrightarrow> (\<forall>kv\<in>set kvs. no_floats (snd kv))"
  by (induction kvs) auto

lemma aligned_fields_eq:
  assumes "set f = set g" "map fst f = map fst g" "distinct (map fst f)"
  shows "f = g"
proof (rule nth_equalityI)
  show len: "length f = length g" using assms(2) by (rule map_eq_imp_length_eq)
  fix i assume i: "i < length f"
  have "f ! i \<in> set g" "g ! i \<in> set g" and "fst (f ! i) = fst (g ! i)"
    using i len assms(1) nth_mem [of i f] nth_mem [of i g] arg_cong [OF assms(2), of "\<lambda>l. l ! i"] by auto
  moreover have "inj_on fst (set g)"
    using assms(2,3) by (simp add: distinct_map)
  ultimately show "f ! i = g ! i"
    by (simp add: inj_on_eq_iff)
qed

lemma document_inject:
  assumes "dumps_sorted (JObj f) = dumps_sorted (JObj g)" "sort_keys_fields f = f" "sort_keys_fields g = g"
    and "no_floats_fields f" "no_floats_fields g" "map fst f = map fst g" "distinct (map fst f)"
  shows "f = g"
proof -
  have "sort_key fst f = sort_key fst g"
    using assms(1-5) render_inject [of "JObj (sort_key fst f)" "JObj (sort_key fst g)"]
    by (simp add: dumps_sorted_def no_floats_fields_iff)
  then have "set f = set g"
    by (metis set_sort)
  with assms(6,7) show ?thesis
    by (intro aligned_fields_eq)
qed

lemma payload_inject:
  assumes "dumps_sorted (JObj f) = dumps_sorted (JObj g)"
    and "flat_payload f" "flat_payload g" "map fst f = map fst g"
  shows "f = g"
  using document_inject [OF assms(1)] assms(2-4) flat_fields_plain [of f] flat_fields_plain [of g]
  by (simp add: flat_payload_def)

lemma flat_jstrs [simp]: "flat_value (jstrs xs)"
  by (auto simp: jstrs_def list_all_iff)

lemma jstrs_inject [simp]: "jstrs xs = jstrs ys \<longleftrightarrow> xs = ys"
  by (auto simp: jstrs_def dest: map_injective [of JStr] simp: inj_def)

text \<open>
  No two of the texts a proof compares collide: the assumption every digest comparison of the
  code rests on.
\<close>

definition no_collision :: "json \<Rightarrow> json \<Rightarrow> bool" where
  "no_collision a b = (json_digest a = json_digest b \<longrightarrow> dumps_sorted a = dumps_sorted b)"

lemma no_collision_refl [simp]: "no_collision a a"
  by (simp add: no_collision_def)

lemma digest_payload_inject:
  assumes "json_digest (JObj f) = json_digest (JObj g)" "no_collision (JObj f) (JObj g)"
    and "flat_payload f" "flat_payload g" "map fst f = map fst g"
  shows "f = g"
  using assms payload_inject by (simp add: no_collision_def)

lemma json_digest_shape [simp]: "length (json_digest j) = 64" "json_digest j \<noteq> []"
  by (simp_all add: json_digest_def)

lemma json_digest_chars: "set (json_digest j) \<subseteq> set hex_lower"
  by (simp add: json_digest_def sha256_hex_chars)

end
