(* ===== verification/Leases.thy ===== *)
theory Leases
  imports Prelude Json
begin

text \<open>
  \<^verbatim>\<open>core/runner_vnext_leases.py\<close> (the SQLite-backed \<^verbatim>\<open>LaneLeaseStore\<close>) and its facade
  \<^verbatim>\<open>core/runner_vnext_scheduler.py\<close> (\<^verbatim>\<open>VNextScheduler\<close>).  The two tables are maps keyed by
  their primary key (lane, scope).  The clock reading of a call is the argument \<open>now\<close>; every
  call runs under the store's lock inside one transaction, so a run is a sequence of calls.
  Seconds are real numbers and tokens unbounded integers.
\<close>

subsection \<open>Definitions\<close>

datatype lane = CODEGEN | VALIDATE | PUBLISH | MERGE | CONTROL | PRIVILEGED

fun lane_value :: "lane \<Rightarrow> string" where
  "lane_value CODEGEN = ''codegen''"
| "lane_value VALIDATE = ''validate''"
| "lane_value PUBLISH = ''publish''"
| "lane_value MERGE = ''merge''"
| "lane_value CONTROL = ''control''"
| "lane_value PRIVILEGED = ''privileged''"

text \<open>The enum call \<^verbatim>\<open>Lane(text)\<close>, which raises ValueError for any other text.\<close>

definition lane_of :: "string \<Rightarrow> lane res" where
  "lane_of v =
     (if v = ''codegen'' then Inr CODEGEN else if v = ''validate'' then Inr VALIDATE
      else if v = ''publish'' then Inr PUBLISH else if v = ''merge'' then Inr MERGE
      else if v = ''control'' then Inr CONTROL else if v = ''privileged'' then Inr PRIVILEGED
      else Inl (ValueError v))"

record lane_lease =
  ll_task_id :: string
  ll_lane :: lane
  ll_owner :: string
  ll_fence_token :: int
  ll_acquired_at :: real
  ll_heartbeat_at :: real
  ll_ttl_seconds :: real
  ll_target_state_ref :: "string option"
  ll_scope_key :: string

definition expired :: "lane_lease \<Rightarrow> real \<Rightarrow> bool" where
  "expired l now = (now \<ge> ll_heartbeat_at l + ll_ttl_seconds l)"

record lease_receipt =
  lr_status :: string
  lr_reason_code :: string
  lr_task_id :: string
  lr_lane :: lane
  lr_scope_key :: string
  lr_fence_token :: int

type_synonym lease_key = "lane \<times> string"

record lane_store =
  lane_fences :: "lease_key \<rightharpoonup> int"
  lane_leases :: "lease_key \<rightharpoonup> lane_lease"

text \<open>\<^verbatim>\<open>_initialize\<close> on a new database: both tables exist and are empty.\<close>

definition empty_lane_store :: lane_store where
  "empty_lane_store = \<lparr>lane_fences = Map.empty, lane_leases = Map.empty\<rparr>"

definition lease_row :: "lane_store \<Rightarrow> lane \<Rightarrow> string \<Rightarrow> lane_lease option" where
  "lease_row s lane scope = lane_leases s (lane, scope)"

definition next_fence :: "lane \<Rightarrow> string \<Rightarrow> lane_store \<Rightarrow> int \<times> lane_store" where
  "next_fence lane scope s =
     (let fence = (case lane_fences s (lane, scope) of Some f \<Rightarrow> f | None \<Rightarrow> 0) + 1
      in (fence, s\<lparr>lane_fences := (lane_fences s)((lane, scope) \<mapsto> fence)\<rparr>))"

abbreviation mk_receipt :: "string \<Rightarrow> string \<Rightarrow> string \<Rightarrow> lane \<Rightarrow> string \<Rightarrow> int \<Rightarrow> lease_receipt" where
  "mk_receipt st rc tid lane scope f \<equiv>
     \<lparr>lr_status = st, lr_reason_code = rc, lr_task_id = tid, lr_lane = lane, lr_scope_key = scope,
      lr_fence_token = f\<rparr>"

definition lease_acquire ::
    "real \<Rightarrow> string \<Rightarrow> lane \<Rightarrow> string \<Rightarrow> string \<Rightarrow> real \<Rightarrow> string option \<Rightarrow> (lane_store, lease_receipt) op" where
  "lease_acquire now tid lane owner scope ttl target s =
     (if ttl \<le> 0 then (Inl (LeaseError ''INVALID_LEASE_TTL''), s)
      else transaction (\<lambda>s.
        let current = lease_row s lane scope;
            reclaim = (let (fence, s1) = next_fence lane scope s;
                new = \<lparr>ll_task_id = tid, ll_lane = lane, ll_owner = owner, ll_fence_token = fence,
                  ll_acquired_at = now, ll_heartbeat_at = now, ll_ttl_seconds = ttl,
                  ll_target_state_ref = target, ll_scope_key = scope\<rparr>;
                reason = (if current \<noteq> None then ''STALE_LEASE_RECLAIMED'' else ''LEASE_ACQUIRED'')
              in (Inr (mk_receipt ''ACQUIRED'' reason tid lane scope fence),
                  s1\<lparr>lane_leases := (lane_leases s1)((lane, scope) \<mapsto> new)\<rparr>))
        in case current of
             None \<Rightarrow> reclaim
           | Some c \<Rightarrow>
               if \<not> expired c now then
                 if ll_task_id c = tid \<and> ll_owner c = owner then
                   if ll_target_state_ref c \<noteq> target
                   then (Inl (LeaseError ''LEASE_TARGET_STATE_MISMATCH''), s)
                   else (Inr (mk_receipt ''ALREADY_HELD'' ''LEASE_ALREADY_HELD'' tid lane scope (ll_fence_token c)), s)
                 else (Inl (LeaseError ''LEASE_CONFLICT_ACTIVE_OWNER''), s)
               else reclaim) s)"

text \<open>The checks \<^verbatim>\<open>heartbeat\<close> and \<^verbatim>\<open>release\<close> share, in their order.\<close>

definition lease_held :: "real \<Rightarrow> lane \<Rightarrow> string \<Rightarrow> string \<Rightarrow> int \<Rightarrow> lane_store \<Rightarrow> lane_lease res" where
  "lease_held now lane scope owner fence s =
     (case lease_row s lane scope of
        None \<Rightarrow> Inl (LeaseError ''LEASE_NOT_FOUND'')
      | Some c \<Rightarrow>
          if ll_fence_token c \<noteq> fence then Inl (LeaseError ''STALE_FENCE_TOKEN'')
          else if ll_owner c \<noteq> owner then Inl (LeaseError ''LEASE_OWNER_MISMATCH'')
          else if expired c now then Inl (LeaseError ''LEASE_EXPIRED'')
          else Inr c)"

definition lease_heartbeat :: "real \<Rightarrow> lane \<Rightarrow> string \<Rightarrow> string \<Rightarrow> int \<Rightarrow> (lane_store, lease_receipt) op" where
  "lease_heartbeat now lane scope owner fence = transaction (\<lambda>s.
     case lease_held now lane scope owner fence s of
       Inl e \<Rightarrow> (Inl e, s)
     | Inr c \<Rightarrow>
         (Inr (mk_receipt ''HEARTBEAT'' ''LEASE_HEARTBEAT_RECORDED'' (ll_task_id c) lane scope fence),
          s\<lparr>lane_leases := (lane_leases s)((lane, scope) \<mapsto> c\<lparr>ll_heartbeat_at := now\<rparr>)\<rparr>))"

definition lease_release :: "real \<Rightarrow> lane \<Rightarrow> string \<Rightarrow> string \<Rightarrow> int \<Rightarrow> (lane_store, lease_receipt) op" where
  "lease_release now lane scope owner fence = transaction (\<lambda>s.
     case lease_held now lane scope owner fence s of
       Inl e \<Rightarrow> (Inl e, s)
     | Inr c \<Rightarrow>
         (Inr (mk_receipt ''RELEASED'' ''LEASE_RELEASED'' (ll_task_id c) lane scope fence),
          s\<lparr>lane_leases := (lane_leases s)((lane, scope) := None)\<rparr>))"

definition lease_current :: "real \<Rightarrow> lane \<Rightarrow> string \<Rightarrow> lane_store \<Rightarrow> lane_lease option" where
  "lease_current now lane scope s =
     (case lease_row s lane scope of
        None \<Rightarrow> None
      | Some c \<Rightarrow> if expired c now then None else Some c)"

text \<open>\<^verbatim>\<open>VNextScheduler\<close> forwards to the store.\<close>

record lane_request =
  rq_task_id :: string
  rq_lane :: lane
  rq_owner :: string
  rq_scope_key :: string
  rq_ttl_seconds :: real
  rq_target_state_ref :: "string option"

definition scheduler_reserve :: "real \<Rightarrow> lane_request \<Rightarrow> (lane_store, lease_receipt) op" where
  "scheduler_reserve now rq =
     lease_acquire now (rq_task_id rq) (rq_lane rq) (rq_owner rq) (rq_scope_key rq)
       (rq_ttl_seconds rq) (rq_target_state_ref rq)"

definition scheduler_release_exact :: "real \<Rightarrow> lane \<Rightarrow> string \<Rightarrow> string \<Rightarrow> int \<Rightarrow> (lane_store, lease_receipt) op" where
  "scheduler_release_exact now lane scope owner fence = lease_release now lane scope owner fence"

definition scheduler_release :: "real \<Rightarrow> lane_request \<Rightarrow> int \<Rightarrow> (lane_store, lease_receipt) op" where
  "scheduler_release now rq fence =
     scheduler_release_exact now (rq_lane rq) (rq_scope_key rq) (rq_owner rq) fence"

definition scheduler_current :: "real \<Rightarrow> lane \<Rightarrow> string \<Rightarrow> lane_store \<Rightarrow> lane_lease option" where
  "scheduler_current now lane scope s = lease_current now lane scope s"

definition scheduler_public_projection :: "lease_receipt \<Rightarrow> json" where
  "scheduler_public_projection r = JObj [
     (''schema'', JStr ''skeleton.runner_lane_projection.v1''),
     (''status'', JStr (lr_status r)),
     (''reason_code'', JStr (lr_reason_code r)),
     (''lane'', JStr (lane_value (lr_lane r))),
     (''fence_token'', JInt (lr_fence_token r))]"

text \<open>The calls a worker can make on the store.\<close>

datatype lease_call =
    Acquire real string lane string string real "string option"
  | Heartbeat real lane string string int
  | Release real lane string string int

fun lease_exec :: "lease_call \<Rightarrow> (lane_store, lease_receipt) op" where
  "lease_exec (Acquire now tid lane owner scope ttl target) = lease_acquire now tid lane owner scope ttl target"
| "lease_exec (Heartbeat now lane scope owner fence) = lease_heartbeat now lane scope owner fence"
| "lease_exec (Release now lane scope owner fence) = lease_release now lane scope owner fence"

definition fence_of :: "lane_store \<Rightarrow> lease_key \<Rightarrow> int" where
  "fence_of s k = (case lane_fences s k of None \<Rightarrow> 0 | Some f \<Rightarrow> f)"

definition issued_lease :: "lease_receipt \<Rightarrow> (lease_key \<times> int) option" where
  "issued_lease r = (if lr_status r = ''ACQUIRED'' then Some ((lr_lane r, lr_scope_key r), lr_fence_token r) else None)"

text \<open>
  What the two tables keep true of each other: a lease row lies under its own key, carries the
  newest token of that key and a positive time to live.
\<close>

definition lane_store_ok :: "lane_store \<Rightarrow> bool" where
  "lane_store_ok s \<longleftrightarrow>
     (\<forall>k f. lane_fences s k = Some f \<longrightarrow> 1 \<le> f) \<and>
     (\<forall>k l. lane_leases s k = Some l \<longrightarrow>
        k = (ll_lane l, ll_scope_key l) \<and> lane_fences s k = Some (ll_fence_token l) \<and> 0 < ll_ttl_seconds l)"

inductive lane_reachable :: "lane_store \<Rightarrow> bool" where
  lane_init: "lane_reachable empty_lane_store"
| lane_call: "lane_reachable s \<Longrightarrow> lane_reachable (snd (lease_exec c s))"

subsection \<open>Each call on its branches\<close>

lemma lane_of_value [simp]: "lane_of (lane_value l) = Inr l"
  by (cases l) (simp_all add: lane_of_def)

lemma lane_value_inject [simp]: "lane_value a = lane_value b \<longleftrightarrow> a = b"
  by (metis lane_of_value sum.inject(2))

lemma lane_of_Inr: "lane_of v = Inr l \<Longrightarrow> v = lane_value l"
  by (auto simp: lane_of_def split: if_splits)

abbreviation new_lease :: "real \<Rightarrow> string \<Rightarrow> lane \<Rightarrow> string \<Rightarrow> string \<Rightarrow> real \<Rightarrow> string option \<Rightarrow> int \<Rightarrow> lane_lease" where
  "new_lease now tid lane owner scope ttl target f \<equiv>
     \<lparr>ll_task_id = tid, ll_lane = lane, ll_owner = owner, ll_fence_token = f, ll_acquired_at = now,
      ll_heartbeat_at = now, ll_ttl_seconds = ttl, ll_target_state_ref = target, ll_scope_key = scope\<rparr>"

lemma acquire_free [step_simps]:
  assumes "0 < ttl" "lease_current now lane scope s = None"
  shows "lease_acquire now tid lane owner scope ttl target s =
    (Inr (mk_receipt ''ACQUIRED'' (if lease_row s lane scope = None then ''LEASE_ACQUIRED'' else ''STALE_LEASE_RECLAIMED'')
       tid lane scope (fence_of s (lane, scope) + 1)),
     s\<lparr>lane_fences := (lane_fences s)((lane, scope) \<mapsto> fence_of s (lane, scope) + 1),
       lane_leases := (lane_leases s)((lane, scope) \<mapsto>
         new_lease now tid lane owner scope ttl target (fence_of s (lane, scope) + 1))\<rparr>)"
  using assms
  by (auto simp: lease_acquire_def lease_current_def transaction_def next_fence_def fence_of_def Let_def
      split: option.splits if_splits)

lemma acquire_held [step_simps]:
  assumes "0 < ttl" "lease_current now lane scope s = Some c"
  shows "lease_acquire now tid lane owner scope ttl target s =
    (if ll_task_id c = tid \<and> ll_owner c = owner
     then if ll_target_state_ref c = target
       then Inr (mk_receipt ''ALREADY_HELD'' ''LEASE_ALREADY_HELD'' tid lane scope (ll_fence_token c))
       else Inl (LeaseError ''LEASE_TARGET_STATE_MISMATCH'')
     else Inl (LeaseError ''LEASE_CONFLICT_ACTIVE_OWNER''), s)"
  using assms
  by (auto simp: lease_acquire_def lease_current_def transaction_def Let_def split: option.splits if_splits)

lemma acquire_bad_ttl [step_simps]:
  "ttl \<le> 0 \<Longrightarrow> lease_acquire now tid lane owner scope ttl target s = (Inl (LeaseError ''INVALID_LEASE_TTL''), s)"
  by (simp add: lease_acquire_def)

lemma heartbeat_cases [step_simps]:
  "lease_heartbeat now lane scope owner fence s =
    (case lease_held now lane scope owner fence s of
       Inl e \<Rightarrow> (Inl e, s)
     | Inr c \<Rightarrow> (Inr (mk_receipt ''HEARTBEAT'' ''LEASE_HEARTBEAT_RECORDED'' (ll_task_id c) lane scope fence),
          s\<lparr>lane_leases := (lane_leases s)((lane, scope) \<mapsto> c\<lparr>ll_heartbeat_at := now\<rparr>)\<rparr>))"
  by (simp add: lease_heartbeat_def transaction_def split: sum.splits)

lemma release_cases [step_simps]:
  "lease_release now lane scope owner fence s =
    (case lease_held now lane scope owner fence s of
       Inl e \<Rightarrow> (Inl e, s)
     | Inr c \<Rightarrow> (Inr (mk_receipt ''RELEASED'' ''LEASE_RELEASED'' (ll_task_id c) lane scope fence),
          s\<lparr>lane_leases := (lane_leases s)((lane, scope) := None)\<rparr>))"
  by (simp add: lease_release_def transaction_def split: sum.splits)

lemma lease_held_Inr:
  "lease_held now lane scope owner fence s = Inr c \<longleftrightarrow>
     lease_current now lane scope s = Some c \<and> ll_fence_token c = fence \<and> ll_owner c = owner"
  by (auto simp: lease_held_def lease_current_def split: option.splits)

lemma lease_current_row: "lease_current now lane scope s = Some c \<Longrightarrow> lane_leases s (lane, scope) = Some c"
  by (auto simp: lease_current_def lease_row_def split: option.splits if_splits)

lemma acquire_abort: "lease_acquire now tid lane owner scope ttl target s = (Inl e, s') \<Longrightarrow> s' = s"
  by (cases "0 < ttl"; cases "lease_current now lane scope s")
    (simp_all add: acquire_free acquire_held acquire_bad_ttl)

lemma heartbeat_abort: "lease_heartbeat now lane scope owner fence s = (Inl e, s') \<Longrightarrow> s' = s"
  by (simp add: heartbeat_cases split: sum.splits)

lemma release_abort: "lease_release now lane scope owner fence s = (Inl e, s') \<Longrightarrow> s' = s"
  by (simp add: release_cases split: sum.splits)

interpretation lane_op: atomic_op "lease_exec c" for c
proof
  fix s e s'
  assume "lease_exec c s = (Inl e, s')"
  then show "s' = s"
    by (cases c) (auto dest: acquire_abort heartbeat_abort release_abort)
qed

text \<open>After a successful acquire the caller holds the lease at that instant.\<close>

lemma acquire_current:
  assumes "lease_acquire now tid lane owner scope ttl target s = (Inr r, s')"
  shows "\<exists>l. lease_current now lane scope s' = Some l \<and> ll_task_id l = tid \<and> ll_owner l = owner \<and>
    ll_target_state_ref l = target \<and> ll_fence_token l = lr_fence_token r \<and>
    (if lease_current now lane scope s = None
     then lr_status r = ''ACQUIRED'' \<and> lr_fence_token r = fence_of s (lane, scope) + 1
     else lr_status r = ''ALREADY_HELD'' \<and> s' = s)"
proof (cases "0 < ttl")
  case ttl: True
  show ?thesis
  proof (cases "lease_current now lane scope s")
    case None
    have "lease_current now lane scope s' =
        Some (new_lease now tid lane owner scope ttl target (fence_of s (lane, scope) + 1))"
      and "lr_status r = ''ACQUIRED''" "lr_fence_token r = fence_of s (lane, scope) + 1"
      using assms ttl None by (auto simp: acquire_free lease_current_def lease_row_def expired_def)
    with None show ?thesis by simp
  next
    case (Some c)
    then have "ll_task_id c = tid" "ll_owner c = owner" "ll_target_state_ref c = target" "s' = s"
        "lr_status r = ''ALREADY_HELD''" "lr_fence_token r = ll_fence_token c"
      using assms ttl by (auto simp: acquire_held split: if_splits)
    with Some show ?thesis by simp
  qed
qed (use assms in \<open>simp add: acquire_bad_ttl\<close>)

lemma acquire_error: "lease_acquire now tid lane owner scope ttl target s = (Inl e, s') \<Longrightarrow> \<exists>r. e = LeaseError r"
  by (cases "0 < ttl"; cases "lease_current now lane scope s")
    (auto simp: acquire_free acquire_held acquire_bad_ttl split: if_splits)

lemma release_error: "lease_release now lane scope owner f s = (Inl e, s') \<Longrightarrow> \<exists>r. e = LeaseError r"
  by (auto simp: release_cases lease_held_def split: sum.splits option.splits if_splits)

text \<open>After a release with the token on record, no live lease with that token is left.\<close>

lemma release_clears:
  assumes "lane_leases s (lane, scope) = Some l" "ll_owner l = owner" "ll_fence_token l = f"
  shows "lease_current t lane scope (snd (lease_release t lane scope owner f s)) = None"
  using assms
  by (cases "expired l t")
    (auto simp: release_cases lease_held_def lease_current_def lease_row_def split: sum.splits)

subsection \<open>The table invariant\<close>

lemma empty_lane_store_ok: "lane_store_ok empty_lane_store"
  by (simp add: lane_store_ok_def empty_lane_store_def)

lemma fences_positive: "lane_store_ok s \<Longrightarrow> lane_fences s k = Some f \<Longrightarrow> 1 \<le> f"
  unfolding lane_store_ok_def by blast

lemma fence_of_nonneg: "lane_store_ok s \<Longrightarrow> 0 \<le> fence_of s k"
  using fences_positive [of s k] by (cases "lane_fences s k") (simp_all add: fence_of_def)

lemma acquire_ok:
  assumes "lane_store_ok s"
  shows "lane_store_ok (snd (lease_acquire now tid lane owner scope ttl target s))"
proof (cases "0 < ttl \<and> lease_current now lane scope s = None")
  case True
  with assms fence_of_nonneg [OF assms, of "(lane, scope)"] show ?thesis
    by (auto simp: acquire_free lane_store_ok_def)
next
  case False
  with assms show ?thesis
    by (cases "ttl \<le> 0") (auto simp: acquire_bad_ttl acquire_held)
qed

lemma lease_exec_ok:
  assumes "lane_store_ok s"
  shows "lane_store_ok (snd (lease_exec c s))"
proof (cases c)
  case (Heartbeat now lane scope owner fence)
  with assms show ?thesis
    by (auto simp: heartbeat_cases lease_held_Inr lane_store_ok_def split: sum.splits dest!: lease_current_row)
next
  case (Release now lane scope owner fence)
  with assms show ?thesis
    by (auto simp: release_cases lane_store_ok_def split: sum.splits)
qed (use assms acquire_ok in simp)

lemma lane_reachable_ok: "lane_reachable s \<Longrightarrow> lane_store_ok s"
  by (induction rule: lane_reachable.induct) (simp_all add: empty_lane_store_ok lease_exec_ok)

subsection \<open>Fencing\<close>

lemma fence_of_leases [simp]: "fence_of (s\<lparr>lane_leases := m\<rparr>) k = fence_of s k"
  by (simp add: fence_of_def)

lemma fence_of_acquire:
  "fence_of (snd (lease_acquire now tid lane owner scope ttl target s)) k =
     fence_of s k + (if 0 < ttl \<and> lease_current now lane scope s = None \<and> k = (lane, scope) then 1 else 0)"
proof (cases "0 < ttl")
  case True
  then show ?thesis
    by (cases "lease_current now lane scope s") (auto simp: acquire_free acquire_held fence_of_def)
qed (simp add: acquire_bad_ttl)

interpretation lane_fence: fencing lease_exec "\<lambda>_. True" fence_of issued_lease
proof
  fix s k c
  show "fence_of s k \<le> fence_of (snd (lease_exec c s)) k"
    by (cases c) (simp_all add: fence_of_acquire heartbeat_cases release_cases fence_of_leases split: sum.splits)
next
  fix c s v s' k t
  assume run: "lease_exec c s = (Inr v, s')" and iss: "issued_lease v = Some (k, t)"
  show "fence_of s k < t \<and> fence_of s' k = t"
  proof (cases c)
    case (Acquire now tid lane owner scope ttl target)
    then show ?thesis
      using run iss
      by (cases "0 < ttl"; cases "lease_current now lane scope s")
        (auto simp: acquire_free acquire_held acquire_bad_ttl issued_lease_def fence_of_def split: if_splits)
  qed (use run iss in \<open>auto simp: heartbeat_cases release_cases issued_lease_def split: sum.splits\<close>)
qed

subsection \<open>Ownership until expiry\<close>

fun call_time :: "lease_call \<Rightarrow> real" where
  "call_time (Acquire now tid lane owner scope ttl target) = now"
| "call_time (Heartbeat now lane scope owner fence) = now"
| "call_time (Release now lane scope owner fence) = now"

text \<open>The call presents the holder's own owner and token for this lane and scope.\<close>

fun presents :: "lease_call \<Rightarrow> lane_lease \<Rightarrow> bool" where
  "presents (Acquire now tid lane owner scope ttl target) l = False"
| "presents (Heartbeat now lane scope owner fence) l =
     (lane = ll_lane l \<and> scope = ll_scope_key l \<and> owner = ll_owner l \<and> fence = ll_fence_token l)"
| "presents (Release now lane scope owner fence) l =
     (lane = ll_lane l \<and> scope = ll_scope_key l \<and> owner = ll_owner l \<and> fence = ll_fence_token l)"

lemma lease_current_before: "lane_leases s (lane, scope) = Some l \<Longrightarrow> \<not> expired l now \<Longrightarrow>
    lease_current now lane scope s = Some l"
  by (simp add: lease_current_def lease_row_def)

lemma held_step:
  assumes row: "lane_leases s (ll_lane l, ll_scope_key l) = Some l"
    and live: "\<not> expired l (call_time c)" and foreign: "\<not> presents c l"
  shows "lane_leases (snd (lease_exec c s)) (ll_lane l, ll_scope_key l) = Some l"
    and "fst (lease_exec c s) = Inr v \<Longrightarrow> issued_lease v \<noteq> Some ((ll_lane l, ll_scope_key l), t)"
proof -
  let ?k = "(ll_lane l, ll_scope_key l)"
  have "lane_leases (snd (lease_exec c s)) ?k = Some l \<and>
     (fst (lease_exec c s) = Inr v \<longrightarrow> issued_lease v \<noteq> Some (?k, t))"
  proof (cases c)
    case (Acquire now tid lane owner scope ttl target)
    show ?thesis
    proof (cases "(lane, scope) = ?k")
      case True
      then have "lease_current now lane scope s = Some l"
        using row live Acquire by (simp add: lease_current_before)
      then show ?thesis
        using Acquire row
        by (cases "0 < ttl") (auto simp: acquire_held acquire_bad_ttl issued_lease_def split: if_splits)
    next
      case False
      then show ?thesis
        using Acquire row
        by (cases "0 < ttl"; cases "lease_current now lane scope s")
          (auto simp: acquire_free acquire_held acquire_bad_ttl issued_lease_def split: if_splits)
    qed
  next
    case (Heartbeat now lane scope owner fence)
    then show ?thesis
      using row foreign
      by (auto simp: heartbeat_cases lease_held_Inr issued_lease_def split: sum.splits dest: lease_current_row)
  next
    case (Release now lane scope owner fence)
    then show ?thesis
      using row foreign
      by (auto simp: release_cases lease_held_Inr issued_lease_def split: sum.splits dest: lease_current_row)
  qed
  then show "lane_leases (snd (lease_exec c s)) ?k = Some l"
    and "fst (lease_exec c s) = Inr v \<Longrightarrow> issued_lease v \<noteq> Some (?k, t)"
    by auto
qed

lemma held_run:
  assumes "lane_leases s (ll_lane l, ll_scope_key l) = Some l"
    and "\<forall>c\<in>set cs. \<not> expired l (call_time c) \<and> \<not> presents c l"
  shows "lane_leases (snd (run_ops lease_exec cs s)) (ll_lane l, ll_scope_key l) = Some l \<and>
    tokens_for issued_lease (ll_lane l, ll_scope_key l) (fst (run_ops lease_exec cs s)) = []"
  using assms
proof (induction cs arbitrary: s)
  case (Cons c cs)
  then have row: "lane_leases (snd (lease_exec c s)) (ll_lane l, ll_scope_key l) = Some l"
    using held_step(1) by simp
  have "tokens_for issued_lease (ll_lane l, ll_scope_key l) (fst (lease_exec c s) # rs) =
      tokens_for issued_lease (ll_lane l, ll_scope_key l) rs" for rs
    by (rule tokens_for_none, rule held_step(2)) (use Cons.prems in auto)
  with Cons.IH [OF row] Cons.prems(2) show ?case
    by simp
qed simp

lemma stale_token_rejected:
  assumes "lane_store_ok s" "f < fence_of s (lane, scope)"
  shows "lease_held now lane scope owner f s \<in>
    {Inl (LeaseError ''LEASE_NOT_FOUND''), Inl (LeaseError ''STALE_FENCE_TOKEN'')}"
  using assms
  by (auto simp: lease_held_def lease_row_def lane_store_ok_def fence_of_def split: option.splits)

lemma held_fence:
  "lane_reachable s \<Longrightarrow> lane_leases s (lane, scope) = Some l \<Longrightarrow> ll_fence_token l = fence_of s (lane, scope)"
  using lane_reachable_ok unfolding lane_store_ok_def fence_of_def by fastforce

lemma lane_run_reachable: "lane_reachable s \<Longrightarrow> lane_reachable (snd (run_ops lease_exec cs s))"
  by (induction cs arbitrary: s) (simp_all add: lane_call)

subsection \<open>Properties\<close>

text \<open>
  C14. In any sequence of calls on the lane-lease store, from any state, the fence tokens issued for
  one (lane, scope) key are strictly increasing: no token is ever handed out twice or out of order.
\<close>

theorem lane_tokens_increase:
  "sorted_wrt (<) (tokens_for issued_lease k (fst (run_ops lease_exec cs s)))"
  by (rule lane_fence.run_tokens_increasing) (rule TrueI)

text \<open>
  C15. Ownership is exclusive until expiry: while a lease is unexpired, whatever the other callers do
  (any acquire, and any heartbeat or release that does not present the holder's owner and token),
  the row stays the holder's and no new token is issued for that lane and scope.
\<close>

theorem lane_ownership_exclusive:
  assumes "lane_reachable s" "lane_leases s (lane, scope) = Some l"
    and "\<forall>c\<in>set cs. call_time c < ll_heartbeat_at l + ll_ttl_seconds l \<and> \<not> presents c l"
  shows "lane_leases (snd (run_ops lease_exec cs s)) (lane, scope) = Some l \<and>
    tokens_for issued_lease (lane, scope) (fst (run_ops lease_exec cs s)) = []"
proof -
  have "(lane, scope) = (ll_lane l, ll_scope_key l)"
    using lane_reachable_ok [OF assms(1)] assms(2) unfolding lane_store_ok_def by blast
  then show ?thesis
    using held_run [of s l cs] assms(2,3) by (auto simp: expired_def not_le)
qed

text \<open>
  A superseded token is dead for good: once a newer token exists for the key, no later sequence
  of calls makes a heartbeat or a release that presents the old token succeed or change the store.
\<close>

theorem lane_stale_token_dead:
  assumes "lane_reachable s" "f < fence_of s (lane, scope)"
  shows "\<exists>r. r \<in> {''LEASE_NOT_FOUND'', ''STALE_FENCE_TOKEN''} \<and>
    lease_heartbeat now lane scope owner f (snd (run_ops lease_exec cs s)) =
      (Inl (LeaseError r), snd (run_ops lease_exec cs s)) \<and>
    lease_release now lane scope owner f (snd (run_ops lease_exec cs s)) =
      (Inl (LeaseError r), snd (run_ops lease_exec cs s))"
proof -
  let ?t = "snd (run_ops lease_exec cs s)"
  have "f < fence_of ?t (lane, scope)"
    using assms(2) lane_fence.run_fence_mono [of s "(lane, scope)" cs] by simp
  then have "lease_held now lane scope owner f ?t \<in>
      {Inl (LeaseError ''LEASE_NOT_FOUND''), Inl (LeaseError ''STALE_FENCE_TOKEN'')}"
    by (rule stale_token_rejected [OF lane_reachable_ok [OF lane_run_reachable [OF assms(1)]]])
  then obtain r where "r \<in> {''LEASE_NOT_FOUND'', ''STALE_FENCE_TOKEN''}"
      and "lease_held now lane scope owner f ?t = Inl (LeaseError r)"
    by blast
  then show ?thesis
    by (intro exI [of _ r]) (simp only: heartbeat_cases release_cases sum.case simp_thms)
qed

definition demo_acquire :: "real \<Rightarrow> string \<Rightarrow> lease_call" where
  "demo_acquire now owner = Acquire now ''task:a'' CODEGEN owner ''repo:x'' 10 None"

definition demo_lanes :: lane_store where
  "demo_lanes = snd (lease_exec (demo_acquire 0 ''node:a'') empty_lane_store)"

definition demo_lanes2 :: lane_store where
  "demo_lanes2 = snd (lease_exec (demo_acquire 11 ''node:b'') demo_lanes)"

lemma demo_reachable: "lane_reachable demo_lanes" "lane_reachable demo_lanes2"
  by (simp_all add: demo_lanes_def demo_lanes2_def lane_init lane_call)

lemma demo_lanes_eq:
  "demo_lanes = \<lparr>lane_fences = [(CODEGEN, ''repo:x'') \<mapsto> 1],
     lane_leases = [(CODEGEN, ''repo:x'') \<mapsto> new_lease 0 ''task:a'' CODEGEN ''node:a'' ''repo:x'' 10 None 1]\<rparr>"
  by (simp add: demo_lanes_def demo_acquire_def lease_acquire_def transaction_def lease_row_def next_fence_def
      empty_lane_store_def Let_def)

lemma demo_lanes2_fence: "fence_of demo_lanes2 (CODEGEN, ''repo:x'') = 2"
  by (simp add: demo_lanes2_def demo_lanes_eq demo_acquire_def fence_of_acquire)
    (simp add: fence_of_def lease_current_def lease_row_def expired_def)

theorem lane_ownership_exclusive_witness:
  "lane_leases (snd (run_ops lease_exec
      [demo_acquire 5 ''node:b'', Release 6 CODEGEN ''repo:x'' ''node:b'' 1] demo_lanes)) (CODEGEN, ''repo:x'') =
    Some (new_lease 0 ''task:a'' CODEGEN ''node:a'' ''repo:x'' 10 None 1)"
  using lane_ownership_exclusive [OF demo_reachable(1), of CODEGEN "''repo:x''"
      "new_lease 0 ''task:a'' CODEGEN ''node:a'' ''repo:x'' 10 None 1"
      "[demo_acquire 5 ''node:b'', Release 6 CODEGEN ''repo:x'' ''node:b'' 1]"]
  by (simp add: demo_lanes_eq demo_acquire_def)

theorem lane_stale_token_dead_witness:
  "\<exists>r. r \<in> {''LEASE_NOT_FOUND'', ''STALE_FENCE_TOKEN''} \<and>
    lease_heartbeat 12 CODEGEN ''repo:x'' ''node:a'' 1 (snd (run_ops lease_exec [] demo_lanes2)) =
      (Inl (LeaseError r), snd (run_ops lease_exec [] demo_lanes2)) \<and>
    lease_release 12 CODEGEN ''repo:x'' ''node:a'' 1 (snd (run_ops lease_exec [] demo_lanes2)) =
      (Inl (LeaseError r), snd (run_ops lease_exec [] demo_lanes2))"
  by (rule lane_stale_token_dead [OF demo_reachable(2)]) (simp add: demo_lanes2_fence)

end
