(* ===== verification/Routing.thy ===== *)
theory Routing
  imports Adapters Leases "HOL-Library.AList"
begin

text \<open>
  \<^verbatim>\<open>core/runner_vnext_routing.py\<close>: the registry of node capability snapshots and the route planner.
  The registry is the association list of the dict it keeps.  The text Python prints for a float in
  the hashed JSON is the parameter \<open>frepr\<close>.
\<close>

subsection \<open>Definitions\<close>

record node_snapshot =
  nd_node_id :: string
  nd_generation :: int
  nd_route_rank :: int
  nd_capabilities :: "string list"
  nd_supported_adapters :: "string list"
  nd_supported_lanes :: "lane list"
  nd_privacy_classes :: "privacy_class list"
  nd_resource_patterns :: "string list"
  nd_observed_at :: real
  nd_expires_at :: real
  nd_attestation_ref :: string

record route_plan =
  rp_task_id :: string
  rp_status :: string
  rp_reason_code :: string
  rp_adapter_id :: string
  rp_lane :: lane
  rp_selected_node_id :: "string option"
  rp_selected_generation :: "int option"
  rp_selected_snapshot_hash :: "string option"
  rp_selected_attestation_ref :: "string option"
  rp_selected_expires_at :: "real option"
  rp_candidate_node_ids :: "string list"
  rp_lease_acquired :: bool
  rp_execution_authorized :: bool

definition node_id_ok :: "string \<Rightarrow> bool" where
  "node_id_ok v = (if \<not> py_startswith v ''node:'' \<or> \<not> partition_ref v then False
     else list_all (\<lambda>ch. py_isalnum ch \<or> ch \<in> set ''._-'') (drop 5 v))"

definition token_ok :: "string \<Rightarrow> bool" where
  "token_ok v \<longleftrightarrow> v \<noteq> [] \<and> \<not> list_ex py_isspace v \<and> \<not> py_contains v '':'' \<and> \<not> py_contains v ''/'' \<and>
     \<not> py_contains v [CHR 0x5C]"

definition nonempty_unique :: "'a list \<Rightarrow> string \<Rightarrow> unit res" where
  "nonempty_unique items reason = raise_if (items = [] \<or> length (remdups items) \<noteq> length items) (RoutingError reason)"

definition route_resource_pattern :: "string \<Rightarrow> unit res" where
  "route_resource_pattern p =
     raise_if (\<not> bounded_pattern partition_ref p) (RoutingError ''NODE_RESOURCE_PATTERN_INVALID'')"

definition validate_snapshot :: "node_snapshot \<Rightarrow> real \<Rightarrow> unit res" where
  "validate_snapshot n now =
     rbind (guards [
       (\<not> node_id_ok (nd_node_id n), RoutingError ''NODE_ID_INVALID''),
       (nd_generation n < 1, RoutingError ''NODE_GENERATION_INVALID''),
       (nd_route_rank n < 0, RoutingError ''NODE_ROUTE_RANK_INVALID''),
       (nd_observed_at n > now, RoutingError ''NODE_SNAPSHOT_FROM_FUTURE''),
       (nd_expires_at n \<le> nd_observed_at n, RoutingError ''NODE_SNAPSHOT_TIME_RANGE_INVALID''),
       (nd_expires_at n \<le> now, RoutingError ''NODE_SNAPSHOT_EXPIRED''),
       (\<not> partition_ref (nd_attestation_ref n), RoutingError ''NODE_ATTESTATION_REF_INVALID'')]) (\<lambda>_.
     rbind (nonempty_unique (nd_capabilities n) ''NODE_CAPABILITY_DECLARATION_REQUIRED'') (\<lambda>_.
     rbind (nonempty_unique (nd_supported_adapters n) ''NODE_ADAPTER_DECLARATION_REQUIRED'') (\<lambda>_.
     rbind (nonempty_unique (nd_supported_lanes n) ''NODE_LANE_DECLARATION_REQUIRED'') (\<lambda>_.
     rbind (nonempty_unique (nd_privacy_classes n) ''NODE_PRIVACY_DECLARATION_REQUIRED'') (\<lambda>_.
     rbind (nonempty_unique (nd_resource_patterns n) ''NODE_RESOURCE_DECLARATION_REQUIRED'') (\<lambda>_.
     rbind (check_all token_ok (RoutingError ''NODE_CAPABILITY_INVALID'') (nd_capabilities n)) (\<lambda>_.
     rbind (check_all partition_ref (RoutingError ''NODE_ADAPTER_ID_INVALID'') (nd_supported_adapters n)) (\<lambda>_.
     for_each route_resource_pattern (nd_resource_patterns n)))))))))"

definition snapshot_payload :: "(real \<Rightarrow> string) \<Rightarrow> node_snapshot \<Rightarrow> (string \<times> json) list" where
  "snapshot_payload frepr n = [
     (''node_id'', JStr (nd_node_id n)),
     (''generation'', JInt (nd_generation n)),
     (''route_rank'', JInt (nd_route_rank n)),
     (''capabilities'', jstrs (nd_capabilities n)),
     (''supported_adapters'', jstrs (nd_supported_adapters n)),
     (''supported_lanes'', jstrs (map lane_value (nd_supported_lanes n))),
     (''privacy_classes'', jstrs (map privacy_value (nd_privacy_classes n))),
     (''resource_patterns'', jstrs (nd_resource_patterns n)),
     (''observed_at'', JFloat (frepr (nd_observed_at n))),
     (''expires_at'', JFloat (frepr (nd_expires_at n))),
     (''attestation_ref'', JStr (nd_attestation_ref n))]"

definition node_capability_snapshot_hash :: "(real \<Rightarrow> string) \<Rightarrow> node_snapshot \<Rightarrow> string" where
  "node_capability_snapshot_hash frepr n = json_digest (JObj (snapshot_payload frepr n))"

type_synonym node_registry = "(string \<times> node_snapshot) list"

definition register_node :: "node_snapshot \<Rightarrow> real \<Rightarrow> (node_registry, unit) op" where
  "register_node n now reg = guarded (validate_snapshot n now) (\<lambda>_ reg.
     case map_of reg (nd_node_id n) of
       Some existing \<Rightarrow>
         if nd_generation n < nd_generation existing then (Inl (RoutingError ''NODE_GENERATION_ROLLBACK''), reg)
         else if nd_generation n = nd_generation existing then
           (if n \<noteq> existing then (Inl (RoutingError ''NODE_GENERATION_CONTENT_MISMATCH''), reg) else (Inr (), reg))
         else (Inr (), AList.update (nd_node_id n) n reg)
     | None \<Rightarrow> (Inr (), AList.update (nd_node_id n) n reg)) reg"

definition fresh_at :: "real \<Rightarrow> node_snapshot \<Rightarrow> bool" where
  "fresh_at now n \<longleftrightarrow> nd_observed_at n \<le> now \<and> now < nd_expires_at n"

definition route_key :: "node_snapshot \<Rightarrow> int \<times> string" where
  "route_key n = (nd_route_rank n, nd_node_id n)"

definition active_nodes :: "node_registry \<Rightarrow> real \<Rightarrow> node_snapshot list" where
  "active_nodes reg now = sort_key route_key (filter (fresh_at now) (map snd reg))"

definition require_current :: "(real \<Rightarrow> string) \<Rightarrow> node_registry \<Rightarrow> string \<Rightarrow> int \<Rightarrow> string \<Rightarrow> real \<Rightarrow> node_snapshot res" where
  "require_current frepr reg node_id generation snapshot_hash now =
     (case map_of reg node_id of
        None \<Rightarrow> Inl (RoutingError ''NODE_SNAPSHOT_MISSING'')
      | Some n \<Rightarrow>
          rbind (guards [
            (nd_generation n \<noteq> generation, RoutingError ''NODE_GENERATION_MISMATCH''),
            (\<not> fresh_at now n, RoutingError ''NODE_SNAPSHOT_EXPIRED''),
            (node_capability_snapshot_hash frepr n \<noteq> snapshot_hash, RoutingError ''NODE_SNAPSHOT_HASH_MISMATCH'')])
          (\<lambda>_. Inr n))"

definition all_resources_match :: "string list \<Rightarrow> string list \<Rightarrow> bool" where
  "all_resources_match resources patterns = list_all (\<lambda>r. list_ex (\<lambda>p. fnmatch r p) patterns) resources"

definition no_route :: "universal_task \<Rightarrow> string \<Rightarrow> lane \<Rightarrow> string \<Rightarrow> route_plan" where
  "no_route task adapter lane reason = \<lparr>rp_task_id = task_id task, rp_status = ''NO_ROUTE'', rp_reason_code = reason,
     rp_adapter_id = adapter, rp_lane = lane, rp_selected_node_id = None, rp_selected_generation = None,
     rp_selected_snapshot_hash = None, rp_selected_attestation_ref = None, rp_selected_expires_at = None,
     rp_candidate_node_ids = [], rp_lease_acquired = False, rp_execution_authorized = False\<rparr>"

definition plan_route ::
    "(real \<Rightarrow> string) \<Rightarrow> node_registry \<Rightarrow> universal_task \<Rightarrow> string \<Rightarrow> lane \<Rightarrow> real \<Rightarrow> route_plan res" where
  "plan_route frepr reg task adapter lane now =
     rbind (guards [
       (\<not> partition_ref (task_id task) \<or> \<not> py_startswith (task_id task) ''task:'', RoutingError ''ROUTE_TASK_ID_INVALID''),
       (\<not> partition_ref adapter, RoutingError ''ROUTE_ADAPTER_ID_INVALID''),
       (task_required_capabilities task = [], RoutingError ''ROUTE_CAPABILITY_REQUIREMENT_REQUIRED''),
       (task_target_resources task = [], RoutingError ''ROUTE_TARGET_RESOURCE_REQUIRED'')]) (\<lambda>_.
     rbind (check_all partition_ref (RoutingError ''ROUTE_TARGET_RESOURCE_INVALID'') (task_target_resources task)) (\<lambda>_.
     let fresh = active_nodes reg now;
         by_capability = filter (\<lambda>n. set (task_required_capabilities task) \<subseteq> set (nd_capabilities n)) fresh;
         by_adapter = filter (\<lambda>n. adapter \<in> set (nd_supported_adapters n)) by_capability;
         by_lane = filter (\<lambda>n. lane \<in> set (nd_supported_lanes n)) by_adapter;
         by_privacy = filter (\<lambda>n. task_privacy task \<in> set (nd_privacy_classes n)) by_lane;
         by_resource = filter (\<lambda>n. all_resources_match (task_target_resources task) (nd_resource_patterns n)) by_privacy;
         ordered = sort_key route_key by_resource
     in Inr (
       if fresh = [] then no_route task adapter lane ''NO_ROUTE_NO_FRESH_NODE''
       else if by_capability = [] then no_route task adapter lane ''NO_ROUTE_CAPABILITY''
       else if by_adapter = [] then no_route task adapter lane ''NO_ROUTE_ADAPTER''
       else if by_lane = [] then no_route task adapter lane ''NO_ROUTE_LANE''
       else if by_privacy = [] then no_route task adapter lane ''NO_ROUTE_PRIVACY''
       else if by_resource = [] then no_route task adapter lane ''NO_ROUTE_RESOURCE''
       else let selected = hd ordered in
         \<lparr>rp_task_id = task_id task, rp_status = ''ROUTED'', rp_reason_code = ''ROUTE_MATCHED_TYPED_CAPABILITIES'',
          rp_adapter_id = adapter, rp_lane = lane, rp_selected_node_id = Some (nd_node_id selected),
          rp_selected_generation = Some (nd_generation selected),
          rp_selected_snapshot_hash = Some (node_capability_snapshot_hash frepr selected),
          rp_selected_attestation_ref = Some (nd_attestation_ref selected),
          rp_selected_expires_at = Some (nd_expires_at selected),
          rp_candidate_node_ids = map nd_node_id ordered,
          rp_lease_acquired = False, rp_execution_authorized = False\<rparr>)))"

subsection \<open>The registry\<close>

definition generation_of :: "node_registry \<Rightarrow> string \<Rightarrow> int" where
  "generation_of reg k = (case map_of reg k of None \<Rightarrow> 0 | Some n \<Rightarrow> nd_generation n)"

fun registry_exec :: "node_snapshot \<times> real \<Rightarrow> (node_registry, unit) op" where
  "registry_exec (n, now) reg = register_node n now reg"

definition registry_ok :: "node_registry \<Rightarrow> bool" where
  "registry_ok reg \<longleftrightarrow> distinct (map fst reg) \<and>
     (\<forall>k n. map_of reg k = Some n \<longrightarrow> nd_node_id n = k \<and> (\<exists>now. validate_snapshot n now = Inr ()))"

lemma registry_okD: "registry_ok reg \<Longrightarrow> map_of reg k = Some n \<Longrightarrow> nd_node_id n = k \<and> 1 \<le> nd_generation n"
  unfolding registry_ok_def validate_snapshot_def by fastforce

lemma register_cases [step_simps]:
  "register_node n now reg =
    (case validate_snapshot n now of
       Inl e \<Rightarrow> (Inl e, reg)
     | Inr u \<Rightarrow>
        (case map_of reg (nd_node_id n) of
           None \<Rightarrow> (Inr (), AList.update (nd_node_id n) n reg)
         | Some old \<Rightarrow>
             if nd_generation n < nd_generation old then (Inl (RoutingError ''NODE_GENERATION_ROLLBACK''), reg)
             else if nd_generation n = nd_generation old \<and> n \<noteq> old
             then (Inl (RoutingError ''NODE_GENERATION_CONTENT_MISMATCH''), reg)
             else if n = old then (Inr (), reg)
             else (Inr (), AList.update (nd_node_id n) n reg)))"
  by (auto simp: register_node_def guarded_def split: sum.splits option.splits)

lemma register_abort: "register_node n now reg = (Inl e, reg') \<Longrightarrow> reg' = reg"
  by (auto simp: register_cases split: sum.splits option.splits if_splits)

interpretation registry_op: atomic_op "registry_exec x" for x
  by unfold_locales (cases x; auto dest: register_abort)

lemma register_state:
  "snd (register_node n now reg) = reg \<or>
   snd (register_node n now reg) = AList.update (nd_node_id n) n reg \<and> validate_snapshot n now = Inr () \<and>
     (\<forall>old. map_of reg (nd_node_id n) = Some old \<longrightarrow> nd_generation old < nd_generation n)"
  by (auto simp: register_cases split: sum.splits option.splits if_splits)

lemma registry_ok_update:
  "registry_ok reg \<Longrightarrow> validate_snapshot n now = Inr () \<Longrightarrow> registry_ok (AList.update (nd_node_id n) n reg)"
  unfolding registry_ok_def by (auto simp: update_conv' distinct_update)

lemma registry_exec_ok: "registry_ok reg \<Longrightarrow> registry_ok (snd (registry_exec x reg))"
  using register_state registry_ok_update by (cases x) (metis registry_exec.simps)

lemma generation_step:
  assumes "registry_ok reg"
  shows "generation_of reg k \<le> generation_of (snd (registry_exec x reg)) k"
proof (cases x)
  case (Pair n now)
  have "1 \<le> nd_generation n" if "validate_snapshot n now = Inr ()"
    using that by (auto simp: validate_snapshot_def)
  then show ?thesis
    using register_state [of n now reg] Pair
    by (auto simp: generation_of_def update_conv' split: option.splits if_splits)
qed

interpretation node_generation: fencing registry_exec registry_ok generation_of "\<lambda>_. None"
  by unfold_locales (simp_all only: registry_exec_ok generation_step, simp)

lemma generation_pins:
  assumes "registry_ok reg" "map_of reg k = Some n" "map_of (snd (registry_exec x reg)) k = Some n'"
    "nd_generation n' = nd_generation n"
  shows "n' = n"
proof (cases x)
  case (Pair m now)
  then show ?thesis
    using register_state [of m now reg] assms by (auto simp: update_conv' split: if_splits)
qed

lemma registry_keeps: "map_of reg k \<noteq> None \<Longrightarrow> map_of (snd (registry_exec x reg)) k \<noteq> None"
  using register_state [of "fst x" "snd x" reg] by (cases x) (auto simp: update_conv')

lemma registry_run_keeps: "map_of reg k \<noteq> None \<Longrightarrow> map_of (snd (run_ops registry_exec xs reg)) k \<noteq> None"
proof (induction xs arbitrary: reg)
  case (Cons x xs)
  from Cons.IH [OF registry_keeps [OF Cons.prems, of x]] show ?case by simp
qed simp

lemma generation_pins_run:
  assumes "registry_ok reg" "map_of reg k = Some n" "map_of (snd (run_ops registry_exec xs reg)) k = Some n'"
    "nd_generation n' = nd_generation n"
  shows "n' = n"
  using assms
proof (induction xs arbitrary: reg n)
  case (Cons x xs)
  let ?r = "snd (registry_exec x reg)"
  obtain m where m: "map_of ?r k = Some m"
    using registry_keeps [of reg k x] Cons.prems(2) by auto
  have "nd_generation n \<le> nd_generation m"
    using node_generation.fence_mono [OF Cons.prems(1), of k x] Cons.prems(2) m by (simp add: generation_of_def)
  moreover have "nd_generation m \<le> nd_generation n'"
    using node_generation.run_fence_mono [OF registry_exec_ok [OF Cons.prems(1)], of x k xs] m Cons.prems(3)
    by (simp add: generation_of_def)
  ultimately have "nd_generation m = nd_generation n" using Cons.prems(4) by simp
  then have "m = n" using generation_pins Cons.prems m by metis
  with Cons.IH [OF registry_exec_ok [OF Cons.prems(1)] m] Cons.prems(3,4) show ?case by simp
qed simp

subsection \<open>The planner\<close>

text \<open>What the planner asks of a node.\<close>

definition eligible :: "universal_task \<Rightarrow> string \<Rightarrow> lane \<Rightarrow> real \<Rightarrow> node_snapshot \<Rightarrow> bool" where
  "eligible task adapter lane now n \<longleftrightarrow> fresh_at now n \<and>
     set (task_required_capabilities task) \<subseteq> set (nd_capabilities n) \<and> adapter \<in> set (nd_supported_adapters n) \<and>
     lane \<in> set (nd_supported_lanes n) \<and> task_privacy task \<in> set (nd_privacy_classes n) \<and>
     all_resources_match (task_target_resources task) (nd_resource_patterns n)"

definition candidates :: "node_registry \<Rightarrow> universal_task \<Rightarrow> string \<Rightarrow> lane \<Rightarrow> real \<Rightarrow> node_snapshot list" where
  "candidates reg task adapter lane now = sort_key route_key (filter (eligible task adapter lane now) (map snd reg))"

lemma filter_sort_key: "filter P (sort_key f xs) = sort_key f (filter P xs)"
  by (rule filter_sort)

lemma candidates_set: "set (candidates reg task adapter lane now) = {n \<in> snd ` set reg. eligible task adapter lane now n}"
  by (auto simp: candidates_def)

text \<open>The staged filters compute one sorted list of eligible nodes.\<close>

lemma staged_filters:
  "sort_key route_key (filter (\<lambda>n. all_resources_match (task_target_resources task) (nd_resource_patterns n))
     (filter (\<lambda>n. task_privacy task \<in> set (nd_privacy_classes n)) (filter (\<lambda>n. lane \<in> set (nd_supported_lanes n))
     (filter (\<lambda>n. adapter \<in> set (nd_supported_adapters n))
     (filter (\<lambda>n. set (task_required_capabilities task) \<subseteq> set (nd_capabilities n)) (active_nodes reg now))))))
   = candidates reg task adapter lane now"
  by (simp add: active_nodes_def candidates_def filter_sort sort_key_fixed conj_commute conj_left_commute
      eligible_def [abs_def])

definition route_checked :: "universal_task \<Rightarrow> string \<Rightarrow> bool" where
  "route_checked task adapter \<longleftrightarrow> partition_ref (task_id task) \<and> py_startswith (task_id task) ''task:'' \<and>
     partition_ref adapter \<and> task_required_capabilities task \<noteq> [] \<and> task_target_resources task \<noteq> [] \<and>
     list_all partition_ref (task_target_resources task)"

lemma sort_key_Nil_iff: "sort_key f xs = [] \<longleftrightarrow> xs = []"
  by (metis set_empty set_sort)

lemma filter_ne: "filter P xs \<noteq> [] \<Longrightarrow> xs \<noteq> []"
  by auto

lemma route_plan_cases:
  assumes "plan_route frepr reg task adapter lane now = Inr plan"
  shows "route_checked task adapter \<and>
    (case candidates reg task adapter lane now of
       [] \<Rightarrow> \<exists>r. plan = no_route task adapter lane r
     | n # ns \<Rightarrow> rp_status plan = ''ROUTED'' \<and> rp_selected_node_id plan = Some (nd_node_id n) \<and>
         rp_selected_generation plan = Some (nd_generation n) \<and>
         rp_selected_snapshot_hash plan = Some (node_capability_snapshot_hash frepr n) \<and>
         rp_selected_attestation_ref plan = Some (nd_attestation_ref n) \<and>
         rp_selected_expires_at plan = Some (nd_expires_at n) \<and>
         rp_candidate_node_ids plan = map nd_node_id (n # ns) \<and> rp_reason_code plan = ''ROUTE_MATCHED_TYPED_CAPABILITIES'')"
proof -
  let ?f = "filter (\<lambda>n. all_resources_match (task_target_resources task) (nd_resource_patterns n))
     (filter (\<lambda>n. task_privacy task \<in> set (nd_privacy_classes n)) (filter (\<lambda>n. lane \<in> set (nd_supported_lanes n))
     (filter (\<lambda>n. adapter \<in> set (nd_supported_adapters n))
     (filter (\<lambda>n. set (task_required_capabilities task) \<subseteq> set (nd_capabilities n)) (active_nodes reg now)))))"
  have empty: "?f = [] \<longleftrightarrow> candidates reg task adapter lane now = []"
    unfolding staged_filters [symmetric] sort_key_Nil_iff ..
  have checked: "route_checked task adapter"
    using assms by (auto simp: plan_route_def route_checked_def list_all_iff)
  show ?thesis
  proof (cases "candidates reg task adapter lane now")
    case Nil
    then have "\<exists>r. plan = no_route task adapter lane r"
      using assms empty unfolding plan_route_def Let_def staged_filters by (auto split: if_splits)
    with checked Nil show ?thesis by simp
  next
    case (Cons n ns)
    then have f: "?f \<noteq> []" using empty by simp
    note ne = f filter_ne [OF f] filter_ne [OF filter_ne [OF f]] filter_ne [OF filter_ne [OF filter_ne [OF f]]]
      filter_ne [OF filter_ne [OF filter_ne [OF filter_ne [OF f]]]]
      filter_ne [OF filter_ne [OF filter_ne [OF filter_ne [OF filter_ne [OF f]]]]]
    obtain u v where "plan = \<lparr>rp_task_id = task_id task, rp_status = ''ROUTED'',
        rp_reason_code = ''ROUTE_MATCHED_TYPED_CAPABILITIES'',
        rp_adapter_id = adapter, rp_lane = lane, rp_selected_node_id = Some (nd_node_id n),
        rp_selected_generation = Some (nd_generation n),
        rp_selected_snapshot_hash = Some (node_capability_snapshot_hash frepr n),
        rp_selected_attestation_ref = Some (nd_attestation_ref n), rp_selected_expires_at = Some (nd_expires_at n),
        rp_candidate_node_ids = map nd_node_id (n # ns), rp_lease_acquired = u, rp_execution_authorized = v\<rparr>"
      using assms unfolding plan_route_def Let_def staged_filters
      by (simp only: ne if_False Cons list.sel rbind_Inr_iff sum.inject) blast
    with checked Cons show ?thesis by simp
  qed
qed

lemma candidates_least:
  assumes "candidates reg task adapter lane now = n # ns" "m \<in> snd ` set reg" "eligible task adapter lane now m"
  shows "route_key n \<le> route_key m"
proof -
  have "m \<in> set (filter (eligible task adapter lane now) (map snd reg))" using assms(2,3) by auto
  from hd_sort_key_le [OF this, of route_key] show ?thesis
    using assms(1) by (simp add: candidates_def)
qed

lemma route_plan_error: "plan_route frepr reg task adapter lane now = Inl e \<Longrightarrow> \<exists>r. e = RoutingError r"
  by (auto simp: plan_route_def Let_def dest!: guards_Inl)

lemma selected_node:
  assumes "plan_route frepr reg task adapter lane now = Inr plan" "rp_status plan = ''ROUTED''"
  shows "\<exists>n \<in> snd ` set reg. eligible task adapter lane now n \<and> rp_selected_node_id plan = Some (nd_node_id n) \<and>
     rp_selected_generation plan = Some (nd_generation n) \<and>
     rp_selected_snapshot_hash plan = Some (node_capability_snapshot_hash frepr n) \<and>
     rp_selected_attestation_ref plan = Some (nd_attestation_ref n) \<and> rp_selected_expires_at plan = Some (nd_expires_at n)"
proof (cases "candidates reg task adapter lane now")
  case Nil
  then show ?thesis
    using route_plan_cases [OF assms(1)] assms(2) by (auto simp: no_route_def)
next
  case (Cons n ns)
  then have "n \<in> snd ` set reg" "eligible task adapter lane now n"
    using candidates_set [of reg task adapter lane now] by auto
  then show ?thesis
    using route_plan_cases [OF assms(1)] Cons by auto
qed

subsection \<open>Properties\<close>

text \<open>
  C26. Routing is sound, complete and optimal: when a plan is returned it is ROUTED exactly if some
  registered node is eligible (fresh, capable, with the adapter, the lane, the privacy class and a
  pattern for every resource), and then the selected node is eligible and has the least
  (rank, identifier) of all eligible nodes, with its generation, hash and attestation copied.
\<close>

theorem route_plan_optimal:
  assumes "plan_route frepr reg task adapter lane now = Inr plan"
  shows "(rp_status plan = ''ROUTED'' \<longleftrightarrow> (\<exists>n \<in> snd ` set reg. eligible task adapter lane now n)) \<and>
    (rp_status plan = ''ROUTED'' \<longrightarrow> (\<exists>n \<in> snd ` set reg. eligible task adapter lane now n \<and>
       rp_selected_node_id plan = Some (nd_node_id n) \<and> rp_selected_generation plan = Some (nd_generation n) \<and>
       rp_selected_snapshot_hash plan = Some (node_capability_snapshot_hash frepr n) \<and>
       rp_selected_attestation_ref plan = Some (nd_attestation_ref n) \<and>
       rp_selected_expires_at plan = Some (nd_expires_at n) \<and>
       (\<forall>m \<in> snd ` set reg. eligible task adapter lane now m \<longrightarrow> route_key n \<le> route_key m)))"
proof (cases "candidates reg task adapter lane now")
  case Nil
  then show ?thesis
    using route_plan_cases [OF assms] candidates_set [of reg task adapter lane now] by (auto simp: no_route_def)
next
  case (Cons n ns)
  then have "n \<in> snd ` set reg" "eligible task adapter lane now n"
    using candidates_set [of reg task adapter lane now] by auto
  then show ?thesis
    using route_plan_cases [OF assms] Cons candidates_least [OF Cons] by auto
qed

text \<open>
  C27. Node generations pin content: whatever snapshots are registered later, a node stays registered,
  its generation never decreases, and as long as it has the same generation its snapshot is the same.
\<close>

theorem node_generation_pins_snapshot:
  assumes "registry_ok reg" "map_of reg k = Some n"
  shows "\<exists>n'. map_of (snd (run_ops registry_exec xs reg)) k = Some n' \<and> nd_generation n \<le> nd_generation n' \<and>
    (nd_generation n' = nd_generation n \<longrightarrow> n' = n)"
proof -
  have "map_of (snd (run_ops registry_exec xs reg)) k \<noteq> None"
    using assms registry_run_keeps [of reg k xs] by simp
  then obtain n' where n': "map_of (snd (run_ops registry_exec xs reg)) k = Some n'" by auto
  then show ?thesis
    using node_generation.run_fence_mono [OF assms(1), of k xs] generation_pins_run [OF assms n'] assms(2)
    by (simp add: generation_of_def)
qed

subsection \<open>Witnesses\<close>

lemma route_plan_total: "route_checked task adapter \<Longrightarrow> \<exists>plan. plan_route frepr reg task adapter lane now = Inr plan"
  by (auto simp: plan_route_def route_checked_def list_all_iff Let_def)

definition demo_node :: node_snapshot where
  "demo_node = \<lparr>nd_node_id = ''node:a'', nd_generation = 1, nd_route_rank = 0, nd_capabilities = [''git''],
     nd_supported_adapters = [''adapter:git''], nd_supported_lanes = [CODEGEN], nd_privacy_classes = [PUBLIC_SAFE],
     nd_resource_patterns = [''repo:*''], nd_observed_at = 0, nd_expires_at = 100, nd_attestation_ref = ''att:1''\<rparr>"

definition demo_nodes :: node_registry where
  "demo_nodes = [(''node:a'', demo_node)]"

lemma demo_route_checked: "route_checked demo_task ''adapter:git''"
  by code_simp

lemma demo_match: "all_resources_match [''repo:x''] [''repo:*'']"
  by code_simp

lemma demo_eligible: "eligible demo_task ''adapter:git'' CODEGEN 10 demo_node"
  using demo_match by (simp add: eligible_def demo_node_def demo_task_def fresh_at_def)

lemma demo_node_checks: "node_id_ok ''node:a''" "partition_ref ''att:1''" "token_ok ''git''" "partition_ref ''adapter:git''"
  "bounded_pattern partition_ref ''repo:*''"
  by code_simp+

lemma demo_node_valid: "validate_snapshot demo_node 10 = Inr ()"
  using demo_node_checks
  by (simp add: validate_snapshot_def demo_node_def guards.simps nonempty_unique_def route_resource_pattern_def)

lemma demo_nodes_ok: "registry_ok demo_nodes"
  using demo_node_valid by (auto simp: registry_ok_def demo_nodes_def) (auto simp: demo_node_def)

theorem route_plan_optimal_witness:
  "\<exists>plan. plan_route (\<lambda>_. ''0.0'') demo_nodes demo_task ''adapter:git'' CODEGEN 10 = Inr plan \<and>
     rp_selected_node_id plan = Some ''node:a''"
proof -
  obtain plan where plan: "plan_route (\<lambda>_. ''0.0'') demo_nodes demo_task ''adapter:git'' CODEGEN 10 = Inr plan"
    using route_plan_total [OF demo_route_checked] by blast
  from route_plan_optimal [OF plan] show ?thesis
    using plan demo_eligible by (auto simp: demo_nodes_def) (auto simp: demo_node_def)
qed

theorem node_generation_pins_snapshot_witness:
  "\<exists>n'. map_of (snd (run_ops registry_exec [(demo_node\<lparr>nd_route_rank := 5\<rparr>, 11)] demo_nodes)) ''node:a'' = Some n' \<and>
     (nd_generation n' = 1 \<longrightarrow> nd_route_rank n' = 0)"
  using node_generation_pins_snapshot [OF demo_nodes_ok, of "''node:a''" demo_node "[(demo_node\<lparr>nd_route_rank := 5\<rparr>, 11)]"]
  by (auto simp: demo_nodes_def) (auto simp: demo_node_def)

end
