(* ===== verification/Environment.thy ===== *)
theory Environment
  imports Json "HOL-Library.AList"
begin

text \<open>
  \<^verbatim>\<open>core/runner_vnext_environment.py\<close>: which environment variables a lane's child process receives.
  A Python dict of strings is an association list with distinct keys.
\<close>

subsection \<open>Definitions\<close>

type_synonym str_dict = "(string \<times> string) list"

definition known_secret_env_keys :: "string list" where
  "known_secret_env_keys = [''OPENROUTER_API_KEY'', ''SKELETON_OPENROUTER_FALLBACK_API_KEY'', ''BWS_ACCESS_TOKEN'',
     ''CREDENTIALS_DIRECTORY'', ''LLM_API_KEY'', ''SKELETON_TG_BOT'']"

definition sensitive_markers :: "string list" where
  "sensitive_markers = [''TOKEN'', ''SECRET'', ''PASSWORD'', ''API_KEY'', ''ACCESS_KEY'', ''CREDENTIAL'']"

record lane_environment_policy =
  ep_lane_id :: string
  ep_inherit_keys :: "string list"
  ep_inject_keys :: "string list"
  ep_denied_keys :: "string list"
  ep_secret_keys :: "string list"

record child_environment_receipt =
  er_lane_id :: string
  er_policy_hash :: string
  er_inherited_keys :: "string list"
  er_injected_keys :: "string list"
  er_secret_key_names :: "string list"
  er_stripped_parent_key_count :: nat
  er_environment_key_count :: nat
  er_values_exposed :: bool

record child_environment_plan =
  cp_environment :: str_dict
  cp_receipt :: child_environment_receipt

definition looks_sensitive :: "string \<Rightarrow> bool" where
  "looks_sensitive key \<longleftrightarrow> key \<in> set known_secret_env_keys \<or> list_ex (\<lambda>marker. py_contains key marker) sensitive_markers"

definition env_key :: "string \<Rightarrow> bool" where
  "env_key key \<longleftrightarrow> key \<noteq> [] \<and> key \<noteq> ''*'' \<and> list_all (\<lambda>ch. py_isupper ch \<or> py_isdigit ch \<or> ch = CHR ''_'') key"

definition public_lane_id :: "string \<Rightarrow> bool" where
  "public_lane_id v \<longleftrightarrow> py_startswith v ''lane:'' \<and> length v > 5 \<and>
     list_all (\<lambda>ch. py_islower ch \<or> py_isdigit ch \<or> ch \<in> set ''-_'') (drop 5 v)"

definition key_group :: "string list \<Rightarrow> unit res" where
  "key_group values =
     (if length (remdups values) \<noteq> length values then Inl (EnvironmentContractError ''ENV_POLICY_DUPLICATE_KEY'')
      else check_all env_key (EnvironmentContractError ''ENV_POLICY_KEY_INVALID'') values)"

definition validate_lane_environment_policy :: "lane_environment_policy \<Rightarrow> unit res" where
  "validate_lane_environment_policy p =
     (let inherit = set (ep_inherit_keys p); inject = set (ep_inject_keys p);
          deny = set (ep_denied_keys p); secrets = set (ep_secret_keys p) in
      rbind (raise_if (\<not> public_lane_id (ep_lane_id p)) (EnvironmentContractError ''ENV_LANE_ID_INVALID'')) (\<lambda>_.
      rbind (for_each key_group [ep_inherit_keys p, ep_inject_keys p, ep_denied_keys p, ep_secret_keys p]) (\<lambda>_.
      guards [
        (inherit \<inter> inject \<noteq> {}, EnvironmentContractError ''ENV_POLICY_SOURCE_OVERLAP''),
        (deny \<inter> (inherit \<union> inject) \<noteq> {}, EnvironmentContractError ''ENV_POLICY_DENY_OVERLAP''),
        (\<not> secrets \<subseteq> inject, EnvironmentContractError ''ENV_POLICY_SECRET_MUST_BE_INJECTED''),
        (list_ex looks_sensitive (ep_inherit_keys p), EnvironmentContractError ''ENV_POLICY_SECRET_INHERIT_FORBIDDEN''),
        (\<not> set (filter looks_sensitive (ep_inject_keys p)) \<subseteq> secrets,
           EnvironmentContractError ''ENV_POLICY_SECRET_CLASSIFICATION_REQUIRED'')])))"

definition policy_payload :: "lane_environment_policy \<Rightarrow> (string \<times> json) list" where
  "policy_payload p = [
     (''lane_id'', JStr (ep_lane_id p)),
     (''inherit_keys'', jstrs (ep_inherit_keys p)),
     (''inject_keys'', jstrs (ep_inject_keys p)),
     (''denied_keys'', jstrs (ep_denied_keys p)),
     (''secret_keys'', jstrs (ep_secret_keys p))]"

definition lane_environment_policy_hash :: "lane_environment_policy \<Rightarrow> string res" where
  "lane_environment_policy_hash p =
     rbind (validate_lane_environment_policy p) (\<lambda>_. Inr (json_digest (JObj (policy_payload p))))"

text \<open>One pass of the loops that fill \<^verbatim>\<open>child\<close>.\<close>

definition copy_keys :: "string list \<Rightarrow> str_dict \<Rightarrow> str_dict \<Rightarrow> str_dict" where
  "copy_keys keys source child =
     fold (\<lambda>key child. case map_of source key of None \<Rightarrow> child | Some v \<Rightarrow> AList.update key v child) keys child"

definition sorted_meet :: "string list \<Rightarrow> string list \<Rightarrow> string list" where
  "sorted_meet xs ys = sort (remdups (filter (\<lambda>x. x \<in> set ys) xs))"

definition build_child_environment ::
    "str_dict \<Rightarrow> str_dict \<Rightarrow> lane_environment_policy \<Rightarrow> child_environment_plan res" where
  "build_child_environment parent injected_env policy =
     (if set (map fst injected_env) \<inter> set (ep_denied_keys policy) \<noteq> {}
      then Inl (EnvironmentContractError ''ENV_DENIED_INJECTION'')
      else if \<not> set (map fst injected_env) \<subseteq> set (ep_inject_keys policy)
      then Inl (EnvironmentContractError ''ENV_UNDECLARED_INJECTION'')
      else
        let child = copy_keys (ep_inject_keys policy) injected_env (copy_keys (ep_inherit_keys policy) parent []);
            inherited = sorted_meet (map fst child) (ep_inherit_keys policy);
            injected = sorted_meet (map fst child) (ep_inject_keys policy);
            secret_names = sorted_meet injected (ep_secret_keys policy)
        in rbind (lane_environment_policy_hash policy) (\<lambda>h.
             Inr \<lparr>cp_environment = child, cp_receipt = \<lparr>er_lane_id = ep_lane_id policy, er_policy_hash = h,
               er_inherited_keys = inherited, er_injected_keys = injected, er_secret_key_names = secret_names,
               er_stripped_parent_key_count = length parent - length inherited,
               er_environment_key_count = length child, er_values_exposed = False\<rparr>\<rparr>))"

type_synonym env_registry = "(string \<times> lane_environment_policy) list"

definition mk_env_registry :: "(string \<times> lane_environment_policy) list \<Rightarrow> env_registry res" where
  "mk_env_registry ps =
     (if length (remdups (map fst ps)) \<noteq> length ps
      then Inl (EnvironmentContractError ''ENV_POLICY_REGISTRY_DUPLICATE'')
      else rbind (for_each (\<lambda>(lane_id, p). rbind (validate_lane_environment_policy p) (\<lambda>_.
               raise_if (lane_id \<noteq> ep_lane_id p) (EnvironmentContractError ''ENV_POLICY_REGISTRY_LANE_MISMATCH''))) ps)
             (\<lambda>_. Inr ps))"

definition registry_policy_hash :: "env_registry \<Rightarrow> string \<Rightarrow> string res" where
  "registry_policy_hash reg lane_id = (case map_of reg lane_id of
     None \<Rightarrow> Inl (EnvironmentContractError ''ENV_POLICY_LANE_UNKNOWN'')
   | Some p \<Rightarrow> lane_environment_policy_hash p)"

definition registry_build :: "env_registry \<Rightarrow> string \<Rightarrow> str_dict \<Rightarrow> str_dict \<Rightarrow> child_environment_plan res" where
  "registry_build reg lane_id parent injected_env = (case map_of reg lane_id of
     None \<Rightarrow> Inl (EnvironmentContractError ''ENV_POLICY_LANE_UNKNOWN'')
   | Some p \<Rightarrow> build_child_environment parent injected_env p)"

subsection \<open>What a child environment holds\<close>

definition env_policy_ok :: "lane_environment_policy \<Rightarrow> bool" where
  "env_policy_ok p \<longleftrightarrow> validate_lane_environment_policy p = Inr ()"

lemma env_policy_okD:
  assumes "env_policy_ok p"
  shows "set (ep_inherit_keys p) \<inter> set (ep_inject_keys p) = {}"
    "set (ep_denied_keys p) \<inter> (set (ep_inherit_keys p) \<union> set (ep_inject_keys p)) = {}"
    "set (ep_secret_keys p) \<subseteq> set (ep_inject_keys p)"
    "k \<in> set (ep_inherit_keys p) \<Longrightarrow> \<not> looks_sensitive k"
    "k \<in> set (ep_inject_keys p) \<Longrightarrow> looks_sensitive k \<Longrightarrow> k \<in> set (ep_secret_keys p)"
    "distinct (ep_inherit_keys p)" "distinct (ep_inject_keys p)"
  using assms by (auto simp: env_policy_ok_def validate_lane_environment_policy_def Let_def list_ex_iff key_group_def
      split: if_splits)

lemma copy_keys_lookup:
  "map_of (copy_keys keys source child) k =
    (if k \<in> set keys \<and> map_of source k \<noteq> None then map_of source k else map_of child k)"
proof (induction keys arbitrary: child)
  case (Cons a keys)
  then show ?case
    by (cases "map_of source a") (auto simp: copy_keys_def update_conv')
qed (simp add: copy_keys_def)

lemma copy_keys_distinct: "distinct (map fst child) \<Longrightarrow> distinct (map fst (copy_keys keys source child))"
  by (induction keys arbitrary: child) (auto simp: copy_keys_def distinct_update split: option.split)

lemma set_sorted_meet [simp]: "set (sorted_meet xs ys) = set xs \<inter> set ys"
  by (auto simp: sorted_meet_def)

lemma policy_hash_unfold:
  "env_policy_ok p \<Longrightarrow> lane_environment_policy_hash p = Inr (json_digest (JObj (policy_payload p)))"
  by (simp add: lane_environment_policy_hash_def env_policy_ok_def)

lemma registry_ok_policy:
  "mk_env_registry reg = Inr reg \<Longrightarrow> map_of reg l = Some p \<Longrightarrow> env_policy_ok p \<and> ep_lane_id p = l"
  by (auto simp: mk_env_registry_def env_policy_ok_def dest!: map_of_SomeD split: if_splits)

lemma build_InrD:
  assumes "build_child_environment parent given p = Inr plan"
  shows "set (map fst given) \<subseteq> set (ep_inject_keys p)" "set (map fst given) \<inter> set (ep_denied_keys p) = {}"
    "cp_environment plan = copy_keys (ep_inject_keys p) given (copy_keys (ep_inherit_keys p) parent [])"
    "env_policy_ok p"
    "er_policy_hash (cp_receipt plan) = json_digest (JObj (policy_payload p))"
    "set (er_secret_key_names (cp_receipt plan)) =
       fst ` set (cp_environment plan) \<inter> set (ep_inject_keys p) \<inter> set (ep_secret_keys p)"
    "er_environment_key_count (cp_receipt plan) = length (cp_environment plan)" "er_lane_id (cp_receipt plan) = ep_lane_id p"
    "er_values_exposed (cp_receipt plan) = False"
  using assms unfolding build_child_environment_def lane_environment_policy_hash_def env_policy_ok_def Let_def
  by (auto split: if_splits simp: image_iff Bex_def)

lemma build_lookup:
  assumes "build_child_environment parent given p = Inr plan"
  shows "map_of (cp_environment plan) k =
    (if k \<in> set (ep_inherit_keys p) then map_of parent k else map_of given k)"
proof -
  note b = build_InrD [OF assms]
  have "k \<in> set (ep_inject_keys p)" if "map_of given k \<noteq> None"
    using b(1) that by (auto simp: map_of_eq_None_iff)
  then show ?thesis
    using env_policy_okD(1) [OF b(4)] unfolding b(3) copy_keys_lookup
    by (cases "map_of given k"; cases "k \<in> set (ep_inherit_keys p)") auto
qed

lemma payload_policy_inject: "policy_payload p = policy_payload q \<Longrightarrow> p = q"
  by (cases p; cases q) (simp add: policy_payload_def)

lemma policy_payload_flat: "flat_payload (policy_payload p)"
  by (simp add: flat_payload_def policy_payload_def)

lemma policy_payload_keys: "map fst (policy_payload p) = map fst (policy_payload q)"
  by (simp add: policy_payload_def)

lemma env_policy_error: "validate_lane_environment_policy p = Inl e \<Longrightarrow> \<exists>r. e = EnvironmentContractError r"
  by (auto simp: validate_lane_environment_policy_def Let_def key_group_def split: if_splits dest!: guards_Inl for_each_Inl)

lemma registry_build_error: "registry_build reg l parent given = Inl e \<Longrightarrow> \<exists>r. e = EnvironmentContractError r"
  by (auto simp: registry_build_def build_child_environment_def lane_environment_policy_hash_def Let_def
      split: option.splits if_splits dest: env_policy_error)

lemma registry_build_hash:
  "registry_build reg l parent given = Inr plan \<Longrightarrow> registry_policy_hash reg l = Inr (er_policy_hash (cp_receipt plan))"
  using policy_hash_unfold [OF build_InrD(4)] build_InrD(5)
  by (fastforce simp: registry_build_def registry_policy_hash_def split: option.splits)

subsection \<open>Properties\<close>

text \<open>
  C28. Secrets do not leak into children.  On every registry the constructor accepts, a child
  environment that is built holds, for each inherited key the parent's value, for every other key the
  injected value, and nothing else; a key that looks sensitive is never inherited from the parent, is
  listed by name in the receipt, and no denied key is present.
\<close>

theorem child_environment_isolated:
  assumes "mk_env_registry reg = Inr reg" "registry_build reg l parent given = Inr plan"
  shows "\<exists>p. map_of reg l = Some p \<and> ep_lane_id p = l \<and>
    map_of (cp_environment plan) = (\<lambda>k. if k \<in> set (ep_inherit_keys p) then map_of parent k else map_of given k) \<and>
    dom (map_of (cp_environment plan)) \<subseteq> set (ep_inherit_keys p) \<union> set (ep_inject_keys p) - set (ep_denied_keys p) \<and>
    {k \<in> dom (map_of (cp_environment plan)). looks_sensitive k}
      \<subseteq> dom (map_of given) \<inter> set (er_secret_key_names (cp_receipt plan)) - set (ep_inherit_keys p)"
proof -
  obtain p where p: "map_of reg l = Some p" "build_child_environment parent given p = Inr plan"
    using assms(2) by (auto simp: registry_build_def split: option.splits)
  note b = build_InrD [OF p(2)] and look = build_lookup [OF p(2)] and ok = env_policy_okD [OF build_InrD(4) [OF p(2)]]
  have given: "k \<in> set (ep_inject_keys p)" if "map_of given k \<noteq> None" for k
    using b(1) that by (auto simp: map_of_eq_None_iff)
  have keys: "k \<in> set (ep_inherit_keys p) \<union> set (ep_inject_keys p)" if "map_of (cp_environment plan) k \<noteq> None" for k
    using that given by (auto simp: look split: if_splits)
  have names: "k \<in> fst ` set (cp_environment plan)" if "map_of (cp_environment plan) k \<noteq> None" for k
    using that by (auto simp: map_of_eq_None_iff)
  have "k \<in> dom (map_of given) \<inter> set (er_secret_key_names (cp_receipt plan)) - set (ep_inherit_keys p)"
    if "map_of (cp_environment plan) k \<noteq> None" "looks_sensitive k" for k
  proof -
    have "k \<notin> set (ep_inherit_keys p)" using ok(4) that(2) by blast
    with that(1) have "map_of given k \<noteq> None" by (simp add: look)
    then show ?thesis
      using given ok(5) that names \<open>k \<notin> set (ep_inherit_keys p)\<close> unfolding b(6) by auto
  qed
  moreover have "map_of (cp_environment plan) = (\<lambda>k. if k \<in> set (ep_inherit_keys p) then map_of parent k else map_of given k)"
    using look by auto
  ultimately show ?thesis
    using p(1) registry_ok_policy [OF assms(1) p(1)] keys ok(2) by (intro exI [of _ p]) auto
qed

text \<open>
  The policy hash pins the policy: two policies of accepted registries with the same hash are
  equal, unless the two hashed texts are a SHA-256 collision.
\<close>

theorem policy_hash_binds:
  assumes "mk_env_registry reg = Inr reg" "mk_env_registry reg' = Inr reg'"
    and "registry_policy_hash reg l = Inr h" "registry_policy_hash reg' l' = Inr h"
    and "no_collision (JObj (policy_payload (the (map_of reg l)))) (JObj (policy_payload (the (map_of reg' l'))))"
  shows "map_of reg l \<noteq> None \<and> map_of reg l = map_of reg' l' \<and> l = l'"
proof -
  obtain p q where pq: "map_of reg l = Some p" "map_of reg' l' = Some q"
      "lane_environment_policy_hash p = Inr h" "lane_environment_policy_hash q = Inr h"
    using assms(3,4) by (auto simp: registry_policy_hash_def split: option.splits)
  have "json_digest (JObj (policy_payload p)) = json_digest (JObj (policy_payload q))"
    using pq(3,4) by (auto simp: lane_environment_policy_hash_def)
  then have "policy_payload p = policy_payload q"
    using assms(5) pq(1,2)
    by (intro digest_payload_inject) (simp_all add: policy_payload_flat policy_payload_keys [of p q])
  then show ?thesis
    using pq payload_policy_inject registry_ok_policy assms(1,2) by (metis option.distinct(1))
qed

subsection \<open>Witnesses\<close>

definition demo_env_policy :: lane_environment_policy where
  "demo_env_policy = \<lparr>ep_lane_id = ''lane:codegen'', ep_inherit_keys = [''PATH''], ep_inject_keys = [''LLM_API_KEY''],
     ep_denied_keys = [''BWS_ACCESS_TOKEN''], ep_secret_keys = [''LLM_API_KEY'']\<rparr>"

definition demo_env_registry :: env_registry where
  "demo_env_registry = [(''lane:codegen'', demo_env_policy)]"

lemma demo_env_registry_ok: "mk_env_registry demo_env_registry = Inr demo_env_registry"
  unfolding demo_env_registry_def demo_env_policy_def by code_simp

lemma demo_env_policy_valid: "env_policy_ok demo_env_policy"
  using registry_ok_policy [OF demo_env_registry_ok, of "''lane:codegen''" demo_env_policy]
  by (simp add: demo_env_registry_def)

lemma demo_env_hash:
  "registry_policy_hash demo_env_registry ''lane:codegen'' = Inr (json_digest (JObj (policy_payload demo_env_policy)))"
  using policy_hash_unfold [OF demo_env_policy_valid] by (simp add: registry_policy_hash_def demo_env_registry_def)

definition demo_parent :: str_dict where
  "demo_parent = [(''PATH'', ''/bin''), (''BWS_ACCESS_TOKEN'', ''s'')]"

lemma demo_env_build:
  "\<exists>plan. registry_build demo_env_registry ''lane:codegen'' demo_parent [(''LLM_API_KEY'', ''k'')] = Inr plan"
  using policy_hash_unfold [OF demo_env_policy_valid]
  by (simp add: registry_build_def demo_env_registry_def build_child_environment_def Let_def)
    (simp add: demo_env_policy_def)

theorem child_environment_isolated_witness:
  "\<exists>plan. registry_build demo_env_registry ''lane:codegen'' demo_parent [(''LLM_API_KEY'', ''k'')] = Inr plan \<and>
     ''BWS_ACCESS_TOKEN'' \<notin> dom (map_of (cp_environment plan))"
proof -
  obtain plan where plan: "registry_build demo_env_registry ''lane:codegen'' demo_parent [(''LLM_API_KEY'', ''k'')] = Inr plan"
    using demo_env_build by blast
  from child_environment_isolated [OF demo_env_registry_ok plan] show ?thesis
    using plan by (intro exI [of _ plan]) (auto simp: demo_env_registry_def demo_env_policy_def)
qed

theorem policy_hash_binds_witness:
  "map_of demo_env_registry ''lane:codegen'' \<noteq> None \<and>
     map_of demo_env_registry ''lane:codegen'' = map_of demo_env_registry ''lane:codegen'' \<and> ''lane:codegen'' = ''lane:codegen''"
  by (rule policy_hash_binds [OF demo_env_registry_ok demo_env_registry_ok demo_env_hash demo_env_hash]) simp

end
