(* ===== verification/Ledger.thy ===== *)
theory Ledger
  imports Prelude
begin

text \<open>
  \<^verbatim>\<open>core/runner_vnext_ledger.py\<close>: the append-only operation ledger.  The event table is the list of
  its rows in sequence order (newest last), a row being an event and its \<^verbatim>\<open>terminal\<close> column; the
  start table is a map keyed by its primary key.  The table's constraints (the two partial unique
  indexes, the CHECK on the fence and SQLite's 64-bit integers) are branches of \<open>ledger_insert\<close>.
  Column \<^verbatim>\<open>touched_resource_refs\<close> holds the list itself: the JSON text is written and read back
  only by this module.
\<close>

subsection \<open>Definitions\<close>

record operation_identity =
  op_operation_id :: string
  op_idempotency_key :: string
  op_target_state_ref :: string

record execution_start_evidence =
  se_identity :: operation_identity
  se_fence_token :: int
  se_execution_grant_hash :: string
  se_reservation_scope_hash :: string

datatype event_type = RESERVED | FENCE_REBOUND | COMPLETED | FAILED

fun event_type_text :: "event_type \<Rightarrow> string" where
  "event_type_text RESERVED = ''RESERVED''"
| "event_type_text FENCE_REBOUND = ''FENCE_REBOUND''"
| "event_type_text COMPLETED = ''COMPLETED''"
| "event_type_text FAILED = ''FAILED''"

record ledger_event =
  le_sequence :: int
  le_identity :: operation_identity
  le_event_type :: event_type
  le_fence_token :: int
  le_reason_code :: string
  le_touched_resource_refs :: "string list"
  le_before_state_ref :: "string option"
  le_after_state_ref :: "string option"
  le_validation_status :: "string option"
  le_external_dedupe_nonce :: "string option"
  le_reservation_scope_hash :: "string option"

type_synonym ledger_row = "ledger_event \<times> bool"

record operation_ledger =
  lg_rows :: "ledger_row list"
  lg_last_sequence :: int
  lg_starts :: "string \<rightharpoonup> execution_start_evidence"

text \<open>\<^verbatim>\<open>_initialize\<close> on a new database.\<close>

definition empty_ledger :: operation_ledger where
  "empty_ledger = \<lparr>lg_rows = [], lg_last_sequence = 0, lg_starts = Map.empty\<rparr>"

definition le_key :: "ledger_event \<Rightarrow> string" where
  "le_key e = op_idempotency_key (le_identity e)"

text \<open>The validators at the end of the module.\<close>

definition ledger_fence_check :: "int \<Rightarrow> unit res" where
  "ledger_fence_check f = raise_if (f < 1) (LedgerError ''FENCE_TOKEN_INVALID'')"

definition ledger_reason :: "string \<Rightarrow> unit res" where
  "ledger_reason v = raise_if (v = [] \<or> list_ex (\<lambda>ch. ch \<notin> set upper_digits_underscore) v)
     (LedgerError ''LEDGER_REASON_CODE_INVALID'')"

definition ledger_nonce :: "string option \<Rightarrow> unit res" where
  "ledger_nonce n = (case n of None \<Rightarrow> Inr () | Some v \<Rightarrow>
     raise_if (v = [] \<or> length v > 128 \<or> list_ex py_isspace v) (LedgerError ''EXTERNAL_DEDUPE_NONCE_INVALID''))"

definition ledger_ref_ok :: "string \<Rightarrow> bool" where
  "ledger_ref_ok r \<longleftrightarrow> \<not> (r = [] \<or> startswith_any [''/'', ''~''] r \<or> py_contains r [CHR 0x5C] \<or>
     py_contains r ''..'' \<or> \<not> py_contains r '':'')"

definition ledger_public_refs :: "string list \<Rightarrow> unit res" where
  "ledger_public_refs refs = check_all ledger_ref_ok (LedgerError ''PUBLIC_RESOURCE_REF_REQUIRED'') refs"

definition is_hash :: "string \<Rightarrow> bool" where
  "is_hash v \<longleftrightarrow> length v = 64 \<and> list_all (\<lambda>ch. ch \<in> set hex_lower) v"

definition ledger_scope_hash :: "string \<Rightarrow> unit res" where
  "ledger_scope_hash v = raise_if (\<not> is_hash v) (LedgerError ''RESERVATION_SCOPE_HASH_INVALID'')"

definition ledger_identity :: "operation_identity \<Rightarrow> unit res" where
  "ledger_identity i =
     (if op_operation_id i = [] \<or> op_idempotency_key i = [] \<or> op_target_state_ref i = []
      then Inl (LedgerError ''OPERATION_IDENTITY_REQUIRED'')
      else ledger_public_refs [op_target_state_ref i])"

text \<open>The queries.  \<open>ledger_latest\<close> orders by descending sequence.\<close>

definition ledger_reservation :: "string \<Rightarrow> operation_ledger \<Rightarrow> ledger_row option" where
  "ledger_reservation k s = find (\<lambda>(e, t). le_key e = k \<and> le_event_type e = RESERVED) (lg_rows s)"

definition ledger_start :: "string \<Rightarrow> operation_ledger \<Rightarrow> execution_start_evidence option" where
  "ledger_start k s = lg_starts s k"

definition ledger_terminal :: "string \<Rightarrow> operation_ledger \<Rightarrow> ledger_row option" where
  "ledger_terminal k s = find (\<lambda>(e, t). le_key e = k \<and> t) (lg_rows s)"

definition ledger_latest :: "string \<Rightarrow> operation_ledger \<Rightarrow> ledger_row res" where
  "ledger_latest k s = (case find (\<lambda>(e, t). le_key e = k) (rev (lg_rows s)) of
     None \<Rightarrow> Inl (LedgerError ''OPERATION_NOT_RESERVED'') | Some row \<Rightarrow> Inr row)"

definition current_fence_token :: "string \<Rightarrow> operation_ledger \<Rightarrow> int res" where
  "current_fence_token k s = rbind (ledger_latest k s) (\<lambda>row. Inr (le_fence_token (fst row)))"

text \<open>\<^verbatim>\<open>_event\<close> and \<^verbatim>\<open>_start_evidence\<close> on a fetched row.\<close>

definition event_of :: "ledger_row option \<Rightarrow> ledger_event res" where
  "event_of row = (case row of None \<Rightarrow> Inl (LedgerError ''LEDGER_EVENT_MISSING'') | Some r \<Rightarrow> Inr (fst r))"

definition start_evidence_of :: "execution_start_evidence option \<Rightarrow> execution_start_evidence res" where
  "start_evidence_of row = (case row of
     None \<Rightarrow> Inl (LedgerError ''EXECUTION_START_EVIDENCE_MISSING'') | Some r \<Rightarrow> Inr r)"

definition stored_scope_hash :: "string \<Rightarrow> operation_ledger \<Rightarrow> string res" where
  "stored_scope_hash k s = (case ledger_reservation k s of
     None \<Rightarrow> Inl (LedgerError ''RESERVATION_SCOPE_HASH_MISSING'')
   | Some (e, t) \<Rightarrow> (case le_reservation_scope_hash e of
        None \<Rightarrow> Inl (LedgerError ''RESERVATION_SCOPE_HASH_MISSING'')
      | Some h \<Rightarrow> if h = [] then Inl (LedgerError ''RESERVATION_SCOPE_HASH_MISSING'') else Inr h))"

definition require_identity :: "operation_identity \<Rightarrow> operation_ledger \<Rightarrow> unit res" where
  "require_identity i s = (case ledger_reservation (op_idempotency_key i) s of
     None \<Rightarrow> Inl (LedgerError ''OPERATION_NOT_RESERVED'')
   | Some row \<Rightarrow> raise_if (le_identity (fst row) \<noteq> i) (LedgerError ''IDEMPOTENCY_TARGET_STATE_MISMATCH''))"

text \<open>\<^verbatim>\<open>_insert\<close>; the sequence column is assigned by the table (AUTOINCREMENT).\<close>

definition ledger_insert :: "ledger_event \<Rightarrow> bool \<Rightarrow> (operation_ledger, unit) op" where
  "ledger_insert e terminal s =
     (if le_fence_token e \<ge> 2 ^ 63 then (Inl (OtherException ''OverflowError''), s)
      else if le_fence_token e \<le> 0 then (Inl IntegrityError, s)
      else if le_event_type e = RESERVED \<and> ledger_reservation (le_key e) s \<noteq> None then (Inl IntegrityError, s)
      else if terminal \<and> ledger_terminal (le_key e) s \<noteq> None then (Inl IntegrityError, s)
      else (Inr (), s\<lparr>lg_rows := lg_rows s @ [(e\<lparr>le_sequence := lg_last_sequence s + 1\<rparr>, terminal)],
                     lg_last_sequence := lg_last_sequence s + 1\<rparr>))"

abbreviation plain_event :: "operation_identity \<Rightarrow> event_type \<Rightarrow> int \<Rightarrow> string \<Rightarrow> string option \<Rightarrow> string option \<Rightarrow> ledger_event" where
  "plain_event i ty f reason nonce scope \<equiv>
     \<lparr>le_sequence = 0, le_identity = i, le_event_type = ty, le_fence_token = f, le_reason_code = reason,
      le_touched_resource_refs = [], le_before_state_ref = None, le_after_state_ref = None,
      le_validation_status = None, le_external_dedupe_nonce = nonce, le_reservation_scope_hash = scope\<rparr>"

definition ledger_reserve ::
    "operation_identity \<Rightarrow> int \<Rightarrow> string \<Rightarrow> string option \<Rightarrow> (operation_ledger, ledger_event) op" where
  "ledger_reserve i fence scope nonce =
     guarded (rbind (ledger_identity i) (\<lambda>_. rbind (ledger_fence_check fence) (\<lambda>_.
              rbind (ledger_scope_hash scope) (\<lambda>_. ledger_nonce nonce))))
       (\<lambda>_. transaction (\<lambda>s.
          case ledger_reservation (op_idempotency_key i) s of
            Some row \<Rightarrow>
              let event = fst row in
              if le_identity event \<noteq> i then (Inl (LedgerError ''IDEMPOTENCY_TARGET_STATE_MISMATCH''), s)
              else if le_external_dedupe_nonce event \<noteq> nonce
              then (Inl (LedgerError ''IDEMPOTENCY_DEDUPE_NONCE_MISMATCH''), s)
              else if le_reservation_scope_hash event \<noteq> Some scope
              then (Inl (LedgerError ''IDEMPOTENCY_SCOPE_HASH_MISMATCH''), s)
              else (Inr event, s)
          | None \<Rightarrow>
              sbind (ledger_insert (plain_event i RESERVED fence ''OPERATION_RESERVED'' nonce (Some scope)) False)
                (\<lambda>_ s. (event_of (ledger_reservation (op_idempotency_key i) s), s)) s))"

definition ledger_rebind_fence :: "operation_identity \<Rightarrow> int \<Rightarrow> int \<Rightarrow> (operation_ledger, ledger_event) op" where
  "ledger_rebind_fence i expected new =
     guarded (rbind (ledger_fence_check expected) (\<lambda>_. ledger_fence_check new))
       (\<lambda>_. transaction (\<lambda>s. let k = op_idempotency_key i in
          guarded (rbind (require_identity i s) (\<lambda>_.
              rbind (raise_if (ledger_terminal k s \<noteq> None) (LedgerError ''TERMINAL_OPERATION_IMMUTABLE'')) (\<lambda>_.
              rbind (raise_if (ledger_start k s \<noteq> None) (LedgerError ''OPERATION_STARTED_FENCE_IMMUTABLE'')) (\<lambda>_.
              rbind (current_fence_token k s) (\<lambda>current.
              rbind (raise_if (current \<noteq> expected) (LedgerError ''STALE_FENCE_TOKEN'')) (\<lambda>_.
              rbind (raise_if (new \<le> current) (LedgerError ''FENCE_TOKEN_NOT_MONOTONIC'')) (\<lambda>_.
              stored_scope_hash k s)))))))
            (\<lambda>scope. sbind (ledger_insert (plain_event i FENCE_REBOUND new ''OPERATION_FENCE_REBOUND'' None (Some scope)) False)
              (\<lambda>_ s. (rbind (ledger_latest k s) (\<lambda>row. event_of (Some row)), s))) s))"

definition ledger_mark_started ::
    "operation_identity \<Rightarrow> int \<Rightarrow> string \<Rightarrow> (operation_ledger, execution_start_evidence) op" where
  "ledger_mark_started i fence grant =
     guarded (rbind (ledger_fence_check fence) (\<lambda>_. ledger_scope_hash grant))
       (\<lambda>_. transaction (\<lambda>s. let k = op_idempotency_key i in
          guarded (rbind (require_identity i s) (\<lambda>_.
              rbind (raise_if (ledger_terminal k s \<noteq> None) (LedgerError ''TERMINAL_OPERATION_IMMUTABLE'')) (\<lambda>_.
              rbind (current_fence_token k s) (\<lambda>current.
              rbind (raise_if (current \<noteq> fence) (LedgerError ''STALE_FENCE_TOKEN'')) (\<lambda>_.
              stored_scope_hash k s)))))
            (\<lambda>scope s.
               let evidence = \<lparr>se_identity = i, se_fence_token = fence, se_execution_grant_hash = grant,
                 se_reservation_scope_hash = scope\<rparr>
               in case ledger_start k s of
                 Some existing \<Rightarrow>
                   if existing = evidence then (Inr existing, s)
                   else (Inl (LedgerError ''EXECUTION_START_EVIDENCE_MISMATCH''), s)
               | None \<Rightarrow>
                   (if fence \<ge> 2 ^ 63 then (Inl (OtherException ''OverflowError''), s)
                    else (let s' = s\<lparr>lg_starts := (lg_starts s)(k \<mapsto> evidence)\<rparr>
                          in (start_evidence_of (ledger_start k s'), s')))) s))"

definition started_event :: "string \<Rightarrow> operation_ledger \<Rightarrow> execution_start_evidence res" where
  "started_event k s = start_evidence_of (ledger_start k s)"

definition terminal_type :: "bool \<Rightarrow> event_type" where
  "terminal_type success = (if success then COMPLETED else FAILED)"

definition ledger_finish ::
    "operation_identity \<Rightarrow> int \<Rightarrow> bool \<Rightarrow> string \<Rightarrow> string list \<Rightarrow> string \<Rightarrow> string \<Rightarrow> string
      \<Rightarrow> (operation_ledger, ledger_event) op" where
  "ledger_finish i fence success reason touched before after status =
     guarded (rbind (ledger_fence_check fence) (\<lambda>_. rbind (ledger_reason reason) (\<lambda>_.
              rbind (ledger_public_refs touched) (\<lambda>_. rbind (ledger_public_refs [before, after]) (\<lambda>_.
              raise_if (status \<notin> {''PASS'', ''FAIL''}) (LedgerError ''LEDGER_VALIDATION_STATUS_INVALID''))))))
       (\<lambda>_. transaction (\<lambda>s. let k = op_idempotency_key i in
          guarded (require_identity i s) (\<lambda>_ s.
            case ledger_terminal k s of
              Some row \<Rightarrow>
                let existing = fst row in
                if le_fence_token existing = fence \<and> le_event_type existing = terminal_type success \<and>
                   le_reason_code existing = reason \<and> le_touched_resource_refs existing = touched \<and>
                   le_before_state_ref existing = Some before \<and> le_after_state_ref existing = Some after \<and>
                   le_validation_status existing = Some status
                then (Inr existing, s) else (Inl (LedgerError ''TERMINAL_RECEIPT_MISMATCH''), s)
            | None \<Rightarrow>
                guarded (rbind (current_fence_token k s) (\<lambda>current.
                    rbind (raise_if (current \<noteq> fence) (LedgerError ''STALE_FENCE_TOKEN'')) (\<lambda>_.
                    stored_scope_hash k s)))
                  (\<lambda>scope. sbind (ledger_insert \<lparr>le_sequence = 0, le_identity = i,
                       le_event_type = terminal_type success, le_fence_token = fence, le_reason_code = reason,
                       le_touched_resource_refs = touched, le_before_state_ref = Some before,
                       le_after_state_ref = Some after, le_validation_status = Some status,
                       le_external_dedupe_nonce = None, le_reservation_scope_hash = Some scope\<rparr> True)
                     (\<lambda>_ s. (event_of (ledger_terminal k s), s))) s) s))"

definition ledger_history :: "string \<Rightarrow> operation_ledger \<Rightarrow> ledger_event list" where
  "ledger_history k s = map fst (filter (\<lambda>(e, t). le_key e = k) (lg_rows s))"

definition reservation_event :: "string \<Rightarrow> operation_ledger \<Rightarrow> ledger_event res" where
  "reservation_event k s = event_of (ledger_reservation k s)"

definition ledger_status :: "string \<Rightarrow> operation_ledger \<Rightarrow> string option" where
  "ledger_status k s =
     (let events = ledger_history k s in
      if events = [] then None
      else let terminal = filter (\<lambda>e. le_event_type e \<in> {COMPLETED, FAILED}) events in
        if terminal \<noteq> [] then Some (event_type_text (le_event_type (last terminal)))
        else if ledger_start k s \<noteq> None then Some ''STARTED'' else Some ''RESERVED'')"

text \<open>The calls that write.\<close>

datatype ledger_call =
    Reserve operation_identity int string "string option"
  | RebindFence operation_identity int int
  | MarkStarted operation_identity int string
  | Finish operation_identity int bool string "string list" string string string

datatype ledger_reply = EventReply ledger_event | StartReply execution_start_evidence

definition reply :: "('a \<Rightarrow> 'b) \<Rightarrow> 'a res \<times> 's \<Rightarrow> 'b res \<times> 's" where
  "reply f = (\<lambda>(r, s). (map_sum id f r, s))"

fun ledger_exec :: "ledger_call \<Rightarrow> (operation_ledger, ledger_reply) op" where
  "ledger_exec (Reserve i f scope nonce) s = reply EventReply (ledger_reserve i f scope nonce s)"
| "ledger_exec (RebindFence i old new) s = reply EventReply (ledger_rebind_fence i old new s)"
| "ledger_exec (MarkStarted i f grant) s = reply StartReply (ledger_mark_started i f grant s)"
| "ledger_exec (Finish i f ok reason touched bef aft status) s =
     reply EventReply (ledger_finish i f ok reason touched bef aft status s)"

subsection \<open>What the ledger promises: one entry per idempotency key\<close>

text \<open>
  The abstract ledger maps an idempotency key to the state of its one operation: who reserved it,
  for which scope, the fence token in force, the execution grant once it has started and the
  receipt once it has finished.  \<open>entry_step\<close> is the whole protocol on such an entry.
\<close>

record terminal_receipt =
  tr_fence :: int
  tr_type :: event_type
  tr_reason :: string
  tr_touched :: "string list"
  tr_before :: "string option"
  tr_after :: "string option"
  tr_validation :: "string option"

record op_entry =
  en_identity :: operation_identity
  en_scope :: "string option"
  en_nonce :: "string option"
  en_fence :: int
  en_grant :: "string option"
  en_receipt :: "terminal_receipt option"

definition call_identity :: "ledger_call \<Rightarrow> operation_identity" where
  "call_identity c = (case c of Reserve i f sc n \<Rightarrow> i | RebindFence i f g \<Rightarrow> i | MarkStarted i f g \<Rightarrow> i
     | Finish i f ok r tc b a st \<Rightarrow> i)"

abbreviation call_key :: "ledger_call \<Rightarrow> string" where
  "call_key c \<equiv> op_idempotency_key (call_identity c)"

text \<open>The argument checks made before the transaction.\<close>

fun call_check :: "ledger_call \<Rightarrow> unit res" where
  "call_check (Reserve i f sc n) = rbind (ledger_identity i) (\<lambda>_. rbind (ledger_fence_check f) (\<lambda>_.
     rbind (ledger_scope_hash sc) (\<lambda>_. ledger_nonce n)))"
| "call_check (RebindFence i f g) = rbind (ledger_fence_check f) (\<lambda>_. ledger_fence_check g)"
| "call_check (MarkStarted i f g) = rbind (ledger_fence_check f) (\<lambda>_. ledger_scope_hash g)"
| "call_check (Finish i f ok r tc b a st) = rbind (ledger_fence_check f) (\<lambda>_. rbind (ledger_reason r) (\<lambda>_.
     rbind (ledger_public_refs tc) (\<lambda>_. rbind (ledger_public_refs [b, a]) (\<lambda>_.
     raise_if (st \<notin> {''PASS'', ''FAIL''}) (LedgerError ''LEDGER_VALIDATION_STATUS_INVALID'')))))"

definition call_receipt :: "ledger_call \<Rightarrow> terminal_receipt option" where
  "call_receipt c = (case c of Finish i f ok r tc b a st \<Rightarrow>
     Some \<lparr>tr_fence = f, tr_type = terminal_type ok, tr_reason = r, tr_touched = tc, tr_before = Some b,
       tr_after = Some a, tr_validation = Some st\<rparr> | _ \<Rightarrow> None)"

definition known_entry :: "operation_identity \<Rightarrow> op_entry option \<Rightarrow> op_entry res" where
  "known_entry i en = (case en of None \<Rightarrow> Inl (LedgerError ''OPERATION_NOT_RESERVED'')
     | Some x \<Rightarrow> if en_identity x = i then Inr x else Inl (LedgerError ''IDEMPOTENCY_TARGET_STATE_MISMATCH''))"

fun entry_step :: "ledger_call \<Rightarrow> op_entry option \<Rightarrow> op_entry res" where
  "entry_step (Reserve i f sc n) None =
     (if f \<ge> 2 ^ 63 then Inl (OtherException ''OverflowError'')
      else Inr \<lparr>en_identity = i, en_scope = Some sc, en_nonce = n, en_fence = f, en_grant = None, en_receipt = None\<rparr>)"
| "entry_step (Reserve i f sc n) (Some x) =
     (if en_identity x \<noteq> i then Inl (LedgerError ''IDEMPOTENCY_TARGET_STATE_MISMATCH'')
      else if en_nonce x \<noteq> n then Inl (LedgerError ''IDEMPOTENCY_DEDUPE_NONCE_MISMATCH'')
      else if en_scope x \<noteq> Some sc then Inl (LedgerError ''IDEMPOTENCY_SCOPE_HASH_MISMATCH'')
      else Inr x)"
| "entry_step (RebindFence i f g) en = rbind (known_entry i en) (\<lambda>x.
     if en_receipt x \<noteq> None then Inl (LedgerError ''TERMINAL_OPERATION_IMMUTABLE'')
     else if en_grant x \<noteq> None then Inl (LedgerError ''OPERATION_STARTED_FENCE_IMMUTABLE'')
     else if en_fence x \<noteq> f then Inl (LedgerError ''STALE_FENCE_TOKEN'')
     else if g \<le> en_fence x then Inl (LedgerError ''FENCE_TOKEN_NOT_MONOTONIC'')
     else if g \<ge> 2 ^ 63 then Inl (OtherException ''OverflowError'')
     else Inr (x\<lparr>en_fence := g\<rparr>))"
| "entry_step (MarkStarted i f g) en = rbind (known_entry i en) (\<lambda>x.
     if en_receipt x \<noteq> None then Inl (LedgerError ''TERMINAL_OPERATION_IMMUTABLE'')
     else if en_fence x \<noteq> f then Inl (LedgerError ''STALE_FENCE_TOKEN'')
     else if en_grant x \<notin> {None, Some g} then Inl (LedgerError ''EXECUTION_START_EVIDENCE_MISMATCH'')
     else Inr (x\<lparr>en_grant := Some g\<rparr>))"
| "entry_step (Finish i f ok r tc b a st) en = rbind (known_entry i en) (\<lambda>x.
     if en_receipt x \<noteq> None then
       (if en_receipt x = call_receipt (Finish i f ok r tc b a st) then Inr x
        else Inl (LedgerError ''TERMINAL_RECEIPT_MISMATCH''))
     else if en_fence x \<noteq> f then Inl (LedgerError ''STALE_FENCE_TOKEN'')
     else Inr (x\<lparr>en_receipt := call_receipt (Finish i f ok r tc b a st)\<rparr>))"

definition receipt_of :: "ledger_event \<Rightarrow> terminal_receipt" where
  "receipt_of e = \<lparr>tr_fence = le_fence_token e, tr_type = le_event_type e, tr_reason = le_reason_code e,
     tr_touched = le_touched_resource_refs e, tr_before = le_before_state_ref e, tr_after = le_after_state_ref e,
     tr_validation = le_validation_status e\<rparr>"

text \<open>The entry the tables represent.\<close>

definition ledger_entry :: "operation_ledger \<Rightarrow> string \<Rightarrow> op_entry option" where
  "ledger_entry s k = map_option (\<lambda>row. \<lparr>en_identity = le_identity (fst row),
     en_scope = le_reservation_scope_hash (fst row), en_nonce = le_external_dedupe_nonce (fst row),
     en_fence = (case current_fence_token k s of Inl e \<Rightarrow> 0 | Inr f \<Rightarrow> f),
     en_grant = map_option se_execution_grant_hash (ledger_start k s),
     en_receipt = map_option (\<lambda>r. receipt_of (fst r)) (ledger_terminal k s)\<rparr>) (ledger_reservation k s)"

text \<open>The table invariant.\<close>

definition key_rows_ok :: "operation_ledger \<Rightarrow> string \<Rightarrow> bool" where
  "key_rows_ok s k \<longleftrightarrow> (case ledger_reservation k s of
     None \<Rightarrow> (\<forall>row\<in>set (lg_rows s). le_key (fst row) \<noteq> k) \<and> ledger_start k s = None
   | Some r \<Rightarrow>
       (\<exists>h. le_reservation_scope_hash (fst r) = Some h \<and> is_hash h) \<and>
       (\<exists>l. ledger_latest k s = Inr l \<and> le_fence_token (fst r) \<le> le_fence_token (fst l)) \<and>
       (\<forall>t. ledger_terminal k s = Some t \<longrightarrow> ledger_latest k s = Inr t) \<and>
       (\<forall>st. ledger_start k s = Some st \<longrightarrow> se_identity st = le_identity (fst r) \<and>
          current_fence_token k s = Inr (se_fence_token st) \<and>
          le_reservation_scope_hash (fst r) = Some (se_reservation_scope_hash st)))"

definition row_ok :: "ledger_row \<Rightarrow> bool" where
  "row_ok row \<longleftrightarrow> snd row = (le_event_type (fst row) \<in> {COMPLETED, FAILED}) \<and>
     1 \<le> le_fence_token (fst row) \<and> le_fence_token (fst row) < 2 ^ 63"

definition ledger_ok :: "operation_ledger \<Rightarrow> bool" where
  "ledger_ok s \<longleftrightarrow> (\<forall>k. key_rows_ok s k) \<and> (\<forall>row\<in>set (lg_rows s). row_ok row) \<and>
     lg_last_sequence s = int (length (lg_rows s)) \<and>
     map (\<lambda>row. le_sequence (fst row)) (lg_rows s) = [1..int (length (lg_rows s))]"

inductive ledger_reachable :: "operation_ledger \<Rightarrow> bool" where
  ledger_init: "ledger_reachable empty_ledger"
| ledger_call: "ledger_reachable s \<Longrightarrow> ledger_reachable (snd (ledger_exec c s))"

subsection \<open>The queries after an insert\<close>

interpretation ledger_ref: relative_ref_guard ledger_ref_ok
  by unfold_locales (auto simp: ledger_ref_ok_def startswith_any_def prefix_singleton)

definition appended :: "ledger_event \<Rightarrow> bool \<Rightarrow> operation_ledger \<Rightarrow> operation_ledger" where
  "appended e t s = s\<lparr>lg_rows := lg_rows s @ [(e\<lparr>le_sequence := lg_last_sequence s + 1\<rparr>, t)],
     lg_last_sequence := lg_last_sequence s + 1\<rparr>"

abbreviation numbered :: "ledger_event \<Rightarrow> operation_ledger \<Rightarrow> ledger_event" where
  "numbered e s \<equiv> e\<lparr>le_sequence := lg_last_sequence s + 1\<rparr>"

lemma le_key_numbered [simp]: "le_key (e\<lparr>le_sequence := n\<rparr>) = le_key e"
  by (simp add: le_key_def)

lemma ledger_insert_cases:
  "ledger_insert e t s =
    (if le_fence_token e \<ge> 2 ^ 63 then (Inl (OtherException ''OverflowError''), s)
     else if le_fence_token e \<le> 0 \<or> le_event_type e = RESERVED \<and> ledger_reservation (le_key e) s \<noteq> None
       \<or> t \<and> ledger_terminal (le_key e) s \<noteq> None then (Inl IntegrityError, s)
     else (Inr (), appended e t s))"
  unfolding ledger_insert_def appended_def by (simp only: if_splits simp_thms) meson

lemma reservation_appended:
  "ledger_reservation k (appended e t s) =
    (case ledger_reservation k s of Some r \<Rightarrow> Some r
     | None \<Rightarrow> if le_key e = k \<and> le_event_type e = RESERVED then Some (numbered e s, t) else None)"
  by (simp add: ledger_reservation_def appended_def find_append split: option.splits)

lemma terminal_appended:
  "ledger_terminal k (appended e t s) =
    (case ledger_terminal k s of Some r \<Rightarrow> Some r
     | None \<Rightarrow> if le_key e = k \<and> t then Some (numbered e s, t) else None)"
  by (simp add: ledger_terminal_def appended_def find_append split: option.splits)

lemma latest_appended:
  "ledger_latest k (appended e t s) = (if le_key e = k then Inr (numbered e s, t) else ledger_latest k s)"
  by (simp add: ledger_latest_def appended_def)

lemma start_appended [simp]: "ledger_start k (appended e t s) = ledger_start k s"
  by (simp add: ledger_start_def appended_def)

lemma rows_appended [simp]: "lg_rows (appended e t s) = lg_rows s @ [(numbered e s, t)]"
  by (simp add: appended_def)

lemmas query_appended = reservation_appended terminal_appended latest_appended

lemma query_starts [simp]:
  "ledger_reservation k (s\<lparr>lg_starts := m\<rparr>) = ledger_reservation k s"
  "ledger_terminal k (s\<lparr>lg_starts := m\<rparr>) = ledger_terminal k s"
  "ledger_latest k (s\<lparr>lg_starts := m\<rparr>) = ledger_latest k s"
  "ledger_start k (s\<lparr>lg_starts := m\<rparr>) = m k"
  by (simp_all add: ledger_reservation_def ledger_terminal_def ledger_latest_def ledger_start_def)

lemma reservation_SomeD:
  "ledger_reservation k s = Some r \<Longrightarrow> r \<in> set (lg_rows s) \<and> le_key (fst r) = k \<and> le_event_type (fst r) = RESERVED"
  by (auto simp: ledger_reservation_def dest: find_SomeD)

lemma terminal_SomeD: "ledger_terminal k s = Some r \<Longrightarrow> r \<in> set (lg_rows s) \<and> le_key (fst r) = k \<and> snd r"
  by (auto simp: ledger_terminal_def dest: find_SomeD)

lemma latest_InrD: "ledger_latest k s = Inr r \<Longrightarrow> r \<in> set (lg_rows s) \<and> le_key (fst r) = k"
  by (auto simp: ledger_latest_def dest: find_SomeD split: option.splits)

lemma terminal_NoneI: "(\<And>row. row \<in> set (lg_rows s) \<Longrightarrow> le_key (fst row) \<noteq> k) \<Longrightarrow> ledger_terminal k s = None"
  unfolding ledger_terminal_def find_None_iff_all by fastforce

lemma current_fence_latest: "ledger_latest k s = Inr l \<Longrightarrow> current_fence_token k s = Inr (le_fence_token (fst l))"
  by (simp add: current_fence_token_def)

subsection \<open>Consequences of the invariant for one key\<close>

lemma ok_key: "ledger_ok s \<Longrightarrow> key_rows_ok s k"
  by (simp add: ledger_ok_def)

lemma ok_row: "ledger_ok s \<Longrightarrow> row \<in> set (lg_rows s) \<Longrightarrow> row_ok row"
  by (simp add: ledger_ok_def)

lemma ok_absent:
  assumes "ledger_ok s" "ledger_reservation k s = None"
  shows "ledger_terminal k s = None" "ledger_start k s = None" "\<forall>row\<in>set (lg_rows s). le_key (fst row) \<noteq> k"
  using ok_key [OF assms(1), of k] assms(2) by (auto simp: key_rows_ok_def intro: terminal_NoneI)

lemma ok_present:
  assumes "ledger_ok s" "ledger_reservation k s = Some r"
  obtains h l where "le_reservation_scope_hash (fst r) = Some h" "is_hash h" "h \<noteq> []" "ledger_latest k s = Inr l"
    "le_fence_token (fst r) \<le> le_fence_token (fst l)" "1 \<le> le_fence_token (fst l)"
    "le_fence_token (fst l) < 2 ^ 63"
    "current_fence_token k s = Inr (le_fence_token (fst l))" "stored_scope_hash k s = Inr h"
    "le_key (fst r) = k"
proof -
  obtain h l where h: "le_reservation_scope_hash (fst r) = Some h" "is_hash h"
      and l: "ledger_latest k s = Inr l" "le_fence_token (fst r) \<le> le_fence_token (fst l)"
    using ok_key [OF assms(1), of k] assms(2) by (auto simp: key_rows_ok_def)
  have "row_ok l"
    using ok_row [OF assms(1)] latest_InrD [OF l(1)] by blast
  then have "1 \<le> le_fence_token (fst l)" "le_fence_token (fst l) < 2 ^ 63"
    by (simp_all add: row_ok_def)
  moreover have "h \<noteq> []"
    using h(2) by (auto simp: is_hash_def)
  moreover from this have "stored_scope_hash k s = Inr h"
    using assms(2) h(1) by (cases r) (simp add: stored_scope_hash_def)
  ultimately show thesis
    using that h l reservation_SomeD [OF assms(2)] current_fence_latest by blast
qed

lemma ok_started:
  assumes "ledger_ok s" "ledger_reservation k s = Some r" "ledger_start k s = Some st"
  shows "se_identity st = le_identity (fst r)" "current_fence_token k s = Inr (se_fence_token st)"
    "le_reservation_scope_hash (fst r) = Some (se_reservation_scope_hash st)"
  using ok_key [OF assms(1), of k] assms(2,3) by (auto simp: key_rows_ok_def)

lemma ok_terminal:
  assumes "ledger_ok s" "ledger_terminal k s = Some t"
  shows "ledger_latest k s = Inr t" "row_ok t" "le_event_type (fst t) \<in> {COMPLETED, FAILED}"
proof -
  show "ledger_latest k s = Inr t"
    using ok_key [OF assms(1), of k] ok_absent(1) [OF assms(1), of k] assms(2)
    by (auto simp: key_rows_ok_def split: option.splits)
  show "row_ok t"
    using ok_row [OF assms(1)] terminal_SomeD [OF assms(2)] by blast
  then show "le_event_type (fst t) \<in> {COMPLETED, FAILED}"
    using terminal_SomeD [OF assms(2)] by (simp add: row_ok_def)
qed

subsection \<open>Each call in terms of its entry\<close>

lemma entry_None: "ledger_entry s k = None \<longleftrightarrow> ledger_reservation k s = None"
  by (simp add: ledger_entry_def)

lemma entry_Some:
  assumes "ledger_ok s" "ledger_reservation k s = Some r" "ledger_latest k s = Inr l"
  shows "ledger_entry s k = Some \<lparr>en_identity = le_identity (fst r),
     en_scope = le_reservation_scope_hash (fst r), en_nonce = le_external_dedupe_nonce (fst r),
     en_fence = le_fence_token (fst l),
     en_grant = map_option se_execution_grant_hash (ledger_start k s),
     en_receipt = map_option (\<lambda>r. receipt_of (fst r)) (ledger_terminal k s)\<rparr>"
  using assms by (simp add: ledger_entry_def current_fence_latest)

abbreviation reserved_event :: "operation_identity \<Rightarrow> int \<Rightarrow> string \<Rightarrow> string option \<Rightarrow> ledger_event" where
  "reserved_event i f sc n \<equiv> plain_event i RESERVED f ''OPERATION_RESERVED'' n (Some sc)"

lemma call_check_fence: "call_check c = Inr () \<Longrightarrow> c = Reserve i f sc n \<Longrightarrow> 1 \<le> f"
  by (auto simp: ledger_fence_check_def)

lemma reserve_cases:
  assumes ok: "ledger_ok s" and args: "call_check (Reserve i f sc n) = Inr ()"
  shows "ledger_reserve i f sc n s =
    (case entry_step (Reserve i f sc n) (ledger_entry s (op_idempotency_key i)) of
       Inl e \<Rightarrow> (Inl e, s)
     | Inr en \<Rightarrow> (case ledger_reservation (op_idempotency_key i) s of
          Some r \<Rightarrow> (Inr (fst r), s)
        | None \<Rightarrow> (Inr (numbered (reserved_event i f sc n) s), appended (reserved_event i f sc n) False s)))"
proof (cases "ledger_reservation (op_idempotency_key i) s")
  case None
  then show ?thesis
    using args
    by (auto simp: ledger_reserve_def guarded_def transaction_def sbind_def ledger_insert_cases ledger_entry_def
        le_key_def reservation_appended event_of_def ledger_fence_check_def)
next
  case (Some r)
  obtain l where "ledger_latest (op_idempotency_key i) s = Inr l"
    using ok_present [OF ok Some] by metis
  then show ?thesis
    using args Some entry_Some [OF ok Some]
    by (auto simp: ledger_reserve_def transaction_def Let_def)
qed

lemma require_identity_known:
  "require_identity i s = map_sum id (\<lambda>_. ()) (known_entry i (ledger_entry s (op_idempotency_key i)))"
  by (auto simp: require_identity_def known_entry_def ledger_entry_def raise_if_def split: option.splits)

abbreviation rebound_event :: "operation_identity \<Rightarrow> int \<Rightarrow> string \<Rightarrow> ledger_event" where
  "rebound_event i f sc \<equiv> plain_event i FENCE_REBOUND f ''OPERATION_FENCE_REBOUND'' None (Some sc)"

abbreviation finished_event :: "ledger_call \<Rightarrow> string \<Rightarrow> ledger_event" where
  "finished_event c sc \<equiv> (case call_receipt c of Some r \<Rightarrow>
     \<lparr>le_sequence = 0, le_identity = call_identity c, le_event_type = tr_type r, le_fence_token = tr_fence r,
      le_reason_code = tr_reason r, le_touched_resource_refs = tr_touched r, le_before_state_ref = tr_before r,
      le_after_state_ref = tr_after r, le_validation_status = tr_validation r,
      le_external_dedupe_nonce = None, le_reservation_scope_hash = Some sc\<rparr>)"

text \<open>A call on a key that is not reserved, or reserved by another identity, is refused.\<close>

lemma unknown_refused:
  assumes "known_entry i (ledger_entry s (op_idempotency_key i)) = Inl e"
  shows "call_check (RebindFence i f g) = Inr () \<Longrightarrow> ledger_rebind_fence i f g s = (Inl e, s)"
    and "call_check (MarkStarted i f sc) = Inr () \<Longrightarrow> ledger_mark_started i f sc s = (Inl e, s)"
    and "call_check (Finish i f ok r tc b a st) = Inr () \<Longrightarrow> ledger_finish i f ok r tc b a st s = (Inl e, s)"
  using assms
  by (simp_all add: ledger_rebind_fence_def ledger_mark_started_def ledger_finish_def transaction_def
      require_identity_known Let_def)

lemma known_entryD:
  assumes "ledger_ok s" "known_entry i (ledger_entry s (op_idempotency_key i)) = Inr x"
  obtains r h l where "ledger_reservation (op_idempotency_key i) s = Some r" "le_identity (fst r) = i"
    "ledger_latest (op_idempotency_key i) s = Inr l" "en_identity x = i" "en_fence x = le_fence_token (fst l)"
    "1 \<le> en_fence x" "en_fence x < 2 ^ 63" "en_scope x = Some h"
    "current_fence_token (op_idempotency_key i) s = Inr (en_fence x)"
    "stored_scope_hash (op_idempotency_key i) s = Inr h" "en_nonce x = le_external_dedupe_nonce (fst r)"
    "ledger_entry s (op_idempotency_key i) = Some x" "require_identity i s = Inr ()"
    "le_reservation_scope_hash (fst r) = Some h" "is_hash h"
    "en_grant x = map_option se_execution_grant_hash (ledger_start (op_idempotency_key i) s)"
    "en_receipt x = map_option (\<lambda>r. receipt_of (fst r)) (ledger_terminal (op_idempotency_key i) s)"
proof -
  obtain r where r: "ledger_reservation (op_idempotency_key i) s = Some r"
    using assms(2) by (auto simp: known_entry_def ledger_entry_def split: option.splits)
  obtain h l where hl: "le_reservation_scope_hash (fst r) = Some h" "is_hash h"
      "ledger_latest (op_idempotency_key i) s = Inr l" "1 \<le> le_fence_token (fst l)" "le_fence_token (fst l) < 2 ^ 63"
      "current_fence_token (op_idempotency_key i) s = Inr (le_fence_token (fst l))"
      "stored_scope_hash (op_idempotency_key i) s = Inr h"
    using ok_present [OF assms(1) r] by metis
  note en = entry_Some [OF assms(1) r hl(3)]
  show thesis
    using assms(2) en hl r
    by (intro that [of r l h]) (auto simp: known_entry_def require_identity_known split: if_splits)
qed

lemma known_facts:
  assumes "ledger_ok s" "known_entry i (ledger_entry s (op_idempotency_key i)) = Inr x"
  shows "\<exists>h. 1 \<le> en_fence x \<and> en_fence x < 2 ^ 63 \<and> en_scope x = Some h \<and>
    current_fence_token (op_idempotency_key i) s = Inr (en_fence x) \<and>
    stored_scope_hash (op_idempotency_key i) s = Inr h \<and> require_identity i s = Inr () \<and>
    en_grant x = map_option se_execution_grant_hash (ledger_start (op_idempotency_key i) s) \<and>
    en_receipt x = map_option (\<lambda>r. receipt_of (fst r)) (ledger_terminal (op_idempotency_key i) s)"
  using known_entryD [OF assms] by metis

lemma rebind_cases:
  assumes ok: "ledger_ok s" and args: "call_check (RebindFence i f g) = Inr ()"
  shows "ledger_rebind_fence i f g s =
    (case entry_step (RebindFence i f g) (ledger_entry s (op_idempotency_key i)) of
       Inl e \<Rightarrow> (Inl e, s)
     | Inr en \<Rightarrow> (Inr (numbered (rebound_event i g (the (en_scope en))) s),
                appended (rebound_event i g (the (en_scope en))) False s))"
proof (cases "known_entry i (ledger_entry s (op_idempotency_key i))")
  case (Inl e)
  then show ?thesis using unknown_refused(1) args by simp
next
  case (Inr x)
  from known_facts [OF ok Inr] obtain h where x: "1 \<le> en_fence x" "en_fence x < 2 ^ 63" "en_scope x = Some h"
      "current_fence_token (op_idempotency_key i) s = Inr (en_fence x)"
      "stored_scope_hash (op_idempotency_key i) s = Inr h" "require_identity i s = Inr ()"
      "en_grant x = map_option se_execution_grant_hash (ledger_start (op_idempotency_key i) s)"
      "en_receipt x = map_option (\<lambda>r. receipt_of (fst r)) (ledger_terminal (op_idempotency_key i) s)"
    by blast
  show ?thesis
  proof (cases "ledger_terminal (op_idempotency_key i) s = None \<and> ledger_start (op_idempotency_key i) s = None \<and>
      en_fence x = f \<and> en_fence x < g")
    case True
    then show ?thesis
      using Inr args x
      by (simp add: ledger_rebind_fence_def transaction_def guarded_def raise_if_def sbind_def ledger_insert_cases
          latest_appended le_key_def event_of_def)
  next
    case False
    then show ?thesis
      using Inr args x
      by (auto simp: ledger_rebind_fence_def transaction_def guarded_def raise_if_def)
  qed
qed

lemma mark_started_cases:
  assumes ok: "ledger_ok s" and args: "call_check (MarkStarted i f g) = Inr ()"
  shows "ledger_mark_started i f g s =
    (case entry_step (MarkStarted i f g) (ledger_entry s (op_idempotency_key i)) of
       Inl e \<Rightarrow> (Inl e, s)
     | Inr en \<Rightarrow>
         (let ev = \<lparr>se_identity = i, se_fence_token = f, se_execution_grant_hash = g,
            se_reservation_scope_hash = the (en_scope en)\<rparr>
          in (Inr ev, s\<lparr>lg_starts := (lg_starts s)(op_idempotency_key i \<mapsto> ev)\<rparr>)))"
proof (cases "known_entry i (ledger_entry s (op_idempotency_key i))")
  case (Inl e)
  then show ?thesis using unknown_refused(2) args by simp
next
  case (Inr x)
  from known_entryD [OF ok Inr] obtain r h where r: "ledger_reservation (op_idempotency_key i) s = Some r"
      "le_identity (fst r) = i" "en_fence x < 2 ^ 63" "en_scope x = Some h"
      "current_fence_token (op_idempotency_key i) s = Inr (en_fence x)"
      "stored_scope_hash (op_idempotency_key i) s = Inr h" "require_identity i s = Inr ()"
      "le_reservation_scope_hash (fst r) = Some h"
      "en_grant x = map_option se_execution_grant_hash (ledger_start (op_idempotency_key i) s)"
      "en_receipt x = map_option (\<lambda>r. receipt_of (fst r)) (ledger_terminal (op_idempotency_key i) s)"
    by metis
  show ?thesis
  proof (cases "ledger_start (op_idempotency_key i) s")
    case None
    then show ?thesis
      using Inr args r
      by (auto simp: ledger_mark_started_def transaction_def guarded_def raise_if_def Let_def start_evidence_of_def)
  next
    case (Some st)
    have "se_identity st = i" "se_fence_token st = en_fence x" "se_reservation_scope_hash st = h"
      using ok_started [OF ok r(1) Some] r by auto
    moreover have "(lg_starts s)(op_idempotency_key i \<mapsto> st) = lg_starts s"
      using Some by (auto simp: ledger_start_def)
    ultimately show ?thesis
      using Inr args r Some
      by (cases st) (auto simp: ledger_mark_started_def transaction_def guarded_def raise_if_def Let_def)
  qed
qed

lemma finish_cases:
  fixes i f ok' reason tc b a st
  defines "c \<equiv> Finish i f ok' reason tc b a st"
  assumes ok: "ledger_ok s" and args: "call_check c = Inr ()"
  shows "ledger_finish i f ok' reason tc b a st s =
    (case entry_step c (ledger_entry s (op_idempotency_key i)) of
       Inl e \<Rightarrow> (Inl e, s)
     | Inr en \<Rightarrow> (case ledger_terminal (op_idempotency_key i) s of
          Some t \<Rightarrow> (Inr (fst t), s)
        | None \<Rightarrow> (Inr (numbered (finished_event c (the (en_scope en))) s),
                   appended (finished_event c (the (en_scope en))) True s)))"
proof (cases "known_entry i (ledger_entry s (op_idempotency_key i))")
  case (Inl e)
  then show ?thesis using unknown_refused(3) args by (simp add: c_def)
next
  case (Inr x)
  from known_facts [OF ok Inr] obtain h where x: "1 \<le> en_fence x" "en_fence x < 2 ^ 63" "en_scope x = Some h"
      "current_fence_token (op_idempotency_key i) s = Inr (en_fence x)"
      "stored_scope_hash (op_idempotency_key i) s = Inr h" "require_identity i s = Inr ()"
      "en_receipt x = map_option (\<lambda>r. receipt_of (fst r)) (ledger_terminal (op_idempotency_key i) s)"
    by blast
  show ?thesis
  proof (cases "ledger_terminal (op_idempotency_key i) s")
    case (Some t)
    then show ?thesis
      using Inr args x
      by (auto simp: c_def ledger_finish_def transaction_def guarded_def Let_def call_receipt_def receipt_of_def)
  next
    case None
    show ?thesis
    proof (cases "en_fence x = f")
      case True
      then show ?thesis
        using Inr args x None
        by (simp add: c_def ledger_finish_def transaction_def guarded_def Let_def call_receipt_def
            sbind_def ledger_insert_cases le_key_def terminal_appended event_of_def call_identity_def terminal_type_def)
    next
      case False
      then show ?thesis
        using Inr args x None
        by (simp add: c_def ledger_finish_def transaction_def guarded_def Let_def)
    qed
  qed
qed

subsection \<open>The table invariant\<close>

lemma empty_ledger_ok: "ledger_ok empty_ledger"
  by (simp add: ledger_ok_def empty_ledger_def key_rows_ok_def ledger_reservation_def ledger_start_def)

lemma other_key_rows:
  assumes "key_rows_ok s k" "le_key e \<noteq> k"
  shows "key_rows_ok (appended e t s) k"
  using assms
  by (auto simp: key_rows_ok_def query_appended current_fence_token_def split: option.splits)

lemma fresh_key_rows:
  assumes ok: "ledger_ok s" and "ledger_reservation (le_key e) s = None" "le_event_type e = RESERVED"
    "le_reservation_scope_hash e = Some h" "is_hash h"
  shows "key_rows_ok (appended e False s) (le_key e)"
  using assms ok_absent [OF ok] by (simp add: key_rows_ok_def query_appended)

lemma key_rows_okI:
  assumes "ledger_reservation k s = Some r" "le_reservation_scope_hash (fst r) = Some h" "is_hash h"
    "ledger_latest k s = Inr l" "le_fence_token (fst r) \<le> le_fence_token (fst l)"
    "\<And>t. ledger_terminal k s = Some t \<Longrightarrow> t = l"
    "\<And>st. ledger_start k s = Some st \<Longrightarrow> se_identity st = le_identity (fst r) \<and>
       se_fence_token st = le_fence_token (fst l) \<and> se_reservation_scope_hash st = h"
  shows "key_rows_ok s k"
  unfolding key_rows_ok_def assms(1) option.case current_fence_token_def assms(4) rbind_simps
  using assms(2,3,5,6,7) by (metis sum.inject(2))

lemma next_key_rows:
  assumes ok: "ledger_ok s" and r: "ledger_reservation (le_key e) s = Some r"
    and l: "ledger_latest (le_key e) s = Inr l" and t: "ledger_terminal (le_key e) s = None"
    and f: "le_fence_token (fst l) \<le> le_fence_token e"
    and st: "ledger_start (le_key e) s = None \<or> le_fence_token (fst l) = le_fence_token e"
  shows "key_rows_ok (appended e t' s) (le_key e)"
proof -
  obtain h where h: "le_reservation_scope_hash (fst r) = Some h" "is_hash h"
      and le: "le_fence_token (fst r) \<le> le_fence_token (fst l)"
    using ok_present [OF ok r] l by (metis sum.inject(2))
  show ?thesis
  proof (rule key_rows_okI)
    show "ledger_reservation (le_key e) (appended e t' s) = Some r"
      and "ledger_latest (le_key e) (appended e t' s) = Inr (numbered e s, t')"
      using r by (simp_all add: query_appended)
    show "x = (numbered e s, t')" if "ledger_terminal (le_key e) (appended e t' s) = Some x" for x
      using t that by (simp add: query_appended split: if_splits)
    show "se_identity x = le_identity (fst r) \<and> se_fence_token x = le_fence_token (fst (numbered e s, t')) \<and>
        se_reservation_scope_hash x = h" if "ledger_start (le_key e) (appended e t' s) = Some x" for x
      using ok_started [OF ok r, of x] that st h l by (simp add: current_fence_token_def)
  qed (use h le f in simp_all)
qed

lemma sequence_extend:
  "map f xs = [1..int (length xs)] \<Longrightarrow> f y = int (length xs) + 1 \<Longrightarrow> map f (xs @ [y]) = [1..int (length (xs @ [y]))]"
  by (simp add: upto_rec2 [of 1 "1 + int (length xs)"] add.commute)

lemma appended_ok:
  assumes ok: "ledger_ok s" and key: "key_rows_ok (appended e t s) (le_key e)" and row: "row_ok (e, t)"
  shows "ledger_ok (appended e t s)"
proof -
  have "key_rows_ok (appended e t s) k" for k
    using key other_key_rows [OF ok_key [OF ok]] by (cases "le_key e = k") auto
  moreover have "row_ok (numbered e s, t)"
    using row by (simp add: row_ok_def)
  ultimately show ?thesis
    using ok sequence_extend [of "\<lambda>row. le_sequence (fst row)" "lg_rows s" "(numbered e s, t)"]
    by (simp add: ledger_ok_def) (simp add: appended_def)
qed

lemma started_ok:
  assumes ok: "ledger_ok s" and r: "ledger_reservation k s = Some r"
    and ev: "se_identity ev = le_identity (fst r)" "current_fence_token k s = Inr (se_fence_token ev)"
      "le_reservation_scope_hash (fst r) = Some (se_reservation_scope_hash ev)"
  shows "ledger_ok (s\<lparr>lg_starts := (lg_starts s)(k \<mapsto> ev)\<rparr>)"
proof -
  have "key_rows_ok (s\<lparr>lg_starts := (lg_starts s)(k \<mapsto> ev)\<rparr>) k'" for k'
  proof (cases "k' = k")
    case True
    then show ?thesis
      using ok_key [OF ok, of k] r ev by (simp add: key_rows_ok_def current_fence_token_def)
  next
    case False
    then show ?thesis
      using ok_key [OF ok, of k']
      by (auto simp: key_rows_ok_def current_fence_token_def ledger_start_def split: option.splits)
  qed
  then show ?thesis
    using ok by (simp add: ledger_ok_def)
qed

lemma entry_appended_other: "le_key e \<noteq> k \<Longrightarrow> ledger_entry (appended e t s) k = ledger_entry s k"
  by (auto simp: ledger_entry_def query_appended current_fence_token_def split: option.splits)

lemma entry_eqI:
  assumes "m' k = Some x" "\<And>k'. k' \<noteq> k \<Longrightarrow> m' k' = m k'"
  shows "m' = m(k \<mapsto> x)"
  using assms by auto

subsection \<open>The ledger implements the entry protocol\<close>

text \<open>The outcome the protocol prescribes for a call, and an outcome of the tables that meets it.\<close>

definition meets :: "operation_ledger \<Rightarrow> string \<Rightarrow> op_entry res \<Rightarrow> 'a res \<times> operation_ledger \<Rightarrow> bool" where
  "meets s k spec out \<longleftrightarrow> (case spec of
     Inl e \<Rightarrow> out = (Inl e, s)
   | Inr en \<Rightarrow> (\<exists>v. fst out = Inr v) \<and> ledger_entry (snd out) = (ledger_entry s)(k \<mapsto> en) \<and> ledger_ok (snd out))"

lemma meets_reply [simp]: "meets s k spec (reply f out) = meets s k spec out"
  by (cases out; cases "fst out") (auto simp: meets_def reply_def split: sum.splits)

lemma meets_same:
  "ledger_ok s \<Longrightarrow> ledger_entry s k = Some en \<Longrightarrow> meets s k (Inr en) (Inr v, s)"
  by (simp add: meets_def fun_upd_idem)

lemma meets_appended:
  assumes "ledger_ok s" "key_rows_ok (appended e t s) (le_key e)" "row_ok (e, t)"
    "ledger_entry (appended e t s) (le_key e) = Some en"
  shows "meets s (le_key e) (Inr en) (Inr v, appended e t s)"
  using assms appended_ok entry_appended_other by (auto simp: meets_def intro!: entry_eqI)

lemma reserve_refines:
  assumes ok: "ledger_ok s" and args: "call_check (Reserve i f sc n) = Inr ()"
  shows "meets s (op_idempotency_key i) (entry_step (Reserve i f sc n) (ledger_entry s (op_idempotency_key i)))
    (ledger_reserve i f sc n s)"
proof (cases "ledger_reservation (op_idempotency_key i) s")
  case (Some r)
  then obtain x where x: "ledger_entry s (op_idempotency_key i) = Some x"
    by (simp add: ledger_entry_def)
  then show ?thesis
    using reserve_cases [OF assms] Some meets_same [OF ok x] by (simp add: meets_def fun_upd_idem ok)
next
  case None
  let ?e = "reserved_event i f sc n"
  have key: "le_key ?e = op_idempotency_key i" by (simp add: le_key_def)
  have f: "1 \<le> f" "is_hash sc"
    using args by (auto simp: ledger_fence_check_def ledger_scope_hash_def)
  have en: "ledger_entry s (op_idempotency_key i) = None"
    using None by (simp add: entry_None)
  show ?thesis
  proof (cases "f < 2 ^ 63")
    case True
    have rows: "key_rows_ok (appended ?e False s) (le_key ?e)"
      using None f key by (intro fresh_key_rows [OF ok]) simp_all
    have "ledger_entry (appended ?e False s) (le_key ?e) =
       Some \<lparr>en_identity = i, en_scope = Some sc, en_nonce = n, en_fence = f, en_grant = None, en_receipt = None\<rparr>"
      using None key ok_absent [OF ok None] by (simp add: ledger_entry_def query_appended current_fence_token_def)
    then have "meets s (le_key ?e) (Inr \<lparr>en_identity = i, en_scope = Some sc, en_nonce = n, en_fence = f,
        en_grant = None, en_receipt = None\<rparr>) (Inr (numbered ?e s), appended ?e False s)"
      using f True by (intro meets_appended [OF ok rows]) (simp_all add: row_ok_def)
    then show ?thesis
      unfolding reserve_cases [OF assms] None en key using True by simp
  next
    case False
    then show ?thesis
      using reserve_cases [OF assms] en by (simp add: meets_def)
  qed
qed

lemma entry_appended_same:
  assumes "ledger_ok s" "known_entry i (ledger_entry s (op_idempotency_key i)) = Inr x" "le_identity e = i"
    "ledger_terminal (op_idempotency_key i) s = None"
  shows "ledger_entry (appended e t s) (op_idempotency_key i) =
    Some (x\<lparr>en_fence := le_fence_token e, en_receipt := (if t then Some (receipt_of e) else None)\<rparr>)"
proof -
  have k: "le_key e = op_idempotency_key i" using assms(3) by (simp add: le_key_def)
  obtain r where r: "ledger_reservation (op_idempotency_key i) s = Some r"
      and x: "ledger_entry s (op_idempotency_key i) = Some x"
    using known_entryD [OF assms(1,2)] by metis
  then show ?thesis
    using assms(4) k by (auto simp: ledger_entry_def query_appended current_fence_token_def receipt_of_def)
qed

lemma rebind_refines:
  assumes ok: "ledger_ok s" and args: "call_check (RebindFence i f g) = Inr ()"
  shows "meets s (op_idempotency_key i) (entry_step (RebindFence i f g) (ledger_entry s (op_idempotency_key i)))
    (ledger_rebind_fence i f g s)"
proof (cases "entry_step (RebindFence i f g) (ledger_entry s (op_idempotency_key i))")
  case (Inl e)
  then show ?thesis
    unfolding rebind_cases [OF assms] Inl by (simp add: meets_def)
next
  case (Inr en)
  then obtain x where x: "known_entry i (ledger_entry s (op_idempotency_key i)) = Inr x" "en = x\<lparr>en_fence := g\<rparr>"
      "en_receipt x = None" "en_grant x = None" "en_fence x < g" "g < 2 ^ 63" "en_fence x = f"
    by (auto split: if_splits)
  obtain r l where r: "ledger_reservation (op_idempotency_key i) s = Some r" "ledger_latest (op_idempotency_key i) s = Inr l"
      "en_fence x = le_fence_token (fst l)" "1 \<le> en_fence x"
    using known_entryD [OF ok x(1)] by metis
  have none: "ledger_terminal (op_idempotency_key i) s = None" "ledger_start (op_idempotency_key i) s = None"
    using known_facts [OF ok x(1)] x(3,4) by auto
  let ?e = "rebound_event i g (the (en_scope en))"
  have key: "le_key ?e = op_idempotency_key i" by (simp add: le_key_def)
  have "key_rows_ok (appended ?e False s) (le_key ?e)"
    using r none x(5) key by (intro next_key_rows [OF ok, of _ r l]) simp_all
  moreover have "ledger_entry (appended ?e False s) (le_key ?e) = Some en"
    using entry_appended_same [OF ok x(1) _ none(1), of ?e False] key x(2,3) by simp
  ultimately have "meets s (le_key ?e) (Inr en) (Inr (numbered ?e s), appended ?e False s)"
    using x r by (intro meets_appended [OF ok]) (simp_all add: row_ok_def)
  then show ?thesis
    unfolding rebind_cases [OF assms] Inr using key by simp
qed

lemma entry_starts:
  "ledger_entry (s\<lparr>lg_starts := (lg_starts s)(k \<mapsto> ev)\<rparr>) k' =
    (if k' = k then map_option (\<lambda>x. x\<lparr>en_grant := Some (se_execution_grant_hash ev)\<rparr>) (ledger_entry s k)
     else ledger_entry s k')"
  by (cases "ledger_reservation k' s"; cases "k' = k")
    (simp_all add: ledger_entry_def current_fence_token_def ledger_start_def)

lemma mark_started_refines:
  assumes ok: "ledger_ok s" and args: "call_check (MarkStarted i f g) = Inr ()"
  shows "meets s (op_idempotency_key i) (entry_step (MarkStarted i f g) (ledger_entry s (op_idempotency_key i)))
    (ledger_mark_started i f g s)"
proof (cases "entry_step (MarkStarted i f g) (ledger_entry s (op_idempotency_key i))")
  case (Inl e)
  then show ?thesis
    unfolding mark_started_cases [OF assms] Inl by (simp add: meets_def)
next
  case (Inr en)
  then obtain x where x: "known_entry i (ledger_entry s (op_idempotency_key i)) = Inr x" "en = x\<lparr>en_grant := Some g\<rparr>"
      "en_fence x = f"
    by (auto split: if_splits)
  obtain r h where r: "ledger_reservation (op_idempotency_key i) s = Some r" "le_identity (fst r) = i" "en_scope x = Some h"
      "current_fence_token (op_idempotency_key i) s = Inr (en_fence x)" "le_reservation_scope_hash (fst r) = Some h"
      "ledger_entry s (op_idempotency_key i) = Some x"
    using known_entryD [OF ok x(1)] by metis
  let ?ev = "\<lparr>se_identity = i, se_fence_token = f, se_execution_grant_hash = g, se_reservation_scope_hash = h\<rparr>"
  let ?s = "s\<lparr>lg_starts := (lg_starts s)(op_idempotency_key i \<mapsto> ?ev)\<rparr>"
  have "ledger_ok ?s"
    using r x(3) by (intro started_ok [OF ok r(1)]) simp_all
  moreover have "ledger_entry ?s = (ledger_entry s)(op_idempotency_key i \<mapsto> en)"
    using r(6) x(2) entry_starts [of s "op_idempotency_key i" ?ev] by (intro entry_eqI) simp_all
  ultimately show ?thesis
    unfolding mark_started_cases [OF assms] Inr using r(3) x(2) by (simp add: meets_def Let_def)
qed

lemma finish_refines:
  fixes i f ok' reason tc b a st
  defines "c \<equiv> Finish i f ok' reason tc b a st"
  assumes ok: "ledger_ok s" and args: "call_check c = Inr ()"
  shows "meets s (op_idempotency_key i) (entry_step c (ledger_entry s (op_idempotency_key i)))
    (ledger_finish i f ok' reason tc b a st s)"
proof (cases "entry_step c (ledger_entry s (op_idempotency_key i))")
  case (Inl e)
  then show ?thesis
    unfolding finish_cases [OF ok args [unfolded c_def]] c_def by (simp only: sum.case meets_def)
next
  case (Inr en)
  then obtain x where x: "known_entry i (ledger_entry s (op_idempotency_key i)) = Inr x"
    by (auto simp: c_def split: if_splits)
  obtain r l where r: "ledger_reservation (op_idempotency_key i) s = Some r" "ledger_latest (op_idempotency_key i) s = Inr l"
      "en_fence x = le_fence_token (fst l)" "1 \<le> en_fence x" "en_fence x < 2 ^ 63"
      "ledger_entry s (op_idempotency_key i) = Some x"
    using known_entryD [OF ok x] by metis
  have receipt: "en_receipt x = map_option (\<lambda>r. receipt_of (fst r)) (ledger_terminal (op_idempotency_key i) s)"
    using known_facts [OF ok x] by blast
  note step = finish_cases [OF ok args [unfolded c_def], folded c_def, unfolded Inr sum.case]
  show ?thesis
  proof (cases "ledger_terminal (op_idempotency_key i) s")
    case (Some t)
    then have "en = x"
      using Inr x receipt by (auto simp: c_def split: if_splits)
    then show ?thesis
      unfolding step Inr Some using meets_same [OF ok r(6)] by simp
  next
    case None
    then have en: "en = x\<lparr>en_receipt := call_receipt c\<rparr>" "en_fence x = f"
      using Inr x receipt by (auto simp: c_def split: if_splits)
    let ?e = "finished_event c (the (en_scope en))"
    have e: "le_identity ?e = i" "le_key ?e = op_idempotency_key i" "le_fence_token ?e = f"
        "Some (receipt_of ?e) = call_receipt c" "le_event_type ?e \<in> {COMPLETED, FAILED}"
      by (simp_all add: c_def le_key_def call_receipt_def call_identity_def receipt_of_def terminal_type_def)
    have "key_rows_ok (appended ?e True s) (le_key ?e)"
      using r None en e by (intro next_key_rows [OF ok, of _ r l]) simp_all
    moreover have "ledger_entry (appended ?e True s) (le_key ?e) = Some en"
      using entry_appended_same [OF ok x e(1) None, of True] e en by simp
    ultimately have "meets s (le_key ?e) (Inr en) (Inr (numbered ?e s), appended ?e True s)"
      using r en e by (intro meets_appended [OF ok]) (simp_all add: row_ok_def)
    then show ?thesis
      unfolding step Inr None option.case e(2) .
  qed
qed

lemma reply_Inl [simp]: "reply f (Inl e, s) = (Inl e, s)"
  by (simp add: reply_def)

lemma bad_arguments: "call_check c = Inl e \<Longrightarrow> ledger_exec c s = (Inl e, s)"
  by (cases c)
    (simp_all add: ledger_reserve_def ledger_rebind_fence_def ledger_mark_started_def ledger_finish_def guarded_def
      del: rbind_Inl_iff)

lemma exec_refines:
  assumes "ledger_ok s" "call_check c = Inr ()"
  shows "meets s (call_key c) (entry_step c (ledger_entry s (call_key c))) (ledger_exec c s)"
  using assms reserve_refines rebind_refines mark_started_refines finish_refines
  by (cases c) (simp_all add: call_identity_def del: entry_step.simps call_check.simps)

lemma exec_cases [case_names refused served]:
  assumes "ledger_ok s"
  obtains e where "ledger_exec c s = (Inl e, s)"
  | v s' en where "ledger_exec c s = (Inr v, s')" "call_check c = Inr ()"
      "entry_step c (ledger_entry s (call_key c)) = Inr en"
      "ledger_entry s' = (ledger_entry s)(call_key c \<mapsto> en)" "ledger_ok s'"
proof (cases "call_check c")
  case (Inl e)
  then show thesis using bad_arguments that by blast
next
  case (Inr u)
  then have "meets s (call_key c) (entry_step c (ledger_entry s (call_key c))) (ledger_exec c s)"
    using exec_refines [OF assms, of c] by simp
  then show thesis
    using that Inr
    by (cases "entry_step c (ledger_entry s (call_key c))"; cases "ledger_exec c s") (auto simp: meets_def)
qed

lemma ledger_exec_ok: "ledger_ok s \<Longrightarrow> ledger_ok (snd (ledger_exec c s))"
  by (rule exec_cases [of s c]) auto

lemma ledger_reachable_ok: "ledger_reachable s \<Longrightarrow> ledger_ok s"
  by (induction rule: ledger_reachable.induct) (simp_all add: empty_ledger_ok ledger_exec_ok)

lemma ledger_run_reachable: "ledger_reachable s \<Longrightarrow> ledger_reachable (snd (run_ops ledger_exec cs s))"
  by (induction cs arbitrary: s) (simp_all add: ledger_call)

lemma reply_Inl_iff: "reply f out = (Inl e, s) \<longleftrightarrow> out = (Inl e, s)"
  by (cases out; cases "fst out") (auto simp: reply_def)

lemma ledger_aborts:
  "ledger_reserve i f sc n s = (Inl e, s') \<Longrightarrow> s' = s"
  "ledger_rebind_fence i f g s = (Inl e, s') \<Longrightarrow> s' = s"
  "ledger_mark_started i f h s = (Inl e, s') \<Longrightarrow> s' = s"
  "ledger_finish i f ok r tc b a st s = (Inl e, s') \<Longrightarrow> s' = s"
  unfolding ledger_reserve_def ledger_rebind_fence_def ledger_mark_started_def ledger_finish_def
  by (rule guarded_transaction_abort, assumption)+

lemma snd_reply [simp]: "snd (reply f out) = snd out"
  by (cases out) (simp add: reply_def)

lemma ledger_reachable_ops:
  assumes "ledger_reachable s"
  shows "ledger_reachable (snd (ledger_reserve i f sc n s))" "ledger_reachable (snd (ledger_rebind_fence i f g s))"
    "ledger_reachable (snd (ledger_mark_started i f h s))" "ledger_reachable (snd (ledger_finish i f ok r tc b a st s))"
  using ledger_call [OF assms, of "Reserve i f sc n"] ledger_call [OF assms, of "RebindFence i f g"]
    ledger_call [OF assms, of "MarkStarted i f h"] ledger_call [OF assms, of "Finish i f ok r tc b a st"]
  by simp_all

interpretation ledger_op: atomic_op "ledger_exec c" for c
  by unfold_locales (cases c; simp add: reply_Inl_iff; erule ledger_aborts)

subsection \<open>How an entry may evolve\<close>

definition evolves :: "op_entry \<Rightarrow> op_entry \<Rightarrow> bool" where
  "evolves x y \<longleftrightarrow> en_identity y = en_identity x \<and> en_scope y = en_scope x \<and> en_nonce y = en_nonce x \<and>
     en_fence x \<le> en_fence y \<and>
     (en_grant x \<noteq> None \<longrightarrow> en_grant y = en_grant x \<and> en_fence y = en_fence x) \<and>
     (en_receipt x \<noteq> None \<longrightarrow> y = x)"

lemma evolves_refl [simp]: "evolves x x"
  by (simp add: evolves_def)

lemma evolves_trans: "evolves x y \<Longrightarrow> evolves y z \<Longrightarrow> evolves x z"
  unfolding evolves_def by auto

lemma entry_step_evolves: "entry_step c (Some x) = Inr y \<Longrightarrow> evolves x y"
  by (cases c) (auto simp: known_entry_def evolves_def split: if_splits)

lemma exec_evolves:
  assumes "ledger_ok s" "ledger_entry s k = Some x"
  shows "\<exists>y. ledger_entry (snd (ledger_exec c s)) k = Some y \<and> evolves x y"
  using assms(1)
proof (cases rule: exec_cases [of s c])
  case (served v s' en)
  then show ?thesis
    using assms(2) entry_step_evolves [of c x en] by (cases "call_key c = k") auto
qed (use assms(2) in auto)

lemma run_evolves:
  assumes "ledger_ok s" "ledger_entry s k = Some x"
  shows "\<exists>y. ledger_entry (snd (run_ops ledger_exec cs s)) k = Some y \<and> evolves x y"
  using assms
proof (induction cs arbitrary: s x)
  case (Cons c cs)
  obtain y where y: "ledger_entry (snd (ledger_exec c s)) k = Some y" "evolves x y"
    using exec_evolves [OF Cons.prems] by blast
  from Cons.IH [OF ledger_exec_ok [OF Cons.prems(1)] y(1)] show ?case
    using evolves_trans [OF y(2)] by auto
qed simp

subsection \<open>The event table only grows\<close>

lemma exec_appends:
  assumes "ledger_ok s"
  shows "\<exists>new. lg_rows (snd (ledger_exec c s)) = lg_rows s @ new \<and> length new \<le> 1 \<and>
    (\<forall>row\<in>set new. le_identity (fst row) = call_identity c)"
proof (cases "call_check c")
  case (Inl e)
  then show ?thesis by (simp add: bad_arguments)
next
  case (Inr u)
  then have "call_check c = Inr ()" by simp
  with assms show ?thesis
  proof (cases c)
    case (Finish i f ok' r tc b a st)
    with assms Inr show ?thesis
      using finish_cases [OF assms, of i f ok' r tc b a st]
      by (auto simp: reply_def call_receipt_def call_identity_def simp del: entry_step.simps call_check.simps split: sum.splits option.splits)
  qed (auto simp: reserve_cases rebind_cases mark_started_cases reply_def Let_def call_identity_def
      simp del: entry_step.simps call_check.simps split: sum.splits option.splits)
qed

lemma run_appends:
  assumes "ledger_ok s"
  shows "prefix (lg_rows s) (lg_rows (snd (run_ops ledger_exec cs s)))"
  using assms
proof (induction cs arbitrary: s)
  case (Cons c cs)
  have "prefix (lg_rows s) (lg_rows (snd (ledger_exec c s)))"
    using exec_appends [OF Cons.prems, of c] by (auto simp: prefix_def)
  also have "prefix \<dots> (lg_rows (snd (run_ops ledger_exec cs (snd (ledger_exec c s)))))"
    by (rule Cons.IH [OF ledger_exec_ok [OF Cons.prems]])
  finally show ?case by simp
qed simp

lemma reservation_stable:
  "prefix (lg_rows s) (lg_rows s') \<Longrightarrow> ledger_reservation k s = Some r \<Longrightarrow> ledger_reservation k s' = Some r"
  by (auto simp: ledger_reservation_def prefix_def find_append)

lemma terminal_stable:
  "prefix (lg_rows s) (lg_rows s') \<Longrightarrow> ledger_terminal k s = Some r \<Longrightarrow> ledger_terminal k s' = Some r"
  by (auto simp: ledger_terminal_def prefix_def find_append)

subsection \<open>Fencing\<close>

definition ledger_fence :: "operation_ledger \<Rightarrow> string \<Rightarrow> int" where
  "ledger_fence s k = (case ledger_entry s k of None \<Rightarrow> 0 | Some x \<Rightarrow> en_fence x)"

definition issued_rebind :: "ledger_reply \<Rightarrow> (string \<times> int) option" where
  "issued_rebind v = (case v of
     EventReply e \<Rightarrow> if le_event_type e = FENCE_REBOUND then Some (le_key e, le_fence_token e) else None
   | StartReply ev \<Rightarrow> None)"

lemma issued_rebindD:
  assumes ok: "ledger_ok s" and run: "ledger_exec c s = (Inr v, s')" and iss: "issued_rebind v = Some (k, t)"
  shows "\<exists>i f. c = RebindFence i f t \<and> k = op_idempotency_key i"
proof -
  have "call_check c = Inr ()"
    using bad_arguments [of c _ s] run by (cases "call_check c") auto
  with ok run iss show ?thesis
  proof (cases c)
    case (Reserve i f sc n)
    with ok run iss \<open>call_check c = Inr ()\<close> show ?thesis
      by (auto simp: reserve_cases reply_def issued_rebind_def dest!: reservation_SomeD
          simp del: entry_step.simps call_check.simps split: sum.splits option.splits if_splits)
  next
    case (Finish i f ok' r tc b a st)
    with ok run iss \<open>call_check c = Inr ()\<close> show ?thesis
      using ok_terminal(3) [OF ok, of "op_idempotency_key i"]
      by (auto simp: finish_cases reply_def issued_rebind_def call_receipt_def terminal_type_def
          simp del: entry_step.simps call_check.simps split: sum.splits option.splits if_splits)
  qed (auto simp: rebind_cases mark_started_cases reply_def issued_rebind_def Let_def le_key_def
      simp del: entry_step.simps call_check.simps split: sum.splits)
qed

lemma ledger_entry_fence: "ledger_ok s \<Longrightarrow> ledger_entry s k = Some x \<Longrightarrow> 1 \<le> en_fence x"
proof -
  assume ok: "ledger_ok s" and x: "ledger_entry s k = Some x"
  then obtain r where "ledger_reservation k s = Some r"
    using entry_None [of s k] by (cases "ledger_reservation k s") auto
  with ok_present [OF ok this] obtain l where "current_fence_token k s = Inr l" "1 \<le> l"
    by metis
  then show "1 \<le> en_fence x"
    using x by (auto simp: ledger_entry_def)
qed

interpretation ledger_fencing: fencing ledger_exec ledger_ok ledger_fence issued_rebind
proof
  fix s c k
  assume ok: "ledger_ok s"
  then show "ledger_ok (snd (ledger_exec c s))" by (rule ledger_exec_ok)
  show "ledger_fence s k \<le> ledger_fence (snd (ledger_exec c s)) k"
  proof (cases "ledger_entry s k")
    case None
    from ok have "\<forall>x. ledger_entry (snd (ledger_exec c s)) k = Some x \<longrightarrow> 1 \<le> en_fence x"
      using ledger_entry_fence [OF ledger_exec_ok [OF ok]] by blast
    with None show ?thesis
      by (fastforce simp: ledger_fence_def split: option.splits)
  next
    case (Some x)
    then show ?thesis
      using exec_evolves [OF ok, of k x c] by (auto simp: ledger_fence_def evolves_def)
  qed
next
  fix s c v s' k t
  assume ok: "ledger_ok s" and run: "ledger_exec c s = (Inr v, s')" and iss: "issued_rebind v = Some (k, t)"
  from issued_rebindD [OF this] obtain i f where c: "c = RebindFence i f t" "k = op_idempotency_key i" by blast
  from ok show "ledger_fence s k < t \<and> ledger_fence s' k = t"
    by (cases rule: exec_cases [of s c])
      (use c run in \<open>auto simp: ledger_fence_def known_entry_def call_identity_def split: option.splits if_splits\<close>)
qed

lemma stale_fence_refused:
  assumes ok: "ledger_ok s" and x: "ledger_entry s (call_key c) = Some x"
    and stale: "(case c of Reserve i g sc n \<Rightarrow> False | RebindFence i g h \<Rightarrow> g < en_fence x
      | MarkStarted i g h \<Rightarrow> g < en_fence x | Finish i g ok' r tc b a st \<Rightarrow> g < en_fence x)"
  shows "\<exists>e. ledger_exec c s = (Inl e, s)"
  using ok
proof (cases rule: exec_cases [of s c])
  case (served v s' en)
  have "tr_fence r = en_fence x" if "en_receipt x = Some r" for r
    using x that ok_terminal(1) [OF ok]
    by (auto simp: ledger_entry_def current_fence_token_def receipt_of_def)
  with served x stale show ?thesis
    by (cases c) (auto simp: known_entry_def call_receipt_def call_identity_def split: if_splits)
qed blast

subsection \<open>Histories\<close>

definition history_shape :: "ledger_event list \<Rightarrow> bool" where
  "history_shape es \<longleftrightarrow> es = [] \<or> (\<exists>r bs ts. es = r # bs @ ts \<and> le_event_type r = RESERVED \<and>
     (\<forall>b\<in>set bs. le_event_type b = FENCE_REBOUND) \<and> sorted_wrt (<) (map le_fence_token (r # bs)) \<and>
     length ts \<le> 1 \<and>
     (\<forall>t\<in>set ts. le_event_type t \<in> {COMPLETED, FAILED} \<and> le_fence_token t = le_fence_token (last (r # bs))))"

lemma history_appended:
  "ledger_history k (appended e t s) = ledger_history k s @ (if le_key e = k then [numbered e s] else [])"
  by (simp add: ledger_history_def)

lemma find_rev_last: "find P (rev xs) = (if filter P xs = [] then None else Some (last (filter P xs)))"
  by (induction xs rule: rev_induct) auto

lemma latest_last: "ledger_latest k s = Inr l \<Longrightarrow> ledger_history k s \<noteq> [] \<and> last (ledger_history k s) = fst l"
  by (auto simp: ledger_latest_def ledger_history_def find_rev_last last_map split: option.splits if_splits)

lemma history_open:
  assumes "ledger_ok s" "ledger_terminal k s = None" "e \<in> set (ledger_history k s)"
  shows "le_event_type e \<notin> {COMPLETED, FAILED}"
  using assms ok_row [OF assms(1)]
  by (fastforce simp: ledger_history_def ledger_terminal_def find_None_iff_all row_ok_def)

lemma shape_reserved: "le_event_type e = RESERVED \<Longrightarrow> history_shape [e]"
  unfolding history_shape_def by (intro disjI2 exI [of _ e] exI [of _ "[]"]) simp

lemma shape_open:
  assumes "history_shape es" "es \<noteq> []" "\<forall>e\<in>set es. le_event_type e \<notin> {COMPLETED, FAILED}"
  obtains r bs where "es = r # bs" "le_event_type r = RESERVED" "\<forall>b\<in>set bs. le_event_type b = FENCE_REBOUND"
    "sorted_wrt (<) (map le_fence_token (r # bs))"
proof -
  obtain r bs ts where es: "es = r # bs @ ts" "le_event_type r = RESERVED" "\<forall>b\<in>set bs. le_event_type b = FENCE_REBOUND"
      "sorted_wrt (<) (map le_fence_token (r # bs))" "\<forall>t\<in>set ts. le_event_type t \<in> {COMPLETED, FAILED}"
    using assms(1,2) unfolding history_shape_def by blast
  have "ts = []"
    using assms(3) es(1,5) by (cases ts) auto
  then show thesis
    using that es by simp
qed

lemma sorted_wrt_less_snoc:
  "sorted_wrt (<) xs \<Longrightarrow> xs \<noteq> [] \<Longrightarrow> last xs < (y :: int) \<Longrightarrow> sorted_wrt (<) (xs @ [y])"
proof (induction xs)
  case (Cons a xs)
  show ?case
  proof (cases "xs = []")
    case False
    then have "a < last xs" using Cons.prems(1) by simp
    with Cons.prems(3) False have "a < y" by simp
    with Cons False show ?thesis by simp
  qed (use Cons.prems in simp)
qed simp

lemma shape_rebound:
  assumes "history_shape es" "es \<noteq> []" "\<forall>e\<in>set es. le_event_type e \<notin> {COMPLETED, FAILED}"
    "le_event_type e = FENCE_REBOUND" "le_fence_token (last es) < le_fence_token e"
  shows "history_shape (es @ [e])"
proof -
  obtain r bs where es: "es = r # bs" "le_event_type r = RESERVED" "\<forall>b\<in>set bs. le_event_type b = FENCE_REBOUND"
      "sorted_wrt (<) (map le_fence_token (r # bs))"
    using shape_open [OF assms(1-3)] .
  have "sorted_wrt (<) (map le_fence_token (r # bs) @ [le_fence_token e])"
    using es(1,4) assms(5) by (intro sorted_wrt_less_snoc) (auto simp: last_map)
  then show ?thesis
    unfolding history_shape_def using es assms(4)
    by (intro disjI2 exI [of _ r] exI [of _ "bs @ [e]"] exI [of _ "[]"]) auto
qed

lemma shape_terminal:
  assumes "history_shape es" "es \<noteq> []" "\<forall>e\<in>set es. le_event_type e \<notin> {COMPLETED, FAILED}"
    "le_event_type e \<in> {COMPLETED, FAILED}" "le_fence_token (last es) = le_fence_token e"
  shows "history_shape (es @ [e])"
proof -
  obtain r bs where es: "es = r # bs" "le_event_type r = RESERVED" "\<forall>b\<in>set bs. le_event_type b = FENCE_REBOUND"
      "sorted_wrt (<) (map le_fence_token (r # bs))"
    using shape_open [OF assms(1-3)] .
  then show ?thesis
    unfolding history_shape_def using assms(4,5)
    by (intro disjI2 exI [of _ r] exI [of _ bs] exI [of _ "[e]"]) simp
qed

lemma history_absent: "ledger_ok s \<Longrightarrow> ledger_reservation k s = None \<Longrightarrow> ledger_history k s = []"
  using ok_absent(3) [of s k] by (auto simp: ledger_history_def filter_empty_conv)

text \<open>Appending an event to an open history of its key keeps the shape.\<close>

lemma shape_appended:
  assumes ok: "ledger_ok s" and x: "known_entry i (ledger_entry s (op_idempotency_key i)) = Inr x"
    and t: "ledger_terminal (op_idempotency_key i) s = None" and e: "le_identity e = i"
    and kind: "le_event_type e = FENCE_REBOUND \<and> en_fence x < le_fence_token e \<or>
      le_event_type e \<in> {COMPLETED, FAILED} \<and> en_fence x = le_fence_token e"
    and shape: "history_shape (ledger_history (op_idempotency_key i) s)"
  shows "history_shape (ledger_history (op_idempotency_key i) (appended e b s))"
proof -
  obtain l where l: "ledger_latest (op_idempotency_key i) s = Inr l" "en_fence x = le_fence_token (fst l)"
    using known_entryD [OF ok x] by metis
  note last = latest_last [OF l(1)]
  have opened: "\<forall>e\<in>set (ledger_history (op_idempotency_key i) s). le_event_type e \<notin> {COMPLETED, FAILED}"
    using history_open [OF ok t] by blast
  have "history_shape (ledger_history (op_idempotency_key i) s @ [numbered e s])"
    using kind
  proof (elim disjE)
    assume "le_event_type e = FENCE_REBOUND \<and> en_fence x < le_fence_token e"
    then show ?thesis
      using last l(2) by (intro shape_rebound [OF shape _ opened]) simp_all
  next
    assume "le_event_type e \<in> {COMPLETED, FAILED} \<and> en_fence x = le_fence_token e"
    then show ?thesis
      using last l(2) by (intro shape_terminal [OF shape _ opened]) simp_all
  qed
  then show ?thesis
    using e by (simp add: history_appended le_key_def)
qed

lemma shape_other: "le_key e \<noteq> k \<Longrightarrow> ledger_history k (appended e b s) = ledger_history k s"
  by (simp add: history_appended)

lemma exec_shape:
  assumes ok: "ledger_ok s" and shape: "\<And>k. history_shape (ledger_history k s)"
  shows "history_shape (ledger_history k (snd (ledger_exec c s)))"
proof (cases "rbind (call_check c) (\<lambda>_. entry_step c (ledger_entry s (call_key c)))")
  case (Inl e)
  then have "snd (ledger_exec c s) = s"
    using bad_arguments [of c _ s] exec_refines [OF ok, of c] by (cases "call_check c") (auto simp: meets_def)
  then show ?thesis using shape by simp
next
  case (Inr en)
  then have args: "call_check c = Inr ()" and step: "entry_step c (ledger_entry s (call_key c)) = Inr en"
    by (auto simp del: entry_step.simps call_check.simps)
  show ?thesis
  proof (cases c)
    case (Reserve i f sc n)
    let ?e = "reserved_event i f sc n"
    have new: "history_shape (ledger_history k (appended ?e False s))" if "ledger_reservation (op_idempotency_key i) s = None"
      using history_absent [OF ok that] shape shape_reserved [of "numbered ?e s"]
      by (auto simp: history_appended le_key_def)
    show ?thesis
      using args step Reserve shape new reserve_cases [OF ok, of i f sc n]
      by (auto simp: reply_def call_identity_def simp del: entry_step.simps call_check.simps split: option.splits)
  next
    case (RebindFence i f g)
    then obtain x where x: "known_entry i (ledger_entry s (op_idempotency_key i)) = Inr x" "en_receipt x = None" "en_fence x < g"
      using step by (auto simp: call_identity_def split: if_splits)
    then have t: "ledger_terminal (op_idempotency_key i) s = None"
      using known_facts [OF ok x(1)] by auto
    let ?e = "rebound_event i g (the (en_scope en))"
    have "history_shape (ledger_history k (appended ?e False s))"
      using shape_appended [OF ok x(1) t, of ?e] x(3) shape
      by (cases "k = op_idempotency_key i") (simp_all add: shape_other le_key_def)
    then show ?thesis
      using args step RebindFence rebind_cases [OF ok, of i f g]
      by (simp add: reply_def call_identity_def del: entry_step.simps call_check.simps)
  next
    case (MarkStarted i f g)
    then show ?thesis
      using args step shape mark_started_cases [OF ok, of i f g]
      by (simp add: reply_def call_identity_def Let_def ledger_history_def del: entry_step.simps call_check.simps)
  next
    case (Finish i f ok' r tc b a st)
    then obtain x where x: "known_entry i (ledger_entry s (op_idempotency_key i)) = Inr x"
        "en_receipt x = None \<Longrightarrow> en_fence x = f"
      using step by (auto simp: call_identity_def split: if_splits)
    let ?e = "finished_event (Finish i f ok' r tc b a st) (the (en_scope en))"
    have e: "le_identity ?e = i" "le_fence_token ?e = f" "le_event_type ?e \<in> {COMPLETED, FAILED}"
      by (simp_all add: call_receipt_def call_identity_def terminal_type_def)
    have "history_shape (ledger_history k (appended ?e True s))" if t: "ledger_terminal (op_idempotency_key i) s = None"
    proof -
      have "en_fence x = f" using known_facts [OF ok x(1)] t x(2) by auto
      then show ?thesis
        using shape_appended [OF ok x(1) t e(1)] e shape
        by (cases "k = op_idempotency_key i") (simp_all add: shape_other le_key_def)
    qed
    then show ?thesis
      using args step Finish shape finish_cases [OF ok, of i f ok' r tc b a st]
      by (cases "ledger_terminal (op_idempotency_key i) s")
        (simp_all add: reply_def call_identity_def del: entry_step.simps call_check.simps)
  qed
qed

lemma reachable_shape: "ledger_reachable s \<Longrightarrow> history_shape (ledger_history k s)"
proof (induction arbitrary: k rule: ledger_reachable.induct)
  case ledger_init
  show ?case by (simp add: history_shape_def ledger_history_def empty_ledger_def)
next
  case (ledger_call s c)
  then show ?case using exec_shape [OF ledger_reachable_ok] by blast
qed

text \<open>Every row of a key carries the identity of its reservation.\<close>

lemma entry_step_identity:
  "entry_step c en = Inr x \<Longrightarrow> en_identity x = call_identity c"
  by (cases c; cases en) (auto simp: known_entry_def call_identity_def split: if_splits)

definition rows_identified :: "operation_ledger \<Rightarrow> bool" where
  "rows_identified s \<longleftrightarrow> (\<forall>row\<in>set (lg_rows s). \<exists>x. ledger_entry s (le_key (fst row)) = Some x \<and>
     en_identity x = le_identity (fst row))"

lemma exec_identified:
  assumes ok: "ledger_ok s" and rows: "rows_identified s"
  shows "rows_identified (snd (ledger_exec c s))"
  unfolding rows_identified_def
proof
  fix row assume row: "row \<in> set (lg_rows (snd (ledger_exec c s)))"
  obtain new where new: "lg_rows (snd (ledger_exec c s)) = lg_rows s @ new"
      "\<forall>row\<in>set new. le_identity (fst row) = call_identity c"
    using exec_appends [OF ok] by blast
  show "\<exists>x. ledger_entry (snd (ledger_exec c s)) (le_key (fst row)) = Some x \<and> en_identity x = le_identity (fst row)"
  proof (cases "row \<in> set (lg_rows s)")
    case True
    then obtain x where "ledger_entry s (le_key (fst row)) = Some x" "en_identity x = le_identity (fst row)"
      using rows by (auto simp: rows_identified_def)
    then show ?thesis using exec_evolves [OF ok, of "le_key (fst row)" x c] by (auto simp: evolves_def)
  next
    case False
    then have i: "le_identity (fst row) = call_identity c" using row new by auto
    from ok show ?thesis
    proof (cases rule: exec_cases [of s c])
      case (refused e)
      then show ?thesis using row False by simp
    next
      case (served v s' en)
      then show ?thesis using entry_step_identity [OF served(3)] i by (simp add: le_key_def)
    qed
  qed
qed

lemma reachable_identified: "ledger_reachable s \<Longrightarrow> rows_identified s"
proof (induction rule: ledger_reachable.induct)
  case ledger_init
  show ?case by (simp add: rows_identified_def empty_ledger_def)
next
  case (ledger_call s c)
  then show ?case using exec_identified [OF ledger_reachable_ok] by blast
qed

lemma terminal_identity:
  assumes "ledger_reachable s" "ledger_entry s k = Some x" "ledger_terminal k s = Some t"
  shows "le_identity (fst t) = en_identity x"
  using reachable_identified [OF assms(1)] terminal_SomeD [OF assms(3)] assms(2) by (auto simp: rows_identified_def)

text \<open>\<^verbatim>\<open>status\<close> scans the history; it agrees with the entry.\<close>

definition entry_status :: "op_entry \<Rightarrow> string" where
  "entry_status x = (case en_receipt x of Some r \<Rightarrow> event_type_text (tr_type r)
     | None \<Rightarrow> if en_grant x \<noteq> None then ''STARTED'' else ''RESERVED'')"

lemma history_terminal:
  assumes ok: "ledger_ok s" and t: "ledger_terminal k s = Some t"
  shows "filter (\<lambda>e. le_event_type e \<in> {COMPLETED, FAILED}) (ledger_history k s) \<noteq> [] \<and>
    last (filter (\<lambda>e. le_event_type e \<in> {COMPLETED, FAILED}) (ledger_history k s)) = fst t"
proof -
  obtain es where "ledger_history k s = es @ [fst t]"
    using latest_last [OF ok_terminal(1) [OF assms]] by (metis append_butlast_last_id)
  then show ?thesis
    using ok_terminal(3) [OF assms] by auto
qed

lemma ledger_status_entry:
  assumes ok: "ledger_ok s"
  shows "ledger_status k s = map_option entry_status (ledger_entry s k)"
proof (cases "ledger_reservation k s")
  case None
  then show ?thesis
    using history_absent [OF ok None] by (simp add: ledger_status_def ledger_entry_def)
next
  case (Some r)
  then obtain l where "ledger_latest k s = Inr l"
    using ok_present [OF ok Some] by metis
  then have ne: "ledger_history k s \<noteq> []" using latest_last by blast
  show ?thesis
  proof (cases "ledger_terminal k s")
    case None
    have "filter (\<lambda>e. le_event_type e \<in> {COMPLETED, FAILED}) (ledger_history k s) = []"
      using history_open [OF ok None] by (simp add: filter_empty_conv)
    then show ?thesis
      using ne None Some by (simp add: ledger_status_def ledger_entry_def entry_status_def Let_def)
  next
    case (Some t)
    then show ?thesis
      using ne history_terminal [OF ok Some] \<open>ledger_reservation k s = Some r\<close>
      by (simp add: ledger_status_def ledger_entry_def entry_status_def receipt_of_def Let_def)
  qed
qed

lemma receipt_terminal:
  assumes "ledger_ok s" "ledger_entry s k = Some x" "en_receipt x = Some r"
  shows "tr_type r \<in> {COMPLETED, FAILED}"
  using assms ok_terminal(3) [OF assms(1), of k] by (auto simp: ledger_entry_def receipt_of_def)

subsection \<open>Calls whose outcome is known\<close>

definition call_fence :: "ledger_call \<Rightarrow> int" where
  "call_fence c = (case c of Reserve i f sc n \<Rightarrow> f | RebindFence i f g \<Rightarrow> g | MarkStarted i f g \<Rightarrow> 0
     | Finish i f ok r tc b a st \<Rightarrow> 0)"

lemma call_check_error: "call_check c = Inl e \<Longrightarrow> \<exists>r. e = LedgerError r"
  by (cases c) (auto simp: ledger_identity_def ledger_fence_check_def ledger_scope_hash_def ledger_nonce_def
      ledger_reason_def ledger_public_refs_def split: if_splits option.splits)

lemma entry_step_error:
  "entry_step c en = Inl e \<Longrightarrow> (\<exists>r. e = LedgerError r) \<or> 2 ^ 63 \<le> call_fence c"
  by (cases c; cases en) (auto simp: known_entry_def call_fence_def split: if_splits)

lemma ledger_exec_error:
  assumes "ledger_ok s" "fst (ledger_exec c s) = Inl e" "call_fence c < 2 ^ 63"
  shows "\<exists>r. e = LedgerError r"
proof (cases "call_check c")
  case (Inl e')
  then show ?thesis
    using assms(2) bad_arguments [OF Inl, of s] call_check_error by simp
next
  case (Inr u)
  then have "meets s (call_key c) (entry_step c (ledger_entry s (call_key c))) (ledger_exec c s)"
    using exec_refines [OF assms(1), of c] by simp
  then have "entry_step c (ledger_entry s (call_key c)) = Inl e"
    using assms(2) by (auto simp: meets_def split: sum.splits)
  then show ?thesis
    using entry_step_error assms(3) by fastforce
qed

lemma finish_open:
  assumes "ledger_ok s" "ledger_entry s (op_idempotency_key i) = Some x" "en_identity x = i" "en_receipt x = None"
    and "call_check (Finish i (en_fence x) ok r tc b a st) = Inr ()"
  shows "\<exists>v s'. ledger_finish i (en_fence x) ok r tc b a st s = (Inr v, s') \<and>
    ledger_entry s' = (ledger_entry s)(op_idempotency_key i \<mapsto>
      x\<lparr>en_receipt := call_receipt (Finish i (en_fence x) ok r tc b a st)\<rparr>)"
proof -
  have "entry_step (Finish i (en_fence x) ok r tc b a st) (ledger_entry s (op_idempotency_key i)) =
      Inr (x\<lparr>en_receipt := call_receipt (Finish i (en_fence x) ok r tc b a st)\<rparr>)"
    using assms(2-4) by (simp add: known_entry_def)
  then show ?thesis
    using finish_refines [OF assms(1,5)]
    by (cases "ledger_finish i (en_fence x) ok r tc b a st s") (simp add: meets_def del: entry_step.simps)
qed

lemma reserve_fresh:
  assumes "ledger_ok s" "ledger_entry s (op_idempotency_key i) = None" "ledger_reserve i f sc n s = (Inr v, s')"
  shows "call_check (Reserve i f sc n) = Inr () \<and> ledger_entry s' (op_idempotency_key i) =
    Some \<lparr>en_identity = i, en_scope = Some sc, en_nonce = n, en_fence = f, en_grant = None, en_receipt = None\<rparr>"
proof -
  have args: "call_check (Reserve i f sc n) = Inr ()"
    using bad_arguments [of "Reserve i f sc n" _ s] assms(3)
    by (cases "call_check (Reserve i f sc n)") (auto simp: reply_def simp del: call_check.simps)
  from reserve_refines [OF assms(1) args] show ?thesis
    using assms(2,3) args by (simp add: meets_def split: if_splits)
qed

subsection \<open>Replays\<close>

lemma reserve_replay:
  assumes ok: "ledger_ok s" and args: "call_check (Reserve i f sc n) = Inr ()"
    and run: "ledger_reserve i f sc n s = (Inr e, s')"
  shows "ledger_reservation (op_idempotency_key i) s' = Some (e, False) \<and> le_identity e = i \<and>
    le_external_dedupe_nonce e = n \<and> le_reservation_scope_hash e = Some sc"
proof (cases "ledger_reservation (op_idempotency_key i) s")
  case None
  then show ?thesis
    using run reserve_cases [OF ok args] by (auto simp: reservation_appended le_key_def entry_None split: sum.splits if_splits)
next
  case (Some r)
  then obtain l where "ledger_latest (op_idempotency_key i) s = Inr l"
    using ok_present [OF ok Some] by metis
  moreover have "snd r = False"
    using reservation_SomeD [OF Some] ok_row [OF ok, of r] by (simp add: row_ok_def)
  ultimately show ?thesis
    using Some run reserve_cases [OF ok args] entry_Some [OF ok Some]
    by (cases r) (auto split: if_splits)
qed

lemma finish_replay:
  assumes ok: "ledger_ok s" and args: "call_check (Finish i f ok' r tc b a st) = Inr ()"
    and run: "ledger_finish i f ok' r tc b a st s = (Inr e, s')"
  shows "ledger_terminal (op_idempotency_key i) s' = Some (e, True) \<and>
    Some (receipt_of e) = call_receipt (Finish i f ok' r tc b a st)"
proof -
  from finish_cases [OF ok args] run obtain en where
    step: "entry_step (Finish i f ok' r tc b a st) (ledger_entry s (op_idempotency_key i)) = Inr en"
    by (auto simp del: entry_step.simps split: sum.splits)
  then obtain x where x: "known_entry i (ledger_entry s (op_idempotency_key i)) = Inr x" by auto
  note receipt = known_facts [OF ok x]
  show ?thesis
  proof (cases "ledger_terminal (op_idempotency_key i) s")
    case None
    then show ?thesis
      using run step finish_cases [OF ok args]
      by (auto simp del: entry_step.simps
          simp: terminal_appended le_key_def call_receipt_def call_identity_def receipt_of_def)
  next
    case (Some t)
    then have "Some (receipt_of (fst t)) = call_receipt (Finish i f ok' r tc b a st)"
      using step x receipt by (auto split: if_splits)
    moreover have "s' = s" "e = fst t"
      using Some run step finish_cases [OF ok args] by (simp_all del: entry_step.simps)
    ultimately show ?thesis
      using Some terminal_SomeD [OF Some] by (cases t) simp
  qed
qed

lemma known_reserved: "known_entry i (ledger_entry s (op_idempotency_key i)) = Inr x \<Longrightarrow>
    \<exists>r. ledger_reservation (op_idempotency_key i) s = Some r \<and> le_identity (fst r) = i"
  by (auto simp: known_entry_def ledger_entry_def split: option.splits if_splits)

lemma exec_checked: "ledger_exec c s = (Inr v, s') \<Longrightarrow> call_check c = Inr ()"
  using bad_arguments [of c _ s] by (cases "call_check c") auto

lemma reply_Inr_iff: "reply f out = (Inr v, s) \<longleftrightarrow> (\<exists>w. out = (Inr w, s) \<and> v = f w)"
  by (cases out; cases "fst out") (auto simp: reply_def)

lemma reserve_again:
  assumes "call_check (Reserve i f sc n) = Inr ()"
    "ledger_reservation (op_idempotency_key i) s = Some (e, False)" "le_identity e = i"
    "le_external_dedupe_nonce e = n" "le_reservation_scope_hash e = Some sc"
  shows "ledger_reserve i f sc n s = (Inr e, s)"
  using assms by (simp add: ledger_reserve_def)

lemma finish_again:
  assumes "call_check (Finish i f ok' r tc b a st) = Inr ()"
    "ledger_terminal (op_idempotency_key i) s = Some (e, True)"
    "Some (receipt_of e) = call_receipt (Finish i f ok' r tc b a st)"
    "ledger_reservation (op_idempotency_key i) s = Some q" "le_identity (fst q) = i"
  shows "ledger_finish i f ok' r tc b a st s = (Inr e, s)"
  using assms by (simp add: ledger_finish_def require_identity_def call_receipt_def receipt_of_def)

fun replayable :: "ledger_call \<Rightarrow> bool" where
  "replayable (Reserve i f sc n) = True"
| "replayable (Finish i f ok r tc b a st) = True"
| "replayable c = False"

subsection \<open>Properties\<close>

text \<open>
  C1. The two tables implement the entry protocol: on every reachable ledger, a call fails with
  exactly the error the protocol prescribes and then changes nothing, or it succeeds and the entry
  of its key, and no other, becomes the one the protocol prescribes.
\<close>

theorem ledger_refines_protocol:
  assumes "ledger_reachable s"
  shows "case rbind (call_check c) (\<lambda>_. entry_step c (ledger_entry s (call_key c))) of
      Inl e \<Rightarrow> ledger_exec c s = (Inl e, s)
    | Inr en \<Rightarrow> \<exists>v s'. ledger_exec c s = (Inr v, s') \<and> ledger_entry s' = (ledger_entry s)(call_key c \<mapsto> en)"
  using bad_arguments [of c _ s] exec_refines [OF ledger_reachable_ok [OF assms], of c]
  by (cases "call_check c"; cases "ledger_exec c s") (auto simp: meets_def split: sum.splits)

text \<open>
  C2. Entries only move forward, whatever calls follow: rows are never rewritten or removed; identity,
  scope and nonce are fixed at reservation; the fence never decreases and is frozen, with its grant,
  once execution has started; a finished operation never changes again.
\<close>

theorem ledger_moves_forward:
  assumes "ledger_reachable s" "ledger_entry s k = Some x"
  shows "prefix (lg_rows s) (lg_rows (snd (run_ops ledger_exec cs s))) \<and>
    (\<exists>y. ledger_entry (snd (run_ops ledger_exec cs s)) k = Some y \<and> evolves x y)"
  using run_appends run_evolves ledger_reachable_ok [OF assms(1)] assms(2) by blast

text \<open>
  The history of every key in every reachable ledger is one reservation, then fence rebinds with
  strictly increasing tokens, then at most one terminal event, which carries the last token.
\<close>

theorem ledger_history_shape:
  assumes "ledger_reachable s"
  shows "history_shape (ledger_history k s)"
  using assms by (rule reachable_shape)

text \<open>
  C3. Reservation and completion are idempotent for ever: once such a call has succeeded, repeating it
  after any sequence of other calls returns the very same event and changes nothing.
\<close>

theorem ledger_replay_forever:
  assumes "ledger_reachable s" "replayable c" "ledger_exec c s = (Inr v, s')"
  shows "ledger_exec c (snd (run_ops ledger_exec cs s')) = (Inr v, snd (run_ops ledger_exec cs s'))"
proof -
  have ok: "ledger_ok s" and ok': "ledger_ok s'"
    using ledger_reachable_ok assms(1) ledger_call [OF assms(1), of c] assms(3) by auto
  note pre = run_appends [OF ok', of cs]
  note args = exec_checked [OF assms(3)]
  show ?thesis
  proof (cases c)
    case (Reserve i f sc n)
    then obtain e where e: "ledger_reserve i f sc n s = (Inr e, s')" "v = EventReply e"
      using assms(3) by (auto simp: reply_Inr_iff)
    show ?thesis
      using reserve_replay [OF ok args [unfolded Reserve] e(1)] reservation_stable [OF pre]
        reserve_again [OF args [unfolded Reserve]] Reserve e(2) by (simp add: reply_def)
  next
    case (Finish i f ok' r tc b a st)
    then obtain e where e: "ledger_finish i f ok' r tc b a st s = (Inr e, s')" "v = EventReply e"
      using assms(3) by (auto simp: reply_Inr_iff)
    obtain en where "entry_step c (ledger_entry s (call_key c)) = Inr en"
      using exec_refines [OF ok args] assms(3) by (cases "entry_step c (ledger_entry s (call_key c))") (auto simp: meets_def)
    then obtain q where q: "ledger_reservation (op_idempotency_key i) s = Some q" "le_identity (fst q) = i"
      using known_reserved Finish by (force simp: call_identity_def)
    have "prefix (lg_rows s) (lg_rows s')"
      using exec_appends [OF ok, of c] assms(3) by (auto simp: prefix_def)
    then have "ledger_reservation (op_idempotency_key i) (snd (run_ops ledger_exec cs s')) = Some q"
      using q(1) reservation_stable pre by blast
    then show ?thesis
      using finish_replay [OF ok args [unfolded Finish] e(1)] terminal_stable [OF pre] q(2)
        finish_again [OF args [unfolded Finish]] Finish e(2) by (simp add: reply_def)
  qed (use assms(2) in simp_all)
qed

text \<open>
  C4. A superseded fence is dead for good: once a key's fence has passed \<open>f\<close>, no rebind, start or
  finish that presents \<open>f\<close> for that key succeeds or changes anything after any sequence of calls.
\<close>

theorem ledger_stale_fence_dead:
  assumes "ledger_reachable s" "f < ledger_fence s (op_idempotency_key i)"
    and "c \<in> {RebindFence i f g, MarkStarted i f h, Finish i f ok r tc b a st}"
  shows "\<exists>e. ledger_exec c (snd (run_ops ledger_exec cs s)) = (Inl e, snd (run_ops ledger_exec cs s))"
proof -
  let ?t = "snd (run_ops ledger_exec cs s)"
  have ok: "ledger_ok ?t"
    using ledger_reachable_ok [OF ledger_run_reachable [OF assms(1)]] .
  have late: "f < ledger_fence ?t (call_key c)"
    using assms ledger_fencing.run_fence_mono [OF ledger_reachable_ok [OF assms(1)], of "op_idempotency_key i" cs]
    by (auto simp: call_identity_def)
  show ?thesis
  proof (cases "ledger_entry ?t (call_key c)")
    case (Some x)
    then show ?thesis
      using late assms(3) by (intro stale_fence_refused [OF ok Some]) (auto simp: ledger_fence_def)
  next
    case None
    from ok show ?thesis
      by (cases rule: exec_cases [of ?t c]) (use assms(3) None in \<open>auto simp: known_entry_def\<close>)
  qed
qed

subsection \<open>Witnesses\<close>

definition demo_identity :: operation_identity where
  "demo_identity = \<lparr>op_operation_id = ''op:1'', op_idempotency_key = ''key:1'', op_target_state_ref = ''state:a''\<rparr>"

definition demo_hash :: string where
  "demo_hash = replicate 64 (CHR ''a'')"

definition demo_reserve :: ledger_call where
  "demo_reserve = Reserve demo_identity 1 demo_hash None"

definition demo_ledger :: operation_ledger where
  "demo_ledger = snd (ledger_exec demo_reserve empty_ledger)"

definition demo_entry :: op_entry where
  "demo_entry = \<lparr>en_identity = demo_identity, en_scope = Some demo_hash, en_nonce = None, en_fence = 1,
     en_grant = None, en_receipt = None\<rparr>"

lemma demo_hash_ok: "is_hash demo_hash"
  by (simp add: is_hash_def demo_hash_def hex_lower_def list_all_iff)

lemma demo_ref: "ledger_ref_ok ''state:a''"
  by code_simp

lemma demo_checks:
  "call_check demo_reserve = Inr ()" "call_check (RebindFence demo_identity 1 2) = Inr ()"
  using demo_hash_ok demo_ref
  by (simp_all add: demo_reserve_def demo_identity_def ledger_identity_def ledger_fence_check_def ledger_scope_hash_def
      ledger_nonce_def ledger_public_refs_def)

lemma demo_empty: "ledger_entry empty_ledger k = None"
  by (simp add: ledger_entry_def ledger_reservation_def empty_ledger_def)

lemma demo_key: "op_idempotency_key demo_identity = ''key:1''"
  by (simp add: demo_identity_def)

lemma demo_step: "entry_step demo_reserve (ledger_entry empty_ledger (call_key demo_reserve)) = Inr demo_entry"
  by (simp add: demo_empty demo_reserve_def demo_entry_def)

lemma demo_reachable_ledger: "ledger_reachable demo_ledger"
  unfolding demo_ledger_def by (intro ledger_init ledger_call)

lemma demo_served: "\<exists>v. ledger_exec demo_reserve empty_ledger = (Inr v, demo_ledger)"
  and demo_ledger_entry: "ledger_entry demo_ledger ''key:1'' = Some demo_entry"
  using exec_refines [OF empty_ledger_ok demo_checks(1)]
  by (cases "ledger_exec demo_reserve empty_ledger";
      simp add: meets_def demo_step demo_ledger_def; simp add: demo_reserve_def call_identity_def demo_key)+

theorem ledger_refines_protocol_witness:
  "\<exists>v s'. ledger_exec demo_reserve empty_ledger = (Inr v, s') \<and>
     ledger_entry s' = (ledger_entry empty_ledger)(''key:1'' \<mapsto> demo_entry)"
  using ledger_refines_protocol [OF ledger_init, of demo_reserve] demo_step demo_checks(1)
  by (simp add: demo_reserve_def call_identity_def demo_key del: call_check.simps entry_step.simps)

theorem ledger_moves_forward_witness:
  "\<exists>y. ledger_entry (snd (run_ops ledger_exec [RebindFence demo_identity 1 2] demo_ledger)) ''key:1'' = Some y \<and>
     evolves demo_entry y"
  using ledger_moves_forward [OF demo_reachable_ledger demo_ledger_entry, of "[RebindFence demo_identity 1 2]"] by blast

theorem ledger_history_shape_witness: "history_shape (ledger_history ''key:1'' demo_ledger)"
  by (rule ledger_history_shape [OF demo_reachable_ledger])

theorem ledger_replay_forever_witness:
  "\<exists>v. ledger_exec demo_reserve empty_ledger = (Inr v, demo_ledger) \<and>
     (let t = snd (run_ops ledger_exec [RebindFence demo_identity 1 2] demo_ledger)
      in ledger_exec demo_reserve t = (Inr v, t))"
  using demo_served ledger_replay_forever [OF ledger_init, of demo_reserve _ demo_ledger "[RebindFence demo_identity 1 2]"]
  by (auto simp: demo_reserve_def Let_def simp del: ledger_exec.simps)

definition demo_ledger2 :: operation_ledger where
  "demo_ledger2 = snd (ledger_exec (RebindFence demo_identity 1 2) demo_ledger)"

lemma demo_rebound: "ledger_reachable demo_ledger2" "ledger_fence demo_ledger2 (op_idempotency_key demo_identity) = 2"
proof -
  show "ledger_reachable demo_ledger2"
    unfolding demo_ledger2_def by (intro demo_reachable_ledger ledger_call)
  have "entry_step (RebindFence demo_identity 1 2) (ledger_entry demo_ledger ''key:1'') = Inr (demo_entry\<lparr>en_fence := 2\<rparr>)"
    by (simp add: demo_ledger_entry known_entry_def) (simp add: demo_entry_def)
  then show "ledger_fence demo_ledger2 (op_idempotency_key demo_identity) = 2"
    using exec_refines [OF ledger_reachable_ok [OF demo_reachable_ledger] demo_checks(2)]
    by (simp add: meets_def demo_ledger2_def call_identity_def demo_key ledger_fence_def
        del: entry_step.simps ledger_exec.simps)
qed

theorem ledger_stale_fence_dead_witness:
  "\<exists>e. ledger_exec (MarkStarted demo_identity 1 demo_hash) (snd (run_ops ledger_exec [demo_reserve] demo_ledger2)) =
     (Inl e, snd (run_ops ledger_exec [demo_reserve] demo_ledger2))"
  by (rule ledger_stale_fence_dead [OF demo_rebound(1), of 1 demo_identity]) (simp_all add: demo_rebound(2))

end
