(* ===== verification/Pep.thy ===== *)
theory Pep
  imports Adapters Ledger Json
begin

text \<open>
  \<^verbatim>\<open>core/runner_vnext_pep.py\<close>: the policy enforcement point.  It reads the ledger and writes nothing.
  The injected authority verifier is a function argument.
\<close>

subsection \<open>Definitions\<close>

record authority_claim =
  ac_evidence_refs :: "string list"
  ac_operation_id :: string
  ac_target_state_ref :: string
  ac_effect_class :: effect_class
  ac_resources :: "string list"
  ac_fresh :: bool

record pep_receipt =
  pr_adapter_id :: string
  pr_operation_id :: string
  pr_target_state_ref :: string
  pr_fence_token :: int
  pr_idempotency_key :: string
  pr_effect_class :: effect_class
  pr_policy_reason_code :: string
  pr_authorization_status :: string
  pr_side_effects_executed :: bool

record broker_request =
  br_adapter_id :: string
  br_operation_id :: string
  br_target_state_ref :: string
  br_fence_token :: int
  br_idempotency_key :: string
  br_resources :: "string list"
  br_effects :: "string list"
  br_effect_class :: effect_class
  br_policy_reason_code :: string
  br_approval_evidence_refs :: "string list"
  br_execution_authorized :: bool

datatype pep_outcome = Authorized pep_receipt | Broker broker_request

definition fingerprint_payload :: "execution_envelope \<Rightarrow> (string \<times> json) list" where
  "fingerprint_payload e = [
     (''adapter_id'', JStr (ev_adapter_id e)),
     (''operation_id'', JStr (ev_operation_id e)),
     (''target_state_ref'', JStr (ev_target_state_ref e)),
     (''idempotency_key'', JStr (ev_idempotency_key e)),
     (''resources'', jstrs (ev_resources e)),
     (''effects'', jstrs (ev_effects e)),
     (''effect_class'', JStr (effect_class_value (ev_effect_class e))),
     (''policy_reason_code'', JStr (ev_policy_reason_code e)),
     (''required_capabilities'', jstrs (ev_required_capabilities e)),
     (''privacy'', JStr (privacy_value (ev_privacy e))),
     (''dry_run'', JBool (ev_dry_run e))]"

definition reservation_scope_fingerprint :: "execution_envelope \<Rightarrow> string" where
  "reservation_scope_fingerprint e = json_digest (JObj (fingerprint_payload e))"

definition validate_envelope :: "execution_envelope \<Rightarrow> unit res" where
  "validate_envelope e =
     rbind (raise_if (\<not> ev_dry_run e) (PEPError ''PEP_DRY_RUN_ENVELOPE_REQUIRED'')) (\<lambda>_.
     rbind (check_all public_ref (PEPError ''PEP_PUBLIC_SAFE_REF_REQUIRED'')
              [ev_adapter_id e, ev_operation_id e, ev_target_state_ref e, ev_idempotency_key e]) (\<lambda>_.
     rbind (guards [
       (ev_policy_reason_code e = [] \<or> list_ex (\<lambda>ch. ch \<notin> set upper_digits_underscore) (ev_policy_reason_code e),
          PEPError ''PEP_POLICY_REASON_CODE_INVALID''),
       (ev_fence_token e < 1, PEPError ''PEP_FENCE_INVALID''),
       (ev_resources e = [] \<or> ev_effects e = [], PEPError ''PEP_BOUNDED_SCOPE_REQUIRED'')]) (\<lambda>_.
     check_all public_ref (PEPError ''PEP_PUBLIC_SAFE_REF_REQUIRED'') (ev_resources e))))"

definition validate_ledger :: "execution_envelope \<Rightarrow> ledger_event \<Rightarrow> int \<Rightarrow> string option \<Rightarrow> unit res" where
  "validate_ledger e reservation current_fence current_status = guards [
     (le_event_type reservation \<noteq> RESERVED \<or> current_status \<noteq> Some ''RESERVED'', PEPError ''PEP_LEDGER_RESERVATION_REQUIRED''),
     (op_operation_id (le_identity reservation) \<noteq> ev_operation_id e, PEPError ''PEP_LEDGER_OPERATION_MISMATCH''),
     (op_idempotency_key (le_identity reservation) \<noteq> ev_idempotency_key e, PEPError ''PEP_LEDGER_IDEMPOTENCY_MISMATCH''),
     (op_target_state_ref (le_identity reservation) \<noteq> ev_target_state_ref e, PEPError ''PEP_LEDGER_TARGET_STATE_MISMATCH''),
     (current_fence \<noteq> ev_fence_token e, PEPError ''PEP_LEDGER_FENCE_MISMATCH''),
     (le_reservation_scope_hash reservation \<noteq> Some (reservation_scope_fingerprint e),
        PEPError ''PEP_LEDGER_ENVELOPE_FINGERPRINT_MISMATCH'')]"

definition validate_authority_binding :: "execution_envelope \<Rightarrow> authority_claim \<Rightarrow> unit res" where
  "validate_authority_binding e c =
     rbind (raise_if (ac_evidence_refs c = []) (PEPError ''PEP_APPROVAL_EVIDENCE_REQUIRED'')) (\<lambda>_.
     rbind (check_all public_ref (PEPError ''PEP_APPROVAL_EVIDENCE_INVALID'') (ac_evidence_refs c)) (\<lambda>_.
     guards [
       (ac_operation_id c \<noteq> ev_operation_id e, PEPError ''PEP_AUTHORITY_OPERATION_MISMATCH''),
       (ac_target_state_ref c \<noteq> ev_target_state_ref e, PEPError ''PEP_AUTHORITY_TARGET_STATE_MISMATCH''),
       (ac_effect_class c \<noteq> ev_effect_class e, PEPError ''PEP_AUTHORITY_EFFECT_CLASS_MISMATCH''),
       (ac_resources c \<noteq> ev_resources e, PEPError ''PEP_AUTHORITY_SCOPE_MISMATCH'')]))"

text \<open>The \<^verbatim>\<open>try\<close> block that reads the ledger: its only failures are ledger errors.\<close>

definition pep_ledger_view :: "string \<Rightarrow> operation_ledger \<Rightarrow> (ledger_event \<times> int \<times> string option) res" where
  "pep_ledger_view k s =
     (case rbind (reservation_event k s) (\<lambda>r. rbind (current_fence_token k s) (\<lambda>f. Inr (r, f, ledger_status k s))) of
        Inl e \<Rightarrow> Inl (PEPError ''PEP_LEDGER_RESERVATION_MISSING'')
      | Inr v \<Rightarrow> Inr v)"

definition pep_evaluate ::
    "execution_envelope \<Rightarrow> operation_ledger \<Rightarrow> authority_claim option \<Rightarrow> (authority_claim \<Rightarrow> bool) option \<Rightarrow> pep_outcome res" where
  "pep_evaluate e s claim verifier =
     rbind (validate_envelope e) (\<lambda>_.
     rbind (pep_ledger_view (ev_idempotency_key e) s) (\<lambda>(reservation, fence, status).
     rbind (validate_ledger e reservation fence status) (\<lambda>_.
     if ev_effect_class e = GREEN then
       (if claim \<noteq> None then Inl (PEPError ''PEP_GREEN_AUTHORITY_CLAIM_UNEXPECTED'')
        else Inr (Authorized \<lparr>pr_adapter_id = ev_adapter_id e, pr_operation_id = ev_operation_id e,
          pr_target_state_ref = ev_target_state_ref e, pr_fence_token = ev_fence_token e,
          pr_idempotency_key = ev_idempotency_key e, pr_effect_class = ev_effect_class e,
          pr_policy_reason_code = ev_policy_reason_code e, pr_authorization_status = ''AUTHORIZED_GREEN_BOUNDED'',
          pr_side_effects_executed = False\<rparr>))
     else (case (claim, verifier) of
       (Some c, Some verify) \<Rightarrow>
         rbind (validate_authority_binding e c) (\<lambda>_.
         rbind (guards [
           (ev_effect_class e = RED \<and> \<not> ac_fresh c, PEPError ''PEP_FRESH_OPERATOR_AUTHORITY_REQUIRED''),
           (\<not> verify c, PEPError ''PEP_AUTHORITY_VERIFICATION_FAILED'')]) (\<lambda>_.
         Inr (Broker \<lparr>br_adapter_id = ev_adapter_id e, br_operation_id = ev_operation_id e,
           br_target_state_ref = ev_target_state_ref e, br_fence_token = ev_fence_token e,
           br_idempotency_key = ev_idempotency_key e, br_resources = ev_resources e, br_effects = ev_effects e,
           br_effect_class = ev_effect_class e, br_policy_reason_code = ev_policy_reason_code e,
           br_approval_evidence_refs = ac_evidence_refs c, br_execution_authorized = False\<rparr>)))
     | _ \<Rightarrow> Inl (PEPError ''PEP_OPERATOR_AUTHORITY_REQUIRED'')))))"

subsection \<open>The fingerprint\<close>

lemma effect_class_value_inject [simp]: "effect_class_value a = effect_class_value b \<longleftrightarrow> a = b"
  by (cases a; cases b) simp_all

lemma privacy_value_inject [simp]: "privacy_value a = privacy_value b \<longleftrightarrow> a = b"
  by (cases a; cases b) simp_all

lemma fingerprint_payload_flat: "flat_payload (fingerprint_payload e)"
  by (simp add: flat_payload_def fingerprint_payload_def)

lemma fingerprint_payload_inject:
  "fingerprint_payload a = fingerprint_payload b \<Longrightarrow> a\<lparr>ev_fence_token := 0\<rparr> = b\<lparr>ev_fence_token := 0\<rparr>"
  by (cases a; cases b) (simp add: fingerprint_payload_def)

lemma fingerprint_inject:
  assumes "reservation_scope_fingerprint a = reservation_scope_fingerprint b"
    and "no_collision (JObj (fingerprint_payload a)) (JObj (fingerprint_payload b))"
  shows "a\<lparr>ev_fence_token := 0\<rparr> = b\<lparr>ev_fence_token := 0\<rparr>"
  using assms unfolding reservation_scope_fingerprint_def
  by (intro fingerprint_payload_inject digest_payload_inject)
    (simp_all add: fingerprint_payload_flat fingerprint_payload_def [THEN arg_cong [where f = "map fst"]])

lemma fingerprint_is_hash: "is_hash (reservation_scope_fingerprint e)"
  using json_digest_chars by (auto simp: is_hash_def reservation_scope_fingerprint_def list_all_iff)

subsection \<open>What an authorization rests on\<close>

text \<open>The ledger entry an outcome of the enforcement point proves to exist.\<close>

definition reserved_for :: "execution_envelope \<Rightarrow> operation_ledger \<Rightarrow> bool" where
  "reserved_for e s \<longleftrightarrow> (\<exists>x. ledger_entry s (ev_idempotency_key e) = Some x \<and>
     en_identity x = \<lparr>op_operation_id = ev_operation_id e, op_idempotency_key = ev_idempotency_key e,
       op_target_state_ref = ev_target_state_ref e\<rparr> \<and>
     en_fence x = ev_fence_token e \<and> en_scope x = Some (reservation_scope_fingerprint e) \<and>
     en_grant x = None \<and> en_receipt x = None)"

lemma pep_ledger_view_Inr:
  "pep_ledger_view k s = Inr (r, f, st) \<longleftrightarrow>
     reservation_event k s = Inr r \<and> current_fence_token k s = Inr f \<and> st = ledger_status k s"
  by (auto simp: pep_ledger_view_def simp del: rbind_Inr_iff rbind_Inl_iff split: sum.splits)
    (auto split: sum.splits)

lemma ledger_checks_reserved:
  assumes ok: "ledger_ok s" and view: "pep_ledger_view (ev_idempotency_key e) s = Inr (r, f, st)"
    and checks: "validate_ledger e r f st = Inr ()"
  shows "reserved_for e s"
proof -
  let ?k = "ev_idempotency_key e"
  obtain row where row: "ledger_reservation ?k s = Some row" "fst row = r"
    using view by (auto simp: pep_ledger_view_Inr reservation_event_def event_of_def split: option.splits)
  have f: "current_fence_token ?k s = Inr f" and st: "ledger_status ?k s = st"
    using view by (simp_all add: pep_ledger_view_Inr)
  obtain x where x: "ledger_entry s ?k = Some x"
    using row(1) by (simp add: ledger_entry_def)
  have facts: "op_operation_id (le_identity r) = ev_operation_id e" "op_idempotency_key (le_identity r) = ?k"
      "op_target_state_ref (le_identity r) = ev_target_state_ref e" "f = ev_fence_token e"
      "le_reservation_scope_hash r = Some (reservation_scope_fingerprint e)" "st = Some ''RESERVED''"
    using checks by (auto simp: validate_ledger_def)
  have "entry_status x = ''RESERVED''"
    using ledger_status_entry [OF ok, of ?k] st facts(6) x by simp
  then have "en_grant x = None \<and> en_receipt x = None"
    using receipt_terminal [OF ok x] by (auto simp: entry_status_def split: option.splits if_splits)
  then show ?thesis
    using x row f facts by (auto simp: reserved_for_def ledger_entry_def intro: operation_identity.equality)
qed

lemma reserved_checks:
  assumes ok: "ledger_ok s" and res: "reserved_for e s"
  obtains r where "pep_ledger_view (ev_idempotency_key e) s = Inr (r, ev_fence_token e, Some ''RESERVED'')"
    "validate_ledger e r (ev_fence_token e) (Some ''RESERVED'') = Inr ()"
proof -
  let ?k = "ev_idempotency_key e"
  obtain x where x: "ledger_entry s ?k = Some x" "en_identity x = \<lparr>op_operation_id = ev_operation_id e,
      op_idempotency_key = ?k, op_target_state_ref = ev_target_state_ref e\<rparr>" "en_fence x = ev_fence_token e"
      "en_scope x = Some (reservation_scope_fingerprint e)" "en_grant x = None" "en_receipt x = None"
    using res by (auto simp: reserved_for_def)
  then obtain row where row: "ledger_reservation ?k s = Some row"
    by (cases "ledger_reservation ?k s") (auto simp: ledger_entry_def)
  obtain l where l: "ledger_latest ?k s = Inr l"
    using ok_present [OF ok row] by metis
  note en = entry_Some [OF ok row l]
  have "ledger_status ?k s = Some ''RESERVED''"
    using ledger_status_entry [OF ok, of ?k] x by (simp add: entry_status_def)
  moreover have "current_fence_token ?k s = Inr (ev_fence_token e)"
    using en x(1,3) by (simp add: current_fence_latest [OF l])
  moreover have "le_event_type (fst row) = RESERVED"
    using reservation_SomeD [OF row] by blast
  ultimately show thesis
    using that [of "fst row"] en x row
    by (simp add: pep_ledger_view_Inr reservation_event_def event_of_def validate_ledger_def guards.simps)
qed

abbreviation green_receipt :: "execution_envelope \<Rightarrow> pep_receipt" where
  "green_receipt e \<equiv> \<lparr>pr_adapter_id = ev_adapter_id e, pr_operation_id = ev_operation_id e,
     pr_target_state_ref = ev_target_state_ref e, pr_fence_token = ev_fence_token e,
     pr_idempotency_key = ev_idempotency_key e, pr_effect_class = ev_effect_class e,
     pr_policy_reason_code = ev_policy_reason_code e, pr_authorization_status = ''AUTHORIZED_GREEN_BOUNDED'',
     pr_side_effects_executed = False\<rparr>"

lemma pep_InrD:
  assumes "ledger_ok s" "pep_evaluate e s claim verifier = Inr out"
  shows "validate_envelope e = Inr () \<and> reserved_for e s \<and>
    (if ev_effect_class e = GREEN then claim = None \<and> out = Authorized (green_receipt e)
     else (\<exists>c v b. claim = Some c \<and> verifier = Some v \<and> v c \<and> validate_authority_binding e c = Inr () \<and>
       (ev_effect_class e = RED \<longrightarrow> ac_fresh c) \<and> out = Broker b \<and> br_execution_authorized b = False \<and>
       br_approval_evidence_refs b = ac_evidence_refs c \<and> br_operation_id b = ev_operation_id e \<and>
       br_resources b = ev_resources e \<and> br_effects b = ev_effects e \<and> br_fence_token b = ev_fence_token e))"
proof -
  obtain r f st where v: "validate_envelope e = Inr ()" "pep_ledger_view (ev_idempotency_key e) s = Inr (r, f, st)"
      "validate_ledger e r f st = Inr ()"
    using assms(2) by (auto simp: pep_evaluate_def)
  then have "reserved_for e s"
    using ledger_checks_reserved assms(1) by blast
  then show ?thesis
    using assms(2) v by (auto simp: pep_evaluate_def split: if_splits option.splits)
qed

lemma pep_green_total:
  assumes "ledger_ok s" "validate_envelope e = Inr ()" "reserved_for e s" "ev_effect_class e = GREEN"
  shows "pep_evaluate e s None verifier = Inr (Authorized (green_receipt e))"
proof -
  obtain r where "pep_ledger_view (ev_idempotency_key e) s = Inr (r, ev_fence_token e, Some ''RESERVED'')"
      "validate_ledger e r (ev_fence_token e) (Some ''RESERVED'') = Inr ()"
    using reserved_checks [OF assms(1,3)] .
  then show ?thesis
    using assms(2,4) by (simp add: pep_evaluate_def)
qed

lemma pep_error: "pep_evaluate e s claim verifier = Inl x \<Longrightarrow> \<exists>r. x = PEPError r"
  by (auto simp: pep_evaluate_def validate_envelope_def validate_ledger_def validate_authority_binding_def pep_ledger_view_def
      split: if_splits option.splits sum.splits dest!: guards_Inl)

lemma validate_envelopeD:
  assumes "validate_envelope e = Inr ()"
  shows "ev_dry_run e" "public_ref (ev_adapter_id e)" "public_ref (ev_operation_id e)" "public_ref (ev_target_state_ref e)"
    "public_ref (ev_idempotency_key e)" "1 \<le> ev_fence_token e" "ev_policy_reason_code e \<noteq> []"
    "set (ev_policy_reason_code e) \<subseteq> set upper_digits_underscore" "ev_effects e \<noteq> []" "ev_resources e \<noteq> []"
    "list_all public_ref (ev_resources e)"
  using assms by (auto simp: validate_envelope_def list_ex_iff list_all_iff split: if_splits)

lemma authority_bindingD:
  "validate_authority_binding e c = Inr () \<Longrightarrow> ac_evidence_refs c \<noteq> [] \<and> ac_operation_id c = ev_operation_id e \<and>
     ac_target_state_ref c = ev_target_state_ref e \<and> ac_effect_class c = ev_effect_class e \<and> ac_resources c = ev_resources e"
  by (simp add: validate_authority_binding_def)

subsection \<open>Properties\<close>

text \<open>
  C25. The enforcement point authorizes only what is well formed, reserved and approved: whatever it
  returns, the envelope is a dry-run envelope with public names, target and resources, a bounded non-empty
  scope, a positive fence and a reason code in capitals, and the
  ledger holds an open, not yet started reservation with exactly the envelope's identity, fence and
  scope hash.  It returns an authorization only for a GREEN envelope without a claim; otherwise it
  returns a broker request for exactly the envelope's operation, resources, effects and fence that authorizes
  nothing by itself, after the verifier accepted a claim
  bound to the same operation, state, class and resources, fresh when the class is RED.
\<close>

theorem pep_outcome_justified:
  assumes "ledger_reachable s" "pep_evaluate e s claim verifier = Inr out"
  shows "reserved_for e s \<and> ev_dry_run e \<and> public_ref (ev_adapter_id e) \<and> public_ref (ev_operation_id e) \<and>
    public_ref (ev_target_state_ref e) \<and> public_ref (ev_idempotency_key e) \<and> 1 \<le> ev_fence_token e \<and>
    ev_policy_reason_code e \<noteq> [] \<and> set (ev_policy_reason_code e) \<subseteq> set upper_digits_underscore \<and>
    ev_effects e \<noteq> [] \<and> ev_resources e \<noteq> [] \<and> list_all public_ref (ev_resources e) \<and> (case out of
      Authorized r \<Rightarrow> ev_effect_class e = GREEN \<and> claim = None \<and> r = green_receipt e
    | Broker b \<Rightarrow> ev_effect_class e \<noteq> GREEN \<and> \<not> br_execution_authorized b \<and> br_operation_id b = ev_operation_id e \<and>
        br_resources b = ev_resources e \<and> br_effects b = ev_effects e \<and> br_fence_token b = ev_fence_token e \<and>
        (\<exists>c v. claim = Some c \<and> verifier = Some v \<and> v c \<and> ac_evidence_refs c \<noteq> [] \<and>
          ac_operation_id c = ev_operation_id e \<and> ac_target_state_ref c = ev_target_state_ref e \<and>
          ac_effect_class c = ev_effect_class e \<and> ac_resources c = ev_resources e \<and>
          br_approval_evidence_refs b = ac_evidence_refs c \<and> (ac_fresh c \<or> ev_effect_class e = YELLOW)))"
proof -
  note d = pep_InrD [OF ledger_reachable_ok [OF assms(1)] assms(2)]
  note env = validate_envelopeD [OF conjunct1 [OF d]]
  show ?thesis
  proof (cases "ev_effect_class e = GREEN")
    case True
    then show ?thesis using d env by simp
  next
    case False
    then obtain c v b where c: "claim = Some c" "verifier = Some v" "v c" "validate_authority_binding e c = Inr ()"
        "ev_effect_class e = RED \<longrightarrow> ac_fresh c" "out = Broker b" "br_execution_authorized b = False"
        "br_approval_evidence_refs b = ac_evidence_refs c" "br_operation_id b = ev_operation_id e"
        "br_resources b = ev_resources e" "br_effects b = ev_effects e" "br_fence_token b = ev_fence_token e" "reserved_for e s"
      using d by auto
    have "ac_fresh c \<or> ev_effect_class e = YELLOW"
      using False c(5) by (cases "ev_effect_class e") simp_all
    then show ?thesis
      using c False env authority_bindingD [OF c(4)] by simp
  qed
qed

text \<open>
  The reservation fingerprint pins the envelope: two envelopes with the same fingerprint differ at
  most in their fence token, unless the two hashed texts are a SHA-256 collision.
\<close>

theorem fingerprint_binds_envelope:
  assumes "reservation_scope_fingerprint a = reservation_scope_fingerprint b"
    and "no_collision (JObj (fingerprint_payload a)) (JObj (fingerprint_payload b))"
  shows "a\<lparr>ev_fence_token := 0\<rparr> = b\<lparr>ev_fence_token := 0\<rparr>"
  using assms by (rule fingerprint_inject)

subsection \<open>Witnesses\<close>

definition demo_envelope_identity :: operation_identity where
  "demo_envelope_identity = \<lparr>op_operation_id = ''op:1'', op_idempotency_key = ''idem:1'', op_target_state_ref = ''state:a''\<rparr>"

definition demo_pep_call :: ledger_call where
  "demo_pep_call = Reserve demo_envelope_identity 1 (reservation_scope_fingerprint demo_envelope) None"

definition demo_pep_ledger :: operation_ledger where
  "demo_pep_ledger = snd (ledger_exec demo_pep_call empty_ledger)"

lemma demo_envelope_valid: "validate_envelope demo_envelope = Inr ()"
  by code_simp

lemma demo_pep_reachable: "ledger_reachable demo_pep_ledger"
  unfolding demo_pep_ledger_def by (intro ledger_init ledger_call)

lemma demo_pep_check: "call_check demo_pep_call = Inr ()"
proof -
  have "ledger_identity demo_envelope_identity = Inr ()" by code_simp
  then show ?thesis
    using fingerprint_is_hash [of demo_envelope]
    by (simp add: demo_pep_call_def ledger_fence_check_def ledger_scope_hash_def ledger_nonce_def)
qed

lemma demo_pep_reserved: "reserved_for demo_envelope demo_pep_ledger"
proof -
  have "entry_step demo_pep_call (ledger_entry empty_ledger (call_key demo_pep_call)) =
      Inr \<lparr>en_identity = demo_envelope_identity, en_scope = Some (reservation_scope_fingerprint demo_envelope),
        en_nonce = None, en_fence = 1, en_grant = None, en_receipt = None\<rparr>"
    by (simp add: demo_empty demo_pep_call_def)
  then show ?thesis
    using exec_refines [OF empty_ledger_ok demo_pep_check]
    by (simp add: meets_def demo_pep_ledger_def reserved_for_def)
      (simp add: demo_pep_call_def call_identity_def demo_envelope_identity_def demo_envelope_def)
qed

theorem pep_outcome_justified_witness:
  "pep_evaluate demo_envelope demo_pep_ledger None None = Inr (Authorized (green_receipt demo_envelope)) \<and>
     reserved_for demo_envelope demo_pep_ledger"
proof -
  have eval: "pep_evaluate demo_envelope demo_pep_ledger None None = Inr (Authorized (green_receipt demo_envelope))"
    by (rule pep_green_total [OF ledger_reachable_ok [OF demo_pep_reachable] demo_envelope_valid demo_pep_reserved])
      (simp add: demo_envelope_def)
  with pep_outcome_justified [OF demo_pep_reachable eval] show ?thesis by blast
qed

theorem fingerprint_binds_envelope_witness:
  "demo_envelope\<lparr>ev_fence_token := 7, ev_fence_token := 0\<rparr> = demo_envelope\<lparr>ev_fence_token := 0\<rparr>"
  by (rule fingerprint_binds_envelope [of "demo_envelope\<lparr>ev_fence_token := 7\<rparr>"])
    (simp_all add: reservation_scope_fingerprint_def fingerprint_payload_def)

end
