(* ===== verification/ControlPlane.thy ===== *)
theory ControlPlane
  imports Routing Environment Pep
begin

text \<open>
  \<^verbatim>\<open>core/runner_vnext_control_plane.py\<close>: \<^verbatim>\<open>GreenControlPlane.prepare\<close> composes the policy classifier, the
  route planner, the environment registry, the lane scheduler, the adapter planner, the ledger and
  the enforcement point.  The two stores it writes are the record \<open>runner_state\<close>; the registries it
  only reads are arguments.  The lease store reads its own clock: \<open>t1\<close> is its reading at the acquire
  and \<open>t2\<close> at a release, while \<open>now\<close> is the time the caller passes for routing.
\<close>

subsection \<open>Definitions\<close>

record runner_state =
  rs_leases :: lane_store
  rs_ledger :: operation_ledger

definition on_leases :: "(lane_store, 'a) op \<Rightarrow> (runner_state, 'a) op" where
  "on_leases f rs = (case f (rs_leases rs) of (r, l) \<Rightarrow> (r, rs\<lparr>rs_leases := l\<rparr>))"

definition on_ledger :: "(operation_ledger, 'a) op \<Rightarrow> (runner_state, 'a) op" where
  "on_ledger f rs = (case f (rs_ledger rs) of (r, l) \<Rightarrow> (r, rs\<lparr>rs_ledger := l\<rparr>))"

text \<open>\<^verbatim>\<open>try: body / except C: pass\<close>\<close>

definition suppress :: "(exn \<Rightarrow> bool) \<Rightarrow> ('s, 'a) op \<Rightarrow> ('s, unit) op" where
  "suppress caught body s = (case body s of
     (Inl e, s') \<Rightarrow> ((if caught e then Inr () else Inl e), s') | (Inr v, s') \<Rightarrow> (Inr (), s'))"

fun is_ledger_error :: "exn \<Rightarrow> bool" where
  "is_ledger_error (LedgerError r) = True" | "is_ledger_error e = False"

fun is_lease_error :: "exn \<Rightarrow> bool" where
  "is_lease_error (LeaseError r) = True" | "is_lease_error e = False"

record green_handoff =
  gh_task_id :: string
  gh_node_id :: string
  gh_node_generation :: int
  gh_node_snapshot_hash :: string
  gh_node_attestation_ref :: string
  gh_node_expires_at :: real
  gh_lane :: lane
  gh_lease_scope_key :: string
  gh_fence_token :: int
  gh_environment_policy_hash :: string
  gh_operation_id :: string
  gh_idempotency_key :: string
  gh_adapter_id :: string
  gh_policy_reason_code :: string
  gh_reservation_scope_hash :: string
  gh_authorization_status :: string
  gh_environment :: str_dict
  gh_envelope :: execution_envelope
  gh_lease_retained :: bool
  gh_ledger_reserved :: bool
  gh_execution_authorized :: bool
  gh_side_effects_executed :: bool

definition validate_task_operation :: "universal_task \<Rightarrow> operation_ir \<Rightarrow> unit res" where
  "validate_task_operation task operation = guards [
     (\<not> partition_ref (ir_operation_id operation) \<or> \<not> py_startswith (ir_operation_id operation) ''op:'',
        ControlPlaneError ''CONTROL_PLANE_OPERATION_ID_INVALID''),
     (\<not> partition_ref (task_idempotency_key task) \<or> \<not> py_startswith (task_idempotency_key task) ''idem:'',
        ControlPlaneError ''CONTROL_PLANE_IDEMPOTENCY_KEY_INVALID''),
     (task_idempotency_key task \<noteq> ir_idempotency_key operation,
        ControlPlaneError ''CONTROL_PLANE_TASK_OPERATION_IDEMPOTENCY_MISMATCH''),
     (task_target_resources task \<noteq> ir_resources operation,
        ControlPlaneError ''CONTROL_PLANE_TASK_OPERATION_RESOURCE_MISMATCH''),
     (task_expected_effects task \<noteq> ir_effects operation,
        ControlPlaneError ''CONTROL_PLANE_TASK_OPERATION_EFFECT_MISMATCH'')]"

text \<open>\<^verbatim>\<open>except C as exc: raise ControlPlaneError(exc.reason_code)\<close>\<close>

definition reraise_control :: "(exn \<Rightarrow> bool) \<Rightarrow> 'a res \<Rightarrow> 'a res" where
  "reraise_control caught r =
     (case r of Inl e \<Rightarrow> Inl (if caught e then ControlPlaneError (reason_code e) else e) | Inr v \<Rightarrow> Inr v)"

fun is_routing_error :: "exn \<Rightarrow> bool" where
  "is_routing_error (RoutingError r) = True" | "is_routing_error e = False"

fun is_environment_error :: "exn \<Rightarrow> bool" where
  "is_environment_error (EnvironmentContractError r) = True" | "is_environment_error e = False"

definition safe_release :: "real \<Rightarrow> lane_request \<Rightarrow> int \<Rightarrow> (runner_state, unit) op" where
  "safe_release t request fence = suppress is_lease_error (on_leases (scheduler_release t request fence))"

definition fail_ledger :: "operation_identity \<Rightarrow> string \<Rightarrow> bool \<Rightarrow> (runner_state, unit) op" where
  "fail_ledger identity target reserved_new rs =
     (if reserved_new \<and> ledger_status (op_idempotency_key identity) (rs_ledger rs) = Some ''RESERVED''
      then suppress is_ledger_error (on_ledger (\<lambda>s.
             guarded (current_fence_token (op_idempotency_key identity) s) (\<lambda>current.
               ledger_finish identity current False ''CONTROL_PLANE_PREPARATION_FAILED'' [] target target ''FAIL'') s)) rs
      else (Inr (), rs))"

definition fail_after_lease ::
    "real \<Rightarrow> lane_request \<Rightarrow> int \<Rightarrow> operation_identity \<Rightarrow> string \<Rightarrow> bool \<Rightarrow> bool \<Rightarrow> (runner_state, unit) op" where
  "fail_after_lease t request fence identity target reserved_new release =
     sbind (fail_ledger identity target reserved_new)
       (\<lambda>_ rs. if release then safe_release t request fence rs else (Inr (), rs))"

text \<open>The body of the \<^verbatim>\<open>try\<close> statement in \<^verbatim>\<open>prepare\<close>, with its fence synchronisation and its authorization.\<close>

definition sync_fence :: "operation_identity \<Rightarrow> int \<Rightarrow> string option \<Rightarrow> (runner_state, unit) op" where
  "sync_fence identity fence existing rs =
     (if existing = Some ''RESERVED''
      then guarded (current_fence_token (op_idempotency_key identity) (rs_ledger rs)) (\<lambda>current rs.
        if current \<noteq> fence then
          (if fence \<le> current then (Inl (ControlPlaneError ''CONTROL_PLANE_LEDGER_FENCE_NOT_MONOTONIC''), rs)
           else sbind (on_ledger (ledger_rebind_fence identity current fence)) (\<lambda>_ rs. (Inr (), rs)) rs)
        else (Inr (), rs)) rs
      else (Inr (), rs))"

definition green_authorize :: "execution_envelope \<Rightarrow> operation_ledger \<Rightarrow> pep_receipt res" where
  "green_authorize envelope s =
     rbind (pep_evaluate envelope s None None) (\<lambda>authorization. case authorization of
       Authorized r \<Rightarrow> Inr r | Broker b \<Rightarrow> Inl (ControlPlaneError ''CONTROL_PLANE_GREEN_AUTHORIZATION_REQUIRED''))"

definition prepare_body ::
    "adapter_planner \<Rightarrow> universal_task \<Rightarrow> operation_ir \<Rightarrow> string \<Rightarrow> policy_input \<Rightarrow> policy_decision \<Rightarrow> string
      \<Rightarrow> int \<Rightarrow> string option \<Rightarrow> (runner_state, execution_envelope \<times> string \<times> pep_receipt) op" where
  "prepare_body planner task operation adapter policy dec target fence existing =
     guarded (adapter_plan planner adapter task operation policy dec target fence) (\<lambda>envelope.
       let scope_hash = reservation_scope_fingerprint envelope;
           identity = \<lparr>op_operation_id = ir_operation_id operation, op_idempotency_key = ir_idempotency_key operation,
             op_target_state_ref = target\<rparr>
       in sbind (on_ledger (ledger_reserve identity fence scope_hash None)) (\<lambda>_.
          sbind (sync_fence identity fence existing) (\<lambda>_ rs.
            (rbind (green_authorize envelope (rs_ledger rs)) (\<lambda>r. Inr (envelope, scope_hash, r)), rs))))"

definition mk_handoff ::
    "universal_task \<Rightarrow> route_plan \<Rightarrow> string \<Rightarrow> int \<Rightarrow> lane \<Rightarrow> string \<Rightarrow> int \<Rightarrow> child_environment_plan
      \<Rightarrow> execution_envelope \<Rightarrow> pep_receipt \<Rightarrow> string \<Rightarrow> green_handoff res" where
  "mk_handoff task route node_id generation lane scope_key fence env_plan envelope authorization scope_hash =
     (case (rp_selected_snapshot_hash route, rp_selected_attestation_ref route, rp_selected_expires_at route) of
        (Some h, Some att, Some expiry) \<Rightarrow>
          Inr \<lparr>gh_task_id = task_id task, gh_node_id = node_id, gh_node_generation = generation,
            gh_node_snapshot_hash = h, gh_node_attestation_ref = att, gh_node_expires_at = expiry, gh_lane = lane,
            gh_lease_scope_key = scope_key, gh_fence_token = fence,
            gh_environment_policy_hash = er_policy_hash (cp_receipt env_plan),
            gh_operation_id = ev_operation_id envelope, gh_idempotency_key = ev_idempotency_key envelope,
            gh_adapter_id = ev_adapter_id envelope, gh_policy_reason_code = ev_policy_reason_code envelope,
            gh_reservation_scope_hash = scope_hash, gh_authorization_status = pr_authorization_status authorization,
            gh_environment = cp_environment env_plan, gh_envelope = envelope, gh_lease_retained = True,
            gh_ledger_reserved = True, gh_execution_authorized = True, gh_side_effects_executed = False\<rparr>
      | _ \<Rightarrow> Inl (ControlPlaneError ''CONTROL_PLANE_ROUTE_SNAPSHOT_BINDING_REQUIRED''))"

definition routed_node :: "route_plan \<Rightarrow> (string \<times> int) res" where
  "routed_node route =
     (if rp_status route \<noteq> ''ROUTED'' then Inl (ControlPlaneError (rp_reason_code route))
      else case (rp_selected_node_id route, rp_selected_generation route) of
          (Some node_id, Some generation) \<Rightarrow> Inr (node_id, generation)
        | _ \<Rightarrow> Inl (ControlPlaneError (rp_reason_code route)))"

text \<open>Everything before the lease is requested reads only.\<close>

definition prepare_checks ::
    "(real \<Rightarrow> string) \<Rightarrow> node_registry \<Rightarrow> env_registry \<Rightarrow> universal_task \<Rightarrow> operation_ir \<Rightarrow> string \<Rightarrow> lane \<Rightarrow> string
      \<Rightarrow> string \<Rightarrow> real \<Rightarrow> str_dict \<Rightarrow> str_dict
      \<Rightarrow> (policy_input \<times> policy_decision \<times> route_plan \<times> string \<times> int \<times> child_environment_plan) res" where
  "prepare_checks frepr nodes envs task operation adapter lane scope_key target now parent injected_env =
     rbind (raise_if (\<not> partition_ref scope_key) (ControlPlaneError ''CONTROL_PLANE_LEASE_SCOPE_INVALID'')) (\<lambda>_.
     rbind (raise_if (\<not> partition_ref target) (ControlPlaneError ''CONTROL_PLANE_TARGET_STATE_REF_INVALID'')) (\<lambda>_.
     rbind (validate_task_operation task operation) (\<lambda>_.
     let policy = \<lparr>pi_operation = operation, pi_reversibility = task_reversibility task, pi_privacy = task_privacy task,
           pi_target_state_ref = Some target, pi_operator_boundary_evidence = task_operator_boundary_evidence task\<rparr>;
         dec = classify_policy policy
     in rbind (raise_if (pd_effect_class dec \<noteq> GREEN) (ControlPlaneError ''CONTROL_PLANE_PRIVILEGED_PATH_REQUIRED'')) (\<lambda>_.
     rbind (reraise_control is_routing_error (plan_route frepr nodes task adapter lane now)) (\<lambda>route.
     rbind (routed_node route) (\<lambda>(node_id, generation).
     rbind (reraise_control is_environment_error
              (registry_build envs (''lane:'' @ lane_value lane) parent injected_env)) (\<lambda>env_plan.
     Inr (policy, dec, route, node_id, generation, env_plan))))))))"

text \<open>The two handlers of the \<^verbatim>\<open>try\<close> statement; any other exception passes through.\<close>

definition prepare_handler ::
    "real \<Rightarrow> lane_request \<Rightarrow> int \<Rightarrow> operation_identity \<Rightarrow> string \<Rightarrow> bool \<Rightarrow> bool \<Rightarrow> exn \<Rightarrow> (runner_state, 'a) op" where
  "prepare_handler t request fence identity target reserved_new release e rs =
     (let cleanup = fail_after_lease t request fence identity target reserved_new release in
      case e of
        AdapterContractError r \<Rightarrow> sbind cleanup (\<lambda>_ rs. (Inl (ControlPlaneError r), rs)) rs
      | LedgerError r \<Rightarrow> sbind cleanup (\<lambda>_ rs. (Inl (ControlPlaneError r), rs)) rs
      | PEPError r \<Rightarrow> sbind cleanup (\<lambda>_ rs. (Inl (ControlPlaneError r), rs)) rs
      | ControlPlaneError r \<Rightarrow> sbind cleanup (\<lambda>_ rs. (Inl e, rs)) rs
      | _ \<Rightarrow> (Inl e, rs))"

record prepare_request =
  pq_task :: universal_task
  pq_operation :: operation_ir
  pq_adapter_id :: string
  pq_lane :: lane
  pq_lease_scope_key :: string
  pq_target_state_ref :: string
  pq_ttl_seconds :: real
  pq_now :: real
  pq_parent_environment :: str_dict
  pq_injected_environment :: str_dict

definition prepare ::
    "(real \<Rightarrow> string) \<Rightarrow> node_registry \<Rightarrow> env_registry \<Rightarrow> adapter_planner \<Rightarrow> prepare_request \<Rightarrow> real \<Rightarrow> real
      \<Rightarrow> (runner_state, green_handoff) op" where
  "prepare frepr nodes envs planner q t1 t2 =
     guarded (prepare_checks frepr nodes envs (pq_task q) (pq_operation q) (pq_adapter_id q) (pq_lane q)
        (pq_lease_scope_key q) (pq_target_state_ref q) (pq_now q) (pq_parent_environment q) (pq_injected_environment q))
     (\<lambda>(policy, dec, route, node_id, generation, env_plan).
       let task = pq_task q; operation = pq_operation q; target = pq_target_state_ref q;
           request = \<lparr>rq_task_id = task_id task, rq_lane = pq_lane q, rq_owner = node_id,
             rq_scope_key = pq_lease_scope_key q, rq_ttl_seconds = pq_ttl_seconds q, rq_target_state_ref = Some target\<rparr>;
           k = ir_idempotency_key operation;
           identity = \<lparr>op_operation_id = ir_operation_id operation, op_idempotency_key = k, op_target_state_ref = target\<rparr>
       in (\<lambda>rs. case on_leases (scheduler_reserve t1 request) rs of
            (Inl e, rs1) \<Rightarrow> (Inl (if is_lease_error e then ControlPlaneError (reason_code e) else e), rs1)
          | (Inr lease, rs1) \<Rightarrow>
              let existing = ledger_status k (rs_ledger rs1); acquired = lr_status lease = ''ACQUIRED'' in
              if existing \<in> {Some ''COMPLETED'', Some ''FAILED''} then
                sbind (if acquired then safe_release t2 request (lr_fence_token lease) else (\<lambda>rs. (Inr (), rs)))
                  (\<lambda>_ rs. (Inl (ControlPlaneError ''CONTROL_PLANE_OPERATION_TERMINAL''), rs)) rs1
              else
                (case prepare_body planner task operation (pq_adapter_id q) policy dec target (lr_fence_token lease) existing rs1 of
                   (Inl e, rs2) \<Rightarrow>
                     prepare_handler t2 request (lr_fence_token lease) identity target (existing = None) acquired e rs2
                 | (Inr (envelope, scope_hash, authorization), rs2) \<Rightarrow>
                     (mk_handoff task route node_id generation (pq_lane q) (pq_lease_scope_key q) (lr_fence_token lease)
                        env_plan envelope authorization scope_hash, rs2))))"

definition handoff_public_projection :: "(real \<Rightarrow> string) \<Rightarrow> green_handoff \<Rightarrow> json" where
  "handoff_public_projection frepr h = JObj [
     (''schema'', JStr ''skeleton.runner_green_handoff_receipt.v1''),
     (''task_id'', JStr (gh_task_id h)),
     (''node_id'', JStr (gh_node_id h)),
     (''node_generation'', JInt (gh_node_generation h)),
     (''node_snapshot_hash'', JStr (gh_node_snapshot_hash h)),
     (''node_attestation_ref'', JStr (gh_node_attestation_ref h)),
     (''node_expires_at'', JFloat (frepr (gh_node_expires_at h))),
     (''lane'', JStr (lane_value (gh_lane h))),
     (''fence_token'', JInt (gh_fence_token h)),
     (''environment_policy_hash'', JStr (gh_environment_policy_hash h)),
     (''operation_id'', JStr (gh_operation_id h)),
     (''idempotency_key'', JStr (gh_idempotency_key h)),
     (''adapter_id'', JStr (gh_adapter_id h)),
     (''policy_reason_code'', JStr (gh_policy_reason_code h)),
     (''reservation_scope_hash'', JStr (gh_reservation_scope_hash h)),
     (''authorization_status'', JStr (gh_authorization_status h)),
     (''lease_retained'', JBool (gh_lease_retained h)),
     (''ledger_reserved'', JBool (gh_ledger_reserved h)),
     (''execution_authorized'', JBool (gh_execution_authorized h)),
     (''side_effects_executed'', JBool (gh_side_effects_executed h))]"

subsection \<open>The parts of prepare\<close>

lemma on_ledger_simps [simp]:
  "rs_leases (snd (on_ledger f rs)) = rs_leases rs" "rs_ledger (snd (on_ledger f rs)) = snd (f (rs_ledger rs))"
  "fst (on_ledger f rs) = fst (f (rs_ledger rs))"
  by (simp_all add: on_ledger_def split: prod.splits)

lemma on_leases_simps [simp]:
  "rs_ledger (snd (on_leases f rs)) = rs_ledger rs" "rs_leases (snd (on_leases f rs)) = snd (f (rs_leases rs))"
  "fst (on_leases f rs) = fst (f (rs_leases rs))"
  by (simp_all add: on_leases_def split: prod.splits)

lemma suppress_simps [simp]: "snd (suppress c f s) = snd (f s)"
  by (simp add: suppress_def split: prod.splits sum.splits)

lemma snd_sbind: "snd (sbind m k s) = (case m s of (Inl e, s') \<Rightarrow> s' | (Inr x, s') \<Rightarrow> snd (k x s'))"
  by (simp add: sbind_def split: prod.splits sum.splits)

lemma on_ledger_Inr: "on_ledger f rs = (r, rs') \<Longrightarrow> \<exists>l. f (rs_ledger rs) = (r, l) \<and> rs' = rs\<lparr>rs_ledger := l\<rparr>"
  by (auto simp: on_ledger_def split: prod.splits)

text \<open>Every piece keeps the leases and a reachable ledger.\<close>

definition keeps_ledger :: "runner_state \<Rightarrow> runner_state \<Rightarrow> bool" where
  "keeps_ledger rs rs' \<longleftrightarrow> rs_leases rs' = rs_leases rs \<and>
     (ledger_reachable (rs_ledger rs) \<longrightarrow> ledger_reachable (rs_ledger rs'))"

lemma keeps_ledger_refl [simp]: "keeps_ledger rs rs"
  by (simp add: keeps_ledger_def)

lemma keeps_ledger_trans: "keeps_ledger a b \<Longrightarrow> keeps_ledger b c \<Longrightarrow> keeps_ledger a c"
  by (simp add: keeps_ledger_def)

lemma keeps_sbind:
  assumes "\<And>rs. keeps_ledger rs (snd (m rs))" "\<And>x rs. keeps_ledger rs (snd (k x rs))"
  shows "keeps_ledger rs (snd (sbind m k rs))"
proof (cases "m rs")
  case (Pair r rs1)
  then have m: "keeps_ledger rs rs1" using assms(1) [of rs] by simp
  show ?thesis
    using m keeps_ledger_trans [OF m assms(2)] Pair by (cases r) (simp_all add: sbind_def)
qed

lemma keeps_guarded: "(\<And>x. keeps_ledger rs (snd (k x rs))) \<Longrightarrow> keeps_ledger rs (snd (guarded r k rs))"
  by (cases r) simp_all

lemma keeps_on_ledger:
  "(ledger_reachable (rs_ledger rs) \<Longrightarrow> ledger_reachable (snd (f (rs_ledger rs)))) \<Longrightarrow> keeps_ledger rs (snd (on_ledger f rs))"
  by (simp add: keeps_ledger_def)

lemma sync_fence_keeps: "keeps_ledger rs (snd (sync_fence i f ex rs))"
  unfolding sync_fence_def
  by (auto intro!: keeps_guarded keeps_sbind keeps_on_ledger ledger_reachable_ops(2))

lemma body_keeps: "keeps_ledger rs (snd (prepare_body planner task op a pol d target f ex rs))"
  unfolding prepare_body_def Let_def
  by (intro keeps_guarded keeps_sbind keeps_on_ledger ledger_reachable_ops(1) sync_fence_keeps) simp_all

lemma green_authorize_iff: "green_authorize e s = Inr r \<longleftrightarrow> pep_evaluate e s None None = Inr (Authorized r)"
proof (cases "pep_evaluate e s None None")
  case (Inr out)
  then show ?thesis by (cases out) (simp_all add: green_authorize_def)
qed (simp add: green_authorize_def)

lemma green_authorize_InrD:
  "ledger_ok s \<Longrightarrow> green_authorize e s = Inr r \<Longrightarrow> reserved_for e s \<and> ev_effect_class e = GREEN \<and> r = green_receipt e"
  unfolding green_authorize_iff by (auto dest: pep_InrD split: if_splits)

lemma body_InrD:
  assumes "ledger_reachable (rs_ledger rs)" "prepare_body planner task op a pol d target f ex rs = (Inr (env, h, r), rs')"
  shows "adapter_plan planner a task op pol d target f = Inr env" "h = reservation_scope_fingerprint env"
    "reserved_for env (rs_ledger rs')" "ev_effect_class env = GREEN" "r = green_receipt env"
    "rs_leases rs' = rs_leases rs" "ledger_reachable (rs_ledger rs')"
proof -
  show reach: "ledger_reachable (rs_ledger rs')" and "rs_leases rs' = rs_leases rs"
    using body_keeps [of rs planner task op a pol d target f ex] assms by (simp_all add: keeps_ledger_def)
  have "adapter_plan planner a task op pol d target f = Inr env \<and> h = reservation_scope_fingerprint env \<and>
      green_authorize env (rs_ledger rs') = Inr r"
    using assms(2) by (auto simp: prepare_body_def Let_def guarded_Inr_iff sbind_Inr_iff)
  then show "adapter_plan planner a task op pol d target f = Inr env" "h = reservation_scope_fingerprint env"
    "reserved_for env (rs_ledger rs')" "ev_effect_class env = GREEN" "r = green_receipt env"
    using green_authorize_InrD [OF ledger_reachable_ok [OF reach]] by auto
qed

lemma reraise_control_Inr: "reraise_control caught r = Inr v \<longleftrightarrow> r = Inr v"
  by (cases r) (simp_all add: reraise_control_def)

lemma reraise_control_Inl:
  "reraise_control caught r = Inl e \<Longrightarrow> (\<And>x. r = Inl x \<Longrightarrow> caught x) \<Longrightarrow> \<exists>c. e = ControlPlaneError c"
  by (cases r) (auto simp: reraise_control_def)

lemma routed_node_Inr:
  "routed_node route = Inr (n, g) \<Longrightarrow> rp_status route = ''ROUTED'' \<and> rp_selected_node_id route = Some n \<and>
     rp_selected_generation route = Some g"
  by (auto simp: routed_node_def split: if_splits option.splits)

lemma routed_node_Inl: "routed_node route = Inl e \<Longrightarrow> \<exists>r. e = ControlPlaneError r"
  by (auto simp: routed_node_def split: if_splits option.splits)

lemma checks_InrD:
  assumes "prepare_checks frepr nodes envs task op a lane scope target now parent given =
      Inr (pol, d, route, node_id, gen, env_plan)"
  shows "pol = \<lparr>pi_operation = op, pi_reversibility = task_reversibility task, pi_privacy = task_privacy task,
           pi_target_state_ref = Some target, pi_operator_boundary_evidence = task_operator_boundary_evidence task\<rparr>"
    "d = classify_policy pol" "pd_effect_class d = GREEN" "plan_route frepr nodes task a lane now = Inr route"
    "rp_status route = ''ROUTED''" "rp_selected_node_id route = Some node_id" "rp_selected_generation route = Some gen"
    "registry_build envs (''lane:'' @ lane_value lane) parent given = Inr env_plan" "partition_ref target"
  using assms routed_node_Inr
  by (auto simp: prepare_checks_def Let_def reraise_control_Inr dest!: routed_node_Inr)

subsection \<open>Success\<close>

abbreviation run_checks :: "(real \<Rightarrow> string) \<Rightarrow> node_registry \<Rightarrow> env_registry \<Rightarrow> prepare_request
    \<Rightarrow> (policy_input \<times> policy_decision \<times> route_plan \<times> string \<times> int \<times> child_environment_plan) res" where
  "run_checks frepr nodes envs q \<equiv> prepare_checks frepr nodes envs (pq_task q) (pq_operation q) (pq_adapter_id q)
     (pq_lane q) (pq_lease_scope_key q) (pq_target_state_ref q) (pq_now q) (pq_parent_environment q) (pq_injected_environment q)"

abbreviation lease_request :: "prepare_request \<Rightarrow> string \<Rightarrow> lane_request" where
  "lease_request q node_id \<equiv> \<lparr>rq_task_id = task_id (pq_task q), rq_lane = pq_lane q, rq_owner = node_id,
     rq_scope_key = pq_lease_scope_key q, rq_ttl_seconds = pq_ttl_seconds q, rq_target_state_ref = Some (pq_target_state_ref q)\<rparr>"

abbreviation request_identity :: "prepare_request \<Rightarrow> operation_identity" where
  "request_identity q \<equiv> \<lparr>op_operation_id = ir_operation_id (pq_operation q),
     op_idempotency_key = ir_idempotency_key (pq_operation q), op_target_state_ref = pq_target_state_ref q\<rparr>"

lemma prepare_error_early:
  "run_checks frepr nodes envs q = Inl e \<Longrightarrow> prepare frepr nodes envs planner q t1 t2 rs = (Inl e, rs)"
  by (simp add: prepare_def)

lemma prepare_unfold:
  assumes "run_checks frepr nodes envs q = Inr (pol, d, route, node_id, gen, env_plan)"
  shows "prepare frepr nodes envs planner q t1 t2 rs =
    (case on_leases (scheduler_reserve t1 (lease_request q node_id)) rs of
       (Inl e, rs1) \<Rightarrow> (Inl (if is_lease_error e then ControlPlaneError (reason_code e) else e), rs1)
     | (Inr lease, rs1) \<Rightarrow>
         let existing = ledger_status (ir_idempotency_key (pq_operation q)) (rs_ledger rs1);
             acquired = lr_status lease = ''ACQUIRED'' in
         if existing \<in> {Some ''COMPLETED'', Some ''FAILED''} then
           sbind (if acquired then safe_release t2 (lease_request q node_id) (lr_fence_token lease) else (\<lambda>rs. (Inr (), rs)))
             (\<lambda>_ rs. (Inl (ControlPlaneError ''CONTROL_PLANE_OPERATION_TERMINAL''), rs)) rs1
         else
           (case prepare_body planner (pq_task q) (pq_operation q) (pq_adapter_id q) pol d (pq_target_state_ref q)
                (lr_fence_token lease) existing rs1 of
              (Inl e, rs2) \<Rightarrow> prepare_handler t2 (lease_request q node_id) (lr_fence_token lease) (request_identity q)
                  (pq_target_state_ref q) (existing = None) acquired e rs2
            | (Inr (envelope, scope_hash, authorization), rs2) \<Rightarrow>
                (mk_handoff (pq_task q) route node_id gen (pq_lane q) (pq_lease_scope_key q) (lr_fence_token lease)
                   env_plan envelope authorization scope_hash, rs2)))"
  unfolding prepare_def assms guarded_simps prod.case Let_def by (rule refl)

lemma handler_fails: "prepare_handler t rq f i tg new rel e rs \<noteq> (Inr v, rs')"
  by (auto simp: prepare_handler_def Let_def sbind_Inr_iff split: exn.splits)

lemma prepare_InrD:
  assumes "prepare frepr nodes envs planner q t1 t2 rs = (Inr h, rs')"
  obtains pol d route node_id gen env_plan lease rs1 env r where
    "run_checks frepr nodes envs q = Inr (pol, d, route, node_id, gen, env_plan)"
    "on_leases (scheduler_reserve t1 (lease_request q node_id)) rs = (Inr lease, rs1)"
    "prepare_body planner (pq_task q) (pq_operation q) (pq_adapter_id q) pol d (pq_target_state_ref q)
       (lr_fence_token lease) (ledger_status (ir_idempotency_key (pq_operation q)) (rs_ledger rs1)) rs1 = (Inr (env, gh_reservation_scope_hash h, r), rs')"
    "mk_handoff (pq_task q) route node_id gen (pq_lane q) (pq_lease_scope_key q) (lr_fence_token lease)
       env_plan env r (gh_reservation_scope_hash h) = Inr h"
proof -
  obtain c where "run_checks frepr nodes envs q = Inr c"
    using assms prepare_error_early by (cases "run_checks frepr nodes envs q") fastforce+
  then obtain pol d route node_id gen env_plan where
    c: "run_checks frepr nodes envs q = Inr (pol, d, route, node_id, gen, env_plan)"
    by (cases c) blast
  note u = assms [unfolded prepare_unfold [OF c]]
  obtain lease rs1 where l: "on_leases (scheduler_reserve t1 (lease_request q node_id)) rs = (Inr lease, rs1)"
    using u by (auto split: prod.splits sum.splits)
  let ?ex = "ledger_status (ir_idempotency_key (pq_operation q)) (rs_ledger rs1)"
  have "?ex \<notin> {Some ''COMPLETED'', Some ''FAILED''}"
    using u l by (auto simp: sbind_Inr_iff split: if_splits)
  then obtain env sh r where
    b: "prepare_body planner (pq_task q) (pq_operation q) (pq_adapter_id q) pol d (pq_target_state_ref q)
       (lr_fence_token lease) ?ex rs1 = (Inr (env, sh, r), rs')"
    and m: "mk_handoff (pq_task q) route node_id gen (pq_lane q) (pq_lease_scope_key q) (lr_fence_token lease)
       env_plan env r sh = Inr h"
    using u l by (auto simp: Let_def handler_fails split: prod.splits sum.splits)
  have "sh = gh_reservation_scope_hash h"
    using m by (auto simp: mk_handoff_def split: option.splits)
  with that [OF c l] b m show thesis by blast
qed

text \<open>What a handoff asserts about the two stores at lease-clock time \<open>t\<close>.\<close>

definition handoff_backed :: "real \<Rightarrow> green_handoff \<Rightarrow> runner_state \<Rightarrow> bool" where
  "handoff_backed t h rs \<longleftrightarrow>
     (\<exists>l. lease_current t (gh_lane h) (gh_lease_scope_key h) (rs_leases rs) = Some l \<and> ll_task_id l = gh_task_id h \<and>
        ll_owner l = gh_node_id h \<and> ll_fence_token l = gh_fence_token h \<and>
        ll_target_state_ref l = Some (ev_target_state_ref (gh_envelope h))) \<and>
     reserved_for (gh_envelope h) (rs_ledger rs) \<and> ev_fence_token (gh_envelope h) = gh_fence_token h \<and>
     gh_reservation_scope_hash h = reservation_scope_fingerprint (gh_envelope h) \<and>
     gh_operation_id h = ev_operation_id (gh_envelope h) \<and> gh_idempotency_key h = ev_idempotency_key (gh_envelope h) \<and>
     ev_effect_class (gh_envelope h) = GREEN"

lemma mk_handoff_InrD:
  assumes "mk_handoff task route node_id gen lane scope f env_plan env r sh = Inr h"
  shows "gh_task_id h = task_id task" "gh_node_id h = node_id" "gh_node_generation h = gen" "gh_lane h = lane"
    "gh_lease_scope_key h = scope" "gh_fence_token h = f" "gh_envelope h = env" "gh_operation_id h = ev_operation_id env"
    "gh_idempotency_key h = ev_idempotency_key env" "gh_reservation_scope_hash h = sh"
    "gh_environment_policy_hash h = er_policy_hash (cp_receipt env_plan)" "gh_environment h = cp_environment env_plan"
    "Some (gh_node_snapshot_hash h) = rp_selected_snapshot_hash route"
    "Some (gh_node_attestation_ref h) = rp_selected_attestation_ref route"
    "Some (gh_node_expires_at h) = rp_selected_expires_at route"
    "gh_authorization_status h = pr_authorization_status r" "gh_adapter_id h = ev_adapter_id env"
    "gh_execution_authorized h \<and> gh_lease_retained h \<and> gh_ledger_reserved h \<and> \<not> gh_side_effects_executed h"
    "gh_policy_reason_code h = ev_policy_reason_code env"
  using assms by (auto simp: mk_handoff_def split: option.splits)

lemma on_leases_Inr: "on_leases f rs = (r, rs') \<Longrightarrow> \<exists>l. f (rs_leases rs) = (r, l) \<and> rs' = rs\<lparr>rs_leases := l\<rparr>"
  by (auto simp: on_leases_def split: prod.splits)

lemma prepare_success:
  assumes "ledger_reachable (rs_ledger rs)" "prepare frepr nodes envs planner q t1 t2 rs = (Inr h, rs')"
  shows "handoff_backed t1 h rs'" "ledger_reachable (rs_ledger rs')"
    "\<exists>d. adapter_plan planner (pq_adapter_id q) (pq_task q) (pq_operation q)
       \<lparr>pi_operation = pq_operation q, pi_reversibility = task_reversibility (pq_task q), pi_privacy = task_privacy (pq_task q),
        pi_target_state_ref = Some (pq_target_state_ref q),
        pi_operator_boundary_evidence = task_operator_boundary_evidence (pq_task q)\<rparr> d
       (pq_target_state_ref q) (gh_fence_token h) = Inr (gh_envelope h)"
    "\<exists>n \<in> snd ` set nodes. eligible (pq_task q) (pq_adapter_id q) (pq_lane q) (pq_now q) n \<and> gh_node_id h = nd_node_id n \<and>
       gh_node_generation h = nd_generation n \<and> gh_node_snapshot_hash h = node_capability_snapshot_hash frepr n \<and>
       gh_node_attestation_ref h = nd_attestation_ref n \<and> gh_node_expires_at h = nd_expires_at n"
    "registry_policy_hash envs (''lane:'' @ lane_value (gh_lane h)) = Inr (gh_environment_policy_hash h)"
    "gh_lane h = pq_lane q \<and> gh_lease_scope_key h = pq_lease_scope_key q \<and> gh_task_id h = task_id (pq_task q) \<and>
     gh_authorization_status h = ''AUTHORIZED_GREEN_BOUNDED''"
proof -
  from assms(2) obtain pol d route node_id gen env_plan lease rs1 env r where
    c: "run_checks frepr nodes envs q = Inr (pol, d, route, node_id, gen, env_plan)"
    and l: "on_leases (scheduler_reserve t1 (lease_request q node_id)) rs = (Inr lease, rs1)"
    and b: "prepare_body planner (pq_task q) (pq_operation q) (pq_adapter_id q) pol d (pq_target_state_ref q)
       (lr_fence_token lease) (ledger_status (ir_idempotency_key (pq_operation q)) (rs_ledger rs1)) rs1 = (Inr (env, gh_reservation_scope_hash h, r), rs')"
    and m: "mk_handoff (pq_task q) route node_id gen (pq_lane q) (pq_lease_scope_key q) (lr_fence_token lease)
       env_plan env r (gh_reservation_scope_hash h) = Inr h"
    by (rule prepare_InrD)
  note c' = checks_InrD [OF c] and m' = mk_handoff_InrD [OF m]
  obtain ls where ls: "lease_acquire t1 (task_id (pq_task q)) (pq_lane q) node_id (pq_lease_scope_key q) (pq_ttl_seconds q)
      (Some (pq_target_state_ref q)) (rs_leases rs) = (Inr lease, ls)" and rs1: "rs1 = rs\<lparr>rs_leases := ls\<rparr>"
    using on_leases_Inr [OF l] by (auto simp: scheduler_reserve_def)
  have reach1: "ledger_reachable (rs_ledger rs1)" using assms(1) rs1 by simp
  note b' = body_InrD [OF reach1 b]
  obtain ll where ll: "lease_current t1 (pq_lane q) (pq_lease_scope_key q) ls = Some ll" "ll_task_id ll = task_id (pq_task q)"
      "ll_owner ll = node_id" "ll_target_state_ref ll = Some (pq_target_state_ref q)" "ll_fence_token ll = lr_fence_token lease"
    using acquire_current [OF ls] by blast
  have env: "ev_target_state_ref env = pq_target_state_ref q" "ev_fence_token env = lr_fence_token lease"
    using b'(1) by (auto elim!: adapter_plan_InrD)
  show "handoff_backed t1 h rs'"
    using ll env b' m' rs1 by (simp add: handoff_backed_def)
  show "ledger_reachable (rs_ledger rs')" by (rule b'(7))
  show "\<exists>d. adapter_plan planner (pq_adapter_id q) (pq_task q) (pq_operation q)
       \<lparr>pi_operation = pq_operation q, pi_reversibility = task_reversibility (pq_task q), pi_privacy = task_privacy (pq_task q),
        pi_target_state_ref = Some (pq_target_state_ref q),
        pi_operator_boundary_evidence = task_operator_boundary_evidence (pq_task q)\<rparr> d
       (pq_target_state_ref q) (gh_fence_token h) = Inr (gh_envelope h)"
    using b'(1) c'(1) m' by auto
  show "\<exists>n \<in> snd ` set nodes. eligible (pq_task q) (pq_adapter_id q) (pq_lane q) (pq_now q) n \<and> gh_node_id h = nd_node_id n \<and>
       gh_node_generation h = nd_generation n \<and> gh_node_snapshot_hash h = node_capability_snapshot_hash frepr n \<and>
       gh_node_attestation_ref h = nd_attestation_ref n \<and> gh_node_expires_at h = nd_expires_at n"
    using selected_node [OF c'(4,5)] c'(6,7) m' by auto
  show "registry_policy_hash envs (''lane:'' @ lane_value (gh_lane h)) = Inr (gh_environment_policy_hash h)"
    using registry_build_hash [OF c'(8)] m' by simp
  show "gh_lane h = pq_lane q \<and> gh_lease_scope_key h = pq_lease_scope_key q \<and> gh_task_id h = task_id (pq_task q) \<and>
     gh_authorization_status h = ''AUTHORIZED_GREEN_BOUNDED''"
    using m' b'(5) by simp
qed

lemma prepare_lease_live:
  assumes "ledger_reachable (rs_ledger rs)" "prepare frepr nodes envs planner q t1 t2 rs = (Inr h, rs')"
    and "lease_current t1 (pq_lane q) (pq_lease_scope_key q) (rs_leases rs) = None" "u < t1 + pq_ttl_seconds q"
  shows "lease_current u (pq_lane q) (pq_lease_scope_key q) (rs_leases rs') \<noteq> None"
proof -
  from assms(2) obtain pol d route node_id gen env_plan lease rs1 env r where
    l: "on_leases (scheduler_reserve t1 (lease_request q node_id)) rs = (Inr lease, rs1)"
    and b: "prepare_body planner (pq_task q) (pq_operation q) (pq_adapter_id q) pol d (pq_target_state_ref q)
       (lr_fence_token lease) (ledger_status (ir_idempotency_key (pq_operation q)) (rs_ledger rs1)) rs1 = (Inr (env, gh_reservation_scope_hash h, r), rs')"
    by (rule prepare_InrD)
  obtain ls where ls: "lease_acquire t1 (task_id (pq_task q)) (pq_lane q) node_id (pq_lease_scope_key q) (pq_ttl_seconds q)
      (Some (pq_target_state_ref q)) (rs_leases rs) = (Inr lease, ls)" and rs1: "rs1 = rs\<lparr>rs_leases := ls\<rparr>"
    using on_leases_Inr [OF l] by (auto simp: scheduler_reserve_def)
  have "0 < pq_ttl_seconds q" using ls acquire_bad_ttl by (cases "0 < pq_ttl_seconds q") auto
  from acquire_free [OF this assms(3)] ls have "lease_current u (pq_lane q) (pq_lease_scope_key q) ls \<noteq> None"
    using assms(4) by (auto simp: lease_current_def lease_row_def expired_def)
  moreover have "rs_leases rs' = ls" using body_InrD(6) [OF _ b] assms(1) rs1 by simp
  ultimately show ?thesis by simp
qed

lemma prepared_lease_current:
  assumes "ledger_reachable (rs_ledger rs)" "prepare frepr nodes envs planner q t1 t2 rs = (Inr h, rs')"
  shows "lease_current t1 (pq_lane q) (pq_lease_scope_key q) (rs_leases rs') \<noteq> None"
  using prepare_success(1,6) [OF assms] by (auto simp: handoff_backed_def)

lemma handoff_backed_at:
  assumes "handoff_backed t h rs" "lease_current u (gh_lane h) (gh_lease_scope_key h) (rs_leases rs) \<noteq> None"
  shows "handoff_backed u h rs"
proof -
  have "lease_current u (gh_lane h) (gh_lease_scope_key h) (rs_leases rs) = lease_current t (gh_lane h) (gh_lease_scope_key h) (rs_leases rs)"
    using assms unfolding handoff_backed_def by (metis lease_current_row not_None_eq)
  then show ?thesis using assms(1) by (simp add: handoff_backed_def)
qed

subsection \<open>Failure\<close>

lemma route_reraised:
  "reraise_control is_routing_error (plan_route frepr nodes task a lane now) = Inl e \<Longrightarrow> \<exists>r. e = ControlPlaneError r"
  by (erule reraise_control_Inl) (auto dest!: route_plan_error)

lemma build_reraised:
  "reraise_control is_environment_error (registry_build envs l parent given) = Inl e \<Longrightarrow> \<exists>r. e = ControlPlaneError r"
  by (erule reraise_control_Inl) (auto dest!: registry_build_error)

lemma checks_error:
  "prepare_checks frepr nodes envs task op a lane scope target now parent given = Inl e \<Longrightarrow> \<exists>r. e = ControlPlaneError r"
  unfolding prepare_checks_def Let_def validate_task_operation_def rbind_Inl_iff
  by (elim disjE exE conjE) (auto dest!: guards_Inl routed_node_Inl route_reraised build_reraised)

text \<open>The exceptions the body raises are the ones its handlers catch.\<close>

fun handled :: "exn \<Rightarrow> bool" where
  "handled (AdapterContractError r) = True"
| "handled (LedgerError r) = True"
| "handled (PEPError r) = True"
| "handled (ControlPlaneError r) = True"
| "handled e = False"

lemma reserve_handled:
  assumes "ledger_ok s" "f < 2 ^ 63" "ledger_reserve i f sc n s = (Inl e, s')"
  shows "handled e"
  using ledger_exec_error [OF assms(1), of "Reserve i f sc n" e] assms(2,3) by (auto simp: reply_def call_fence_def)

lemma sync_handled:
  assumes "ledger_ok (rs_ledger rs)" "f < 2 ^ 63" "sync_fence i f ex rs = (Inl e, rs')"
  shows "handled e"
proof -
  have "handled e" if "ledger_rebind_fence i g f (rs_ledger rs) = (Inl e, s')" for g s'
    using ledger_exec_error [OF assms(1), of "RebindFence i g f" e] assms(2) that by (auto simp: reply_def call_fence_def)
  then show ?thesis
    using assms(3)
    by (auto simp: sync_fence_def guarded_Inl_iff sbind_Inl_iff current_fence_token_def ledger_latest_def
        split: if_splits option.splits dest!: on_ledger_Inr)
qed

lemma authorize_handled:
  assumes "green_authorize env s = Inl e"
  shows "handled e"
proof (cases "pep_evaluate env s None None")
  case (Inr out)
  then show ?thesis using assms by (cases out) (auto simp: green_authorize_def)
next
  case (Inl x)
  then show ?thesis using assms pep_error [OF Inl] by (auto simp: green_authorize_def)
qed

lemma body_handled:
  assumes "ledger_reachable (rs_ledger rs)" "f < 2 ^ 63"
    and "prepare_body planner task op a pol d target f ex rs = (Inl e, rs')"
  shows "handled e"
proof -
  have ok: "ledger_ok (rs_ledger rs)" using ledger_reachable_ok assms(1) by blast
  have ok': "ledger_ok (rs_ledger rs1)" if "on_ledger (ledger_reserve i f sc n) rs = (r, rs1)" for i sc n r rs1
    using on_ledger_Inr [OF that] ledger_reachable_ok ledger_reachable_ops(1) [OF assms(1), of i f sc n] by auto
  show ?thesis
    using assms(3) unfolding prepare_body_def Let_def guarded_Inl_iff sbind_Inl_iff
    by (auto dest: adapter_plan_error on_ledger_Inr reserve_handled [OF ok assms(2)] sync_handled [OF ok' assms(2)]
        authorize_handled)
qed

text \<open>With no reservation before, the body leaves none or an open one with the caller's identity.\<close>

lemma body_entry:
  assumes "ledger_reachable (rs_ledger rs)" "ledger_entry (rs_ledger rs) (ir_idempotency_key op) = None"
    and "prepare_body planner task op a pol d target f None rs = (Inl e, rs')"
  shows "ledger_entry (rs_ledger rs') (ir_idempotency_key op) = None \<or>
    (\<exists>x sc. ledger_entry (rs_ledger rs') (ir_idempotency_key op) = Some x \<and> en_identity x = \<lparr>op_operation_id = ir_operation_id op,
       op_idempotency_key = ir_idempotency_key op, op_target_state_ref = target\<rparr> \<and> en_receipt x = None \<and>
       en_grant x = None \<and> 1 \<le> en_fence x \<and> ledger_ref_ok target)"
proof -
  let ?i = "\<lparr>op_operation_id = ir_operation_id op, op_idempotency_key = ir_idempotency_key op, op_target_state_ref = target\<rparr>"
  have ok: "ledger_ok (rs_ledger rs)" using ledger_reachable_ok assms(1) by blast
  have sync: "sync_fence ?i f None rs1 = (Inr (), rs1)" for rs1
    by (simp add: sync_fence_def)
  from assms(3) consider "rs_ledger rs' = rs_ledger rs"
    | env v s' where "ledger_reserve ?i f (reservation_scope_fingerprint env) None (rs_ledger rs) = (Inr v, s')"
        "rs_ledger rs' = s'"
    unfolding prepare_body_def Let_def guarded_Inl_iff sbind_Inl_iff sync
    by (auto dest!: on_ledger_Inr dest: ledger_aborts(1))
  then show ?thesis
  proof cases
    case 1
    then show ?thesis using assms(2) by simp
  next
    case 2
    from reserve_fresh [OF ok _ 2(1)] assms(2) show ?thesis
      using 2(2) by (auto simp: ledger_fence_check_def ledger_identity_def ledger_public_refs_def split: if_splits)
  qed
qed

lemma failed_reason: "ledger_reason ''CONTROL_PLANE_PREPARATION_FAILED'' = Inr ()"
  by code_simp

lemma fail_finishes:
  assumes ok: "ledger_ok s" and x: "ledger_entry s (op_idempotency_key i) = Some x" "en_identity x = i" "en_receipt x = None"
      "1 \<le> en_fence x" and target: "ledger_ref_ok target"
  shows "\<exists>v s' y. guarded (current_fence_token (op_idempotency_key i) s) (\<lambda>current.
      ledger_finish i current False ''CONTROL_PLANE_PREPARATION_FAILED'' [] target target ''FAIL'') s = (Inr v, s') \<and>
    ledger_entry s' (op_idempotency_key i) = Some y \<and> en_receipt y \<noteq> None"
proof -
  have "known_entry i (ledger_entry s (op_idempotency_key i)) = Inr x"
    using x by (simp add: known_entry_def)
  then have f: "current_fence_token (op_idempotency_key i) s = Inr (en_fence x)"
    using known_facts [OF ok] by blast
  have "call_check (Finish i (en_fence x) False ''CONTROL_PLANE_PREPARATION_FAILED'' [] target target ''FAIL'') = Inr ()"
    using x(4) target failed_reason by (simp add: ledger_fence_check_def ledger_public_refs_def)
  from finish_open [OF ok x(1-3) this] show ?thesis
    unfolding f guarded_simps by (fastforce simp: call_receipt_def)
qed

lemma safe_release_ledger [simp]: "rs_ledger (snd (safe_release t rq f rs)) = rs_ledger rs"
  by (simp add: safe_release_def)

lemma safe_release_returns: "fst (safe_release t rq f rs) = Inr ()"
  using release_error
  by (auto simp: safe_release_def suppress_def on_leases_def scheduler_release_def scheduler_release_exact_def
      split: prod.splits sum.splits dest!: release_error)

lemma fail_ledger_leases [simp]: "rs_leases (snd (fail_ledger i target new rs)) = rs_leases rs"
  by (simp add: fail_ledger_def)

lemma fail_ledger_keeps:
  assumes "ledger_reachable (rs_ledger rs)"
  shows "ledger_reachable (rs_ledger (snd (fail_ledger i target new rs)))"
  using assms ledger_reachable_ops(4) [OF assms]
  by (cases "current_fence_token (op_idempotency_key i) (rs_ledger rs)") (simp_all add: fail_ledger_def)

lemma finish_error:
  assumes "ledger_ok s" "ledger_finish i f ok r tc b a st s = (Inl e, s')"
  shows "\<exists>r. e = LedgerError r"
  using ledger_exec_error [OF assms(1), of "Finish i f ok r tc b a st" e] assms(2) by (simp add: reply_def call_fence_def)

lemma fail_ledger_returns:
  assumes "ledger_ok (rs_ledger rs)"
  shows "fst (fail_ledger i target new rs) = Inr ()"
proof -
  let ?s = "rs_ledger rs"
  have "is_ledger_error e" if "guarded (current_fence_token (op_idempotency_key i) ?s) (\<lambda>current.
      ledger_finish i current False ''CONTROL_PLANE_PREPARATION_FAILED'' [] target target ''FAIL'') ?s = (Inl e, s')" for e s'
    using that finish_error [OF assms]
    by (auto simp: guarded_Inl_iff current_fence_token_def ledger_latest_def split: option.splits dest!: finish_error [OF assms])
  then show ?thesis
    by (auto simp: fail_ledger_def suppress_def on_ledger_def split: prod.splits sum.splits)
qed

lemma fail_after_eq:
  assumes "ledger_ok (rs_ledger rs)"
  shows "fail_after_lease t rq f i target new rel rs =
    (Inr (), let rs1 = snd (fail_ledger i target new rs) in if rel then snd (safe_release t rq f rs1) else rs1)"
proof -
  obtain rs1 where f: "fail_ledger i target new rs = (Inr (), rs1)"
    using fail_ledger_returns [OF assms, of i target new] by (cases "fail_ledger i target new rs") auto
  obtain rs2 where r: "safe_release t rq f rs1 = (Inr (), rs2)"
    using safe_release_returns [of t rq f rs1] by (cases "safe_release t rq f rs1") auto
  show ?thesis
    by (simp add: fail_after_lease_def sbind_def f r Let_def)
qed

text \<open>An open reservation of this call's identity is finished as failed.\<close>

lemma fail_ledger_entry:
  assumes ok: "ledger_ok (rs_ledger rs)" and x: "ledger_entry (rs_ledger rs) (op_idempotency_key i) = Some x"
    "en_identity x = i" "en_receipt x = None" "en_grant x = None" "1 \<le> en_fence x" and target: "ledger_ref_ok target"
  shows "\<exists>y. ledger_entry (rs_ledger (snd (fail_ledger i target True rs))) (op_idempotency_key i) = Some y \<and> en_receipt y \<noteq> None"
proof -
  have "ledger_status (op_idempotency_key i) (rs_ledger rs) = Some ''RESERVED''"
    using ledger_status_entry [OF ok, of "op_idempotency_key i"] x by (simp add: entry_status_def)
  then show ?thesis
    using fail_finishes [OF ok x(1-3,5) target] by (auto simp: fail_ledger_def)
qed

lemma fail_ledger_absent:
  assumes "ledger_ok (rs_ledger rs)" "ledger_entry (rs_ledger rs) (op_idempotency_key i) = None"
  shows "snd (fail_ledger i target new rs) = rs"
  using ledger_status_entry [OF assms(1), of "op_idempotency_key i"] assms(2) by (simp add: fail_ledger_def)

lemma handler_eq:
  assumes "ledger_ok (rs_ledger rs)" "handled e"
  shows "\<exists>r. prepare_handler t rq f i target new rel e rs =
    (Inl (ControlPlaneError r), snd (fail_after_lease t rq f i target new rel rs))"
  using assms(2) by (cases e) (simp_all add: prepare_handler_def fail_after_eq [OF assms(1)] sbind_def Let_def)

lemma mk_handoff_total:
  assumes "plan_route frepr nodes task a lane now = Inr route" "rp_status route = ''ROUTED''"
  shows "\<exists>h. mk_handoff task route n g lane scope f ep env r sh = Inr h"
  using selected_node [OF assms] by (auto simp: mk_handoff_def)

text \<open>The leases after a failed call: a lease this call acquired is released, any other is untouched.\<close>

definition leases_after :: "real \<Rightarrow> lane_request \<Rightarrow> lease_receipt \<Rightarrow> lane_store \<Rightarrow> lane_store" where
  "leases_after t rq lease ls = (if lr_status lease = ''ACQUIRED''
     then snd (lease_release t (rq_lane rq) (rq_scope_key rq) (rq_owner rq) (lr_fence_token lease)  ls) else ls)"

lemma safe_release_leases:
  "rs_leases (snd (safe_release t rq f rs)) =
     snd (lease_release t (rq_lane rq) (rq_scope_key rq) (rq_owner rq) f (rs_leases rs))"
  by (simp add: safe_release_def scheduler_release_def scheduler_release_exact_def)

text \<open>How a call fails once its checks have passed and its lease is granted.\<close>

lemma prepare_late_failure:
  assumes reach: "ledger_reachable (rs_ledger rs)"
    and c: "run_checks frepr nodes envs q = Inr (pol, d, route, node_id, gen, env_plan)"
    and l: "on_leases (scheduler_reserve t1 (lease_request q node_id)) rs = (Inr lease, rs1)"
    and small: "lr_fence_token lease < 2 ^ 63"
    and run: "prepare frepr nodes envs planner q t1 t2 rs = (Inl e, rs')"
  shows "\<exists>r. e = ControlPlaneError r" "rs_leases rs' = leases_after t2 (lease_request q node_id) lease (rs_leases rs1)"
    "ledger_reachable (rs_ledger rs')"
    "ledger_entry (rs_ledger rs) (ir_idempotency_key (pq_operation q)) = None \<Longrightarrow>
       (\<forall>x. ledger_entry (rs_ledger rs') (ir_idempotency_key (pq_operation q)) = Some x \<longrightarrow> en_receipt x \<noteq> None)"
proof -
  let ?k = "ir_idempotency_key (pq_operation q)" and ?ex = "ledger_status (ir_idempotency_key (pq_operation q)) (rs_ledger rs)"
  let ?rq = "lease_request q node_id" and ?i = "request_identity q" and ?new = "ledger_status (ir_idempotency_key (pq_operation q)) (rs_ledger rs) = None"
  have ok: "ledger_ok (rs_ledger rs)" by (rule ledger_reachable_ok [OF reach])
  have led1: "rs_ledger rs1 = rs_ledger rs" using on_leases_Inr [OF l] by auto
  note u = run [unfolded prepare_unfold [OF c] l prod.case sum.case Let_def led1]
  note st = ledger_status_entry [OF ok, of ?k]
  have "(\<exists>r. e = ControlPlaneError r) \<and> rs_leases rs' = leases_after t2 ?rq lease (rs_leases rs1) \<and>
    ledger_reachable (rs_ledger rs') \<and> (ledger_entry (rs_ledger rs) ?k = None \<longrightarrow>
       (\<forall>x. ledger_entry (rs_ledger rs') ?k = Some x \<longrightarrow> en_receipt x \<noteq> None))"
  proof (cases "?ex \<in> {Some ''COMPLETED'', Some ''FAILED''}")
    case True
    then have "rs' = (if lr_status lease = ''ACQUIRED'' then snd (safe_release t2 ?rq (lr_fence_token lease) rs1) else rs1)"
      "\<exists>r. e = ControlPlaneError r"
      using u safe_release_returns [of t2 ?rq "lr_fence_token lease" rs1]
      by (auto simp: sbind_Inl_iff prod_eq_iff split: if_splits)
    then show ?thesis
      using reach led1 True st by (auto simp: leases_after_def safe_release_leases)
  next
    case False
    obtain res rs2 where body: "prepare_body planner (pq_task q) (pq_operation q) (pq_adapter_id q) pol d (pq_target_state_ref q)
        (lr_fence_token lease) ?ex rs1 = (res, rs2)"
      by (cases "prepare_body planner (pq_task q) (pq_operation q) (pq_adapter_id q) pol d (pq_target_state_ref q)
        (lr_fence_token lease) ?ex rs1")
    have keeps: "keeps_ledger rs1 rs2"
      using body_keeps body by (metis snd_conv)
    then have reach2: "ledger_reachable (rs_ledger rs2)" and lse: "rs_leases rs2 = rs_leases rs1"
      using reach led1 by (simp_all add: keeps_ledger_def)
    note ok2 = ledger_reachable_ok [OF reach2]
    obtain e2 where e2: "res = Inl e2"
    proof (cases res)
      case (Inr b)
      obtain env sh r where "b = (env, sh, r)" by (cases b)
      moreover obtain h where "mk_handoff (pq_task q) route node_id gen (pq_lane q) (pq_lease_scope_key q)
          (lr_fence_token lease) env_plan env r sh = Inr h"
        using mk_handoff_total [OF checks_InrD(4,5) [OF c]] by blast
      ultimately show thesis
        using u False body Inr by simp
    qed
    have "handled e2"
      using body_handled [of rs1] body e2 reach led1 small by simp
    from handler_eq [OF ok2 this, where 'a = green_handoff, of t2 ?rq "lr_fence_token lease" ?i "pq_target_state_ref q" ?new "lr_status lease = ''ACQUIRED''"]
    have out: "\<exists>r. e = ControlPlaneError r" "rs' = snd (fail_after_lease t2 ?rq (lr_fence_token lease) ?i (pq_target_state_ref q)
        ?new (lr_status lease = ''ACQUIRED'') rs2)"
      using u False body e2 by auto
    let ?f = "snd (fail_ledger ?i (pq_target_state_ref q) ?new rs2)"
    have leases: "rs_leases rs' = leases_after t2 ?rq lease (rs_leases rs1)" and ledger: "rs_ledger rs' = rs_ledger ?f"
      unfolding out(2) fail_after_eq [OF ok2] using lse by (simp_all add: leases_after_def safe_release_leases Let_def)
    have "en_receipt x \<noteq> None" if none: "ledger_entry (rs_ledger rs) ?k = None"
      and x: "ledger_entry (rs_ledger rs') ?k = Some x" for x
    proof -
      have new: "?new" using st none by simp
      have "prepare_body planner (pq_task q) (pq_operation q) (pq_adapter_id q) pol d (pq_target_state_ref q)
          (lr_fence_token lease) None rs1 = (Inl e2, rs2)"
        using body e2 new by simp
      from body_entry [OF _ _ this] none reach led1
      consider "ledger_entry (rs_ledger rs2) ?k = None"
        | y where "ledger_entry (rs_ledger rs2) ?k = Some y" "en_identity y = ?i" "en_receipt y = None"
          "en_grant y = None" "1 \<le> en_fence y" "ledger_ref_ok (pq_target_state_ref q)"
        by auto
      then show ?thesis
      proof cases
        case 1
        then show ?thesis using x ledger fail_ledger_absent [OF ok2, of ?i] by simp
      next
        case (2 y)
        then show ?thesis using x ledger new fail_ledger_entry [OF ok2, of ?i y "pq_target_state_ref q"] by simp
      qed
    qed
    then show ?thesis
      using out(1) leases ledger fail_ledger_keeps [OF reach2] by auto
  qed
  then show "\<exists>r. e = ControlPlaneError r" "rs_leases rs' = leases_after t2 ?rq lease (rs_leases rs1)"
    "ledger_reachable (rs_ledger rs')"
    "ledger_entry (rs_ledger rs) ?k = None \<Longrightarrow>
       (\<forall>x. ledger_entry (rs_ledger rs') ?k = Some x \<longrightarrow> en_receipt x \<noteq> None)"
    by blast+
qed

subsection \<open>Progress\<close>

lemma body_fresh:
  assumes reach: "ledger_reachable (rs_ledger rs)" and none: "ledger_entry (rs_ledger rs) (ir_idempotency_key op) = None"
    and plan: "adapter_plan planner a task op pol d target f = Inr env" and green: "pd_effect_class d = GREEN"
    and valid: "validate_envelope env = Inr ()" and f: "f < 2 ^ 63"
    and id: "ledger_identity \<lparr>op_operation_id = ir_operation_id op, op_idempotency_key = ir_idempotency_key op,
      op_target_state_ref = target\<rparr> = Inr ()"
  shows "\<exists>rs'. prepare_body planner task op a pol d target f None rs =
    (Inr (env, reservation_scope_fingerprint env, green_receipt env), rs')"
proof -
  let ?i = "\<lparr>op_operation_id = ir_operation_id op, op_idempotency_key = ir_idempotency_key op, op_target_state_ref = target\<rparr>"
  note ok = ledger_reachable_ok [OF reach]
  have env: "env = \<lparr>ev_operation_id = ir_operation_id op, ev_adapter_id = a, ev_target_state_ref = target,
             ev_fence_token = f, ev_idempotency_key = ir_idempotency_key op,
             ev_resources = ir_resources op, ev_effects = ir_effects op,
             ev_effect_class = pd_effect_class d, ev_policy_reason_code = pd_reason_code d,
             ev_required_capabilities = task_required_capabilities task, ev_privacy = task_privacy task,
             ev_dry_run = True\<rparr>" and f1: "1 \<le> f"
    using plan by (auto elim!: adapter_plan_InrD)
  let ?c = "Reserve ?i f (reservation_scope_fingerprint env) None"
  have args: "call_check ?c = Inr ()"
    using id f1 fingerprint_is_hash by (simp add: ledger_fence_check_def ledger_scope_hash_def ledger_nonce_def)
  have step: "entry_step ?c (ledger_entry (rs_ledger rs) (op_idempotency_key ?i)) = Inr \<lparr>en_identity = ?i,
      en_scope = Some (reservation_scope_fingerprint env), en_nonce = None, en_fence = f, en_grant = None, en_receipt = None\<rparr>"
    using none f by simp
  obtain v s' where run: "ledger_reserve ?i f (reservation_scope_fingerprint env) None (rs_ledger rs) = (Inr v, s')"
      and en: "ledger_entry s' (op_idempotency_key ?i) = Some \<lparr>en_identity = ?i,
      en_scope = Some (reservation_scope_fingerprint env), en_nonce = None, en_fence = f, en_grant = None, en_receipt = None\<rparr>"
      and ok': "ledger_ok s'"
    using reserve_refines [OF ok args] unfolding step
    by (cases "ledger_reserve ?i f (reservation_scope_fingerprint env) None (rs_ledger rs)") (auto simp: meets_def)
  have "reserved_for env s'"
    using en env by (simp add: reserved_for_def)
  then have "green_authorize env s' = Inr (green_receipt env)"
    unfolding green_authorize_iff using valid green env by (intro pep_green_total [OF ok']) simp_all
  then show ?thesis
    using run plan by (simp add: prepare_body_def on_ledger_def sbind_def sync_fence_def Let_def)
qed

lemma prepare_fresh:
  assumes reach: "ledger_reachable (rs_ledger rs)" and lanes: "lane_reachable (rs_leases rs)"
    and c: "run_checks frepr nodes envs q = Inr (pol, d, route, node_id, gen, env_plan)"
    and ttl: "0 < pq_ttl_seconds q" and free: "lease_current t1 (pq_lane q) (pq_lease_scope_key q) (rs_leases rs) = None"
    and none: "ledger_entry (rs_ledger rs) (ir_idempotency_key (pq_operation q)) = None"
    and f: "f = fence_of (rs_leases rs) (pq_lane q, pq_lease_scope_key q) + 1" "f < 2 ^ 63"
    and plan: "adapter_plan planner (pq_adapter_id q) (pq_task q) (pq_operation q) pol d (pq_target_state_ref q) f = Inr env"
    and valid: "validate_envelope env = Inr ()" and id: "ledger_identity (request_identity q) = Inr ()"
  shows "\<exists>h rs'. prepare frepr nodes envs planner q t1 t2 rs = (Inr h, rs')"
proof -
  obtain lease ls where acq: "lease_acquire t1 (task_id (pq_task q)) (pq_lane q) node_id (pq_lease_scope_key q)
      (pq_ttl_seconds q) (Some (pq_target_state_ref q)) (rs_leases rs) = (Inr lease, ls)" "lr_fence_token lease = f"
    using acquire_free [OF ttl free] f(1) by simp
  then have l: "on_leases (scheduler_reserve t1 (lease_request q node_id)) rs = (Inr lease, rs\<lparr>rs_leases := ls\<rparr>)"
    by (simp add: on_leases_def scheduler_reserve_def)
  have st: "ledger_status (ir_idempotency_key (pq_operation q)) (rs_ledger rs) = None"
    using ledger_status_entry [OF ledger_reachable_ok [OF reach], of "ir_idempotency_key (pq_operation q)"] none by simp
  obtain rs2 where b: "prepare_body planner (pq_task q) (pq_operation q) (pq_adapter_id q) pol d (pq_target_state_ref q) f
      None (rs\<lparr>rs_leases := ls\<rparr>) = (Inr (env, reservation_scope_fingerprint env, green_receipt env), rs2)"
    using body_fresh [OF _ _ plan checks_InrD(3) [OF c] valid f(2) id, of "rs\<lparr>rs_leases := ls\<rparr>"] reach none by auto
  obtain h where "mk_handoff (pq_task q) route node_id gen (pq_lane q) (pq_lease_scope_key q) f env_plan env
      (green_receipt env) (reservation_scope_fingerprint env) = Inr h"
    using mk_handoff_total [OF checks_InrD(4,5) [OF c]] by blast
  then show ?thesis
    unfolding prepare_unfold [OF c] l using b st acq(2) by simp
qed

subsection \<open>Properties\<close>

text \<open>
  C22. A handoff is backed by both stores: whenever \<^verbatim>\<open>prepare\<close> returns one, the lane is leased at that
  instant to the selected node for that task, target state and fence; the ledger holds an open,
  unstarted reservation with the same identity, fence and scope hash; the operation is GREEN; the
  node is a registered eligible one and the environment hash is the registry's.
\<close>

theorem prepare_handoff_backed:
  assumes "ledger_reachable (rs_ledger rs)" "prepare frepr nodes envs planner q t1 t2 rs = (Inr h, rs')"
  shows "handoff_backed t1 h rs' \<and>
    (\<exists>n \<in> snd ` set nodes. eligible (pq_task q) (pq_adapter_id q) (pq_lane q) (pq_now q) n \<and>
       gh_node_id h = nd_node_id n \<and> gh_node_snapshot_hash h = node_capability_snapshot_hash frepr n) \<and>
    registry_policy_hash envs (''lane:'' @ lane_value (gh_lane h)) = Inr (gh_environment_policy_hash h)"
  using prepare_success [OF assms] by blast

text \<open>
  C23. A failed \<^verbatim>\<open>prepare\<close> cleans up after itself.  It fails only with a control-plane error; if the
  operation had no ledger entry before, it has none or a finished one afterwards, so no open
  reservation is left behind; a lease it acquired is not held any more, and a lease it found is
  untouched.  (The lane's fence counter is assumed to be below the 64-bit limit of the database, and
  the lease clock not to run backwards during the call.)
\<close>

theorem prepare_failure_clean:
  assumes "ledger_reachable (rs_ledger rs)" "lane_reachable (rs_leases rs)" "t1 \<le> t2"
    and "fence_of (rs_leases rs) (pq_lane q, pq_lease_scope_key q) + 1 < 2 ^ 63"
    and "prepare frepr nodes envs planner q t1 t2 rs = (Inl e, rs')"
  shows "(\<exists>r. e = ControlPlaneError r) \<and>
    (case lease_current t1 (pq_lane q) (pq_lease_scope_key q) (rs_leases rs) of
       None \<Rightarrow> lease_current t2 (pq_lane q) (pq_lease_scope_key q) (rs_leases rs') = None
     | Some l \<Rightarrow> rs_leases rs' = rs_leases rs) \<and>
    (ledger_entry (rs_ledger rs) (ir_idempotency_key (pq_operation q)) = None \<longrightarrow>
       (\<forall>x. ledger_entry (rs_ledger rs') (ir_idempotency_key (pq_operation q)) = Some x \<longrightarrow> en_receipt x \<noteq> None))"
proof -
  let ?cur = "\<lambda>t ls. lease_current t (pq_lane q) (pq_lease_scope_key q) ls"
  have later: "?cur t2 (rs_leases rs) = None" if "?cur t1 (rs_leases rs) = None"
    using that assms(3) by (auto simp: lease_current_def expired_def split: option.splits if_splits)
  show ?thesis
  proof (cases "run_checks frepr nodes envs q")
    case (Inl x)
    then have "rs' = rs" "e = x" using prepare_error_early [OF Inl] assms(5) by auto
    then show ?thesis
      using checks_error [OF Inl] later by (auto split: option.splits)
  next
    case (Inr v)
    obtain pol d route node_id gen env_plan where "v = (pol, d, route, node_id, gen, env_plan)" by (cases v) blast
    with Inr have c: "run_checks frepr nodes envs q = Inr (pol, d, route, node_id, gen, env_plan)" by simp
    obtain res ls where acq: "lease_acquire t1 (task_id (pq_task q)) (pq_lane q) node_id (pq_lease_scope_key q)
        (pq_ttl_seconds q) (Some (pq_target_state_ref q)) (rs_leases rs) = (res, ls)"
      by (cases "lease_acquire t1 (task_id (pq_task q)) (pq_lane q) node_id (pq_lease_scope_key q)
        (pq_ttl_seconds q) (Some (pq_target_state_ref q)) (rs_leases rs)")
    then have l: "on_leases (scheduler_reserve t1 (lease_request q node_id)) rs = (res, rs\<lparr>rs_leases := ls\<rparr>)"
      by (simp add: on_leases_def scheduler_reserve_def)
    show ?thesis
    proof (cases res)
      case (Inl x)
      have "ls = rs_leases rs" using acquire_abort acq Inl by blast
      moreover obtain r where "x = LeaseError r" using acquire_error acq Inl by blast
      ultimately show ?thesis
        using assms(5) l Inl later unfolding prepare_unfold [OF c] by (auto split: option.splits)
    next
      case (Inr lease)
      obtain ll where ll: "?cur t1 ls = Some ll" "ll_owner ll = node_id" "ll_fence_token ll = lr_fence_token lease"
          "if ?cur t1 (rs_leases rs) = None
           then lr_status lease = ''ACQUIRED'' \<and> lr_fence_token lease = fence_of (rs_leases rs) (pq_lane q, pq_lease_scope_key q) + 1
           else lr_status lease = ''ALREADY_HELD'' \<and> ls = rs_leases rs"
        using acquire_current acq Inr by blast
      have small: "lr_fence_token lease < 2 ^ 63"
      proof (cases "?cur t1 (rs_leases rs)")
        case (Some x)
        then have "lane_leases (rs_leases rs) (pq_lane q, pq_lease_scope_key q) = Some ll"
          using ll by (auto dest!: lease_current_row)
        then show ?thesis
          using held_fence [OF assms(2)] ll(3) assms(4) by fastforce
      qed (use ll(4) assms(4) in simp)
      note late = prepare_late_failure [OF assms(1) c l [unfolded Inr] small assms(5)]
      have "?cur t2 (rs_leases rs') = None" if "?cur t1 (rs_leases rs) = None"
        using late(2) ll that release_clears [OF lease_current_row [OF ll(1)] ll(2,3), of t2] by (simp add: leases_after_def)
      moreover have "rs_leases rs' = rs_leases rs" if "?cur t1 (rs_leases rs) \<noteq> None"
        using late(2) ll(4) that by (auto simp: leases_after_def)
      ultimately show ?thesis
        using late(1,4) by (auto split: option.splits)
    qed
  qed
qed

text \<open>
  Progress: on a free lane, for an operation the ledger does not know, with a positive time to
  live, checks that pass, an adapter that plans the operation and an envelope and identity that are
  well formed, \<^verbatim>\<open>prepare\<close> returns a handoff.
\<close>

theorem prepare_progress:
  assumes "ledger_reachable (rs_ledger rs)" "lane_reachable (rs_leases rs)"
    and "run_checks frepr nodes envs q = Inr (pol, d, route, node_id, gen, env_plan)"
    and "0 < pq_ttl_seconds q" "lease_current t1 (pq_lane q) (pq_lease_scope_key q) (rs_leases rs) = None"
    and "ledger_entry (rs_ledger rs) (ir_idempotency_key (pq_operation q)) = None"
    and "f = fence_of (rs_leases rs) (pq_lane q, pq_lease_scope_key q) + 1" "f < 2 ^ 63"
    and "adapter_plan planner (pq_adapter_id q) (pq_task q) (pq_operation q) pol d (pq_target_state_ref q) f = Inr env"
    and "validate_envelope env = Inr ()" "ledger_identity (request_identity q) = Inr ()"
  shows "\<exists>h rs'. prepare frepr nodes envs planner q t1 t2 rs = (Inr h, rs')"
  using assms by (rule prepare_fresh)

subsection \<open>Witnesses\<close>

definition demo_request :: prepare_request where
  "demo_request = \<lparr>pq_task = demo_task, pq_operation = demo_operation, pq_adapter_id = ''adapter:git'', pq_lane = CODEGEN,
     pq_lease_scope_key = ''repo:x'', pq_target_state_ref = ''state:a'', pq_ttl_seconds = 30, pq_now = 10,
     pq_parent_environment = demo_parent, pq_injected_environment = [(''LLM_API_KEY'', ''k'')]\<rparr>"

definition empty_runner :: runner_state where
  "empty_runner = \<lparr>rs_leases = empty_lane_store, rs_ledger = empty_ledger\<rparr>"

abbreviation demo_repr :: "real \<Rightarrow> string" where
  "demo_repr \<equiv> \<lambda>_. ''0.0''"

lemma demo_task_checks:
  "partition_ref ''repo:x''" "partition_ref ''state:a''" "validate_task_operation demo_task demo_operation = Inr ()"
  "pd_effect_class (classify_policy demo_policy) = GREEN"
  "ledger_identity (request_identity demo_request) = Inr ()"
  by code_simp+

lemma demo_route:
  "\<exists>route. plan_route demo_repr demo_nodes demo_task ''adapter:git'' CODEGEN 10 = Inr route \<and> routed_node route = Inr (''node:a'', 1)"
proof -
  obtain route where r: "plan_route demo_repr demo_nodes demo_task ''adapter:git'' CODEGEN 10 = Inr route"
    using route_plan_total [OF demo_route_checked] by blast
  have "candidates demo_nodes demo_task ''adapter:git'' CODEGEN 10 = [demo_node]"
    using demo_eligible by (simp add: candidates_def demo_nodes_def)
  then have "rp_status route = ''ROUTED''" "rp_selected_node_id route = Some ''node:a''" "rp_selected_generation route = Some 1"
    using route_plan_cases [OF r] by (simp_all add: demo_node_def)
  with r show ?thesis by (simp add: routed_node_def)
qed

lemma demo_run_checks:
  "\<exists>route env_plan. run_checks demo_repr demo_nodes demo_env_registry demo_request =
     Inr (demo_policy, classify_policy demo_policy, route, ''node:a'', 1, env_plan)"
proof -
  obtain route where "plan_route demo_repr demo_nodes demo_task ''adapter:git'' CODEGEN 10 = Inr route"
      "routed_node route = Inr (''node:a'', 1)"
    using demo_route by blast
  moreover obtain env_plan where "registry_build demo_env_registry ''lane:codegen'' demo_parent [(''LLM_API_KEY'', ''k'')] = Inr env_plan"
    using demo_env_build by blast
  moreover have "demo_policy = \<lparr>pi_operation = demo_operation, pi_reversibility = task_reversibility demo_task,
      pi_privacy = task_privacy demo_task, pi_target_state_ref = Some ''state:a'',
      pi_operator_boundary_evidence = task_operator_boundary_evidence demo_task\<rparr>"
    by (simp add: demo_policy_def demo_task_def)
  ultimately show ?thesis
    using demo_task_checks by (simp add: prepare_checks_def Let_def demo_request_def reraise_control_def)
qed

lemma empty_runner_reachable: "ledger_reachable (rs_ledger empty_runner)" "lane_reachable (rs_leases empty_runner)"
  by (simp_all add: empty_runner_def ledger_init lane_init)

theorem prepare_progress_witness:
  "\<exists>h rs'. prepare demo_repr demo_nodes demo_env_registry demo_planner demo_request 0 1 empty_runner = (Inr h, rs')"
proof -
  obtain route env_plan where c: "run_checks demo_repr demo_nodes demo_env_registry demo_request =
     Inr (demo_policy, classify_policy demo_policy, route, ''node:a'', 1, env_plan)"
    using demo_run_checks by blast
  show ?thesis
    by (rule prepare_progress [OF empty_runner_reachable c, where env = demo_envelope and f = 1])
      (use demo_plan demo_envelope_valid demo_task_checks in \<open>simp_all add: demo_request_def empty_runner_def
         lease_current_def lease_row_def empty_lane_store_def fence_of_def demo_empty demo_operation_def\<close>)
qed

lemma demo_prepared:
  "\<exists>h rs'. prepare demo_repr demo_nodes demo_env_registry demo_planner demo_request 0 1 empty_runner = (Inr h, rs')"
proof -
  obtain route env_plan where c: "run_checks demo_repr demo_nodes demo_env_registry demo_request =
     Inr (demo_policy, classify_policy demo_policy, route, ''node:a'', 1, env_plan)"
    using demo_run_checks by blast
  show ?thesis
    by (rule prepare_fresh [OF empty_runner_reachable c, where env = demo_envelope and f = 1])
      (use demo_plan demo_envelope_valid demo_task_checks in \<open>simp_all add: demo_request_def empty_runner_def
         lease_current_def lease_row_def empty_lane_store_def fence_of_def demo_empty demo_operation_def\<close>)
qed

theorem prepare_handoff_backed_witness:
  "\<exists>h rs'. prepare demo_repr demo_nodes demo_env_registry demo_planner demo_request 0 1 empty_runner = (Inr h, rs') \<and>
     handoff_backed 0 h rs'"
proof -
  obtain h rs' where p: "prepare demo_repr demo_nodes demo_env_registry demo_planner demo_request 0 1 empty_runner = (Inr h, rs')"
    using demo_prepared by blast
  from prepare_handoff_backed [OF empty_runner_reachable(1) p] p show ?thesis by blast
qed

text \<open>With no adapter registered the same request fails after the lease was acquired.\<close>

lemma demo_refused: "\<exists>e rs'. prepare demo_repr demo_nodes demo_env_registry [] demo_request 0 1 empty_runner = (Inl e, rs')"
proof (cases "prepare demo_repr demo_nodes demo_env_registry [] demo_request 0 1 empty_runner")
  case (Pair r rs')
  then show ?thesis
    using prepare_success(3) [OF empty_runner_reachable(1)] by (cases r) (fastforce simp: adapter_plan_def)+
qed

theorem prepare_failure_clean_witness:
  "\<exists>e rs'. prepare demo_repr demo_nodes demo_env_registry [] demo_request 0 1 empty_runner = (Inl e, rs') \<and>
     lease_current 1 CODEGEN ''repo:x'' (rs_leases rs') = None"
proof -
  obtain e rs' where p: "prepare demo_repr demo_nodes demo_env_registry [] demo_request 0 1 empty_runner = (Inl e, rs')"
    using demo_refused by blast
  have "fence_of (rs_leases empty_runner) (pq_lane demo_request, pq_lease_scope_key demo_request) + 1 < 2 ^ 63"
    and free: "lease_current 0 CODEGEN ''repo:x'' (rs_leases empty_runner) = None"
    by (simp_all add: fence_of_def empty_runner_def empty_lane_store_def lease_current_def lease_row_def)
  from prepare_failure_clean [OF empty_runner_reachable _ this(1) p] free p show ?thesis
    by (auto simp: demo_request_def)
qed

end
