(* ===== verification/ExecutionGate.thy ===== *)
theory ExecutionGate
  imports ControlPlane
begin

text \<open>
  \<^verbatim>\<open>core/runner_vnext_execution_gate.py\<close>: the just-in-time gate that re-checks every piece of evidence
  behind a handoff and turns it into an execution grant.  It reads the stores only.  The injected
  target-state verifier is the argument \<open>current_ref\<close>; \<open>t\<close> is the lease clock and \<open>now\<close> the caller's.
\<close>

subsection \<open>Definitions\<close>

record green_grant =
  gg_task_id :: string
  gg_node_id :: string
  gg_node_generation :: int
  gg_node_snapshot_hash :: string
  gg_node_attestation_ref :: string
  gg_lane :: string
  gg_lease_scope_key :: string
  gg_fence_token :: int
  gg_environment_policy_hash :: string
  gg_operation_id :: string
  gg_idempotency_key :: string
  gg_adapter_id :: string
  gg_target_state_ref :: string
  gg_reservation_scope_hash :: string
  gg_planner_envelope_hash :: string
  gg_policy_reason_code :: string
  gg_authorization_status :: string
  gg_environment :: str_dict
  gg_planner_envelope :: execution_envelope
  gg_execution_authorized :: bool
  gg_effect_execution_started :: bool

definition text_hash :: "string \<Rightarrow> string" where
  "text_hash v = sha256_hex v"

definition envelope_payload :: "execution_envelope \<Rightarrow> (string \<times> json) list" where
  "envelope_payload e = [
     (''operation_id'', JStr (ev_operation_id e)),
     (''adapter_id'', JStr (ev_adapter_id e)),
     (''target_state_ref'', JStr (ev_target_state_ref e)),
     (''fence_token'', JInt (ev_fence_token e)),
     (''idempotency_key'', JStr (ev_idempotency_key e)),
     (''resources'', jstrs (ev_resources e)),
     (''effects'', jstrs (ev_effects e)),
     (''effect_class'', JStr (effect_class_value (ev_effect_class e))),
     (''policy_reason_code'', JStr (ev_policy_reason_code e)),
     (''required_capabilities'', jstrs (ev_required_capabilities e)),
     (''privacy'', JStr (privacy_value (ev_privacy e))),
     (''dry_run'', JBool (ev_dry_run e))]"

definition planner_envelope_hash :: "execution_envelope \<Rightarrow> string" where
  "planner_envelope_hash e = json_digest (JObj (envelope_payload e))"

definition validate_handoff_shape :: "green_handoff \<Rightarrow> unit res" where
  "validate_handoff_shape h = guards [
     (\<not> gh_execution_authorized h \<or> \<not> gh_lease_retained h \<or> \<not> gh_ledger_reserved h,
        ExecutionGateError ''EXECUTION_GATE_AUTHORIZED_HANDOFF_REQUIRED''),
     (gh_side_effects_executed h, ExecutionGateError ''EXECUTION_GATE_EFFECT_ALREADY_STARTED''),
     (\<not> ev_dry_run (gh_envelope h), ExecutionGateError ''EXECUTION_GATE_IMMUTABLE_PLANNER_ENVELOPE_REQUIRED'')]"

text \<open>\<^verbatim>\<open>except C as exc: raise ExecutionGateError(exc.reason_code)\<close>\<close>

definition reraise_gate :: "(exn \<Rightarrow> bool) \<Rightarrow> 'a res \<Rightarrow> 'a res" where
  "reraise_gate caught r =
     (case r of Inl e \<Rightarrow> Inl (if caught e then ExecutionGateError (reason_code e) else e) | Inr v \<Rightarrow> Inr v)"

fun is_pep_error :: "exn \<Rightarrow> bool" where
  "is_pep_error (PEPError r) = True" | "is_pep_error e = False"

text \<open>The checks of the lease and of the ledger, in their order.\<close>

definition gate_lease :: "real \<Rightarrow> green_handoff \<Rightarrow> lane_store \<Rightarrow> unit res" where
  "gate_lease t h leases =
     (case scheduler_current t (gh_lane h) (gh_lease_scope_key h) leases of
        None \<Rightarrow> Inl (ExecutionGateError ''EXECUTION_GATE_LEASE_MISSING_OR_EXPIRED'')
      | Some lease \<Rightarrow> guards [
          (ll_task_id lease \<noteq> gh_task_id h \<or> ll_owner lease \<noteq> gh_node_id h, ExecutionGateError ''EXECUTION_GATE_LEASE_OWNER_MISMATCH''),
          (ll_fence_token lease \<noteq> gh_fence_token h, ExecutionGateError ''EXECUTION_GATE_LEASE_FENCE_MISMATCH''),
          (ll_target_state_ref lease \<noteq> Some (ev_target_state_ref (gh_envelope h)),
             ExecutionGateError ''EXECUTION_GATE_LEASE_TARGET_MISMATCH'')])"

definition gate_ledger :: "green_handoff \<Rightarrow> operation_ledger \<Rightarrow> string res" where
  "gate_ledger h s =
     (let k = gh_idempotency_key h; e = gh_envelope h; scope_hash = reservation_scope_fingerprint e in
      rbind (raise_if (ledger_status k s \<noteq> Some ''RESERVED'') (ExecutionGateError ''EXECUTION_GATE_LEDGER_NOT_RESERVED'')) (\<lambda>_.
      rbind (reraise_gate is_ledger_error (reservation_event k s)) (\<lambda>reservation.
      rbind (reraise_gate is_ledger_error (current_fence_token k s)) (\<lambda>current_fence.
      rbind (guards [
        (op_operation_id (le_identity reservation) \<noteq> gh_operation_id h, ExecutionGateError ''EXECUTION_GATE_LEDGER_OPERATION_MISMATCH''),
        (op_target_state_ref (le_identity reservation) \<noteq> ev_target_state_ref e,
           ExecutionGateError ''EXECUTION_GATE_LEDGER_TARGET_MISMATCH''),
        (current_fence \<noteq> gh_fence_token h, ExecutionGateError ''EXECUTION_GATE_LEDGER_FENCE_MISMATCH''),
        (le_reservation_scope_hash reservation \<noteq> Some scope_hash \<or> gh_reservation_scope_hash h \<noteq> scope_hash,
           ExecutionGateError ''EXECUTION_GATE_SCOPE_HASH_MISMATCH'')]) (\<lambda>_.
      Inr scope_hash)))))"

definition gate_authorization :: "green_handoff \<Rightarrow> operation_ledger \<Rightarrow> pep_receipt res" where
  "gate_authorization h s =
     rbind (reraise_gate is_pep_error (pep_evaluate (gh_envelope h) s None None)) (\<lambda>authorization.
       case authorization of
         Broker b \<Rightarrow> Inl (ExecutionGateError ''EXECUTION_GATE_GREEN_AUTHORIZATION_REQUIRED'')
       | Authorized r \<Rightarrow>
           if pr_authorization_status r \<noteq> gh_authorization_status h
           then Inl (ExecutionGateError ''EXECUTION_GATE_AUTHORIZATION_MISMATCH'') else Inr r)"

definition gate_grant ::
    "(real \<Rightarrow> string) \<Rightarrow> node_registry \<Rightarrow> env_registry \<Rightarrow> (green_handoff \<Rightarrow> string) \<Rightarrow> real \<Rightarrow> real \<Rightarrow> green_handoff
      \<Rightarrow> runner_state \<Rightarrow> green_grant res" where
  "gate_grant frepr nodes envs current_ref t now h rs =
     rbind (validate_handoff_shape h) (\<lambda>_.
     rbind (reraise_gate is_routing_error
        (require_current frepr nodes (gh_node_id h) (gh_node_generation h) (gh_node_snapshot_hash h) now)) (\<lambda>snapshot.
     rbind (raise_if (nd_attestation_ref snapshot \<noteq> gh_node_attestation_ref h \<or> nd_expires_at snapshot \<noteq> gh_node_expires_at h)
        (ExecutionGateError ''EXECUTION_GATE_NODE_ATTESTATION_MISMATCH'')) (\<lambda>_.
     rbind (reraise_gate is_environment_error (registry_policy_hash envs (''lane:'' @ lane_value (gh_lane h)))) (\<lambda>policy_hash.
     rbind (raise_if (policy_hash \<noteq> gh_environment_policy_hash h) (ExecutionGateError ''EXECUTION_GATE_ENV_POLICY_MISMATCH'')) (\<lambda>_.
     rbind (gate_lease t h (rs_leases rs)) (\<lambda>_.
     rbind (gate_ledger h (rs_ledger rs)) (\<lambda>scope_hash.
     rbind (gate_authorization h (rs_ledger rs)) (\<lambda>authorization.
     rbind (raise_if (current_ref h \<noteq> ev_target_state_ref (gh_envelope h)) (ExecutionGateError ''EXECUTION_GATE_TARGET_STATE_STALE'')) (\<lambda>_.
     Inr \<lparr>gg_task_id = gh_task_id h, gg_node_id = gh_node_id h, gg_node_generation = gh_node_generation h,
       gg_node_snapshot_hash = gh_node_snapshot_hash h, gg_node_attestation_ref = gh_node_attestation_ref h,
       gg_lane = lane_value (gh_lane h), gg_lease_scope_key = gh_lease_scope_key h, gg_fence_token = gh_fence_token h,
       gg_environment_policy_hash = gh_environment_policy_hash h, gg_operation_id = gh_operation_id h,
       gg_idempotency_key = gh_idempotency_key h, gg_adapter_id = gh_adapter_id h,
       gg_target_state_ref = ev_target_state_ref (gh_envelope h), gg_reservation_scope_hash = scope_hash,
       gg_planner_envelope_hash = planner_envelope_hash (gh_envelope h), gg_policy_reason_code = gh_policy_reason_code h,
       gg_authorization_status = pr_authorization_status authorization, gg_environment = gh_environment h,
       gg_planner_envelope = gh_envelope h, gg_execution_authorized = True, gg_effect_execution_started = False\<rparr>)))))))))"

definition grant_public_projection :: "green_grant \<Rightarrow> json" where
  "grant_public_projection g =
     (let privacy = privacy_value (ev_privacy (gg_planner_envelope g)) in
      JObj ([
       (''schema'', JStr ''skeleton.runner_green_execution_grant.v1''),
       (''privacy'', JStr privacy),
       (''task_id_hash'', JStr (text_hash (gg_task_id g))),
       (''operation_id_hash'', JStr (text_hash (gg_operation_id g))),
       (''idempotency_key_hash'', JStr (text_hash (gg_idempotency_key g))),
       (''node_id'', JStr (gg_node_id g)),
       (''node_generation'', JInt (gg_node_generation g)),
       (''node_snapshot_hash'', JStr (gg_node_snapshot_hash g)),
       (''node_attestation_ref'', JStr (gg_node_attestation_ref g)),
       (''lane'', JStr (gg_lane g)),
       (''fence_token'', JInt (gg_fence_token g)),
       (''environment_policy_hash'', JStr (gg_environment_policy_hash g)),
       (''adapter_id'', JStr (gg_adapter_id g)),
       (''reservation_scope_hash'', JStr (gg_reservation_scope_hash g)),
       (''planner_envelope_hash'', JStr (gg_planner_envelope_hash g)),
       (''policy_reason_code'', JStr (gg_policy_reason_code g)),
       (''authorization_status'', JStr (gg_authorization_status g)),
       (''execution_authorized'', JBool (gg_execution_authorized g)),
       (''effect_execution_started'', JBool (gg_effect_execution_started g))] @
      (if privacy = ''PUBLIC_SAFE'' then [
         (''task_id'', JStr (gg_task_id g)),
         (''operation_id'', JStr (gg_operation_id g)),
         (''idempotency_key'', JStr (gg_idempotency_key g))] else [])))"

subsection \<open>What a grant rests on\<close>

lemma reraise_gate_Inr [simp]: "reraise_gate caught r = Inr v \<longleftrightarrow> r = Inr v"
  by (cases r) (simp_all add: reraise_gate_def)

lemma reraise_gate_of_Inr [simp]: "reraise_gate caught (Inr v) = Inr v"
  by simp

lemma gate_lease_Inr:
  "gate_lease t h leases = Inr () \<longleftrightarrow> (\<exists>l. lease_current t (gh_lane h) (gh_lease_scope_key h) leases = Some l \<and>
     ll_task_id l = gh_task_id h \<and> ll_owner l = gh_node_id h \<and> ll_fence_token l = gh_fence_token h \<and>
     ll_target_state_ref l = Some (ev_target_state_ref (gh_envelope h)))"
  by (auto simp: gate_lease_def scheduler_current_def split: option.splits)

lemma gate_authorization_Inr:
  "gate_authorization h s = Inr r \<longleftrightarrow>
     pep_evaluate (gh_envelope h) s None None = Inr (Authorized r) \<and> pr_authorization_status r = gh_authorization_status h"
proof (cases "pep_evaluate (gh_envelope h) s None None")
  case (Inr out)
  then show ?thesis by (cases out) (auto simp: gate_authorization_def)
qed (simp add: gate_authorization_def reraise_gate_def)

lemma gate_ledger_Inr:
  "gate_ledger h s = Inr sh \<longleftrightarrow>
    (\<exists>r. ledger_status (gh_idempotency_key h) s = Some ''RESERVED'' \<and> reservation_event (gh_idempotency_key h) s = Inr r \<and>
      current_fence_token (gh_idempotency_key h) s = Inr (gh_fence_token h) \<and>
      op_operation_id (le_identity r) = gh_operation_id h \<and>
      op_target_state_ref (le_identity r) = ev_target_state_ref (gh_envelope h) \<and>
      le_reservation_scope_hash r = Some sh \<and> sh = reservation_scope_fingerprint (gh_envelope h) \<and>
      gh_reservation_scope_hash h = sh)"
  by (auto simp: gate_ledger_def Let_def)

lemma grant_InrD:
  assumes "gate_grant frepr nodes envs current_ref t now h rs = Inr g"
  shows "validate_handoff_shape h = Inr ()" "gate_lease t h (rs_leases rs) = Inr ()"
    "gate_ledger h (rs_ledger rs) = Inr (gg_reservation_scope_hash g)"
    "\<exists>r. gate_authorization h (rs_ledger rs) = Inr r \<and> gg_authorization_status g = pr_authorization_status r"
    "current_ref h = ev_target_state_ref (gh_envelope h)"
    "registry_policy_hash envs (''lane:'' @ lane_value (gh_lane h)) = Inr (gh_environment_policy_hash h)"
    "\<exists>n. require_current frepr nodes (gh_node_id h) (gh_node_generation h) (gh_node_snapshot_hash h) now = Inr n \<and>
       nd_attestation_ref n = gh_node_attestation_ref h \<and> nd_expires_at n = gh_node_expires_at h"
    "gg_task_id g = gh_task_id h \<and> gg_node_id g = gh_node_id h \<and> gg_lane g = lane_value (gh_lane h) \<and>
     gg_lease_scope_key g = gh_lease_scope_key h \<and> gg_fence_token g = gh_fence_token h \<and>
     gg_operation_id g = gh_operation_id h \<and> gg_idempotency_key g = gh_idempotency_key h \<and> gg_adapter_id g = gh_adapter_id h \<and>
     gg_target_state_ref g = ev_target_state_ref (gh_envelope h) \<and> gg_planner_envelope g = gh_envelope h \<and>
     gg_planner_envelope_hash g = planner_envelope_hash (gh_envelope h) \<and> gg_execution_authorized g \<and>
     \<not> gg_effect_execution_started g \<and> gg_environment g = gh_environment h"
  using assms by (auto simp: gate_grant_def)

lemma grant_copies:
  assumes "gate_grant frepr nodes envs current_ref t now h rs = Inr g"
  shows "gg_task_id g = gh_task_id h" "gg_node_id g = gh_node_id h" "gg_node_generation g = gh_node_generation h"
    "gg_node_snapshot_hash g = gh_node_snapshot_hash h" "gg_node_attestation_ref g = gh_node_attestation_ref h"
    "gg_lane g = lane_value (gh_lane h)" "gg_lease_scope_key g = gh_lease_scope_key h" "gg_fence_token g = gh_fence_token h"
    "gg_environment_policy_hash g = gh_environment_policy_hash h" "gg_operation_id g = gh_operation_id h"
    "gg_idempotency_key g = gh_idempotency_key h" "gg_adapter_id g = gh_adapter_id h"
    "gg_target_state_ref g = ev_target_state_ref (gh_envelope h)" "gg_policy_reason_code g = gh_policy_reason_code h"
    "gg_environment g = gh_environment h" "gg_planner_envelope g = gh_envelope h"
    "gg_planner_envelope_hash g = planner_envelope_hash (gh_envelope h)" "gg_execution_authorized g" "\<not> gg_effect_execution_started g"
  using assms by (auto simp: gate_grant_def)

lemma require_current_Inr:
  "require_current frepr nodes k gen h now = Inr n \<longleftrightarrow> map_of nodes k = Some n \<and> nd_generation n = gen \<and> fresh_at now n \<and>
     node_capability_snapshot_hash frepr n = h"
  by (auto simp: require_current_def split: option.splits)

text \<open>A handoff that is backed passes the ledger, lease and authorization checks.\<close>

lemma backed_checks:
  assumes reach: "ledger_reachable (rs_ledger rs)" and b: "handoff_backed t h rs"
    and valid: "validate_envelope (gh_envelope h) = Inr ()" and auth: "gh_authorization_status h = ''AUTHORIZED_GREEN_BOUNDED''"
  shows "gate_lease t h (rs_leases rs) = Inr ()" "gate_ledger h (rs_ledger rs) = Inr (gh_reservation_scope_hash h)"
    "gate_authorization h (rs_ledger rs) = Inr (green_receipt (gh_envelope h))"
proof -
  note ok = ledger_reachable_ok [OF reach]
  have res: "reserved_for (gh_envelope h) (rs_ledger rs)" using b by (simp add: handoff_backed_def)
  show "gate_lease t h (rs_leases rs) = Inr ()"
    using b unfolding gate_lease_Inr handoff_backed_def by blast
  show "gate_authorization h (rs_ledger rs) = Inr (green_receipt (gh_envelope h))"
    using pep_green_total [OF ok valid res] b auth unfolding gate_authorization_Inr handoff_backed_def by simp
  obtain r where "pep_ledger_view (ev_idempotency_key (gh_envelope h)) (rs_ledger rs) =
      Inr (r, ev_fence_token (gh_envelope h), Some ''RESERVED'')"
      "validate_ledger (gh_envelope h) r (ev_fence_token (gh_envelope h)) (Some ''RESERVED'') = Inr ()"
    using reserved_checks [OF ok res] .
  then show "gate_ledger h (rs_ledger rs) = Inr (gh_reservation_scope_hash h)"
    using b unfolding gate_ledger_Inr handoff_backed_def by (simp add: pep_ledger_view_Inr validate_ledger_def)
qed

lemma prepared_envelope_valid:
  assumes "ledger_reachable (rs_ledger rs)" "prepare frepr nodes envs planner q t1 t2 rs = (Inr h, rs')"
  shows "validate_envelope (gh_envelope h) = Inr ()" "validate_handoff_shape h = Inr ()"
    "gh_adapter_id h = ev_adapter_id (gh_envelope h)"
proof -
  from assms(2) obtain pol d route node_id gen env_plan lease rs1 env r where
    l: "on_leases (scheduler_reserve t1 (lease_request q node_id)) rs = (Inr lease, rs1)"
    and b: "prepare_body planner (pq_task q) (pq_operation q) (pq_adapter_id q) pol d (pq_target_state_ref q)
       (lr_fence_token lease) (ledger_status (ir_idempotency_key (pq_operation q)) (rs_ledger rs1)) rs1 = (Inr (env, gh_reservation_scope_hash h, r), rs')"
    and m: "mk_handoff (pq_task q) route node_id gen (pq_lane q) (pq_lease_scope_key q) (lr_fence_token lease)
       env_plan env r (gh_reservation_scope_hash h) = Inr h"
    by (rule prepare_InrD)
  note m' = mk_handoff_InrD [OF m]
  have reach1: "ledger_reachable (rs_ledger rs1)" using assms(1) on_leases_Inr [OF l] by auto
  note b' = body_InrD [OF reach1 b]
  have "green_authorize env (rs_ledger rs') = Inr r"
    using b by (auto simp: prepare_body_def Let_def guarded_Inr_iff sbind_Inr_iff)
  then have "validate_envelope env = Inr ()"
    unfolding green_authorize_iff using pep_InrD [OF ledger_reachable_ok [OF b'(7)]] by blast
  then show "validate_envelope (gh_envelope h) = Inr ()" using m' by simp
  show "gh_adapter_id h = ev_adapter_id (gh_envelope h)" using m' by simp
  show "validate_handoff_shape h = Inr ()"
    using m' b'(1) by (auto simp: validate_handoff_shape_def elim!: adapter_plan_InrD)
qed

lemma registered_lookup:
  assumes "registry_ok nodes" "n \<in> snd ` set nodes"
  shows "map_of nodes (nd_node_id n) = Some n"
proof -
  obtain k where k: "(k, n) \<in> set nodes" using assms(2) by auto
  then have "map_of nodes k = Some n" using assms(1) by (simp add: registry_ok_def)
  then show ?thesis using registry_okD [OF assms(1)] by metis
qed

lemma prepared_gate:
  assumes "registry_ok nodes" "ledger_reachable (rs_ledger rs)"
    and "prepare frepr nodes envs planner q t1 t2 rs = (Inr h, rs')"
    and "current_ref h = ev_target_state_ref (gh_envelope h)"
    and "lease_current u (pq_lane q) (pq_lease_scope_key q) (rs_leases rs') \<noteq> None"
  shows "\<exists>g. gate_grant frepr nodes envs current_ref u (pq_now q) h rs' = Inr g \<and> gg_planner_envelope g = gh_envelope h \<and>
    gg_task_id g = task_id (pq_task q) \<and> gg_fence_token g = gh_fence_token h"
proof -
  note p = prepare_success [OF assms(2,3)] and v = prepared_envelope_valid [OF assms(2,3)]
  have "handoff_backed u h rs'" using handoff_backed_at [OF p(1)] p(6) assms(5) by simp
  note c = backed_checks [OF p(2) this v(1)]
  obtain n where n: "n \<in> snd ` set nodes" "eligible (pq_task q) (pq_adapter_id q) (pq_lane q) (pq_now q) n"
      "gh_node_id h = nd_node_id n" "gh_node_generation h = nd_generation n"
      "gh_node_snapshot_hash h = node_capability_snapshot_hash frepr n"
      "gh_node_attestation_ref h = nd_attestation_ref n" "gh_node_expires_at h = nd_expires_at n"
    using p(4) by blast
  have "require_current frepr nodes (gh_node_id h) (gh_node_generation h) (gh_node_snapshot_hash h) (pq_now q) = Inr n"
    using registered_lookup [OF assms(1) n(1)] n by (simp add: require_current_Inr eligible_def)
  then show ?thesis
    using v c p(5,6) n assms(4) by (simp add: gate_grant_def)
qed

subsection \<open>Properties\<close>

text \<open>
  C24. A grant is issued only on evidence that holds at that moment, and it grants the handoff and nothing else.  The
  handoff was authorised, retained its lease and reservation and has executed nothing.  The node's
  registered snapshot is fresh and has the handed-off generation, hash, attestation and expiry; the lane's environment
  policy hash is unchanged; the lease is held by that node for that task, state and fence; the ledger
  has the handoff's operation open, unstarted, with the handoff's operation id, target, fence and scope; the enforcement
  point authorises the envelope again with the status of the handoff; and the verifier reports the
  target state the envelope was planned for.  Every identity of the grant is the handoff's.
\<close>

theorem grant_rests_on_current_evidence:
  assumes "ledger_reachable (rs_ledger rs)" "gate_grant frepr nodes envs current_ref t now h rs = Inr g"
  shows "gh_execution_authorized h \<and> gh_lease_retained h \<and> gh_ledger_reserved h \<and> \<not> gh_side_effects_executed h \<and>
    (\<exists>n. map_of nodes (gg_node_id g) = Some n \<and> nd_generation n = gh_node_generation h \<and> fresh_at now n \<and>
      node_capability_snapshot_hash frepr n = gh_node_snapshot_hash h \<and>
      nd_attestation_ref n = gh_node_attestation_ref h \<and> nd_expires_at n = gh_node_expires_at h) \<and>
    registry_policy_hash envs (''lane:'' @ gg_lane g) = Inr (gh_environment_policy_hash h) \<and>
    (\<exists>l. lease_current t (gh_lane h) (gg_lease_scope_key g) (rs_leases rs) = Some l \<and> ll_task_id l = gg_task_id g \<and>
      ll_owner l = gg_node_id g \<and> ll_fence_token l = gg_fence_token g \<and> ll_target_state_ref l = Some (gg_target_state_ref g)) \<and>
    ledger_status (gg_idempotency_key g) (rs_ledger rs) = Some ''RESERVED'' \<and>
    current_fence_token (gg_idempotency_key g) (rs_ledger rs) = Inr (gg_fence_token g) \<and>
    (\<exists>r. reservation_event (gg_idempotency_key g) (rs_ledger rs) = Inr r \<and> op_operation_id (le_identity r) = gg_operation_id g \<and>
      op_target_state_ref (le_identity r) = gg_target_state_ref g \<and> le_reservation_scope_hash r = Some (gg_reservation_scope_hash g)) \<and>
    reserved_for (gg_planner_envelope g) (rs_ledger rs) \<and> ev_effect_class (gg_planner_envelope g) = GREEN \<and>
    pep_evaluate (gh_envelope h) (rs_ledger rs) None None = Inr (Authorized (green_receipt (gh_envelope h))) \<and>
    gg_authorization_status g = gh_authorization_status h \<and> gh_authorization_status h = ''AUTHORIZED_GREEN_BOUNDED'' \<and>
    gg_reservation_scope_hash g = reservation_scope_fingerprint (gg_planner_envelope g) \<and>
    gg_reservation_scope_hash g = gh_reservation_scope_hash h \<and>
    gg_planner_envelope_hash g = planner_envelope_hash (gg_planner_envelope g) \<and>
    current_ref h = gg_target_state_ref g \<and> gg_execution_authorized g \<and> \<not> gg_effect_execution_started g \<and>
    (gg_task_id g, gg_node_id g, gg_node_generation g, gg_node_snapshot_hash g, gg_node_attestation_ref g, gg_lane g, gg_lease_scope_key g,
     gg_fence_token g, gg_environment_policy_hash g, gg_operation_id g, gg_idempotency_key g, gg_adapter_id g, gg_target_state_ref g,
     gg_policy_reason_code g, gg_environment g, gg_planner_envelope g) =
    (gh_task_id h, gh_node_id h, gh_node_generation h, gh_node_snapshot_hash h, gh_node_attestation_ref h, lane_value (gh_lane h), gh_lease_scope_key h,
     gh_fence_token h, gh_environment_policy_hash h, gh_operation_id h, gh_idempotency_key h, gh_adapter_id h, ev_target_state_ref (gh_envelope h),
     gh_policy_reason_code h, gh_environment h, gh_envelope h)"
proof -
  note d = grant_InrD [OF assms(2)] and c = grant_copies [OF assms(2)]
  have shape: "gh_execution_authorized h" "gh_lease_retained h" "gh_ledger_reserved h" "\<not> gh_side_effects_executed h"
    using d(1) by (simp_all add: validate_handoff_shape_def)
  obtain r where r: "pep_evaluate (gh_envelope h) (rs_ledger rs) None None = Inr (Authorized r)"
      "pr_authorization_status r = gh_authorization_status h" "gg_authorization_status g = pr_authorization_status r"
    using d(4) by (auto simp: gate_authorization_Inr)
  have pep: "reserved_for (gh_envelope h) (rs_ledger rs)" "ev_effect_class (gh_envelope h) = GREEN" "r = green_receipt (gh_envelope h)"
    using pep_InrD [OF ledger_reachable_ok [OF assms(1)] r(1)] by (auto split: if_splits)
  have status: "gh_authorization_status h = ''AUTHORIZED_GREEN_BOUNDED''" using r(2) pep(3) by simp
  note led = d(3) [unfolded gate_ledger_Inr] and lease = d(2) [unfolded gate_lease_Inr]
  show ?thesis
    using shape r pep status led lease d(5-7) c by (auto simp: require_current_Inr)
qed

text \<open>
  Round trip: a handoff that \<^verbatim>\<open>prepare\<close> just returned passes the gate.  With the same registries,
  a target that has not moved and a lease that is still live when the gate looks, the gate grants it,
  for the same task, node, fence and envelope.
\<close>

theorem prepared_handoff_is_granted:
  assumes "registry_ok nodes" "ledger_reachable (rs_ledger rs)"
    and "prepare frepr nodes envs planner q t1 t2 rs = (Inr h, rs')"
    and "current_ref h = ev_target_state_ref (gh_envelope h)"
    and "lease_current u (pq_lane q) (pq_lease_scope_key q) (rs_leases rs') \<noteq> None"
  shows "\<exists>g. gate_grant frepr nodes envs current_ref u (pq_now q) h rs' = Inr g \<and> gg_planner_envelope g = gh_envelope h \<and>
    gg_task_id g = task_id (pq_task q) \<and> gg_fence_token g = gh_fence_token h"
  using assms by (rule prepared_gate)

subsection \<open>Witnesses\<close>

lemma demo_granted:
  "\<exists>h rs'. prepare demo_repr demo_nodes demo_env_registry demo_planner demo_request 0 1 empty_runner = (Inr h, rs') \<and>
     gh_envelope h = demo_envelope"
proof -
  obtain h rs' where p: "prepare demo_repr demo_nodes demo_env_registry demo_planner demo_request 0 1 empty_runner = (Inr h, rs')"
    using demo_prepared by blast
  note s = prepare_success [OF empty_runner_reachable(1) p]
  obtain l where l: "lease_current 0 CODEGEN ''repo:x'' (rs_leases rs') = Some l" "ll_fence_token l = gh_fence_token h"
    using s(1,6) by (auto simp: handoff_backed_def demo_request_def)
  from p obtain pol d route node_id gen env_plan lease rs1 env r where
    c: "run_checks demo_repr demo_nodes demo_env_registry demo_request = Inr (pol, d, route, node_id, gen, env_plan)"
    and on: "on_leases (scheduler_reserve 0 (lease_request demo_request node_id)) empty_runner = (Inr lease, rs1)"
    and b: "prepare_body demo_planner (pq_task demo_request) (pq_operation demo_request) (pq_adapter_id demo_request) pol d
       (pq_target_state_ref demo_request) (lr_fence_token lease)
       (ledger_status (ir_idempotency_key (pq_operation demo_request)) (rs_ledger rs1)) rs1 = (Inr (env, gh_reservation_scope_hash h, r), rs')"
    and m: "mk_handoff (pq_task demo_request) route node_id gen (pq_lane demo_request) (pq_lease_scope_key demo_request)
       (lr_fence_token lease) env_plan env r (gh_reservation_scope_hash h) = Inr h"
    by (rule prepare_InrD)
  have reach1: "ledger_reachable (rs_ledger rs1)"
    using on_leases_Inr [OF on] by (auto simp: empty_runner_def ledger_init)
  have "lr_fence_token lease = 1"
    using on by (simp add: on_leases_def scheduler_reserve_def demo_request_def empty_runner_def lease_acquire_def
        transaction_def lease_row_def next_fence_def empty_lane_store_def Let_def split: prod.splits) auto
  moreover have "pol = demo_policy" "d = classify_policy demo_policy"
    using demo_run_checks c by auto
  ultimately have "Inr env = Inr demo_envelope"
    using body_InrD(1) [OF reach1 b] demo_plan by (simp add: demo_request_def)
  then show ?thesis using p mk_handoff_InrD(7) [OF m] by auto
qed

definition demo_state_ref :: "green_handoff \<Rightarrow> string" where
  "demo_state_ref h = ''state:a''"

lemma demo_grant_exists:
  "\<exists>h g rs'. prepare demo_repr demo_nodes demo_env_registry demo_planner demo_request 0 1 empty_runner = (Inr h, rs') \<and>
     gate_grant demo_repr demo_nodes demo_env_registry demo_state_ref 0 10 h rs' = Inr g \<and>
     ledger_reachable (rs_ledger rs') \<and> gh_envelope h = demo_envelope \<and> gg_planner_envelope g = demo_envelope"
proof -
  obtain h rs' where p: "prepare demo_repr demo_nodes demo_env_registry demo_planner demo_request 0 1 empty_runner = (Inr h, rs')"
      and env: "gh_envelope h = demo_envelope"
    using demo_granted by blast
  have "demo_state_ref h = ev_target_state_ref (gh_envelope h)" by (simp add: env demo_state_ref_def demo_envelope_def)
  from prepared_gate [where current_ref = demo_state_ref, OF demo_nodes_ok empty_runner_reachable(1) p this
      prepared_lease_current [OF empty_runner_reachable(1) p]]
  show ?thesis
    using p env prepare_success(2) [OF empty_runner_reachable(1) p] by (auto simp: demo_request_def)
qed

theorem grant_rests_on_current_evidence_witness:
  "\<exists>h g rs'. gate_grant demo_repr demo_nodes demo_env_registry demo_state_ref 0 10 h rs' = Inr g \<and>
     reserved_for (gg_planner_envelope g) (rs_ledger rs')"
  using demo_grant_exists grant_rests_on_current_evidence by blast

theorem prepared_handoff_is_granted_witness:
  "\<exists>h g rs'. gate_grant demo_repr demo_nodes demo_env_registry demo_state_ref 0 (pq_now demo_request) h rs' = Inr g \<and>
     gg_task_id g = ''task:1''"
proof -
  obtain h rs' where p: "prepare demo_repr demo_nodes demo_env_registry demo_planner demo_request 0 1 empty_runner = (Inr h, rs')"
      and env: "gh_envelope h = demo_envelope"
    using demo_granted by blast
  have "demo_state_ref h = ev_target_state_ref (gh_envelope h)" by (simp add: env demo_state_ref_def demo_envelope_def)
  from prepared_handoff_is_granted [where current_ref = demo_state_ref, OF demo_nodes_ok empty_runner_reachable(1) p this
      prepared_lease_current [OF empty_runner_reachable(1) p]] show ?thesis
    by (auto simp: demo_request_def demo_task_def)
qed

end
