(* ===== verification/Execution.thy ===== *)
theory Execution
  imports ExecutionGate
begin

text \<open>
  \<^verbatim>\<open>core/runner_vnext_execution.py\<close>: the lifecycle of a granted effect.  \<^verbatim>\<open>begin\<close> records the start in the
  ledger, the adapter's executor performs the effect, \<^verbatim>\<open>finalize\<close> checks the result against the grant,
  records the terminal receipt and gives the lease back.  The executor is third-party code: an
  argument that may raise, and that may act on both stores while it runs.  \<open>t\<close>, \<open>t2\<close> are readings of
  the lease clock.
\<close>

subsection \<open>Definitions\<close>

record green_result =
  er_operation_id :: string
  er_idempotency_key :: string
  er_adapter_id :: string
  er_target_state_ref :: string
  er_fence_token :: int
  er_resources :: "string list"
  er_effects :: "string list"
  er_outcome :: string
  er_reason_code :: string
  er_before_state_ref :: string
  er_after_state_ref :: string
  er_validation_status :: string
  er_rollback_requested :: bool

record green_started =
  gs_operation_id :: string
  gs_idempotency_key :: string
  gs_adapter_id :: string
  gs_fence_token :: int
  gs_planner_envelope_hash :: string
  gs_execution_grant_hash :: string
  gs_effect_execution_started :: bool

record green_exec_receipt =
  xr_task_id :: string
  xr_node_id :: string
  xr_lane :: string
  xr_lease_scope_key :: string
  xr_fence_token :: int
  xr_operation_id :: string
  xr_idempotency_key :: string
  xr_adapter_id :: string
  xr_planner_envelope_hash :: string
  xr_execution_grant_hash :: string
  xr_privacy :: string
  xr_terminal_status :: string
  xr_reason_code :: string
  xr_validation_status :: string
  xr_touched_resource_refs :: "string list"
  xr_before_state_ref :: string
  xr_after_state_ref :: string
  xr_rollback_required :: bool
  xr_lease_released :: bool
  xr_needs_recovery :: bool
  xr_effect_execution_started :: bool

definition grant_payload :: "green_grant \<Rightarrow> (string \<times> json) list" where
  "grant_payload g = [
     (''task_id'', JStr (gg_task_id g)),
     (''node_id'', JStr (gg_node_id g)),
     (''node_generation'', JInt (gg_node_generation g)),
     (''node_snapshot_hash'', JStr (gg_node_snapshot_hash g)),
     (''node_attestation_ref'', JStr (gg_node_attestation_ref g)),
     (''lane'', JStr (gg_lane g)),
     (''lease_scope_key'', JStr (gg_lease_scope_key g)),
     (''fence_token'', JInt (gg_fence_token g)),
     (''environment_policy_hash'', JStr (gg_environment_policy_hash g)),
     (''operation_id'', JStr (gg_operation_id g)),
     (''idempotency_key'', JStr (gg_idempotency_key g)),
     (''adapter_id'', JStr (gg_adapter_id g)),
     (''target_state_ref'', JStr (gg_target_state_ref g)),
     (''reservation_scope_hash'', JStr (gg_reservation_scope_hash g)),
     (''planner_envelope_hash'', JStr (gg_planner_envelope_hash g)),
     (''policy_reason_code'', JStr (gg_policy_reason_code g)),
     (''authorization_status'', JStr (gg_authorization_status g)),
     (''execution_authorized'', JBool (gg_execution_authorized g)),
     (''effect_execution_started'', JBool (gg_effect_execution_started g))]"

definition execution_grant_hash :: "green_grant \<Rightarrow> string" where
  "execution_grant_hash g = json_digest (JObj (grant_payload g))"

definition refs_hash :: "string list \<Rightarrow> string" where
  "refs_hash values = sha256_hex (render (jstrs (sort values)))"

definition validate_grant :: "green_grant \<Rightarrow> unit res" where
  "validate_grant g = (let e = gg_planner_envelope g in guards [
     (\<not> gg_execution_authorized g \<or> gg_effect_execution_started g,
        GreenExecutionError ''EXECUTION_FRESH_AUTHORIZED_GRANT_REQUIRED''),
     (gg_planner_envelope_hash g \<noteq> planner_envelope_hash e,
        GreenExecutionError ''EXECUTION_PLANNER_ENVELOPE_HASH_MISMATCH''),
     (ev_operation_id e \<noteq> gg_operation_id g \<or> ev_idempotency_key e \<noteq> gg_idempotency_key g,
        GreenExecutionError ''EXECUTION_GRANT_ENVELOPE_IDENTITY_MISMATCH''),
     (ev_adapter_id e \<noteq> gg_adapter_id g \<or> ev_target_state_ref e \<noteq> gg_target_state_ref g,
        GreenExecutionError ''EXECUTION_GRANT_ENVELOPE_BINDING_MISMATCH''),
     (ev_fence_token e \<noteq> gg_fence_token g, GreenExecutionError ''EXECUTION_GRANT_ENVELOPE_FENCE_MISMATCH''),
     (\<not> public_ref (gg_lease_scope_key g), GreenExecutionError ''EXECUTION_LEASE_SCOPE_INVALID'')])"

definition validate_started :: "green_grant \<Rightarrow> green_started \<Rightarrow> unit res" where
  "validate_started g st = guards [
     (\<not> gs_effect_execution_started st, GreenExecutionError ''EXECUTION_STARTED_MARKER_REQUIRED''),
     ((gs_operation_id st, gs_idempotency_key st, gs_adapter_id st, gs_fence_token st, gs_planner_envelope_hash st,
         gs_execution_grant_hash st) \<noteq>
       (gg_operation_id g, gg_idempotency_key g, gg_adapter_id g, gg_fence_token g, gg_planner_envelope_hash g,
         execution_grant_hash g),
        GreenExecutionError ''EXECUTION_STARTED_MARKER_MISMATCH'')]"

definition touched_ref :: "string list \<Rightarrow> string \<Rightarrow> unit res" where
  "touched_ref authorized ref = guards [
     (\<not> public_ref ref, GreenExecutionError ''EXECUTION_RESULT_TOUCHED_RESOURCE_MALFORMED''),
     (ref \<notin> set authorized, GreenExecutionError ''EXECUTION_RESULT_TOUCHED_RESOURCE_OUT_OF_SCOPE'')]"

definition validate_actual_touched_resources :: "green_result \<Rightarrow> string list \<Rightarrow> unit res" where
  "validate_actual_touched_resources r authorized =
     (let touched = er_resources r; state_changed = er_before_state_ref r \<noteq> er_after_state_ref r in
      rbind (raise_if (\<not> distinct touched) (GreenExecutionError ''EXECUTION_RESULT_TOUCHED_RESOURCES_DUPLICATE'')) (\<lambda>_.
      rbind (for_each (touched_ref authorized) touched) (\<lambda>_.
      if er_outcome r = ''SUCCEEDED'' then
        raise_if (touched = []) (GreenExecutionError ''EXECUTION_RESULT_TOUCHED_RESOURCES_REQUIRED'')
      else if er_outcome r = ''PARTIAL'' then
        raise_if (touched = []) (GreenExecutionError ''EXECUTION_RESULT_PARTIAL_TOUCHED_RESOURCES_REQUIRED'')
      else if touched \<noteq> [] then Inr ()
      else raise_if (state_changed \<or> er_rollback_requested r)
        (GreenExecutionError ''EXECUTION_RESULT_FAILED_MUTATION_REQUIRES_TOUCHED_RESOURCES''))))"

definition validate_result :: "green_grant \<Rightarrow> green_result \<Rightarrow> unit res" where
  "validate_result g r =
     rbind (guards [
       (er_outcome r \<notin> {''SUCCEEDED'', ''FAILED'', ''PARTIAL''}, GreenExecutionError ''EXECUTION_RESULT_OUTCOME_INVALID''),
       (er_validation_status r \<notin> {''PASS'', ''FAIL''}, GreenExecutionError ''EXECUTION_RESULT_VALIDATION_INVALID''),
       (er_reason_code r = [] \<or> list_ex (\<lambda>ch. ch \<notin> set upper_digits_underscore) (er_reason_code r),
          GreenExecutionError ''EXECUTION_RESULT_REASON_INVALID''),
       ((er_operation_id r, er_idempotency_key r, er_adapter_id r, er_target_state_ref r, er_fence_token r, er_effects r) \<noteq>
          (gg_operation_id g, gg_idempotency_key g, gg_adapter_id g, gg_target_state_ref g, gg_fence_token g,
           ev_effects (gg_planner_envelope g)),
          GreenExecutionError ''EXECUTION_RESULT_BINDING_MISMATCH_NEEDS_RECOVERY'')]) (\<lambda>_.
     rbind (validate_actual_touched_resources r (ev_resources (gg_planner_envelope g))) (\<lambda>_.
     check_all public_ref (GreenExecutionError ''EXECUTION_RESULT_PUBLIC_REF_REQUIRED'')
       [er_before_state_ref r, er_after_state_ref r]))"

definition grant_identity :: "green_grant \<Rightarrow> operation_identity" where
  "grant_identity g = \<lparr>op_operation_id = gg_operation_id g, op_idempotency_key = gg_idempotency_key g,
     op_target_state_ref = gg_target_state_ref g\<rparr>"

text \<open>\<^verbatim>\<open>_validate_authoritative_state\<close>: the ledger part, the start evidence, the lease part.\<close>

definition validate_start_evidence :: "green_grant \<Rightarrow> string option \<Rightarrow> ledger_event \<Rightarrow> operation_ledger \<Rightarrow> unit res" where
  "validate_start_evidence g grant_hash reservation s =
     rbind (reraise_as GreenExecutionError is_ledger_error (started_event (gg_idempotency_key g) s)) (\<lambda>started. guards [
       (se_identity started \<noteq> le_identity reservation \<or> se_fence_token started \<noteq> gg_fence_token g,
          GreenExecutionError ''EXECUTION_START_EVIDENCE_MISMATCH''),
       (grant_hash = None \<or> Some (se_execution_grant_hash started) \<noteq> grant_hash,
          GreenExecutionError ''EXECUTION_START_GRANT_HASH_MISMATCH''),
       (Some (se_reservation_scope_hash started) \<noteq> le_reservation_scope_hash reservation,
          GreenExecutionError ''EXECUTION_START_SCOPE_MISMATCH'')])"

definition validate_ledger_state :: "green_grant \<Rightarrow> string \<Rightarrow> string option \<Rightarrow> operation_ledger \<Rightarrow> unit res" where
  "validate_ledger_state g expected grant_hash s =
     (let k = gg_idempotency_key g; status = ledger_status k s in
      rbind (raise_if (status \<noteq> Some expected) (GreenExecutionError
        (if status = Some ''STARTED'' \<and> expected = ''RESERVED'' then ''EXECUTION_ALREADY_STARTED_NEEDS_RECOVERY''
         else ''EXECUTION_LEDGER_STATE_MISMATCH''))) (\<lambda>_.
      rbind (reraise_as GreenExecutionError is_ledger_error (reservation_event k s)) (\<lambda>reservation.
      rbind (reraise_as GreenExecutionError is_ledger_error (current_fence_token k s)) (\<lambda>current_fence.
      rbind (guards [
        (op_operation_id (le_identity reservation) \<noteq> gg_operation_id g \<or>
           op_target_state_ref (le_identity reservation) \<noteq> gg_target_state_ref g,
           GreenExecutionError ''EXECUTION_LEDGER_IDENTITY_MISMATCH''),
        (current_fence \<noteq> gg_fence_token g, GreenExecutionError ''EXECUTION_LEDGER_FENCE_MISMATCH''),
        (le_reservation_scope_hash reservation \<noteq> Some (reservation_scope_fingerprint (gg_planner_envelope g)),
           GreenExecutionError ''EXECUTION_LEDGER_SCOPE_MISMATCH'')]) (\<lambda>_.
      if expected = ''STARTED'' then validate_start_evidence g grant_hash reservation s else Inr ())))))"

definition validate_lease_state :: "real \<Rightarrow> green_grant \<Rightarrow> lane_store \<Rightarrow> unit res" where
  "validate_lease_state t g leases =
     (case lane_of (gg_lane g) of
        Inl e \<Rightarrow> Inl (GreenExecutionError ''EXECUTION_LANE_INVALID'')
      | Inr lane \<Rightarrow> (case scheduler_current t lane (gg_lease_scope_key g) leases of
          None \<Rightarrow> Inl (GreenExecutionError ''EXECUTION_LEASE_MISSING_OR_EXPIRED'')
        | Some lease \<Rightarrow> guards [
            (ll_task_id lease \<noteq> gg_task_id g \<or> ll_owner lease \<noteq> gg_node_id g,
               GreenExecutionError ''EXECUTION_LEASE_OWNER_MISMATCH''),
            (ll_fence_token lease \<noteq> gg_fence_token g, GreenExecutionError ''EXECUTION_LEASE_FENCE_MISMATCH''),
            (ll_target_state_ref lease \<noteq> Some (gg_target_state_ref g),
               GreenExecutionError ''EXECUTION_LEASE_TARGET_MISMATCH'')]))"

definition validate_authoritative_state ::
    "real \<Rightarrow> green_grant \<Rightarrow> string \<Rightarrow> string option \<Rightarrow> runner_state \<Rightarrow> unit res" where
  "validate_authoritative_state t g expected grant_hash rs =
     rbind (validate_ledger_state g expected grant_hash (rs_ledger rs)) (\<lambda>_. validate_lease_state t g (rs_leases rs))"

definition exec_begin :: "real \<Rightarrow> green_grant \<Rightarrow> (runner_state, green_started) op" where
  "exec_begin t g rs =
     guarded (rbind (validate_grant g) (\<lambda>_. validate_authoritative_state t g ''RESERVED'' None rs)) (\<lambda>_.
       sbind (sreraise GreenExecutionError is_ledger_error
           (on_ledger (ledger_mark_started (grant_identity g) (gg_fence_token g) (execution_grant_hash g)))) (\<lambda>_ rs.
       (Inr \<lparr>gs_operation_id = gg_operation_id g, gs_idempotency_key = gg_idempotency_key g, gs_adapter_id = gg_adapter_id g,
          gs_fence_token = gg_fence_token g, gs_planner_envelope_hash = gg_planner_envelope_hash g,
          gs_execution_grant_hash = execution_grant_hash g, gs_effect_execution_started = True\<rparr>, rs))) rs"

text \<open>\<^verbatim>\<open>_release_exact_lease\<close>: True, or False on a LeaseError.\<close>

definition release_exact_lease :: "real \<Rightarrow> green_grant \<Rightarrow> (runner_state, bool) op" where
  "release_exact_lease t g =
     guarded (lane_of (gg_lane g)) (\<lambda>lane rs.
       case on_leases (scheduler_release_exact t lane (gg_lease_scope_key g) (gg_node_id g) (gg_fence_token g)) rs of
         (Inr v, rs') \<Rightarrow> (Inr True, rs')
       | (Inl e, rs') \<Rightarrow> ((if is_lease_error e then Inr False else Inl e), rs'))"

definition finalize_checks :: "real \<Rightarrow> green_grant \<Rightarrow> green_started \<Rightarrow> green_result \<Rightarrow> runner_state \<Rightarrow> unit res" where
  "finalize_checks t g st r rs =
     rbind (validate_started g st) (\<lambda>_.
     rbind (validate_authoritative_state t g ''STARTED'' (Some (gs_execution_grant_hash st)) rs) (\<lambda>_.
     rbind (validate_result g r) (\<lambda>_.
     guards [
       (er_outcome r = ''SUCCEEDED'' \<and> er_validation_status r \<noteq> ''PASS'',
          GreenExecutionError ''EXECUTION_SUCCESS_REQUIRES_VALIDATION_PASS''),
       (er_outcome r \<noteq> ''SUCCEEDED'' \<and> er_validation_status r \<noteq> ''FAIL'',
          GreenExecutionError ''EXECUTION_FAILURE_REQUIRES_VALIDATION_FAIL'')])))"

definition rollback_required :: "green_result \<Rightarrow> bool" where
  "rollback_required r \<longleftrightarrow> er_outcome r \<noteq> ''SUCCEEDED'' \<and>
     (er_rollback_requested r \<or> er_before_state_ref r \<noteq> er_after_state_ref r \<or> er_outcome r = ''PARTIAL'')"

definition mk_exec_receipt :: "green_grant \<Rightarrow> green_started \<Rightarrow> green_result \<Rightarrow> bool \<Rightarrow> green_exec_receipt" where
  "mk_exec_receipt g st r lease_released =
     \<lparr>xr_task_id = gg_task_id g, xr_node_id = gg_node_id g, xr_lane = gg_lane g,
      xr_lease_scope_key = gg_lease_scope_key g, xr_fence_token = gg_fence_token g, xr_operation_id = gg_operation_id g,
      xr_idempotency_key = gg_idempotency_key g, xr_adapter_id = gg_adapter_id g,
      xr_planner_envelope_hash = gg_planner_envelope_hash g, xr_execution_grant_hash = gs_execution_grant_hash st,
      xr_privacy = privacy_value (ev_privacy (gg_planner_envelope g)),
      xr_terminal_status = (if er_outcome r = ''SUCCEEDED'' then ''COMPLETED'' else ''FAILED''),
      xr_reason_code = er_reason_code r, xr_validation_status = er_validation_status r,
      xr_touched_resource_refs = er_resources r, xr_before_state_ref = er_before_state_ref r,
      xr_after_state_ref = er_after_state_ref r, xr_rollback_required = rollback_required r,
      xr_lease_released = lease_released, xr_needs_recovery = (rollback_required r \<or> \<not> lease_released),
      xr_effect_execution_started = True\<rparr>"

definition exec_finalize ::
    "real \<Rightarrow> real \<Rightarrow> green_grant \<Rightarrow> green_started \<Rightarrow> green_result \<Rightarrow> (runner_state, green_exec_receipt) op" where
  "exec_finalize t t2 g st r rs =
     guarded (finalize_checks t g st r rs) (\<lambda>_.
       sbind (sreraise GreenExecutionError is_ledger_error
           (on_ledger (ledger_finish (grant_identity g) (gg_fence_token g) (er_outcome r = ''SUCCEEDED'') (er_reason_code r)
             (er_resources r) (er_before_state_ref r) (er_after_state_ref r) (er_validation_status r)))) (\<lambda>_.
       sbind (release_exact_lease t2 g) (\<lambda>lease_released rs.
         (Inr (mk_exec_receipt g st r lease_released), rs)))) rs"

type_synonym green_executor = "green_grant \<Rightarrow> (runner_state, green_result) op"

definition exec_run :: "real \<Rightarrow> real \<Rightarrow> real \<Rightarrow> green_executor \<Rightarrow> green_grant \<Rightarrow> (runner_state, green_exec_receipt) op" where
  "exec_run t0 t t2 executor g =
     sbind (exec_begin t0 g) (\<lambda>started rs.
       case executor g rs of
         (Inl e, rs') \<Rightarrow> (Inl (GreenExecutionError ''EXECUTION_ADAPTER_EXCEPTION_NEEDS_RECOVERY''), rs')
       | (Inr r, rs') \<Rightarrow> exec_finalize t t2 g started r rs')"

definition exec_public_projection :: "green_exec_receipt \<Rightarrow> json" where
  "exec_public_projection x = JObj ([
     (''schema'', JStr ''skeleton.runner_green_execution_receipt.v1''),
     (''task_id_hash'', JStr (text_hash (xr_task_id x))),
     (''operation_id_hash'', JStr (text_hash (xr_operation_id x))),
     (''idempotency_key_hash'', JStr (text_hash (xr_idempotency_key x))),
     (''node_id'', JStr (xr_node_id x)),
     (''lane'', JStr (xr_lane x)),
     (''fence_token'', JInt (xr_fence_token x)),
     (''adapter_id'', JStr (xr_adapter_id x)),
     (''planner_envelope_hash'', JStr (xr_planner_envelope_hash x)),
     (''execution_grant_hash'', JStr (xr_execution_grant_hash x)),
     (''privacy'', JStr (xr_privacy x)),
     (''terminal_status'', JStr (xr_terminal_status x)),
     (''reason_code'', JStr (xr_reason_code x)),
     (''validation_status'', JStr (xr_validation_status x)),
     (''touched_resource_count'', JInt (int (length (xr_touched_resource_refs x)))),
     (''touched_resource_hash'', JStr (refs_hash (xr_touched_resource_refs x))),
     (''before_state_ref_hash'', JStr (text_hash (xr_before_state_ref x))),
     (''after_state_ref_hash'', JStr (text_hash (xr_after_state_ref x))),
     (''state_changed'', JBool (xr_before_state_ref x \<noteq> xr_after_state_ref x)),
     (''rollback_required'', JBool (xr_rollback_required x)),
     (''lease_released'', JBool (xr_lease_released x)),
     (''needs_recovery'', JBool (xr_needs_recovery x)),
     (''effect_execution_started'', JBool (xr_effect_execution_started x))] @
    (if xr_privacy x = ''PUBLIC_SAFE'' then [
       (''task_id'', JStr (xr_task_id x)),
       (''operation_id'', JStr (xr_operation_id x)),
       (''idempotency_key'', JStr (xr_idempotency_key x)),
       (''touched_resource_refs'', jstrs (xr_touched_resource_refs x)),
       (''before_state_ref'', JStr (xr_before_state_ref x)),
       (''after_state_ref'', JStr (xr_after_state_ref x))] else []))"

subsection \<open>The checks in terms of the ledger entry\<close>

text \<open>The entry of the granted operation, open or started.\<close>

definition granted_entry :: "green_grant \<Rightarrow> op_entry \<Rightarrow> bool" where
  "granted_entry g x \<longleftrightarrow> en_identity x = grant_identity g \<and> en_fence x = gg_fence_token g \<and>
     en_scope x = Some (reservation_scope_fingerprint (gg_planner_envelope g)) \<and> en_receipt x = None"

definition lease_for :: "real \<Rightarrow> lane \<Rightarrow> green_grant \<Rightarrow> lane_store \<Rightarrow> bool" where
  "lease_for t lane g leases \<longleftrightarrow> gg_lane g = lane_value lane \<and>
     (\<exists>l. lease_current t lane (gg_lease_scope_key g) leases = Some l \<and> ll_task_id l = gg_task_id g \<and>
       ll_owner l = gg_node_id g \<and> ll_fence_token l = gg_fence_token g \<and> ll_target_state_ref l = Some (gg_target_state_ref g))"

lemma validate_lease_state_Inr: "validate_lease_state t g leases = Inr () \<longleftrightarrow> (\<exists>lane. lease_for t lane g leases)"
proof (cases "lane_of (gg_lane g)")
  case (Inl e)
  have "gg_lane g \<noteq> lane_value lane" for lane using Inl lane_of_value [of lane] by auto
  then show ?thesis using Inl by (simp add: validate_lease_state_def lease_for_def)
next
  case (Inr lane)
  then have "gg_lane g = lane_value l \<longleftrightarrow> l = lane" for l using lane_of_Inr by (metis lane_value_inject)
  then show ?thesis
    using Inr by (auto simp: validate_lease_state_def lease_for_def scheduler_current_def split: option.splits)
qed

lemma status_open:
  assumes ok: "ledger_ok s" and x: "ledger_entry s k = Some x"
  shows "ledger_status k s = Some ''RESERVED'' \<longleftrightarrow> en_grant x = None \<and> en_receipt x = None"
    and "ledger_status k s = Some ''STARTED'' \<longleftrightarrow> en_grant x \<noteq> None \<and> en_receipt x = None"
  using ledger_status_entry [OF ok, of k] x receipt_terminal [OF ok x]
  by (auto simp: entry_status_def split: option.splits)

lemma entry_rows:
  assumes ok: "ledger_ok s" and x: "ledger_entry s k = Some x"
  obtains row where "ledger_reservation k s = Some row" "le_identity (fst row) = en_identity x"
    "op_idempotency_key (en_identity x) = k" "current_fence_token k s = Inr (en_fence x)"
    "le_reservation_scope_hash (fst row) = en_scope x"
    "en_grant x = map_option se_execution_grant_hash (ledger_start k s)"
    "\<forall>st. ledger_start k s = Some st \<longrightarrow> se_identity st = en_identity x \<and> se_fence_token st = en_fence x \<and>
       Some (se_reservation_scope_hash st) = en_scope x"
proof -
  from x obtain row where row: "ledger_reservation k s = Some row"
    by (cases "ledger_reservation k s") (auto simp: ledger_entry_def)
  obtain l where l: "ledger_latest k s = Inr l" using ok_present [OF ok row] by metis
  note en = entry_Some [OF ok row l, unfolded x]
  have "op_idempotency_key (le_identity (fst row)) = k"
    using reservation_SomeD [OF row] by (simp add: le_key_def)
  moreover have f: "current_fence_token k s = Inr (le_fence_token (fst l))" by (rule current_fence_latest [OF l])
  moreover have "\<forall>st. ledger_start k s = Some st \<longrightarrow> se_identity st = le_identity (fst row) \<and>
       se_fence_token st = le_fence_token (fst l) \<and> Some (se_reservation_scope_hash st) = le_reservation_scope_hash (fst row)"
    using ok_started [OF ok row] f by fastforce
  ultimately show thesis
    using en by (intro that [OF row]) simp_all
qed

lemma grant_identity_iff:
  "i = grant_identity g \<longleftrightarrow> op_operation_id i = gg_operation_id g \<and> op_idempotency_key i = gg_idempotency_key g \<and>
     op_target_state_ref i = gg_target_state_ref g"
  by (cases i) (auto simp: grant_identity_def)

lemma grant_key [simp]: "op_idempotency_key (grant_identity g) = gg_idempotency_key g"
  by (simp add: grant_identity_def)

lemma reservation_event_Inr: "reservation_event k s = Inr r \<longleftrightarrow> (\<exists>b. ledger_reservation k s = Some (r, b))"
  by (auto simp: reservation_event_def event_of_def split: option.splits)

lemma validate_reserved:
  assumes ok: "ledger_ok s"
  shows "validate_ledger_state g ''RESERVED'' h s = Inr () \<longleftrightarrow>
    (\<exists>x. ledger_entry s (gg_idempotency_key g) = Some x \<and> granted_entry g x \<and> en_grant x = None)"
proof (cases "ledger_entry s (gg_idempotency_key g)")
  case None
  then show ?thesis
    using ledger_status_entry [OF ok, of "gg_idempotency_key g"] by (simp add: validate_ledger_state_def Let_def)
next
  case (Some x)
  from entry_rows [OF ok Some] obtain row where row: "ledger_reservation (gg_idempotency_key g) s = Some row"
      "le_identity (fst row) = en_identity x" "op_idempotency_key (en_identity x) = gg_idempotency_key g"
      "current_fence_token (gg_idempotency_key g) s = Inr (en_fence x)" "le_reservation_scope_hash (fst row) = en_scope x"
    by metis
  then have "reservation_event (gg_idempotency_key g) s = Inr (fst row)"
    by (simp add: reservation_event_def event_of_def)
  then show ?thesis
    using row Some status_open [OF ok Some]
    by (simp add: validate_ledger_state_def Let_def granted_entry_def grant_identity_iff) blast
qed

lemma validate_started_state:
  assumes ok: "ledger_ok s"
  shows "validate_ledger_state g ''STARTED'' (Some h) s = Inr () \<longleftrightarrow>
    (\<exists>x. ledger_entry s (gg_idempotency_key g) = Some x \<and> granted_entry g x \<and> en_grant x = Some h)"
proof (cases "ledger_entry s (gg_idempotency_key g)")
  case None
  then show ?thesis
    using ledger_status_entry [OF ok, of "gg_idempotency_key g"] by (simp add: validate_ledger_state_def Let_def)
next
  case (Some x)
  from entry_rows [OF ok Some] obtain row where row: "ledger_reservation (gg_idempotency_key g) s = Some row"
      "le_identity (fst row) = en_identity x" "op_idempotency_key (en_identity x) = gg_idempotency_key g"
      "current_fence_token (gg_idempotency_key g) s = Inr (en_fence x)" "le_reservation_scope_hash (fst row) = en_scope x"
      "en_grant x = map_option se_execution_grant_hash (ledger_start (gg_idempotency_key g) s)"
      "\<forall>st. ledger_start (gg_idempotency_key g) s = Some st \<longrightarrow> se_identity st = en_identity x \<and>
        se_fence_token st = en_fence x \<and> Some (se_reservation_scope_hash st) = en_scope x"
    by metis
  then have r: "reservation_event (gg_idempotency_key g) s = Inr (fst row)"
    by (simp add: reservation_event_def event_of_def)
  show ?thesis
  proof (cases "ledger_start (gg_idempotency_key g) s")
    case None
    then show ?thesis
      using row Some status_open [OF ok Some] by (simp add: validate_ledger_state_def Let_def)
  next
    case (Some st)
    note x = \<open>ledger_entry s (gg_idempotency_key g) = Some x\<close>
    from Some show ?thesis
      using row x status_open [OF ok x] r
      by (simp add: validate_ledger_state_def validate_start_evidence_def Let_def granted_entry_def grant_identity_iff
          started_event_def start_evidence_of_def) blast
  qed
qed

lemma on_ledger_mark_Inr:
  "on_ledger f rs = (Inr v, rs') \<longleftrightarrow> (\<exists>l. f (rs_ledger rs) = (Inr v, l) \<and> rs' = rs\<lparr>rs_ledger := l\<rparr>)"
  by (auto simp: on_ledger_def split: prod.splits)

lemma on_ledger_Inl_same:
  "(\<And>l. f (rs_ledger rs) = (Inl e, l) \<Longrightarrow> l = rs_ledger rs) \<Longrightarrow> on_ledger f rs = (Inl e, rs') \<Longrightarrow> rs' = rs"
  by (auto simp: on_ledger_def split: prod.splits)

subsection \<open>Starting\<close>

lemma mark_started_Inr:
  assumes ok: "ledger_ok s" and run: "ledger_mark_started i f h s = (Inr v, s')"
  shows "\<exists>x. ledger_entry s (op_idempotency_key i) = Some x \<and> en_identity x = i \<and> en_fence x = f \<and>
    ledger_entry s' = (ledger_entry s)(op_idempotency_key i \<mapsto> x\<lparr>en_grant := Some h\<rparr>)"
  using ok
proof (cases rule: exec_cases [of s "MarkStarted i f h"])
  case (served v s' en)
  then show ?thesis
    using run by (auto simp: reply_def known_entry_def call_identity_def split: option.splits if_splits)
qed (use run in \<open>auto simp: reply_def\<close>)

lemma begin_InrD:
  assumes reach: "ledger_reachable (rs_ledger rs)" and run: "exec_begin t g rs = (Inr st, rs')"
  shows "validate_grant g = Inr ()"
    and "\<exists>lane. lease_for t lane g (rs_leases rs)"
    and "rs_leases rs' = rs_leases rs" "ledger_reachable (rs_ledger rs')"
    and "\<exists>x. ledger_entry (rs_ledger rs) (gg_idempotency_key g) = Some x \<and> granted_entry g x \<and> en_grant x = None \<and>
      ledger_entry (rs_ledger rs') = (ledger_entry (rs_ledger rs))(gg_idempotency_key g \<mapsto>
        x\<lparr>en_grant := Some (execution_grant_hash g)\<rparr>)"
    and "validate_started g st = Inr ()" "gs_execution_grant_hash st = execution_grant_hash g"
proof -
  note ok = ledger_reachable_ok [OF reach]
  from run obtain v l where v: "validate_grant g = Inr ()" "validate_authoritative_state t g ''RESERVED'' None rs = Inr ()"
      and m: "ledger_mark_started (grant_identity g) (gg_fence_token g) (execution_grant_hash g) (rs_ledger rs) = (Inr v, l)"
      and rs': "rs' = rs\<lparr>rs_ledger := l\<rparr>"
      and st: "st = \<lparr>gs_operation_id = gg_operation_id g, gs_idempotency_key = gg_idempotency_key g,
          gs_adapter_id = gg_adapter_id g, gs_fence_token = gg_fence_token g,
          gs_planner_envelope_hash = gg_planner_envelope_hash g,
          gs_execution_grant_hash = execution_grant_hash g, gs_effect_execution_started = True\<rparr>"
    by (auto simp: exec_begin_def guarded_Inr_iff sbind_Inr_iff on_ledger_mark_Inr)
  show "validate_grant g = Inr ()" by (rule v(1))
  show "validate_started g st = Inr ()" "gs_execution_grant_hash st = execution_grant_hash g"
    by (simp_all add: st validate_started_def)
  show "\<exists>lane. lease_for t lane g (rs_leases rs)"
    using v(2) by (simp add: validate_authoritative_state_def validate_lease_state_Inr)
  show "rs_leases rs' = rs_leases rs" using rs' by simp
  show "ledger_reachable (rs_ledger rs')"
    using ledger_reachable_ops(3) [OF reach, of "grant_identity g" "gg_fence_token g" "execution_grant_hash g"] m rs' by simp
  from v(2) obtain x where "ledger_entry (rs_ledger rs) (gg_idempotency_key g) = Some x" "granted_entry g x" "en_grant x = None"
    by (auto simp: validate_authoritative_state_def validate_reserved [OF ok])
  with mark_started_Inr [OF ok m] rs' show "\<exists>x. ledger_entry (rs_ledger rs) (gg_idempotency_key g) = Some x \<and>
      granted_entry g x \<and> en_grant x = None \<and> ledger_entry (rs_ledger rs') =
        (ledger_entry (rs_ledger rs))(gg_idempotency_key g \<mapsto> x\<lparr>en_grant := Some (execution_grant_hash g)\<rparr>)"
    by (auto simp: grant_identity_def)
qed

lemma begin_abort: "exec_begin t g rs = (Inl e, rs') \<Longrightarrow> rs' = rs"
  unfolding exec_begin_def guarded_Inl_iff sbind_Inl_iff
  by (auto dest!: sreraise_Inl intro: on_ledger_Inl_same dest: ledger_aborts(3))

lemma begin_needs_unstarted:
  assumes "ledger_ok (rs_ledger rs)" "ledger_entry (rs_ledger rs) (gg_idempotency_key g) = Some x" "en_grant x \<noteq> None"
  shows "\<exists>e. exec_begin t g rs = (Inl e, rs)"
proof -
  have "validate_ledger_state g ''RESERVED'' None (rs_ledger rs) \<noteq> Inr ()"
    using assms by (simp add: validate_reserved)
  then obtain e where "validate_ledger_state g ''RESERVED'' None (rs_ledger rs) = Inl e"
    by (cases "validate_ledger_state g ''RESERVED'' None (rs_ledger rs)") auto
  then show ?thesis
    by (cases "validate_grant g") (simp_all add: exec_begin_def validate_authoritative_state_def)
qed

subsection \<open>Finishing\<close>

lemma release_exact_outcome:
  assumes "gg_lane g = lane_value lane"
  obtains (released) rs' where "release_exact_lease t g rs = (Inr True, rs')" "rs_ledger rs' = rs_ledger rs"
      "rs_leases rs' = (rs_leases rs)\<lparr>lane_leases := (lane_leases (rs_leases rs))((lane, gg_lease_scope_key g) := None)\<rparr>"
      "\<exists>l. lease_held t lane (gg_lease_scope_key g) (gg_node_id g) (gg_fence_token g) (rs_leases rs) = Inr l"
  | (kept) e where "release_exact_lease t g rs = (Inr False, rs)"
      "lease_held t lane (gg_lease_scope_key g) (gg_node_id g) (gg_fence_token g) (rs_leases rs) = Inl e"
proof (cases "lease_held t lane (gg_lease_scope_key g) (gg_node_id g) (gg_fence_token g) (rs_leases rs)")
  case (Inl e)
  have "\<exists>r. e = LeaseError r"
    using Inl by (auto simp: lease_held_def split: option.splits if_splits)
  then have "release_exact_lease t g rs = (Inr False, rs)"
    using Inl assms by (auto simp: release_exact_lease_def on_leases_def scheduler_release_exact_def release_cases)
  then show thesis using kept Inl by blast
next
  case (Inr l)
  then have r: "release_exact_lease t g rs = (Inr True, rs\<lparr>rs_leases := (rs_leases rs)\<lparr>lane_leases :=
      (lane_leases (rs_leases rs))((lane, gg_lease_scope_key g) := None)\<rparr>\<rparr>)"
    using assms by (simp add: release_exact_lease_def on_leases_def scheduler_release_exact_def release_cases)
  show thesis by (rule released [OF r]) (use Inr in simp_all)
qed

abbreviation result_receipt :: "green_grant \<Rightarrow> green_result \<Rightarrow> terminal_receipt" where
  "result_receipt g r \<equiv> \<lparr>tr_fence = gg_fence_token g,
     tr_type = (if er_outcome r = ''SUCCEEDED'' then COMPLETED else FAILED), tr_reason = er_reason_code r,
     tr_touched = er_resources r, tr_before = Some (er_before_state_ref r), tr_after = Some (er_after_state_ref r),
     tr_validation = Some (er_validation_status r)\<rparr>"

lemma finish_Inr:
  assumes ok: "ledger_ok s" and run: "ledger_finish i f ok' r tc b a st s = (Inr v, s')"
    and x: "ledger_entry s (op_idempotency_key i) = Some x" "en_receipt x = None"
  shows "ledger_entry s' = (ledger_entry s)(op_idempotency_key i \<mapsto>
    x\<lparr>en_receipt := call_receipt (Finish i f ok' r tc b a st)\<rparr>)"
  using ok
proof (cases rule: exec_cases [of s "Finish i f ok' r tc b a st"])
  case (served v s' en)
  then show ?thesis
    using run x by (auto simp: reply_def known_entry_def call_identity_def split: option.splits if_splits)
qed (use run in \<open>auto simp: reply_def\<close>)

text \<open>What the checks of \<^verbatim>\<open>finalize\<close> establish.\<close>

definition result_accepted :: "green_grant \<Rightarrow> green_result \<Rightarrow> bool" where
  "result_accepted g r \<longleftrightarrow> validate_result g r = Inr () \<and>
     er_validation_status r = (if er_outcome r = ''SUCCEEDED'' then ''PASS'' else ''FAIL'')"

lemma result_acceptedD:
  assumes "result_accepted g r"
  shows "er_operation_id r = gg_operation_id g" "er_idempotency_key r = gg_idempotency_key g"
    "er_fence_token r = gg_fence_token g" "er_target_state_ref r = gg_target_state_ref g"
    "er_effects r = ev_effects (gg_planner_envelope g)" "distinct (er_resources r)"
    "set (er_resources r) \<subseteq> set (ev_resources (gg_planner_envelope g))"
    "\<forall>ref\<in>set (er_resources r). public_ref ref" "public_ref (er_before_state_ref r)" "public_ref (er_after_state_ref r)"
    "er_outcome r \<in> {''SUCCEEDED'', ''FAILED'', ''PARTIAL''}"
    "er_resources r = [] \<longrightarrow> er_outcome r = ''FAILED'' \<and> er_before_state_ref r = er_after_state_ref r \<and> \<not> er_rollback_requested r"
  using assms
  by (auto simp: result_accepted_def validate_result_def validate_actual_touched_resources_def Let_def touched_ref_def
      split: if_splits)

lemma finalize_checks_Inr:
  assumes ok: "ledger_ok (rs_ledger rs)"
  shows "finalize_checks t g st r rs = Inr () \<longleftrightarrow> validate_started g st = Inr () \<and> result_accepted g r \<and>
    (\<exists>lane. lease_for t lane g (rs_leases rs)) \<and>
    (\<exists>x. ledger_entry (rs_ledger rs) (gg_idempotency_key g) = Some x \<and> granted_entry g x \<and>
      en_grant x = Some (execution_grant_hash g))"
proof -
  have st: "validate_started g st = Inr () \<Longrightarrow> gs_execution_grant_hash st = execution_grant_hash g"
    by (simp add: validate_started_def)
  have "(validate_result g r = Inr () \<and> \<not> (er_outcome r = ''SUCCEEDED'' \<and> er_validation_status r \<noteq> ''PASS'') \<and>
     \<not> (er_outcome r \<noteq> ''SUCCEEDED'' \<and> er_validation_status r \<noteq> ''FAIL'')) = result_accepted g r"
    by (auto simp: result_accepted_def)
  then show ?thesis
    using st by (auto simp: finalize_checks_def validate_authoritative_state_def validate_started_state [OF ok]
        validate_lease_state_Inr)
qed

lemma finalize_InrD:
  assumes reach: "ledger_reachable (rs_ledger rs)" and run: "exec_finalize t t2 g st r rs = (Inr out, rs')"
  shows "validate_started g st = Inr ()" "result_accepted g r"
    and "\<exists>x. ledger_entry (rs_ledger rs) (gg_idempotency_key g) = Some x \<and> granted_entry g x \<and>
      en_grant x = Some (execution_grant_hash g) \<and> ledger_entry (rs_ledger rs') =
        (ledger_entry (rs_ledger rs))(gg_idempotency_key g \<mapsto> x\<lparr>en_receipt := Some (result_receipt g r)\<rparr>)"
    and "\<exists>lane b. lease_for t lane g (rs_leases rs) \<and> out = mk_exec_receipt g st r b \<and>
      (b \<longrightarrow> lane_leases (rs_leases rs') (lane, gg_lease_scope_key g) = None) \<and>
      (\<not> b \<longrightarrow> rs_leases rs' = rs_leases rs) \<and>
      (b \<longleftrightarrow> (\<exists>l. lease_held t2 lane (gg_lease_scope_key g) (gg_node_id g) (gg_fence_token g) (rs_leases rs) = Inr l))"
    and "ledger_reachable (rs_ledger rs')"
proof -
  note ok = ledger_reachable_ok [OF reach]
  from run obtain v l b where c: "finalize_checks t g st r rs = Inr ()"
    and f: "ledger_finish (grant_identity g) (gg_fence_token g) (er_outcome r = ''SUCCEEDED'') (er_reason_code r)
       (er_resources r) (er_before_state_ref r) (er_after_state_ref r) (er_validation_status r) (rs_ledger rs) = (Inr v, l)"
    and rel: "release_exact_lease t2 g (rs\<lparr>rs_ledger := l\<rparr>) = (Inr b, rs')" and out: "out = mk_exec_receipt g st r b"
    by (auto simp: exec_finalize_def guarded_Inr_iff sbind_Inr_iff on_ledger_mark_Inr)
  note checks = c [unfolded finalize_checks_Inr [OF ok]]
  show "validate_started g st = Inr ()" "result_accepted g r" using checks by auto
  obtain lane where lane: "lease_for t lane g (rs_leases rs)" using checks by auto
  then have gl: "gg_lane g = lane_value lane" by (simp add: lease_for_def)
  from checks obtain x where x: "ledger_entry (rs_ledger rs) (gg_idempotency_key g) = Some x" "granted_entry g x"
      "en_grant x = Some (execution_grant_hash g)" by auto
  have "ledger_entry l = (ledger_entry (rs_ledger rs))(gg_idempotency_key g \<mapsto> x\<lparr>en_receipt := Some (result_receipt g r)\<rparr>)"
    using finish_Inr [OF ok f, unfolded grant_key, OF x(1)] x(2)
    by (simp add: granted_entry_def call_receipt_def terminal_type_def)
  moreover have "rs_ledger rs' = l \<and> (b \<longrightarrow> lane_leases (rs_leases rs') (lane, gg_lease_scope_key g) = None) \<and>
      (\<not> b \<longrightarrow> rs_leases rs' = rs_leases rs) \<and>
      (b \<longleftrightarrow> (\<exists>l. lease_held t2 lane (gg_lease_scope_key g) (gg_node_id g) (gg_fence_token g) (rs_leases rs) = Inr l))"
    using rel by (cases rule: release_exact_outcome [OF gl, of t2 "rs\<lparr>rs_ledger := l\<rparr>"]) auto
  moreover have "ledger_reachable l"
    using ledger_reachable_ops(4) [OF reach, of "grant_identity g" "gg_fence_token g" "er_outcome r = ''SUCCEEDED''"
      "er_reason_code r" "er_resources r" "er_before_state_ref r" "er_after_state_ref r" "er_validation_status r"] f by simp
  ultimately show "\<exists>x. ledger_entry (rs_ledger rs) (gg_idempotency_key g) = Some x \<and> granted_entry g x \<and>
      en_grant x = Some (execution_grant_hash g) \<and> ledger_entry (rs_ledger rs') =
        (ledger_entry (rs_ledger rs))(gg_idempotency_key g \<mapsto> x\<lparr>en_receipt := Some (result_receipt g r)\<rparr>)"
    and "\<exists>lane b. lease_for t lane g (rs_leases rs) \<and> out = mk_exec_receipt g st r b \<and>
      (b \<longrightarrow> lane_leases (rs_leases rs') (lane, gg_lease_scope_key g) = None) \<and> (\<not> b \<longrightarrow> rs_leases rs' = rs_leases rs) \<and>
      (b \<longleftrightarrow> (\<exists>l. lease_held t2 lane (gg_lease_scope_key g) (gg_node_id g) (gg_fence_token g) (rs_leases rs) = Inr l))"
    and "ledger_reachable (rs_ledger rs')"
    using x lane out by blast+
qed

subsection \<open>Running\<close>

text \<open>An executor that acts on the ledger only through the ledger's own calls.\<close>

definition via_ledger :: "green_executor \<Rightarrow> bool" where
  "via_ledger executor \<longleftrightarrow> (\<forall>g rs. \<exists>cs. rs_ledger (snd (executor g rs)) = snd (run_ops ledger_exec cs (rs_ledger rs)))"

lemma via_ledgerD:
  assumes "via_ledger executor" "executor g rs = (r, rs')" "ledger_reachable (rs_ledger rs)"
    "ledger_entry (rs_ledger rs) k = Some x"
  shows "ledger_reachable (rs_ledger rs')" "\<exists>y. ledger_entry (rs_ledger rs') k = Some y \<and> evolves x y"
proof -
  obtain cs where cs: "rs_ledger rs' = snd (run_ops ledger_exec cs (rs_ledger rs))"
    using assms(1,2) by (metis snd_conv via_ledger_def)
  show "ledger_reachable (rs_ledger rs')" using ledger_run_reachable [OF assms(3)] cs by simp
  show "\<exists>y. ledger_entry (rs_ledger rs') k = Some y \<and> evolves x y"
    using run_evolves [OF ledger_reachable_ok [OF assms(3)] assms(4), of cs] cs by simp
qed

lemma finalize_abort_ledger:
  assumes "gg_lane g = lane_value lane" "exec_finalize t t2 g st r rs = (Inl e, rs')"
  shows "rs' = rs"
proof -
  have "finalize_checks t g st r rs = Inl e \<and> rs' = rs \<or>
    (\<exists>e'. on_ledger (ledger_finish (grant_identity g) (gg_fence_token g) (er_outcome r = ''SUCCEEDED'') (er_reason_code r)
       (er_resources r) (er_before_state_ref r) (er_after_state_ref r) (er_validation_status r)) rs = (Inl e', rs')) \<or>
    (\<exists>rs1. release_exact_lease t2 g rs1 = (Inl e, rs'))"
    using assms(2) unfolding exec_finalize_def guarded_Inl_iff sbind_Inl_iff by (auto dest!: sreraise_Inl)
  moreover have "release_exact_lease t2 g rs1 \<noteq> (Inl e, rs')" for rs1
    by (cases rule: release_exact_outcome [OF assms(1), of t2 rs1]) auto
  ultimately show ?thesis
    by (auto intro: on_ledger_Inl_same dest: ledger_aborts(4))
qed

lemma validate_grantD:
  "validate_grant g = Inr () \<Longrightarrow> gg_execution_authorized g \<and> \<not> gg_effect_execution_started g \<and>
     ev_idempotency_key (gg_planner_envelope g) = gg_idempotency_key g \<and> ev_operation_id (gg_planner_envelope g) = gg_operation_id g \<and>
     ev_fence_token (gg_planner_envelope g) = gg_fence_token g"
  by (simp add: validate_grant_def Let_def)

lemma run_InrD:
  assumes "exec_run t0 t t2 executor g rs = (Inr out, rs')"
  shows "\<exists>st rs1 r rs2. exec_begin t0 g rs = (Inr st, rs1) \<and> executor g rs1 = (Inr r, rs2) \<and>
    exec_finalize t t2 g st r rs2 = (Inr out, rs')"
proof -
  from assms obtain st rs1 where b: "exec_begin t0 g rs = (Inr st, rs1)"
    by (auto simp: exec_run_def sbind_Inr_iff)
  then show ?thesis
    using assms by (cases "executor g rs1"; cases "fst (executor g rs1)") (auto simp: exec_run_def)
qed

lemma run_finished:
  assumes "ledger_reachable (rs_ledger rs)" "via_ledger executor" "exec_run t0 t t2 executor g rs = (Inr out, rs')"
  obtains x y st r rel where "ledger_entry (rs_ledger rs) (gg_idempotency_key g) = Some x" "granted_entry g x" "en_grant x = None"
    "granted_entry g y" "en_grant y = Some (execution_grant_hash g)"
    "ledger_entry (rs_ledger rs') (gg_idempotency_key g) = Some (y\<lparr>en_receipt := Some (result_receipt g r)\<rparr>)"
    "result_accepted g r" "out = mk_exec_receipt g st r rel" "gs_execution_grant_hash st = execution_grant_hash g"
    "ledger_reachable (rs_ledger rs')"
proof -
  from assms(3) obtain st rs1 r rs2 where b: "exec_begin t0 g rs = (Inr st, rs1)" and ex: "executor g rs1 = (Inr r, rs2)"
      and f: "exec_finalize t t2 g st r rs2 = (Inr out, rs')"
    using run_InrD by blast
  note begun = begin_InrD [OF assms(1) b]
  from begun(5) obtain x where x: "ledger_entry (rs_ledger rs) (gg_idempotency_key g) = Some x" "granted_entry g x"
      "en_grant x = None" "ledger_entry (rs_ledger rs1) (gg_idempotency_key g) = Some (x\<lparr>en_grant := Some (execution_grant_hash g)\<rparr>)"
    by force
  note fin = finalize_InrD [OF via_ledgerD(1) [OF assms(2) ex begun(4) x(4)] f]
  from fin(3) obtain y where y: "granted_entry g y" "en_grant y = Some (execution_grant_hash g)"
      "ledger_entry (rs_ledger rs') (gg_idempotency_key g) = Some (y\<lparr>en_receipt := Some (result_receipt g r)\<rparr>)"
    by force
  from fin(4) obtain rel where out: "out = mk_exec_receipt g st r rel" by blast
  show thesis by (rule that [OF x(1,2,3) y(1,2,3) fin(2) out begun(7) fin(5)])
qed

subsection \<open>Progress\<close>

lemma grant_hash_is_hash: "is_hash (execution_grant_hash g)"
  using json_digest_chars by (auto simp: is_hash_def execution_grant_hash_def list_all_iff)

lemma public_ledger_ref: "public_ref r \<Longrightarrow> ledger_ref_ok r"
  by (simp add: public_ref_def ledger_ref_ok_def)

lemma begin_progress:
  assumes ok: "ledger_ok (rs_ledger rs)" and v: "validate_grant g = Inr ()" and l: "lease_for t lane g (rs_leases rs)"
    and x: "ledger_entry (rs_ledger rs) (gg_idempotency_key g) = Some x" "granted_entry g x" "en_grant x = None"
  shows "\<exists>st rs'. exec_begin t g rs = (Inr st, rs')"
proof -
  let ?c = "MarkStarted (grant_identity g) (gg_fence_token g) (execution_grant_hash g)"
  have "1 \<le> gg_fence_token g" using ledger_entry_fence [OF ok x(1)] x(2) by (simp add: granted_entry_def)
  then have c: "call_check ?c = Inr ()"
    by (simp add: ledger_fence_check_def ledger_scope_hash_def grant_hash_is_hash)
  have e: "entry_step ?c (ledger_entry (rs_ledger rs) (call_key ?c)) = Inr (x\<lparr>en_grant := Some (execution_grant_hash g)\<rparr>)"
    using x by (simp add: known_entry_def granted_entry_def call_identity_def)
  have "\<exists>v l. ledger_mark_started (grant_identity g) (gg_fence_token g) (execution_grant_hash g) (rs_ledger rs) = (Inr v, l)"
    using mark_started_cases [OF ok c] e by (simp add: call_identity_def Let_def del: entry_step.simps)
  moreover have "validate_authoritative_state t g ''RESERVED'' None rs = Inr ()"
    using validate_reserved [OF ok] x l by (auto simp: validate_authoritative_state_def validate_lease_state_Inr)
  ultimately show ?thesis
    using v by (auto simp: exec_begin_def on_ledger_def sbind_def sreraise_def)
qed

lemma finalize_progress:
  assumes ok: "ledger_ok (rs_ledger rs)" and st: "validate_started g st = Inr ()" and r: "result_accepted g r"
    and l: "lease_for t lane g (rs_leases rs)"
    and x: "ledger_entry (rs_ledger rs) (gg_idempotency_key g) = Some x" "granted_entry g x"
      "en_grant x = Some (execution_grant_hash g)"
  shows "\<exists>out rs'. exec_finalize t t2 g st r rs = (Inr out, rs')"
proof -
  let ?s = "er_outcome r = ''SUCCEEDED''"
  have f: "en_fence x = gg_fence_token g" "en_identity x = grant_identity g" "en_receipt x = None"
    using x(2) by (simp_all add: granted_entry_def)
  have "1 \<le> gg_fence_token g" using ledger_entry_fence [OF ok x(1)] f by simp
  moreover have "ledger_reason (er_reason_code r) = Inr ()"
    using r by (auto simp: result_accepted_def validate_result_def ledger_reason_def)
  ultimately have c: "call_check (Finish (grant_identity g) (en_fence x) ?s (er_reason_code r) (er_resources r)
      (er_before_state_ref r) (er_after_state_ref r) (er_validation_status r)) = Inr ()"
    using result_acceptedD(8-10) [OF r] r f(1) public_ledger_ref
    by (auto simp: ledger_fence_check_def ledger_public_refs_def result_accepted_def)
  obtain v s' where "ledger_finish (grant_identity g) (gg_fence_token g) ?s (er_reason_code r) (er_resources r)
      (er_before_state_ref r) (er_after_state_ref r) (er_validation_status r) (rs_ledger rs) = (Inr v, s')"
    using finish_open [OF ok, of "grant_identity g", unfolded grant_key, OF x(1) f(2,3) c] f(1) by auto
  moreover have "\<exists>b rs2. release_exact_lease t2 g rs1 = (Inr b, rs2)" for rs1
  proof -
    have gl: "gg_lane g = lane_value lane" using l by (simp add: lease_for_def)
    show ?thesis by (cases rule: release_exact_outcome [OF gl, of t2 rs1]) auto
  qed
  moreover have "finalize_checks t g st r rs = Inr ()"
    unfolding finalize_checks_Inr [OF ok] using st r l x by blast
  ultimately show ?thesis
    by (simp add: exec_finalize_def on_ledger_def sbind_def sreraise_def) (metis (no_types, lifting) case_prod_conv sum.case(2))
qed

text \<open>The gate's evidence is what \<^verbatim>\<open>begin\<close> asks for, when the handoff is one that \<^verbatim>\<open>prepare\<close> made.\<close>

lemma granted_startable:
  assumes reach: "ledger_reachable (rs_ledger rs)" and prep: "prepare frepr nodes envs planner q t1 t2 rs = (Inr h, rs')"
    and g: "gate_grant frepr nodes envs current_ref t now h rs' = Inr g" and scope: "public_ref (pq_lease_scope_key q)"
  shows "validate_grant g = Inr ()"
    and "\<exists>x. ledger_entry (rs_ledger rs') (gg_idempotency_key g) = Some x \<and> granted_entry g x \<and> en_grant x = None"
    and "lease_for t1 (pq_lane q) g (rs_leases rs')"
proof -
  note s = prepare_success [OF reach prep] and v = prepared_envelope_valid [OF reach prep] and d = grant_InrD [OF g]
  show "validate_grant g = Inr ()"
    using d(8) v(3) s(1,6) scope by (simp add: validate_grant_def Let_def handoff_backed_def)
  show "\<exists>x. ledger_entry (rs_ledger rs') (gg_idempotency_key g) = Some x \<and> granted_entry g x \<and> en_grant x = None"
    using d(8) s(1) by (auto simp: handoff_backed_def reserved_for_def granted_entry_def grant_identity_def)
  show "lease_for t1 (pq_lane q) g (rs_leases rs')"
    using d(8) s(1,6) by (auto simp: lease_for_def handoff_backed_def)
qed

lemma granted_run_completes:
  assumes reach: "ledger_reachable (rs_ledger rs)" and prep: "prepare frepr nodes envs planner q t1 t2 rs = (Inr h, rs')"
    and g: "gate_grant frepr nodes envs current_ref t now h rs' = Inr g" and scope: "public_ref (pq_lease_scope_key q)"
    and live: "\<forall>u\<in>{u0, u1, u2}. lease_current u (pq_lane q) (pq_lease_scope_key q) (rs_leases rs') \<noteq> None"
    and ex: "\<And>rs. \<exists>r. executor g rs = (Inr r, rs) \<and> result_accepted g r \<and> er_outcome r = ''SUCCEEDED''"
  shows "\<exists>out rs''. exec_run u0 u1 u2 executor g rs' = (Inr out, rs'') \<and> xr_terminal_status out = ''COMPLETED'' \<and>
    xr_lease_released out \<and> \<not> xr_needs_recovery out \<and>
    ledger_status (gh_idempotency_key h) (rs_ledger rs'') = Some ''COMPLETED'' \<and>
    lane_leases (rs_leases rs'') (pq_lane q, pq_lease_scope_key q) = None"
proof -
  note s = granted_startable [OF reach prep g scope] and prep = prepare_success [OF reach prep]
  have sc: "gg_lease_scope_key g = pq_lease_scope_key q" "gg_idempotency_key g = gh_idempotency_key h"
    using grant_InrD(8) [OF g] prep(6) by simp_all
  obtain l where l: "lane_leases (rs_leases rs') (pq_lane q, pq_lease_scope_key q) = Some l"
    and lf: "lease_for u (pq_lane q) g (rs_leases rs')" "lease_held u (pq_lane q) (pq_lease_scope_key q) (gg_node_id g)
        (gg_fence_token g) (rs_leases rs') = Inr l" if "u \<in> {u0, u1, u2}" for u
    using s(3) live sc by (fastforce simp: lease_for_def lease_held_Inr dest: lease_current_row)
  obtain x where x: "ledger_entry (rs_ledger rs') (gg_idempotency_key g) = Some x" "granted_entry g x" "en_grant x = None"
    using s(2) by blast
  obtain st rs1 where b: "exec_begin u0 g rs' = (Inr st, rs1)"
    using begin_progress [OF ledger_reachable_ok [OF prep(2)] s(1) lf(1) [of u0] x] by blast
  note begun = begin_InrD [OF prep(2) b]
  obtain r where r: "executor g rs1 = (Inr r, rs1)" "result_accepted g r" "er_outcome r = ''SUCCEEDED''"
    using ex by blast
  obtain y where y: "ledger_entry (rs_ledger rs1) (gg_idempotency_key g) = Some y" "granted_entry g y"
      "en_grant y = Some (execution_grant_hash g)"
    using begun(5) by (force simp: granted_entry_def)
  have "lease_for u1 (pq_lane q) g (rs_leases rs1)" using lf(1) [of u1] begun(3) by simp
  then obtain out rs'' where f: "exec_finalize u1 u2 g st r rs1 = (Inr out, rs'')"
    using finalize_progress [OF ledger_reachable_ok [OF begun(4)] begun(6) r(2) _ y] by blast
  note fin = finalize_InrD [OF begun(4) f]
  from fin(3) obtain z where z: "ledger_entry (rs_ledger rs'') (gg_idempotency_key g) = Some z"
      "en_receipt z = Some (result_receipt g r)" by force
  have "ledger_status (gh_idempotency_key h) (rs_ledger rs'') = Some ''COMPLETED''"
    using ledger_status_entry [OF ledger_reachable_ok [OF fin(5)], of "gg_idempotency_key g"] z r(3) sc
    by (simp add: entry_status_def)
  moreover have "out = mk_exec_receipt g st r True \<and> lane_leases (rs_leases rs'') (pq_lane q, pq_lease_scope_key q) = None"
  proof -
    have gl: "gg_lane g = lane_value (pq_lane q)" using s(3) by (simp add: lease_for_def)
    then have "lane = pq_lane q" if "lease_for u1 lane g (rs_leases rs1)" for lane
      using that by (simp add: lease_for_def)
    then show ?thesis using fin(4) lf(2) [of u2] begun(3) sc by auto
  qed
  ultimately show ?thesis
    using b r f by (auto simp: exec_run_def mk_exec_receipt_def rollback_required_def)
qed

subsection \<open>Properties\<close>

text \<open>
  C29. The effect of an operation is started at most once, for ever: after a successful \<^verbatim>\<open>begin\<close>, whatever
  calls the ledger serves next, every later \<^verbatim>\<open>begin\<close> for that idempotency key, with any grant, at any
  time and with any leases, fails and changes nothing.
\<close>

theorem effect_starts_once:
  assumes "ledger_reachable (rs_ledger rs)" "exec_begin t g rs = (Inr st, rs')"
    and "rs_ledger rs'' = snd (run_ops ledger_exec cs (rs_ledger rs'))" "gg_idempotency_key g' = gg_idempotency_key g"
  shows "\<exists>e. exec_begin t' g' rs'' = (Inl e, rs'')"
proof -
  note b = begin_InrD [OF assms(1,2)]
  from b(5) obtain x where x: "ledger_entry (rs_ledger rs') (gg_idempotency_key g) = Some x"
      "en_grant x = Some (execution_grant_hash g)" by force
  obtain y where y: "ledger_entry (rs_ledger rs'') (gg_idempotency_key g) = Some y" "evolves x y"
    using run_evolves [OF ledger_reachable_ok [OF b(4)] x(1), of cs] assms(3) by auto
  then have "en_grant y \<noteq> None" using x(2) by (auto simp: evolves_def)
  moreover have "ledger_ok (rs_ledger rs'')"
    using ledger_reachable_ok [OF ledger_run_reachable [OF b(4)]] assms(3) by simp
  ultimately show ?thesis using begin_needs_unstarted y(1) assms(4) by metis
qed

text \<open>
  C30. A run whose executor uses the ledger only through its calls and that returns a receipt leaves the
  receipt's facts in the ledger: the entry was open and unstarted before, and is now finished with
  exactly the result's fence, reason, touched resources, states and validation; the touched resources
  are distinct and inside the authorised ones; COMPLETED means SUCCEEDED with validation PASS and at
  least one touched resource; and a failed run that needs no recovery changed no state.
\<close>

theorem run_receipt_recorded:
  assumes "ledger_reachable (rs_ledger rs)" "via_ledger executor" "exec_run t0 t t2 executor g rs = (Inr out, rs')"
  shows "\<exists>x y r. ledger_entry (rs_ledger rs) (gg_idempotency_key g) = Some x \<and> en_grant x = None \<and> en_receipt x = None \<and>
    en_fence x = xr_fence_token out \<and>
    ledger_entry (rs_ledger rs') (gg_idempotency_key g) = Some y \<and> en_grant y = Some (execution_grant_hash g) \<and>
    en_receipt y = Some r \<and> tr_fence r = xr_fence_token out \<and> event_type_text (tr_type r) = xr_terminal_status out \<and>
    tr_reason r = xr_reason_code out \<and> tr_touched r = xr_touched_resource_refs out \<and>
    tr_before r = Some (xr_before_state_ref out) \<and> tr_after r = Some (xr_after_state_ref out) \<and>
    tr_validation r = Some (xr_validation_status out) \<and> xr_execution_grant_hash out = execution_grant_hash g \<and>
    distinct (xr_touched_resource_refs out) \<and>
    set (xr_touched_resource_refs out) \<subseteq> set (ev_resources (gg_planner_envelope g)) \<and>
    (if xr_terminal_status out = ''COMPLETED'' then xr_validation_status out = ''PASS'' \<and> xr_touched_resource_refs out \<noteq> []
     else xr_validation_status out = ''FAIL'' \<and>
       (\<not> xr_needs_recovery out \<longrightarrow> xr_before_state_ref out = xr_after_state_ref out \<and> xr_lease_released out))"
proof -
  obtain x y st r rel where "ledger_entry (rs_ledger rs) (gg_idempotency_key g) = Some x" "granted_entry g x" "en_grant x = None"
      "granted_entry g y" "en_grant y = Some (execution_grant_hash g)"
      "ledger_entry (rs_ledger rs') (gg_idempotency_key g) = Some (y\<lparr>en_receipt := Some (result_receipt g r)\<rparr>)"
      and r: "result_accepted g r" and "out = mk_exec_receipt g st r rel" "gs_execution_grant_hash st = execution_grant_hash g"
    by (rule run_finished [OF assms])
  then show ?thesis
    using result_acceptedD [OF r]
    by (auto simp: mk_exec_receipt_def granted_entry_def rollback_required_def result_accepted_def)
qed

text \<open>
  C31. A run that raises is never silent.  Either nothing was started and both stores are as before, or
  the ledger holds the start evidence of this very grant, the operation can never be started again
  (every later \<^verbatim>\<open>begin\<close> fails), and if it was the adapter that raised the error says so.
\<close>

theorem run_failure_visible:
  assumes "ledger_reachable (rs_ledger rs)" "via_ledger executor" "exec_run t0 t t2 executor g rs = (Inl e, rs')"
  shows "(\<exists>e'. exec_begin t0 g rs = (Inl e', rs)) \<and> rs' = rs \<or>
    (\<exists>y. ledger_entry (rs_ledger rs') (gg_idempotency_key g) = Some y \<and> en_grant y = Some (execution_grant_hash g) \<and>
       en_fence y = gg_fence_token g) \<and>
    (\<exists>e'. exec_begin t' g rs' = (Inl e', rs')) \<and>
    (\<exists>st rs1 r rs2. exec_begin t0 g rs = (Inr st, rs1) \<and> executor g rs1 = (r, rs2) \<and>
       (case r of Inl _ \<Rightarrow> e = GreenExecutionError ''EXECUTION_ADAPTER_EXCEPTION_NEEDS_RECOVERY'' \<and> rs' = rs2
        | Inr res \<Rightarrow> exec_finalize t t2 g st res rs2 = (Inl e, rs2) \<and> rs' = rs2))"
proof (cases "exec_begin t0 g rs")
  case (Pair b rs1)
  show ?thesis
  proof (cases b)
    case (Inl e')
    then have "exec_begin t0 g rs = (Inl e', rs1)" "rs1 = rs" using Pair begin_abort by auto
    then show ?thesis using assms(3) by (simp add: exec_run_def)
  next
    case (Inr st)
    then have b: "exec_begin t0 g rs = (Inr st, rs1)" using Pair by simp
    note begun = begin_InrD [OF assms(1) b]
    from begun(5) obtain x where x: "granted_entry g x"
        "ledger_entry (rs_ledger rs1) (gg_idempotency_key g) = Some (x\<lparr>en_grant := Some (execution_grant_hash g)\<rparr>)"
      by force
    obtain r rs2 where ex: "executor g rs1 = (r, rs2)" by (cases "executor g rs1")
    note via = via_ledgerD [OF assms(2) ex begun(4) x(2)]
    from via(2) obtain y where y: "ledger_entry (rs_ledger rs2) (gg_idempotency_key g) = Some y"
        "en_grant y = Some (execution_grant_hash g)" "en_fence y = gg_fence_token g"
      using x(1) by (auto simp: evolves_def granted_entry_def)
    have out: "case r of Inl _ \<Rightarrow> e = GreenExecutionError ''EXECUTION_ADAPTER_EXCEPTION_NEEDS_RECOVERY'' \<and> rs' = rs2
        | Inr res \<Rightarrow> exec_finalize t t2 g st res rs2 = (Inl e, rs')"
      using assms(3) b ex by (auto simp: exec_run_def split: sum.splits)
    have lane: "\<exists>lane. gg_lane g = lane_value lane" using begun(2) by (auto simp: lease_for_def)
    then have "rs' = rs2" using out finalize_abort_ledger by (cases r) auto
    then show ?thesis
      using out y b ex begin_needs_unstarted [OF ledger_reachable_ok [OF via(1)] y(1)] by (auto split: sum.splits)
  qed
qed

text \<open>
  Confidentiality of receipts: for an operation that is not PUBLIC_SAFE the public projection is
  determined by the public fields and by digests.  Two receipts with the same digests of task,
  operation, key, touched resources and states project to the same JSON, so the clear texts do not
  occur in it.
\<close>

theorem projection_redacts:
  assumes "xr_privacy a \<noteq> ''PUBLIC_SAFE''"
    and "b = a\<lparr>xr_task_id := tid, xr_operation_id := oid, xr_idempotency_key := key, xr_lease_scope_key := scope,
      xr_touched_resource_refs := refs, xr_before_state_ref := before, xr_after_state_ref := after\<rparr>"
    and "text_hash tid = text_hash (xr_task_id a)" "text_hash oid = text_hash (xr_operation_id a)"
    "text_hash key = text_hash (xr_idempotency_key a)" "text_hash before = text_hash (xr_before_state_ref a)"
    "text_hash after = text_hash (xr_after_state_ref a)" "refs_hash refs = refs_hash (xr_touched_resource_refs a)"
    "length refs = length (xr_touched_resource_refs a)" "(before = after) = (xr_before_state_ref a = xr_after_state_ref a)"
  shows "exec_public_projection b = exec_public_projection a"
  using assms by (simp add: exec_public_projection_def)

text \<open>
  The GREEN path runs to completion: a handoff that \<^verbatim>\<open>prepare\<close> returned, with a lease scope in the form
  the execution lifecycle accepts, is granted by the gate, and if the lease is still live at the three
  clock readings and the executor answers with an acceptable successful result and leaves the stores
  alone, the run returns a COMPLETED receipt that needs no recovery; the ledger then says COMPLETED and
  the lease is free.
\<close>

theorem prepared_run_completes:
  assumes "registry_ok nodes" "ledger_reachable (rs_ledger rs)" "prepare frepr nodes envs planner q t1 t2 rs = (Inr h, rs')"
    and "current_ref h = ev_target_state_ref (gh_envelope h)" "public_ref (pq_lease_scope_key q)"
    and "\<forall>u\<in>{u0, u1, u2}. lease_current u (pq_lane q) (pq_lease_scope_key q) (rs_leases rs') \<noteq> None"
    and "\<And>g rs. gg_planner_envelope g = gh_envelope h \<Longrightarrow>
      \<exists>r. executor g rs = (Inr r, rs) \<and> result_accepted g r \<and> er_outcome r = ''SUCCEEDED''"
  shows "\<exists>g out rs''. gate_grant frepr nodes envs current_ref t1 (pq_now q) h rs' = Inr g \<and>
    exec_run u0 u1 u2 executor g rs' = (Inr out, rs'') \<and> xr_terminal_status out = ''COMPLETED'' \<and>
    xr_lease_released out \<and> \<not> xr_needs_recovery out \<and>
    ledger_status (gh_idempotency_key h) (rs_ledger rs'') = Some ''COMPLETED'' \<and>
    lane_leases (rs_leases rs'') (pq_lane q, pq_lease_scope_key q) = None"
proof -
  obtain g where g: "gate_grant frepr nodes envs current_ref t1 (pq_now q) h rs' = Inr g" "gg_planner_envelope g = gh_envelope h"
    using prepared_gate [where current_ref = current_ref, OF assms(1-4) prepared_lease_current [OF assms(2,3)]] by blast
  from granted_run_completes [where executor = executor, OF assms(2,3) g(1) assms(5,6) assms(7) [OF g(2)]] g(1) show ?thesis by blast
qed

subsection \<open>Witnesses\<close>

definition demo_result :: "green_grant \<Rightarrow> green_result" where
  "demo_result g = \<lparr>er_operation_id = gg_operation_id g, er_idempotency_key = gg_idempotency_key g,
     er_adapter_id = gg_adapter_id g, er_target_state_ref = gg_target_state_ref g, er_fence_token = gg_fence_token g,
     er_resources = ev_resources (gg_planner_envelope g), er_effects = ev_effects (gg_planner_envelope g),
     er_outcome = ''SUCCEEDED'', er_reason_code = ''OK'', er_before_state_ref = ''state:a'', er_after_state_ref = ''state:b'',
     er_validation_status = ''PASS'', er_rollback_requested = False\<rparr>"

definition demo_executor :: green_executor where
  "demo_executor g rs = (Inr (demo_result g), rs)"

definition broken_executor :: green_executor where
  "broken_executor g rs = (Inl (OtherException ''RuntimeError''), rs)"

lemma demo_public_refs: "public_ref ''repo:x''" "public_ref ''state:a''" "public_ref ''state:b''"
    "list_all (\<lambda>ch. ch \<in> set upper_digits_underscore) ''OK''"
  by code_simp+

lemma demo_result_accepted: "gg_planner_envelope g = demo_envelope \<Longrightarrow> result_accepted g (demo_result g)"
  using demo_public_refs
  by (simp add: result_accepted_def validate_result_def demo_result_def demo_envelope_def
      validate_actual_touched_resources_def touched_ref_def Let_def)

lemma demo_via_ledger: "via_ledger demo_executor" "via_ledger broken_executor"
proof -
  have "\<exists>cs. rs_ledger rs = snd (run_ops ledger_exec cs (rs_ledger rs))" for rs :: runner_state
    by (rule exI [of _ "[]"]) simp
  then show "via_ledger demo_executor" "via_ledger broken_executor"
    by (simp_all add: via_ledger_def demo_executor_def broken_executor_def)
qed

lemma demo_started:
  "\<exists>g rs st rs'. ledger_reachable (rs_ledger rs) \<and> exec_begin 0 g rs = (Inr st, rs') \<and> gg_planner_envelope g = demo_envelope \<and>
     lease_for 0 CODEGEN g (rs_leases rs)"
proof -
  obtain h g rs' where p: "prepare demo_repr demo_nodes demo_env_registry demo_planner demo_request 0 1 empty_runner = (Inr h, rs')"
      and g: "gate_grant demo_repr demo_nodes demo_env_registry demo_state_ref 0 10 h rs' = Inr g"
      and env: "gg_planner_envelope g = demo_envelope" and reach: "ledger_reachable (rs_ledger rs')"
    using demo_grant_exists by blast
  have sc: "public_ref (pq_lease_scope_key demo_request)" "pq_lane demo_request = CODEGEN"
    using demo_public_refs by (simp_all add: demo_request_def)
  note s = granted_startable [OF empty_runner_reachable(1) p g sc(1)]
  obtain st rs2 where "exec_begin 0 g rs' = (Inr st, rs2)"
    using begin_progress [OF ledger_reachable_ok [OF reach] s(1,3)] s(2) by blast
  then show ?thesis using reach env s(3) sc(2) by auto
qed

theorem effect_starts_once_witness:
  "\<exists>g rs st rs'. exec_begin 0 g rs = (Inr st, rs') \<and> (\<exists>e. exec_begin 0 g rs' = (Inl e, rs'))"
proof -
  obtain g rs st rs' where b: "ledger_reachable (rs_ledger rs)" "exec_begin 0 g rs = (Inr st, rs')"
    using demo_started by blast
  have "rs_ledger rs' = snd (run_ops ledger_exec [] (rs_ledger rs'))" by simp
  from effect_starts_once [OF b this refl] b show ?thesis by blast
qed

theorem run_failure_visible_witness:
  "\<exists>g rs rs'. exec_run 0 0 0 broken_executor g rs =
      (Inl (GreenExecutionError ''EXECUTION_ADAPTER_EXCEPTION_NEEDS_RECOVERY''), rs') \<and>
     (\<exists>e. exec_begin 1 g rs' = (Inl e, rs'))"
proof -
  obtain g rs st rs' where b: "ledger_reachable (rs_ledger rs)" "exec_begin 0 g rs = (Inr st, rs')"
    using demo_started by blast
  then have r: "exec_run 0 0 0 broken_executor g rs =
      (Inl (GreenExecutionError ''EXECUTION_ADAPTER_EXCEPTION_NEEDS_RECOVERY''), rs')"
    by (simp add: exec_run_def broken_executor_def)
  from run_failure_visible [OF b(1) demo_via_ledger(2) r, of 1] b(2) r show ?thesis by auto
qed

theorem prepared_run_completes_witness:
  "\<exists>g out rs' rs''. exec_run 0 0 0 demo_executor g rs' = (Inr out, rs'') \<and> xr_terminal_status out = ''COMPLETED''"
proof -
  obtain h rs' where p: "prepare demo_repr demo_nodes demo_env_registry demo_planner demo_request 0 1 empty_runner = (Inr h, rs')"
      and env: "gh_envelope h = demo_envelope"
    using demo_grant_exists by blast
  have r: "demo_state_ref h = ev_target_state_ref (gh_envelope h)" by (simp add: env demo_state_ref_def demo_envelope_def)
  have sc: "public_ref (pq_lease_scope_key demo_request)" using demo_public_refs by (simp add: demo_request_def)
  have l: "\<forall>u\<in>{0, 0, 0}. lease_current u (pq_lane demo_request) (pq_lease_scope_key demo_request) (rs_leases rs') \<noteq> None"
    using prepared_lease_current [OF empty_runner_reachable(1) p] by simp
  have ex: "\<exists>r. demo_executor g rs = (Inr r, rs) \<and> result_accepted g r \<and> er_outcome r = ''SUCCEEDED''"
    if "gg_planner_envelope g = gh_envelope h" for g rs
    using that env demo_result_accepted [of g] by (simp add: demo_executor_def) (simp add: demo_result_def)
  from prepared_run_completes [where current_ref = demo_state_ref and executor = demo_executor,
      OF demo_nodes_ok empty_runner_reachable(1) p r sc l ex]
  show ?thesis by blast
qed

theorem run_receipt_recorded_witness:
  "\<exists>g rs out rs'. exec_run 0 0 0 demo_executor g rs = (Inr out, rs') \<and>
     set (xr_touched_resource_refs out) \<subseteq> set (ev_resources (gg_planner_envelope g))"
proof -
  obtain g rs st rs1 where b: "ledger_reachable (rs_ledger rs)" "exec_begin 0 g rs = (Inr st, rs1)"
      "gg_planner_envelope g = demo_envelope" "lease_for 0 CODEGEN g (rs_leases rs)"
    using demo_started by blast
  note begun = begin_InrD [OF b(1,2)]
  have l: "lease_for 0 CODEGEN g (rs_leases rs1)" using b(4) begun(3) by simp
  obtain x where x: "ledger_entry (rs_ledger rs1) (gg_idempotency_key g) = Some x" "granted_entry g x"
      "en_grant x = Some (execution_grant_hash g)"
    using begun(5) by (force simp: granted_entry_def)
  obtain out rs' where "exec_finalize 0 0 g st (demo_result g) rs1 = (Inr out, rs')"
    using finalize_progress [OF ledger_reachable_ok [OF begun(4)] begun(6) demo_result_accepted [OF b(3)] l x] by blast
  then have r: "exec_run 0 0 0 demo_executor g rs = (Inr out, rs')"
    using b(2) by (simp add: exec_run_def demo_executor_def)
  from run_receipt_recorded [OF b(1) demo_via_ledger(1) r] r show ?thesis by blast
qed

definition demo_exec_receipt :: green_exec_receipt where
  "demo_exec_receipt = \<lparr>xr_task_id = ''task:1'', xr_node_id = ''node:a'', xr_lane = ''codegen'', xr_lease_scope_key = ''repo:x'',
     xr_fence_token = 1, xr_operation_id = ''op:1'', xr_idempotency_key = ''idem:1'', xr_adapter_id = ''adapter:git'',
     xr_planner_envelope_hash = demo_hash, xr_execution_grant_hash = demo_hash, xr_privacy = ''PRIVATE'',
     xr_terminal_status = ''COMPLETED'', xr_reason_code = ''OK'', xr_validation_status = ''PASS'',
     xr_touched_resource_refs = [''repo:x'', ''repo:y''], xr_before_state_ref = ''state:a'', xr_after_state_ref = ''state:b'',
     xr_rollback_required = False, xr_lease_released = True, xr_needs_recovery = False, xr_effect_execution_started = True\<rparr>"

theorem projection_redacts_witness:
  "exec_public_projection (demo_exec_receipt\<lparr>xr_lease_scope_key := ''repo:secret'',
     xr_touched_resource_refs := [''repo:y'', ''repo:x'']\<rparr>) = exec_public_projection demo_exec_receipt"
proof -
  have "refs_hash [''repo:y'', ''repo:x''] = refs_hash [''repo:x'', ''repo:y'']"
    by (simp add: refs_hash_def insort_key_def)
  then show ?thesis
    by (intro projection_redacts [where tid = "''task:1''" and oid = "''op:1''" and key = "''idem:1''" and scope = "''repo:secret''"
        and refs = "[''repo:y'', ''repo:x'']" and before = "''state:a''" and after = "''state:b''"])
      (simp_all add: demo_exec_receipt_def)
qed

end
