(* ===== verification/Reconciliation.thy ===== *)
theory Reconciliation
  imports Execution
begin

text \<open>
  \<^verbatim>\<open>core/runner_vnext_reconciliation.py\<close>: an operation that was started and whose outcome is unknown is
  resolved from probed and verified evidence, never by running the effect again.  The probe and the
  verifier are injected code: the probe may raise and may act on the stores, the verifier may be
  missing, may refuse and may raise.
\<close>

subsection \<open>Definitions\<close>

record outcome_evidence =
  oe_operation_id :: string
  oe_idempotency_key :: string
  oe_adapter_id :: string
  oe_target_state_ref :: string
  oe_fence_token :: int
  oe_execution_grant_hash :: string
  oe_resources :: "string list"
  oe_effects :: "string list"
  oe_outcome :: string
  oe_reason_code :: string
  oe_before_state_ref :: string
  oe_after_state_ref :: string
  oe_validation_status :: string
  oe_evidence_refs :: "string list"
  oe_fresh :: bool
  oe_rollback_requested :: bool

record rollback_request =
  rb_rollback_operation_id :: string
  rb_rollback_idempotency_key :: string
  rb_original_operation_id :: string
  rb_original_idempotency_key :: string
  rb_adapter_id :: string
  rb_fence_token :: int
  rb_resources :: "string list"
  rb_original_effects :: "string list"
  rb_target_before_state_ref :: string
  rb_current_after_state_ref :: string
  rb_reason_code :: string
  rb_execution_authorized :: bool

record recon_receipt =
  rc_status :: string
  rc_reason_code :: string
  rc_task_id :: string
  rc_node_id :: string
  rc_lane :: string
  rc_operation_id :: string
  rc_idempotency_key :: string
  rc_adapter_id :: string
  rc_fence_token :: int
  rc_privacy :: string
  rc_execution_grant_hash :: string
  rc_outcome :: string
  rc_validation_status :: "string option"
  rc_touched_resource_refs :: "string list"
  rc_before_state_ref :: "string option"
  rc_after_state_ref :: "string option"
  rc_rollback_required :: bool
  rc_rollback_request :: "rollback_request option"
  rc_lease_released :: bool
  rc_needs_recovery :: bool

definition require_started :: "green_grant \<Rightarrow> operation_ledger \<Rightarrow> execution_start_evidence res" where
  "require_started g s =
     (let k = gg_idempotency_key g in
      rbind (raise_if (ledger_status k s \<noteq> Some ''STARTED'') (ReconciliationError ''RECONCILIATION_STARTED_LEDGER_REQUIRED'')) (\<lambda>_.
      rbind (reraise_as ReconciliationError is_ledger_error (started_event k s)) (\<lambda>start.
      rbind (reraise_as ReconciliationError is_ledger_error (reservation_event k s)) (\<lambda>reservation.
      rbind (reraise_as ReconciliationError is_ledger_error (current_fence_token k s)) (\<lambda>current_fence.
      rbind (guards [
        (se_identity start \<noteq> grant_identity g \<or> le_identity reservation \<noteq> grant_identity g,
           ReconciliationError ''RECONCILIATION_LEDGER_IDENTITY_MISMATCH''),
        (se_fence_token start \<noteq> gg_fence_token g \<or> current_fence \<noteq> gg_fence_token g,
           ReconciliationError ''RECONCILIATION_LEDGER_FENCE_MISMATCH''),
        (se_execution_grant_hash start \<noteq> execution_grant_hash g,
           ReconciliationError ''RECONCILIATION_GRANT_HASH_MISMATCH''),
        (Some (se_reservation_scope_hash start) \<noteq> le_reservation_scope_hash reservation,
           ReconciliationError ''RECONCILIATION_SCOPE_HASH_MISMATCH'')]) (\<lambda>_.
      Inr start))))))"

definition recon_pending :: "green_grant \<Rightarrow> string \<Rightarrow> operation_ledger \<Rightarrow> recon_receipt res" where
  "recon_pending g reason s =
     rbind (require_started g s) (\<lambda>start.
       Inr \<lparr>rc_status = ''NEEDS_RECOVERY'', rc_reason_code = reason, rc_task_id = gg_task_id g, rc_node_id = gg_node_id g,
         rc_lane = gg_lane g, rc_operation_id = gg_operation_id g, rc_idempotency_key = gg_idempotency_key g,
         rc_adapter_id = gg_adapter_id g, rc_fence_token = gg_fence_token g,
         rc_privacy = privacy_value (ev_privacy (gg_planner_envelope g)),
         rc_execution_grant_hash = se_execution_grant_hash start, rc_outcome = ''UNKNOWN'', rc_validation_status = None,
         rc_touched_resource_refs = [], rc_before_state_ref = None, rc_after_state_ref = None, rc_rollback_required = False,
         rc_rollback_request = None, rc_lease_released = False, rc_needs_recovery = True\<rparr>)"

definition validate_evidence :: "green_grant \<Rightarrow> outcome_evidence \<Rightarrow> string \<Rightarrow> unit res" where
  "validate_evidence g ev expected_hash =
     rbind (guards [
       (oe_outcome ev \<notin> {''UNKNOWN'', ''NO_EFFECT'', ''SUCCEEDED'', ''FAILED'', ''PARTIAL''},
          ReconciliationError ''RECONCILIATION_OUTCOME_INVALID''),
       (oe_validation_status ev \<notin> {''PASS'', ''FAIL'', ''UNKNOWN''}, ReconciliationError ''RECONCILIATION_VALIDATION_INVALID''),
       (oe_reason_code ev = [] \<or> list_ex (\<lambda>ch. ch \<notin> set upper_digits_underscore) (oe_reason_code ev),
          ReconciliationError ''RECONCILIATION_REASON_INVALID''),
       ((oe_operation_id ev, oe_idempotency_key ev, oe_adapter_id ev, oe_target_state_ref ev, oe_fence_token ev,
           oe_execution_grant_hash ev, oe_resources ev, oe_effects ev) \<noteq>
         (gg_operation_id g, gg_idempotency_key g, gg_adapter_id g, gg_target_state_ref g, gg_fence_token g,
           expected_hash, ev_resources (gg_planner_envelope g), ev_effects (gg_planner_envelope g)),
          ReconciliationError ''RECONCILIATION_EVIDENCE_BINDING_MISMATCH'')]) (\<lambda>_.
     if oe_outcome ev = ''UNKNOWN'' then Inr ()
     else check_all public_ref (ReconciliationError ''RECONCILIATION_PUBLIC_REF_REQUIRED'')
       (oe_resources ev @ [oe_before_state_ref ev, oe_after_state_ref ev]))"

definition rollback_seed :: "green_grant \<Rightarrow> outcome_evidence \<Rightarrow> (string \<times> json) list" where
  "rollback_seed g ev = [
     (''operation_id'', JStr (gg_operation_id g)),
     (''idempotency_key'', JStr (gg_idempotency_key g)),
     (''execution_grant_hash'', JStr (oe_execution_grant_hash ev)),
     (''after_state_ref'', JStr (oe_after_state_ref ev))]"

definition mk_rollback_request :: "green_grant \<Rightarrow> outcome_evidence \<Rightarrow> rollback_request" where
  "mk_rollback_request g ev =
     (let digest = json_digest (JObj (rollback_seed g ev)) in
      \<lparr>rb_rollback_operation_id = ''rollback:'' @ digest, rb_rollback_idempotency_key = ''rollback:'' @ digest,
       rb_original_operation_id = gg_operation_id g, rb_original_idempotency_key = gg_idempotency_key g,
       rb_adapter_id = gg_adapter_id g, rb_fence_token = gg_fence_token g, rb_resources = oe_resources ev,
       rb_original_effects = oe_effects ev, rb_target_before_state_ref = oe_before_state_ref ev,
       rb_current_after_state_ref = oe_after_state_ref ev, rb_reason_code = ''ROLLBACK_REQUIRED'',
       rb_execution_authorized = False\<rparr>)"

text \<open>\<^verbatim>\<open>_release\<close> also swallows the ValueError of an unknown lane.\<close>

fun is_value_error :: "exn \<Rightarrow> bool" where
  "is_value_error (ValueError r) = True" | "is_value_error e = False"

definition recon_release :: "real \<Rightarrow> green_grant \<Rightarrow> (runner_state, bool) op" where
  "recon_release t g rs =
     (case guarded (lane_of (gg_lane g)) (\<lambda>lane.
         on_leases (scheduler_release_exact t lane (gg_lease_scope_key g) (gg_node_id g) (gg_fence_token g))) rs of
        (Inr v, rs') \<Rightarrow> (Inr True, rs')
      | (Inl e, rs') \<Rightarrow> ((if is_lease_error e \<or> is_value_error e then Inr False else Inl e), rs'))"

type_synonym evidence_verifier = "green_grant \<Rightarrow> outcome_evidence \<Rightarrow> bool res"

text \<open>The checks between a conclusive piece of evidence and the ledger write.\<close>

definition evidence_checks :: "evidence_verifier option \<Rightarrow> green_grant \<Rightarrow> outcome_evidence \<Rightarrow> unit res" where
  "evidence_checks verifier g ev =
     (case verifier of None \<Rightarrow> Inl (ReconciliationError ''RECONCILIATION_EVIDENCE_VERIFIER_REQUIRED'')
      | Some verify \<Rightarrow>
          rbind (guards [
            (\<not> oe_fresh ev, ReconciliationError ''RECONCILIATION_FRESH_EVIDENCE_REQUIRED''),
            (oe_evidence_refs ev = [] \<or> list_ex (\<lambda>ref. \<not> public_ref ref) (oe_evidence_refs ev),
               ReconciliationError ''RECONCILIATION_EVIDENCE_REF_INVALID'')]) (\<lambda>_.
          rbind (verify g ev) (\<lambda>verified. guards [
            (\<not> verified, ReconciliationError ''RECONCILIATION_EVIDENCE_VERIFICATION_FAILED''),
            (oe_outcome ev = ''SUCCEEDED'' \<and> oe_validation_status ev \<noteq> ''PASS'',
               ReconciliationError ''RECONCILIATION_SUCCESS_REQUIRES_PASS''),
            (oe_outcome ev \<noteq> ''SUCCEEDED'' \<and> oe_validation_status ev \<noteq> ''FAIL'',
               ReconciliationError ''RECONCILIATION_FAILURE_REQUIRES_FAIL''),
            (oe_outcome ev = ''NO_EFFECT'' \<and> oe_before_state_ref ev \<noteq> oe_after_state_ref ev,
               ReconciliationError ''RECONCILIATION_NO_EFFECT_STATE_MISMATCH'')])))"

definition recon_reason :: "outcome_evidence \<Rightarrow> string" where
  "recon_reason ev = (if oe_outcome ev = ''NO_EFFECT'' then ''RECONCILED_NO_EFFECT'' else oe_reason_code ev)"

definition recon_rollback :: "outcome_evidence \<Rightarrow> bool" where
  "recon_rollback ev \<longleftrightarrow> oe_outcome ev \<noteq> ''SUCCEEDED'' \<and>
     (oe_rollback_requested ev \<or> oe_before_state_ref ev \<noteq> oe_after_state_ref ev \<or> oe_outcome ev = ''PARTIAL'')"

definition mk_recon_receipt :: "green_grant \<Rightarrow> string \<Rightarrow> outcome_evidence \<Rightarrow> bool \<Rightarrow> recon_receipt" where
  "mk_recon_receipt g grant_hash ev lease_released =
     \<lparr>rc_status = (if oe_outcome ev = ''SUCCEEDED'' then ''RECONCILED_COMPLETED'' else ''RECONCILED_FAILED''),
      rc_reason_code = recon_reason ev, rc_task_id = gg_task_id g, rc_node_id = gg_node_id g, rc_lane = gg_lane g,
      rc_operation_id = gg_operation_id g, rc_idempotency_key = gg_idempotency_key g, rc_adapter_id = gg_adapter_id g,
      rc_fence_token = gg_fence_token g, rc_privacy = privacy_value (ev_privacy (gg_planner_envelope g)),
      rc_execution_grant_hash = grant_hash, rc_outcome = oe_outcome ev,
      rc_validation_status = Some (oe_validation_status ev), rc_touched_resource_refs = oe_resources ev,
      rc_before_state_ref = Some (oe_before_state_ref ev), rc_after_state_ref = Some (oe_after_state_ref ev),
      rc_rollback_required = recon_rollback ev,
      rc_rollback_request = (if recon_rollback ev then Some (mk_rollback_request g ev) else None),
      rc_lease_released = lease_released, rc_needs_recovery = (recon_rollback ev \<or> \<not> lease_released)\<rparr>"

type_synonym outcome_probe = "green_grant \<Rightarrow> (runner_state, outcome_evidence) op"

definition reconcile ::
    "real \<Rightarrow> outcome_probe \<Rightarrow> evidence_verifier option \<Rightarrow> green_grant \<Rightarrow> (runner_state, recon_receipt) op" where
  "reconcile t probe verifier g rs =
     guarded (require_started g (rs_ledger rs)) (\<lambda>start rs.
       case probe g rs of
         (Inl e, rs1) \<Rightarrow> (recon_pending g ''RECONCILIATION_PROBE_FAILED'' (rs_ledger rs1), rs1)
       | (Inr ev, rs1) \<Rightarrow>
           guarded (validate_evidence g ev (se_execution_grant_hash start)) (\<lambda>_ rs1.
             if oe_outcome ev = ''UNKNOWN'' then (recon_pending g ''RECONCILIATION_OUTCOME_UNKNOWN'' (rs_ledger rs1), rs1)
             else guarded (evidence_checks verifier g ev) (\<lambda>_.
               sbind (sreraise ReconciliationError is_ledger_error (on_ledger (ledger_finish (grant_identity g) (gg_fence_token g)
                 (oe_outcome ev = ''SUCCEEDED'') (recon_reason ev) (oe_resources ev) (oe_before_state_ref ev)
                 (oe_after_state_ref ev) (oe_validation_status ev)))) (\<lambda>_.
               sbind (recon_release t g) (\<lambda>lease_released rs.
                 (Inr (mk_recon_receipt g (se_execution_grant_hash start) ev lease_released), rs)))) rs1) rs1) rs"

definition jopt :: "string option \<Rightarrow> json" where
  "jopt v = (case v of None \<Rightarrow> JNull | Some s \<Rightarrow> JStr s)"

text \<open>\<^verbatim>\<open>_hash(value or "none")\<close>\<close>

definition hash_or_none :: "string option \<Rightarrow> string" where
  "hash_or_none v = text_hash (case v of None \<Rightarrow> ''none'' | Some s \<Rightarrow> if s = [] then ''none'' else s)"

definition recon_public_projection :: "recon_receipt \<Rightarrow> json" where
  "recon_public_projection x = JObj ([
     (''schema'', JStr ''skeleton.runner_operation_reconciliation_receipt.v1''),
     (''status'', JStr (rc_status x)), (''reason_code'', JStr (rc_reason_code x)), (''lane'', JStr (rc_lane x)),
     (''node_id'', JStr (rc_node_id x)), (''fence_token'', JInt (rc_fence_token x)), (''privacy'', JStr (rc_privacy x)),
     (''task_id_hash'', JStr (text_hash (rc_task_id x))), (''operation_id_hash'', JStr (text_hash (rc_operation_id x))),
     (''idempotency_key_hash'', JStr (text_hash (rc_idempotency_key x))), (''adapter_id'', JStr (rc_adapter_id x)),
     (''execution_grant_hash'', JStr (rc_execution_grant_hash x)), (''outcome'', JStr (rc_outcome x)),
     (''validation_status'', jopt (rc_validation_status x)),
     (''touched_resource_count'', JInt (int (length (rc_touched_resource_refs x)))),
     (''touched_resource_hash'', JStr (refs_hash (rc_touched_resource_refs x))),
     (''before_state_ref_hash'', JStr (hash_or_none (rc_before_state_ref x))),
     (''after_state_ref_hash'', JStr (hash_or_none (rc_after_state_ref x))),
     (''state_changed'', JBool (rc_before_state_ref x \<noteq> None \<and> rc_before_state_ref x \<noteq> rc_after_state_ref x)),
     (''rollback_required'', JBool (rc_rollback_required x)), (''lease_released'', JBool (rc_lease_released x)),
     (''needs_recovery'', JBool (rc_needs_recovery x)),
     (''rollback_request_id_hash'', jopt (map_option (\<lambda>r. text_hash (rb_rollback_idempotency_key r)) (rc_rollback_request x)))] @
    (if rc_privacy x = ''PUBLIC_SAFE'' then [
       (''task_id'', JStr (rc_task_id x)), (''operation_id'', JStr (rc_operation_id x)),
       (''idempotency_key'', JStr (rc_idempotency_key x)),
       (''touched_resource_refs'', jstrs (rc_touched_resource_refs x)),
       (''before_state_ref'', jopt (rc_before_state_ref x)), (''after_state_ref'', jopt (rc_after_state_ref x)),
       (''rollback_request_id'', jopt (map_option rb_rollback_idempotency_key (rc_rollback_request x)))] else []))"

definition rollback_public_projection :: "rollback_request \<Rightarrow> string \<Rightarrow> json" where
  "rollback_public_projection r privacy = JObj ([
     (''schema'', JStr ''skeleton.runner_rollback_request.v1''),
     (''privacy'', JStr privacy), (''rollback_operation_id_hash'', JStr (text_hash (rb_rollback_operation_id r))),
     (''rollback_idempotency_key_hash'', JStr (text_hash (rb_rollback_idempotency_key r))),
     (''original_operation_id_hash'', JStr (text_hash (rb_original_operation_id r))),
     (''original_idempotency_key_hash'', JStr (text_hash (rb_original_idempotency_key r))),
     (''adapter_id'', JStr (rb_adapter_id r)), (''fence_token'', JInt (rb_fence_token r)),
     (''resource_count'', JInt (int (length (rb_resources r)))), (''resource_hash'', JStr (refs_hash (rb_resources r))),
     (''original_effect_count'', JInt (int (length (rb_original_effects r)))),
     (''original_effect_hash'', JStr (refs_hash (rb_original_effects r))),
     (''target_before_state_ref_hash'', JStr (text_hash (rb_target_before_state_ref r))),
     (''current_after_state_ref_hash'', JStr (text_hash (rb_current_after_state_ref r))),
     (''reason_code'', JStr (rb_reason_code r)), (''execution_authorized'', JBool (rb_execution_authorized r))] @
    (if privacy = ''PUBLIC_SAFE'' then [
       (''rollback_operation_id'', JStr (rb_rollback_operation_id r)),
       (''rollback_idempotency_key'', JStr (rb_rollback_idempotency_key r)),
       (''original_operation_id'', JStr (rb_original_operation_id r)),
       (''original_idempotency_key'', JStr (rb_original_idempotency_key r)),
       (''resources'', jstrs (rb_resources r)), (''original_effects'', jstrs (rb_original_effects r)),
       (''target_before_state_ref'', JStr (rb_target_before_state_ref r)),
       (''current_after_state_ref'', JStr (rb_current_after_state_ref r))] else []))"

subsection \<open>The reconciler's checks\<close>

text \<open>The ledger entry of an operation this grant started and nobody finished.\<close>

definition started_entry :: "green_grant \<Rightarrow> op_entry \<Rightarrow> bool" where
  "started_entry g x \<longleftrightarrow> en_identity x = grant_identity g \<and> en_fence x = gg_fence_token g \<and>
     en_grant x = Some (execution_grant_hash g) \<and> en_receipt x = None"

lemma require_started_Inr:
  assumes ok: "ledger_ok s"
  shows "(\<exists>st. require_started g s = Inr st) \<longleftrightarrow> (\<exists>x. ledger_entry s (gg_idempotency_key g) = Some x \<and> started_entry g x)"
    and "require_started g s = Inr st \<Longrightarrow> se_execution_grant_hash st = execution_grant_hash g"
proof -
  show "se_execution_grant_hash st = execution_grant_hash g" if "require_started g s = Inr st"
    using that by (auto simp: require_started_def Let_def)
  show "(\<exists>st. require_started g s = Inr st) \<longleftrightarrow> (\<exists>x. ledger_entry s (gg_idempotency_key g) = Some x \<and> started_entry g x)"
  proof (cases "ledger_entry s (gg_idempotency_key g)")
    case None
    then show ?thesis
      using ledger_status_entry [OF ok, of "gg_idempotency_key g"] by (simp add: require_started_def Let_def)
  next
    case (Some x)
    from entry_rows [OF ok Some] obtain row where row: "ledger_reservation (gg_idempotency_key g) s = Some row"
        "le_identity (fst row) = en_identity x" "current_fence_token (gg_idempotency_key g) s = Inr (en_fence x)"
        "le_reservation_scope_hash (fst row) = en_scope x"
        "en_grant x = map_option se_execution_grant_hash (ledger_start (gg_idempotency_key g) s)"
        "\<forall>st. ledger_start (gg_idempotency_key g) s = Some st \<longrightarrow> se_identity st = en_identity x \<and>
          se_fence_token st = en_fence x \<and> Some (se_reservation_scope_hash st) = en_scope x"
      by metis
    have r: "reservation_event (gg_idempotency_key g) s = Inr (fst row)"
      using row(1) by (simp add: reservation_event_def event_of_def)
    show ?thesis
      using row Some r status_open [OF ok Some]
      by (cases "ledger_start (gg_idempotency_key g) s")
        (simp_all add: require_started_def Let_def started_entry_def started_event_def start_evidence_of_def, blast+)
  qed
qed

lemma recon_pending_Inr:
  assumes "ledger_ok s" "recon_pending g reason s = Inr out"
  shows "rc_status out = ''NEEDS_RECOVERY'' \<and> rc_needs_recovery out \<and> \<not> rc_lease_released out \<and> rc_reason_code out = reason"
    and "\<exists>x. ledger_entry s (gg_idempotency_key g) = Some x \<and> started_entry g x"
  using assms require_started_Inr(1) [OF assms(1), of g] by (auto simp: recon_pending_def)

lemma recon_release_total: "\<exists>b rs'. recon_release t g rs = (Inr b, rs') \<and> rs_ledger rs' = rs_ledger rs"
proof (cases "lane_of (gg_lane g)")
  case (Inl e)
  then have "is_value_error e" by (auto simp: lane_of_def split: if_splits)
  then have "recon_release t g rs = (Inr False, rs)" using Inl by (simp add: recon_release_def)
  then show ?thesis by blast
next
  case (Inr lane)
  then have gl: "gg_lane g = lane_value lane" by (rule lane_of_Inr)
  show ?thesis
  proof (cases "lease_held t lane (gg_lease_scope_key g) (gg_node_id g) (gg_fence_token g) (rs_leases rs)")
    case (Inl e)
    then have "\<exists>r. e = LeaseError r" by (auto simp: lease_held_def split: option.splits if_splits)
    then have "recon_release t g rs = (Inr False, rs)"
      using Inl Inr by (auto simp: recon_release_def on_leases_def scheduler_release_exact_def release_cases)
    then show ?thesis by blast
  next
    case (Inr l)
    then have "\<exists>rs'. recon_release t g rs = (Inr True, rs') \<and> rs_ledger rs' = rs_ledger rs"
      using gl by (simp add: recon_release_def on_leases_def scheduler_release_exact_def release_cases)
    then show ?thesis by blast
  qed
qed

abbreviation evidence_receipt :: "green_grant \<Rightarrow> outcome_evidence \<Rightarrow> terminal_receipt" where
  "evidence_receipt g ev \<equiv> \<lparr>tr_fence = gg_fence_token g,
     tr_type = (if oe_outcome ev = ''SUCCEEDED'' then COMPLETED else FAILED), tr_reason = recon_reason ev,
     tr_touched = oe_resources ev, tr_before = Some (oe_before_state_ref ev), tr_after = Some (oe_after_state_ref ev),
     tr_validation = Some (oe_validation_status ev)\<rparr>"

text \<open>What the evidence of a resolved operation satisfies.\<close>

definition conclusive :: "evidence_verifier option \<Rightarrow> green_grant \<Rightarrow> outcome_evidence \<Rightarrow> bool" where
  "conclusive verifier g ev \<longleftrightarrow> validate_evidence g ev (execution_grant_hash g) = Inr () \<and> oe_outcome ev \<noteq> ''UNKNOWN'' \<and>
     evidence_checks verifier g ev = Inr ()"

lemma validate_evidence_Inr:
  "validate_evidence g ev h = Inr () \<Longrightarrow> oe_outcome ev \<noteq> ''UNKNOWN'' \<Longrightarrow>
     oe_resources ev = ev_resources (gg_planner_envelope g) \<and> oe_effects ev = ev_effects (gg_planner_envelope g) \<and>
     oe_fence_token ev = gg_fence_token g \<and> oe_execution_grant_hash ev = h \<and>
     (\<forall>r\<in>set (oe_resources ev). public_ref r) \<and> public_ref (oe_before_state_ref ev) \<and> public_ref (oe_after_state_ref ev) \<and>
     ledger_reason (oe_reason_code ev) = Inr ()"
  by (simp add: validate_evidence_def ledger_reason_def)

lemma evidence_checks_Inr:
  "evidence_checks verifier g ev = Inr () \<longleftrightarrow> (\<exists>verify. verifier = Some verify \<and> verify g ev = Inr True) \<and> oe_fresh ev \<and>
     oe_evidence_refs ev \<noteq> [] \<and> list_all public_ref (oe_evidence_refs ev) \<and>
     oe_validation_status ev = (if oe_outcome ev = ''SUCCEEDED'' then ''PASS'' else ''FAIL'') \<and>
     (oe_outcome ev = ''NO_EFFECT'' \<longrightarrow> oe_before_state_ref ev = oe_after_state_ref ev)"
proof (cases verifier)
  case (Some verify)
  show ?thesis
    by (cases "verify g ev"; cases "oe_outcome ev = ''SUCCEEDED''")
      (auto simp: evidence_checks_def Some list_ex_iff list_all_iff)
qed (simp add: evidence_checks_def)

lemma no_effect_reason: "ledger_reason ''RECONCILED_NO_EFFECT'' = Inr ()"
  by (simp add: ledger_reason_def upper_digits_underscore_def)

lemma conclusiveD:
  assumes "conclusive verifier g ev"
  shows "\<exists>verify. verifier = Some verify \<and> verify g ev = Inr True" "oe_fresh ev"
    "oe_resources ev = ev_resources (gg_planner_envelope g)" "oe_effects ev = ev_effects (gg_planner_envelope g)"
    "oe_validation_status ev = (if oe_outcome ev = ''SUCCEEDED'' then ''PASS'' else ''FAIL'')"
    "oe_outcome ev = ''NO_EFFECT'' \<longrightarrow> oe_before_state_ref ev = oe_after_state_ref ev"
    "\<forall>r\<in>set (oe_resources ev). public_ref r" "public_ref (oe_before_state_ref ev)" "public_ref (oe_after_state_ref ev)"
    "oe_fence_token ev = gg_fence_token g" "oe_execution_grant_hash ev = execution_grant_hash g"
    "ledger_reason (recon_reason ev) = Inr ()"
  using assms validate_evidence_Inr [of g ev "execution_grant_hash g"] no_effect_reason
  unfolding conclusive_def evidence_checks_Inr recon_reason_def by simp_all

definition probe_via_ledger :: "outcome_probe \<Rightarrow> bool" where
  "probe_via_ledger probe \<longleftrightarrow> (\<forall>g rs. \<exists>cs. rs_ledger (snd (probe g rs)) = snd (run_ops ledger_exec cs (rs_ledger rs)))"

lemma probe_reachable:
  "probe_via_ledger probe \<Longrightarrow> probe g rs = (r, rs1) \<Longrightarrow> ledger_reachable (rs_ledger rs) \<Longrightarrow> ledger_reachable (rs_ledger rs1)"
  by (metis ledger_run_reachable probe_via_ledger_def snd_conv)

text \<open>The three ways \<^verbatim>\<open>reconcile\<close> ends.\<close>

lemma reconcile_cases:
  assumes reach: "ledger_reachable (rs_ledger rs)" and via: "probe_via_ledger probe"
  obtains (refused) e where "reconcile t probe verifier g rs = (Inl e, rs)" "require_started g (rs_ledger rs) = Inl e"
  | (failed) e r rs1 where "reconcile t probe verifier g rs = (Inl e, rs1)" "probe g rs = (r, rs1)"
  | (pending) r rs1 reason out where "reconcile t probe verifier g rs = (Inr out, rs1)" "probe g rs = (r, rs1)"
      "recon_pending g reason (rs_ledger rs1) = Inr out"
  | (resolved) ev rs1 rs' b where "probe g rs = (Inr ev, rs1)" "conclusive verifier g ev"
      "reconcile t probe verifier g rs = (Inr (mk_recon_receipt g (execution_grant_hash g) ev b), rs')"
      "\<exists>v. ledger_finish (grant_identity g) (gg_fence_token g) (oe_outcome ev = ''SUCCEEDED'') (recon_reason ev) (oe_resources ev)
        (oe_before_state_ref ev) (oe_after_state_ref ev) (oe_validation_status ev) (rs_ledger rs1) = (Inr v, rs_ledger rs')"
proof (cases "require_started g (rs_ledger rs)")
  case (Inl e)
  then show thesis using refused by (simp add: reconcile_def)
next
  case (Inr st)
  obtain r rs1 where p: "probe g rs = (r, rs1)" by (cases "probe g rs")
  have gh: "se_execution_grant_hash st = execution_grant_hash g"
    using require_started_Inr(2) [OF ledger_reachable_ok [OF reach] Inr] .
  have pend: thesis if "reconcile t probe verifier g rs = (recon_pending g reason (rs_ledger rs1), rs1)" for reason
    using that p failed pending by (cases "recon_pending g reason (rs_ledger rs1)") auto
  show thesis
  proof (cases r)
    case (Inl e)
    then show thesis using Inr p by (intro pend) (simp add: reconcile_def)
  next
    case r: (Inr ev)
    show thesis
    proof (cases "rbind (validate_evidence g ev (execution_grant_hash g))
        (\<lambda>_. if oe_outcome ev = ''UNKNOWN'' then Inr () else evidence_checks verifier g ev)")
      case (Inl e)
      then show thesis
        using Inr p r gh failed by (auto simp: reconcile_def split: if_splits)
    next
      case c: (Inr u)
      show thesis
      proof (cases "oe_outcome ev = ''UNKNOWN''")
        case True
        then show thesis using c Inr p r gh by (intro pend) (auto simp: reconcile_def)
      next
        case False
        let ?fin = "ledger_finish (grant_identity g) (gg_fence_token g) (oe_outcome ev = ''SUCCEEDED'') (recon_reason ev)
          (oe_resources ev) (oe_before_state_ref ev) (oe_after_state_ref ev) (oe_validation_status ev)"
        have con: "conclusive verifier g ev" using c False by (auto simp: conclusive_def)
        have run: "reconcile t probe verifier g rs = sbind (sreraise ReconciliationError is_ledger_error (on_ledger ?fin))
            (\<lambda>_. sbind (recon_release t g) (\<lambda>b rs. (Inr (mk_recon_receipt g (execution_grant_hash g) ev b), rs))) rs1"
          using con False Inr p r gh by (simp add: reconcile_def conclusive_def)
        show thesis
        proof (cases "?fin (rs_ledger rs1)")
          case (Pair fr l)
          show thesis
          proof (cases fr)
            case (Inl e)
            then have "l = rs_ledger rs1" using Pair ledger_aborts(4) by metis
            then show thesis
              using run Pair Inl p failed
              by (auto simp: sbind_def sreraise_def on_ledger_def reraise_as_def)
          next
            case (Inr v)
            obtain b rs' where rel: "recon_release t g (rs1\<lparr>rs_ledger := l\<rparr>) = (Inr b, rs')" "rs_ledger rs' = l"
              using recon_release_total [of t g "rs1\<lparr>rs_ledger := l\<rparr>"] by auto
            then have "reconcile t probe verifier g rs = (Inr (mk_recon_receipt g (execution_grant_hash g) ev b), rs')"
              using run Pair Inr by (simp add: sbind_def sreraise_def on_ledger_def)
            then show thesis using resolved p r con Pair Inr rel(2) by blast
          qed
        qed
      qed
    qed
  qed
qed

lemma not_started_refused:
  assumes "ledger_ok (rs_ledger rs)" "ledger_entry (rs_ledger rs) (gg_idempotency_key g) = Some x" "en_receipt x \<noteq> None"
  shows "\<exists>e. reconcile t probe verifier g rs = (Inl e, rs)"
proof -
  have "\<not> (\<exists>st. require_started g (rs_ledger rs) = Inr st)"
    using assms require_started_Inr(1) [OF assms(1), of g] by (auto simp: started_entry_def)
  then obtain e where "require_started g (rs_ledger rs) = Inl e" by (cases "require_started g (rs_ledger rs)") auto
  then show ?thesis by (simp add: reconcile_def)
qed

text \<open>Conclusive evidence resolves a started operation.\<close>

lemma conclusive_resolves:
  assumes ok: "ledger_ok (rs_ledger rs')" and y: "ledger_entry (rs_ledger rs') (gg_idempotency_key g) = Some y" "started_entry g y"
    and p: "probe g rs' = (Inr ev, rs')" and con: "conclusive verifier g ev"
  shows "\<exists>b rs'' v. reconcile t probe verifier g rs' = (Inr (mk_recon_receipt g (execution_grant_hash g) ev b), rs'') \<and>
    ledger_finish (grant_identity g) (gg_fence_token g) (oe_outcome ev = ''SUCCEEDED'') (recon_reason ev) (oe_resources ev)
      (oe_before_state_ref ev) (oe_after_state_ref ev) (oe_validation_status ev) (rs_ledger rs') = (Inr v, rs_ledger rs'')"
proof -
  obtain st where req: "require_started g (rs_ledger rs') = Inr st"
    using require_started_Inr(1) [OF ok] y by blast
  note c = conclusiveD [OF con]
  have fy: "en_identity y = grant_identity g" "en_receipt y = None" "en_fence y = gg_fence_token g"
    using y(2) by (simp_all add: started_entry_def)
  have "call_check (Finish (grant_identity g) (en_fence y) (oe_outcome ev = ''SUCCEEDED'') (recon_reason ev)
      (oe_resources ev) (oe_before_state_ref ev) (oe_after_state_ref ev) (oe_validation_status ev)) = Inr ()"
    using c(5,7,8,9,12) ledger_entry_fence [OF ok y(1)] public_ledger_ref
    by (auto simp: ledger_fence_check_def ledger_public_refs_def)
  then obtain v l where fin: "ledger_finish (grant_identity g) (gg_fence_token g) (oe_outcome ev = ''SUCCEEDED'') (recon_reason ev)
      (oe_resources ev) (oe_before_state_ref ev) (oe_after_state_ref ev) (oe_validation_status ev) (rs_ledger rs') = (Inr v, l)"
    using finish_open [OF ok, of "grant_identity g", unfolded grant_key, OF y(1) fy(1,2)] unfolding fy(3) by blast
  obtain b rs'' where rel: "recon_release t g (rs'\<lparr>rs_ledger := l\<rparr>) = (Inr b, rs'')" "rs_ledger rs'' = l"
    using recon_release_total [of t g "rs'\<lparr>rs_ledger := l\<rparr>"] by auto
  have "reconcile t probe verifier g rs' = (Inr (mk_recon_receipt g (execution_grant_hash g) ev b), rs'')"
    using p con req require_started_Inr(2) [OF ok req] fin rel(1)
    by (simp add: reconcile_def conclusive_def sbind_def sreraise_def on_ledger_def)
  then show ?thesis using fin rel(2) by blast
qed

text \<open>What a resolved reconciliation leaves in the ledger.\<close>

lemma resolved_entry:
  assumes reach: "ledger_reachable (rs_ledger rs1)"
    and fin: "ledger_finish (grant_identity g) (gg_fence_token g) (oe_outcome ev = ''SUCCEEDED'') (recon_reason ev)
      (oe_resources ev) (oe_before_state_ref ev) (oe_after_state_ref ev) (oe_validation_status ev) (rs_ledger rs1) = (Inr v, l)"
    and x: "ledger_entry (rs_ledger rs1) (gg_idempotency_key g) = Some x" and gx: "en_grant x = Some h"
  shows "ledger_reachable l"
    and "\<exists>y. ledger_entry l (gg_idempotency_key g) = Some y \<and> en_grant y = Some h \<and>
      en_receipt y = Some (evidence_receipt g ev) \<and> evolves x y"
proof -
  let ?c = "Finish (grant_identity g) (gg_fence_token g) (oe_outcome ev = ''SUCCEEDED'') (recon_reason ev)
      (oe_resources ev) (oe_before_state_ref ev) (oe_after_state_ref ev) (oe_validation_status ev)"
  have run: "ledger_exec ?c (rs_ledger rs1) = (Inr (EventReply v), l)" using fin by (simp add: reply_def)
  show "ledger_reachable l" using ledger_call [OF reach, of ?c] unfolding run by simp
  have r: "ledger_entry l (gg_idempotency_key g) \<noteq> None \<and>
      en_receipt (the (ledger_entry l (gg_idempotency_key g))) = call_receipt ?c"
    using ledger_reachable_ok [OF reach]
  proof (cases rule: exec_cases [of "rs_ledger rs1" ?c])
    case (served v s' en)
    then show ?thesis
      using run x by (auto simp: call_identity_def known_entry_def split: if_splits)
  qed (use run in auto)
  obtain y where y: "ledger_entry l (gg_idempotency_key g) = Some y" "evolves x y"
    using exec_evolves [OF ledger_reachable_ok [OF reach] x, of ?c] unfolding run by auto
  then show "\<exists>y. ledger_entry l (gg_idempotency_key g) = Some y \<and> en_grant y = Some h \<and>
      en_receipt y = Some (evidence_receipt g ev) \<and> evolves x y"
    using r gx by (auto simp: evolves_def call_receipt_def terminal_type_def)
qed

lemma probe_entry:
  assumes "ledger_reachable (rs_ledger rs)" "probe_via_ledger probe" "probe g rs = (r, rs1)"
    "require_started g (rs_ledger rs) = Inr st"
  shows "\<exists>x. ledger_entry (rs_ledger rs1) (gg_idempotency_key g) = Some x \<and> en_grant x = Some (execution_grant_hash g)"
proof -
  from require_started_Inr(1) [OF ledger_reachable_ok [OF assms(1)], of g] assms(4)
  obtain x where x: "ledger_entry (rs_ledger rs) (gg_idempotency_key g) = Some x" "started_entry g x" by blast
  obtain cs where "rs_ledger rs1 = snd (run_ops ledger_exec cs (rs_ledger rs))"
    using assms(2,3) by (metis probe_via_ledger_def snd_conv)
  then obtain y where "ledger_entry (rs_ledger rs1) (gg_idempotency_key g) = Some y" "evolves x y"
    using run_evolves [OF ledger_reachable_ok [OF assms(1)] x(1), of cs] by auto
  then show ?thesis using x(2) by (auto simp: evolves_def started_entry_def)
qed

subsection \<open>Properties\<close>

text \<open>
  C32. Reconciliation resolves a started operation once, and only on verified evidence.  When it
  returns, the start evidence of the grant is still in the ledger.  Either the receipt says
  NEEDS_RECOVERY and nothing was written after the probe, or the probed evidence is conclusive (fresh, with public
  evidence references, bound to the grant and accepted by a verifier) and the ledger now holds the terminal event
  with exactly its facts: COMPLETED if and only if the outcome is SUCCEEDED, the reason of the evidence
  (RECONCILED_NO_EFFECT for that outcome), its resources, its states before and after and its validation status; and
  so does the receipt.  A rollback is required exactly for an outcome other than SUCCEEDED
  that was requested to be rolled back, changed the state or is PARTIAL; its request goes from the state after back
  to the state before and is never authorised to execute.  Reconciling again fails and changes nothing.
\<close>

theorem reconcile_resolves_once:
  assumes "ledger_reachable (rs_ledger rs)" "probe_via_ledger probe" "reconcile t probe verifier g rs = (Inr out, rs')"
  shows "\<exists>y. ledger_entry (rs_ledger rs') (gg_idempotency_key g) = Some y \<and> en_grant y = Some (execution_grant_hash g) \<and>
    (if rc_status out = ''NEEDS_RECOVERY'' then started_entry g y \<and> rc_needs_recovery out \<and> (\<exists>r. probe g rs = (r, rs'))
     else \<exists>ev rs1 verify r. probe g rs = (Inr ev, rs1) \<and> verifier = Some verify \<and> verify g ev = Inr True \<and> oe_fresh ev \<and>
       oe_evidence_refs ev \<noteq> [] \<and> list_all public_ref (oe_evidence_refs ev) \<and>
       oe_execution_grant_hash ev = execution_grant_hash g \<and> oe_outcome ev \<in> {''NO_EFFECT'', ''SUCCEEDED'', ''FAILED'', ''PARTIAL''} \<and>
       oe_resources ev = ev_resources (gg_planner_envelope g) \<and> en_receipt y = Some r \<and> tr_fence r = gg_fence_token g \<and>
       tr_type r = (if oe_outcome ev = ''SUCCEEDED'' then COMPLETED else FAILED) \<and>
       rc_status out = (if oe_outcome ev = ''SUCCEEDED'' then ''RECONCILED_COMPLETED'' else ''RECONCILED_FAILED'') \<and>
       rc_outcome out = oe_outcome ev \<and>
       tr_reason r = (if oe_outcome ev = ''NO_EFFECT'' then ''RECONCILED_NO_EFFECT'' else oe_reason_code ev) \<and> rc_reason_code out = tr_reason r \<and>
       tr_touched r = oe_resources ev \<and> rc_touched_resource_refs out = oe_resources ev \<and>
       tr_before r = Some (oe_before_state_ref ev) \<and> rc_before_state_ref out = Some (oe_before_state_ref ev) \<and>
       tr_after r = Some (oe_after_state_ref ev) \<and> rc_after_state_ref out = Some (oe_after_state_ref ev) \<and>
       oe_validation_status ev = (if oe_outcome ev = ''SUCCEEDED'' then ''PASS'' else ''FAIL'') \<and>
       tr_validation r = Some (oe_validation_status ev) \<and> rc_validation_status out = Some (oe_validation_status ev) \<and>
       (rc_rollback_required out \<longleftrightarrow> oe_outcome ev \<noteq> ''SUCCEEDED'' \<and>
         (oe_rollback_requested ev \<or> oe_before_state_ref ev \<noteq> oe_after_state_ref ev \<or> oe_outcome ev = ''PARTIAL'')) \<and>
       (case rc_rollback_request out of None \<Rightarrow> \<not> rc_rollback_required out
        | Some b \<Rightarrow> rc_rollback_required out \<and> \<not> rb_execution_authorized b \<and> rb_original_idempotency_key b = gg_idempotency_key g \<and>
            rb_target_before_state_ref b = oe_before_state_ref ev \<and> rb_current_after_state_ref b = oe_after_state_ref ev) \<and>
       (\<exists>e. reconcile t' probe verifier g rs' = (Inl e, rs')))"
  using assms(1,2)
proof (cases rule: reconcile_cases [of rs probe t verifier g])
  case (pending r rs1 reason out')
  then have "out' = out" "rs1 = rs'" using assms(3) by auto
  with pending recon_pending_Inr [OF ledger_reachable_ok [OF probe_reachable [OF assms(2) pending(2) assms(1)]] pending(3)]
  show ?thesis by (auto simp: started_entry_def)
next
  case (resolved ev rs1 rs'' b)
  then have out: "out = mk_recon_receipt g (execution_grant_hash g) ev b" "rs'' = rs'" using assms(3) by auto
  obtain st where "require_started g (rs_ledger rs) = Inr st"
    using assms(3) by (cases "require_started g (rs_ledger rs)") (simp_all add: reconcile_def)
  then obtain x where x: "ledger_entry (rs_ledger rs1) (gg_idempotency_key g) = Some x" "en_grant x = Some (execution_grant_hash g)"
    using probe_entry [OF assms(1,2) resolved(1)] by blast
  from resolved(4) out obtain v where fin: "ledger_finish (grant_identity g) (gg_fence_token g) (oe_outcome ev = ''SUCCEEDED'')
      (recon_reason ev) (oe_resources ev) (oe_before_state_ref ev) (oe_after_state_ref ev) (oe_validation_status ev)
      (rs_ledger rs1) = (Inr v, rs_ledger rs')" by auto
  note res = resolved_entry [OF probe_reachable [OF assms(2) resolved(1) assms(1)] fin x]
  then obtain y where y: "ledger_entry (rs_ledger rs') (gg_idempotency_key g) = Some y"
      "en_grant y = Some (execution_grant_hash g)" "en_receipt y = Some (evidence_receipt g ev)" by blast
  have "\<exists>e. reconcile t' probe verifier g rs' = (Inl e, rs')"
    using not_started_refused [OF ledger_reachable_ok [OF res(1)] y(1)] y(3) by simp
  moreover have "rc_status out \<noteq> ''NEEDS_RECOVERY''" by (simp add: out mk_recon_receipt_def)
  moreover have "oe_evidence_refs ev \<noteq> []" "list_all public_ref (oe_evidence_refs ev)"
      "oe_outcome ev \<in> {''NO_EFFECT'', ''SUCCEEDED'', ''FAILED'', ''PARTIAL''}"
    using resolved(2) unfolding conclusive_def evidence_checks_Inr by (auto simp: validate_evidence_def)
  moreover note conclusiveD(1-3,5,11) [OF resolved(2)]
  ultimately show ?thesis
    using y resolved(1)
    by (auto simp: out mk_recon_receipt_def recon_rollback_def recon_reason_def mk_rollback_request_def Let_def)
qed (use assms(3) in auto)

text \<open>
  A failed reconciliation writes nothing: both stores are as they were, or as the probe left them.
\<close>

theorem reconcile_error_writes_nothing:
  assumes "ledger_reachable (rs_ledger rs)" "probe_via_ledger probe" "reconcile t probe verifier g rs = (Inl e, rs')"
  shows "rs' = rs \<or> (\<exists>r. probe g rs = (r, rs'))"
  using assms(1,2) by (cases rule: reconcile_cases [of rs probe t verifier g]) (use assms(3) in auto)

text \<open>
  C33. No started operation is stuck for good: when the adapter raised after the effect was started,
  and the probe then brings conclusive evidence without touching the stores, reconciliation
  returns a receipt and the ledger entry of the operation becomes terminal.
\<close>

theorem broken_run_recoverable:
  assumes "ledger_reachable (rs_ledger rs)" "via_ledger executor"
    and "exec_run t0 t1 t2 executor g rs = (Inl (GreenExecutionError ''EXECUTION_ADAPTER_EXCEPTION_NEEDS_RECOVERY''), rs')"
    and "ledger_status (gg_idempotency_key g) (rs_ledger rs') = Some ''STARTED''"
    and "probe g rs' = (Inr ev, rs')" "conclusive verifier g ev" "probe_via_ledger probe"
    and "exec_begin t0 g rs = (Inr st, rs1)"
  shows "\<exists>out rs''. reconcile t probe verifier g rs' = (Inr out, rs'') \<and> rc_status out \<noteq> ''NEEDS_RECOVERY'' \<and>
    ledger_status (gg_idempotency_key g) (rs_ledger rs'') \<in> {Some ''COMPLETED'', Some ''FAILED''}"
proof -
  note begun = begin_InrD [OF assms(1,8)]
  obtain x where x: "ledger_entry (rs_ledger rs1) (gg_idempotency_key g) = Some x" "granted_entry g x"
      "en_grant x = Some (execution_grant_hash g)"
    using begun(5) by (force simp: granted_entry_def)
  obtain r rs2 where ex: "executor g rs1 = (r, rs2)" by (cases "executor g rs1")
  have lane: "\<exists>lane. gg_lane g = lane_value lane" using begun(2) by (auto simp: lease_for_def)
  have rs': "rs' = rs2"
    using assms(3,8) ex finalize_abort_ledger lane by (cases r) (auto simp: exec_run_def)
  note via = via_ledgerD [OF assms(2) ex begun(4) x(1)]
  then have ok: "ledger_ok (rs_ledger rs')" using rs' ledger_reachable_ok by simp
  obtain y where y: "ledger_entry (rs_ledger rs') (gg_idempotency_key g) = Some y" "evolves x y"
    using via(2) rs' by blast
  have sy: "started_entry g y"
    using y x status_open(2) [OF ok y(1)] assms(4) by (auto simp: started_entry_def granted_entry_def evolves_def)
  obtain b rs'' v where run: "reconcile t probe verifier g rs' = (Inr (mk_recon_receipt g (execution_grant_hash g) ev b), rs'')"
    and fin: "ledger_finish (grant_identity g) (gg_fence_token g) (oe_outcome ev = ''SUCCEEDED'') (recon_reason ev)
      (oe_resources ev) (oe_before_state_ref ev) (oe_after_state_ref ev) (oe_validation_status ev) (rs_ledger rs') = (Inr v, rs_ledger rs'')"
    using conclusive_resolves [where probe = probe, OF ok y(1) sy assms(5,6)] by blast
  have "en_grant y = Some (execution_grant_hash g)" using sy by (simp add: started_entry_def)
  note res = resolved_entry [OF via(1) [folded rs'] fin y(1) this]
  then obtain z where z: "ledger_entry (rs_ledger rs'') (gg_idempotency_key g) = Some z" "en_receipt z = Some (evidence_receipt g ev)"
    by blast
  have "ledger_status (gg_idempotency_key g) (rs_ledger rs'') \<in> {Some ''COMPLETED'', Some ''FAILED''}"
    using ledger_status_entry [OF ledger_reachable_ok [OF res(1)], of "gg_idempotency_key g"] z
    by (simp add: entry_status_def)
  then show ?thesis using run by (auto simp: mk_recon_receipt_def)
qed

subsection \<open>Witnesses\<close>

definition demo_evidence :: "green_grant \<Rightarrow> outcome_evidence" where
  "demo_evidence g = \<lparr>oe_operation_id = gg_operation_id g, oe_idempotency_key = gg_idempotency_key g,
     oe_adapter_id = gg_adapter_id g, oe_target_state_ref = gg_target_state_ref g, oe_fence_token = gg_fence_token g,
     oe_execution_grant_hash = execution_grant_hash g, oe_resources = ev_resources (gg_planner_envelope g),
     oe_effects = ev_effects (gg_planner_envelope g), oe_outcome = ''PARTIAL'', oe_reason_code = ''OK'',
     oe_before_state_ref = ''state:a'', oe_after_state_ref = ''state:b'', oe_validation_status = ''FAIL'',
     oe_evidence_refs = [''state:b''], oe_fresh = True, oe_rollback_requested = False\<rparr>"

definition demo_probe :: outcome_probe where
  "demo_probe g rs = (Inr (demo_evidence g), rs)"

definition demo_verifier :: "evidence_verifier option" where
  "demo_verifier = Some (\<lambda>g ev. Inr True)"

lemma demo_probe_via: "probe_via_ledger demo_probe"
proof -
  have "\<exists>cs. rs_ledger rs = snd (run_ops ledger_exec cs (rs_ledger rs))" for rs :: runner_state
    by (rule exI [of _ "[]"]) simp
  then show ?thesis by (simp add: probe_via_ledger_def demo_probe_def)
qed

lemma demo_valid_evidence:
  "gg_planner_envelope g = demo_envelope \<Longrightarrow> validate_evidence g (demo_evidence g) (execution_grant_hash g) = Inr ()"
  using demo_public_refs by (simp add: validate_evidence_def demo_evidence_def demo_envelope_def)

lemma demo_conclusive: "gg_planner_envelope g = demo_envelope \<Longrightarrow> conclusive demo_verifier g (demo_evidence g)"
  using demo_valid_evidence [of g] demo_public_refs unfolding conclusive_def evidence_checks_Inr
  by (simp add: demo_verifier_def) (simp add: demo_evidence_def)

text \<open>An operation left started by an adapter that raised.\<close>

lemma demo_broken_run:
  "\<exists>g rs st rs'. ledger_reachable (rs_ledger rs) \<and> exec_begin 0 g rs = (Inr st, rs') \<and>
    exec_run 0 0 0 broken_executor g rs = (Inl (GreenExecutionError ''EXECUTION_ADAPTER_EXCEPTION_NEEDS_RECOVERY''), rs') \<and>
    gg_planner_envelope g = demo_envelope \<and> ledger_status (gg_idempotency_key g) (rs_ledger rs') = Some ''STARTED'' \<and>
    ledger_reachable (rs_ledger rs') \<and> (\<exists>s. require_started g (rs_ledger rs') = Inr s)"
proof -
  obtain g rs st rs' where b: "ledger_reachable (rs_ledger rs)" "exec_begin 0 g rs = (Inr st, rs')"
      "gg_planner_envelope g = demo_envelope"
    using demo_started by blast
  note begun = begin_InrD [OF b(1,2)]
  note ok = ledger_reachable_ok [OF begun(4)]
  obtain x where x: "ledger_entry (rs_ledger rs') (gg_idempotency_key g) = Some x" "granted_entry g x"
      "en_grant x = Some (execution_grant_hash g)"
    using begun(5) by (force simp: granted_entry_def)
  then have sx: "started_entry g x" by (simp add: started_entry_def granted_entry_def)
  have "ledger_status (gg_idempotency_key g) (rs_ledger rs') = Some ''STARTED''"
    using x(2,3) by (simp add: status_open(2) [OF ok x(1)] granted_entry_def)
  moreover have "\<exists>s. require_started g (rs_ledger rs') = Inr s"
    using require_started_Inr(1) [OF ok, of g] x(1) sx by blast
  moreover have "exec_run 0 0 0 broken_executor g rs =
      (Inl (GreenExecutionError ''EXECUTION_ADAPTER_EXCEPTION_NEEDS_RECOVERY''), rs')"
    using b(2) by (simp add: exec_run_def broken_executor_def)
  ultimately show ?thesis using b begun(4) by blast
qed

theorem broken_run_recoverable_witness:
  "\<exists>g rs' out rs''. reconcile 0 demo_probe demo_verifier g rs' = (Inr out, rs'') \<and> rc_status out \<noteq> ''NEEDS_RECOVERY'' \<and>
     ledger_status (gg_idempotency_key g) (rs_ledger rs'') \<in> {Some ''COMPLETED'', Some ''FAILED''}"
proof -
  obtain g rs st rs' where b: "ledger_reachable (rs_ledger rs)" "exec_begin 0 g rs = (Inr st, rs')"
    "exec_run 0 0 0 broken_executor g rs = (Inl (GreenExecutionError ''EXECUTION_ADAPTER_EXCEPTION_NEEDS_RECOVERY''), rs')"
    "gg_planner_envelope g = demo_envelope" "ledger_status (gg_idempotency_key g) (rs_ledger rs') = Some ''STARTED''"
    using demo_broken_run by blast
  have p: "demo_probe g rs' = (Inr (demo_evidence g), rs')" by (simp add: demo_probe_def)
  from broken_run_recoverable [OF b(1) demo_via_ledger(2) b(3,5) p demo_conclusive [OF b(4)] demo_probe_via b(2), of 0]
  show ?thesis by blast
qed

theorem reconcile_resolves_once_witness:
  "\<exists>g rs' out rs''. reconcile 0 demo_probe demo_verifier g rs' = (Inr out, rs'') \<and> rc_status out = ''RECONCILED_FAILED'' \<and>
     (\<exists>e. reconcile 1 demo_probe demo_verifier g rs'' = (Inl e, rs''))"
proof -
  obtain g and rs' :: runner_state where b: "gg_planner_envelope g = demo_envelope" "ledger_reachable (rs_ledger rs')"
      "\<exists>s. require_started g (rs_ledger rs') = Inr s"
    using demo_broken_run by blast
  note ok = ledger_reachable_ok [OF b(2)]
  obtain x where x: "ledger_entry (rs_ledger rs') (gg_idempotency_key g) = Some x" "started_entry g x"
    using require_started_Inr(1) [OF ok, of g] b(3) by blast
  have p: "demo_probe g rs' = (Inr (demo_evidence g), rs')" by (simp add: demo_probe_def)
  obtain b' rs'' where run: "reconcile 0 demo_probe demo_verifier g rs' =
      (Inr (mk_recon_receipt g (execution_grant_hash g) (demo_evidence g) b'), rs'')"
    using conclusive_resolves [where probe = demo_probe, OF ok x p demo_conclusive [OF b(1)]] by blast
  have st: "rc_status (mk_recon_receipt g (execution_grant_hash g) (demo_evidence g) b') = ''RECONCILED_FAILED''"
    by (simp add: mk_recon_receipt_def demo_evidence_def)
  have "\<exists>e. reconcile 1 demo_probe demo_verifier g rs'' = (Inl e, rs'')"
    using reconcile_resolves_once [OF b(2) demo_probe_via run, of 1] st by auto
  then show ?thesis using run st by blast
qed

theorem reconcile_error_writes_nothing_witness:
  "\<exists>g rs'. reconcile 0 demo_probe None g rs' = (Inl (ReconciliationError ''RECONCILIATION_EVIDENCE_VERIFIER_REQUIRED''), rs') \<and>
     (\<exists>r. demo_probe g rs' = (r, rs'))"
proof -
  obtain g and rs' :: runner_state where b: "gg_planner_envelope g = demo_envelope" "ledger_reachable (rs_ledger rs')"
      "\<exists>s. require_started g (rs_ledger rs') = Inr s"
    using demo_broken_run by blast
  obtain s where s: "require_started g (rs_ledger rs') = Inr s" using b(3) by blast
  have run: "reconcile 0 demo_probe None g rs' = (Inl (ReconciliationError ''RECONCILIATION_EVIDENCE_VERIFIER_REQUIRED''), rs')"
    using s demo_valid_evidence [OF b(1)] require_started_Inr(2) [OF ledger_reachable_ok [OF b(2)] s]
    by (simp add: reconcile_def demo_probe_def evidence_checks_def) (simp add: demo_evidence_def)
  from reconcile_error_writes_nothing [OF b(2) demo_probe_via run] run show ?thesis
    by (auto simp: demo_probe_def)
qed

end
