(* ===== verification/Recovery.thy ===== *)
theory Recovery
  imports Contracts
begin

text \<open>
  \<^verbatim>\<open>core/runner_vnext_recovery.py\<close>: the recovery kernel, a closed set of commands with one injected
  handler each.  A handler performs the recovery: it is an argument that acts on a state of its own
  (type \<open>'s\<close>) and may raise.
\<close>

subsection \<open>Definitions\<close>

datatype recovery_command = REFRESH_TRUST_ANCHOR_BUNDLE | POLLER_RELOAD_AND_STALE_REACTIVATION | CHECKOUT_FRESHNESS_CANARY
  | TYPED_REPAIR_RUNTIME_STATE | QUEUE_FENCE_RESET

fun command_value :: "recovery_command \<Rightarrow> string" where
  "command_value REFRESH_TRUST_ANCHOR_BUNDLE = ''refresh_trust_anchor_bundle''"
| "command_value POLLER_RELOAD_AND_STALE_REACTIVATION = ''poller_reload_and_stale_reactivation''"
| "command_value CHECKOUT_FRESHNESS_CANARY = ''checkout_freshness_canary''"
| "command_value TYPED_REPAIR_RUNTIME_STATE = ''typed_repair_runtime_state''"
| "command_value QUEUE_FENCE_RESET = ''queue_fence_reset''"

definition recovery_commands :: "recovery_command list" where
  "recovery_commands = [REFRESH_TRUST_ANCHOR_BUNDLE, POLLER_RELOAD_AND_STALE_REACTIVATION, CHECKOUT_FRESHNESS_CANARY,
     TYPED_REPAIR_RUNTIME_STATE, QUEUE_FENCE_RESET]"

fun command_effect_ceiling :: "recovery_command \<Rightarrow> effect_class" where
  "command_effect_ceiling REFRESH_TRUST_ANCHOR_BUNDLE = YELLOW"
| "command_effect_ceiling POLLER_RELOAD_AND_STALE_REACTIVATION = YELLOW"
| "command_effect_ceiling CHECKOUT_FRESHNESS_CANARY = GREEN"
| "command_effect_ceiling TYPED_REPAIR_RUNTIME_STATE = YELLOW"
| "command_effect_ceiling QUEUE_FENCE_RESET = YELLOW"

record recovery_request =
  rr_request_id :: string
  rr_command :: recovery_command
  rr_target_state_ref :: string
  rr_idempotency_key :: string
  rr_bounded_resources :: "string list"
  rr_expected_effects :: "string list"
  rr_approval_evidence :: "string list"
  rr_current_fence_token :: "int option"

record recovery_context =
  rx_current_target_state_ref :: string
  rx_current_fence_token :: "int option"

record recovery_handler_result =
  hr_reason_code :: string
  hr_touched_resource_refs :: "string list"
  hr_before_state_ref :: string
  hr_after_state_ref :: string
  hr_validation_status :: string

record recovery_receipt =
  ry_request_id :: string
  ry_command :: recovery_command
  ry_idempotency_key :: string
  ry_status :: string
  ry_reason_code :: string
  ry_effect_ceiling :: effect_class
  ry_touched_resource_refs :: "string list"
  ry_before_state_ref :: string
  ry_after_state_ref :: string
  ry_validation_status :: string

type_synonym 's recovery_handler = "recovery_request \<Rightarrow> recovery_context \<Rightarrow> ('s, recovery_handler_result) op"
type_synonym 's recovery_handlers = "(string \<times> 's recovery_handler) list"

text \<open>
  A key of the handler mapping is compared as its string value, since the enumeration derives from
  \<^verbatim>\<open>str\<close>.
\<close>

definition mk_recovery_kernel :: "'s recovery_handlers \<Rightarrow> 's recovery_handlers res" where
  "mk_recovery_kernel handlers =
     rbind (raise_if (\<not> set (map fst handlers) \<subseteq> set (map command_value recovery_commands))
       (RecoveryError ''UNKNOWN_RECOVERY_HANDLER'')) (\<lambda>_. Inr handlers)"

definition recovery_ref_ok :: "string \<Rightarrow> bool" where
  "recovery_ref_ok r \<longleftrightarrow> \<not> (r = [] \<or> startswith_any [''/'', ''~''] r \<or> py_contains r [CHR 0x5C] \<or> py_contains r ''..'') \<and>
     py_contains r '':''"

definition recovery_public_refs :: "string list \<Rightarrow> unit res" where
  "recovery_public_refs refs = check_all recovery_ref_ok (RecoveryError ''RECOVERY_PUBLIC_REF_REQUIRED'') refs"

definition validate_effect_ceiling :: "recovery_request \<Rightarrow> unit res" where
  "validate_effect_ceiling rq =
     (let effects = set (rr_expected_effects rq) in guards [
       (effects = {} \<or> \<not> effects \<subseteq> set green_effects \<union> set yellow_effects \<union> set red_effects,
          RecoveryError ''RECOVERY_EFFECT_UNKNOWN''),
       (effects \<inter> set red_effects \<noteq> {}, RecoveryError ''RECOVERY_RED_EFFECT_PROHIBITED''),
       (command_effect_ceiling (rr_command rq) = GREEN \<and> effects \<inter> set yellow_effects \<noteq> {},
          RecoveryError ''RECOVERY_EFFECT_CEILING_EXCEEDED'')])"

definition recovery_reason :: "string \<Rightarrow> unit res" where
  "recovery_reason v = raise_if (v = [] \<or> list_ex (\<lambda>ch. ch \<notin> set upper_digits_underscore) v)
     (RecoveryError ''RECOVERY_REASON_CODE_INVALID'')"

text \<open>The checks before and after the handler runs.\<close>

definition recovery_checks :: "recovery_request \<Rightarrow> recovery_context \<Rightarrow> unit res" where
  "recovery_checks rq cx =
     rbind (guards [
       (rr_target_state_ref rq \<noteq> rx_current_target_state_ref cx, RecoveryError ''RECOVERY_TARGET_STATE_MISMATCH''),
       (rr_idempotency_key rq = [] \<or> rr_request_id rq = [], RecoveryError ''RECOVERY_IDENTITY_REQUIRED''),
       (rr_bounded_resources rq = [], RecoveryError ''RECOVERY_BOUNDED_RESOURCES_REQUIRED'')]) (\<lambda>_.
     rbind (validate_effect_ceiling rq) (\<lambda>_.
     if rr_command rq = QUEUE_FENCE_RESET then guards [
       (rr_current_fence_token rq = None \<or> rx_current_fence_token cx = None, RecoveryError ''RECOVERY_FENCE_EVIDENCE_REQUIRED''),
       (rr_current_fence_token rq \<noteq> rx_current_fence_token cx, RecoveryError ''RECOVERY_STALE_FENCE_EVIDENCE'')]
     else Inr ()))"

definition recovery_result_checks :: "recovery_request \<Rightarrow> recovery_handler_result \<Rightarrow> unit res" where
  "recovery_result_checks rq r =
     rbind (recovery_public_refs (rr_bounded_resources rq)) (\<lambda>_.
     rbind (recovery_public_refs (hr_touched_resource_refs r)) (\<lambda>_.
     rbind (recovery_public_refs [hr_before_state_ref r, hr_after_state_ref r]) (\<lambda>_.
     rbind (raise_if (\<not> set (hr_touched_resource_refs r) \<subseteq> set (rr_bounded_resources rq))
        (RecoveryError ''RECOVERY_RESOURCE_SCOPE_EXCEEDED'')) (\<lambda>_.
     rbind (recovery_reason (hr_reason_code r)) (\<lambda>_.
     raise_if (hr_validation_status r \<notin> {''PASS'', ''FAIL''}) (RecoveryError ''RECOVERY_VALIDATION_STATUS_INVALID''))))))"

definition recovery_execute :: "'s recovery_handlers \<Rightarrow> recovery_request \<Rightarrow> recovery_context \<Rightarrow> ('s, recovery_receipt) op" where
  "recovery_execute handlers rq cx =
     guarded (rbind (recovery_checks rq cx) (\<lambda>_. case map_of handlers (command_value (rr_command rq)) of
         None \<Rightarrow> Inl (RecoveryError ''RECOVERY_HANDLER_UNAVAILABLE'') | Some handler \<Rightarrow> Inr handler)) (\<lambda>handler.
       sbind (handler rq cx) (\<lambda>r s.
         (rbind (recovery_result_checks rq r) (\<lambda>_.
            Inr \<lparr>ry_request_id = rr_request_id rq, ry_command = rr_command rq, ry_idempotency_key = rr_idempotency_key rq,
              ry_status = (if hr_validation_status r = ''PASS'' then ''DONE'' else ''FAILED''),
              ry_reason_code = hr_reason_code r, ry_effect_ceiling = command_effect_ceiling (rr_command rq),
              ry_touched_resource_refs = hr_touched_resource_refs r, ry_before_state_ref = hr_before_state_ref r,
              ry_after_state_ref = hr_after_state_ref r, ry_validation_status = hr_validation_status r\<rparr>), s)))"

subsection \<open>Lemmas\<close>

interpretation recovery_ref: relative_ref_guard recovery_ref_ok
  by unfold_locales (auto simp: recovery_ref_ok_def startswith_any_def prefix_singleton)

lemma command_value_inject [simp]: "command_value a = command_value b \<longleftrightarrow> a = b"
  by (cases a; cases b) simp_all

lemma recovery_commands_all: "c \<in> set recovery_commands"
  by (cases c) (simp_all add: recovery_commands_def)

lemma recovery_executeD:
  assumes "recovery_execute handlers rq cx s = (Inr out, s')"
  shows "\<exists>handler r. recovery_checks rq cx = Inr () \<and> map_of handlers (command_value (rr_command rq)) = Some handler \<and>
    handler rq cx s = (Inr r, s') \<and> recovery_result_checks rq r = Inr () \<and> ry_touched_resource_refs out = hr_touched_resource_refs r \<and>
    ry_status out = (if hr_validation_status r = ''PASS'' then ''DONE'' else ''FAILED'') \<and> ry_command out = rr_command rq \<and>
    ry_effect_ceiling out = command_effect_ceiling (rr_command rq) \<and> ry_idempotency_key out = rr_idempotency_key rq \<and>
    ry_before_state_ref out = hr_before_state_ref r \<and> ry_after_state_ref out = hr_after_state_ref r"
  using assms
  by (auto simp: recovery_execute_def guarded_Inr_iff sbind_Inr_iff split: option.splits)

subsection \<open>Properties\<close>

text \<open>
  C34. A recovery receipt certifies a confined recovery: the request named the current target state, its
  effects are known, none is RED, and none is YELLOW for a GREEN-capped command; a fence reset
  presented the current fence; the handler registered for exactly that command ran and what it
  touched lies inside the request's bounded, namespaced resources; DONE means validation passed.
\<close>

theorem recovery_confined:
  assumes "recovery_execute handlers rq cx s = (Inr out, s')"
  shows "rr_target_state_ref rq = rx_current_target_state_ref cx \<and>
    set (rr_expected_effects rq) \<noteq> {} \<and> set (rr_expected_effects rq) \<inter> set red_effects = {} \<and>
    set (rr_expected_effects rq) \<subseteq> set green_effects \<union> set yellow_effects \<and>
    (ry_effect_ceiling out = GREEN \<longrightarrow> set (rr_expected_effects rq) \<subseteq> set green_effects) \<and>
    (rr_command rq = QUEUE_FENCE_RESET \<longrightarrow> rr_current_fence_token rq \<noteq> None \<and> rr_current_fence_token rq = rx_current_fence_token cx) \<and>
    (\<exists>handler r. map_of handlers (command_value (rr_command rq)) = Some handler \<and> handler rq cx s = (Inr r, s') \<and>
       (ry_status out = ''DONE'') = (hr_validation_status r = ''PASS'')) \<and>
    set (ry_touched_resource_refs out) \<subseteq> set (rr_bounded_resources rq) \<and>
    (\<forall>ref\<in>set (rr_bounded_resources rq) \<union> {ry_before_state_ref out, ry_after_state_ref out}.
       CHR '':'' \<in> set ref \<and> hd ref \<notin> {CHR ''/'', CHR ''~''} \<and> \<not> sublist ''..'' ref)"
proof -
  obtain handler r where c: "recovery_checks rq cx = Inr ()" "map_of handlers (command_value (rr_command rq)) = Some handler"
      "handler rq cx s = (Inr r, s')" "recovery_result_checks rq r = Inr ()"
      "ry_touched_resource_refs out = hr_touched_resource_refs r" "ry_status out = (if hr_validation_status r = ''PASS'' then ''DONE'' else ''FAILED'')"
      "ry_effect_ceiling out = command_effect_ceiling (rr_command rq)"
      "ry_before_state_ref out = hr_before_state_ref r" "ry_after_state_ref out = hr_after_state_ref r"
    using recovery_executeD [OF assms] by blast
  have refs: "\<forall>ref\<in>set (rr_bounded_resources rq) \<union> {ry_before_state_ref out, ry_after_state_ref out}. recovery_ref_ok ref"
    and touched: "set (hr_touched_resource_refs r) \<subseteq> set (rr_bounded_resources rq)"
    using c(4,8,9) by (auto simp: recovery_result_checks_def recovery_public_refs_def split: if_splits)
  have eff: "set (rr_expected_effects rq) \<noteq> {} \<and> set (rr_expected_effects rq) \<inter> set red_effects = {} \<and>
      set (rr_expected_effects rq) \<subseteq> set green_effects \<union> set yellow_effects \<and>
      (ry_effect_ceiling out = GREEN \<longrightarrow> set (rr_expected_effects rq) \<inter> set yellow_effects = {})"
    using c(1,7) unfolding recovery_checks_def validate_effect_ceiling_def Let_def by auto
  have "rr_target_state_ref rq = rx_current_target_state_ref cx \<and> (rr_command rq = QUEUE_FENCE_RESET \<longrightarrow>
      rr_current_fence_token rq \<noteq> None \<and> rr_current_fence_token rq = rx_current_fence_token cx)"
    using c(1) by (auto simp: recovery_checks_def split: if_splits)
  then show ?thesis
    using eff touched c(2,3,5,6) refs recovery_ref.namespaced recovery_ref.not_rooted recovery_ref.no_dots by auto
qed

text \<open>
  Where a failed recovery leaves the world.  Refused by the checks or for want of a handler, nothing
  ran.  Otherwise the handler ran: its own exception or a rejected result is reported with the state it
  left behind, in particular when the request's resources are malformed, which is checked only then.
\<close>

theorem recovery_failure_state:
  assumes "recovery_execute handlers rq cx s = (Inl e, s')"
  shows "(recovery_checks rq cx \<noteq> Inr () \<or> map_of handlers (command_value (rr_command rq)) = None) \<and> s' = s \<or>
    (\<exists>handler r. map_of handlers (command_value (rr_command rq)) = Some handler \<and> handler rq cx s = (r, s') \<and>
      (case r of Inl e' \<Rightarrow> e = e' | Inr res \<Rightarrow> recovery_result_checks rq res = Inl e))"
proof (cases "recovery_checks rq cx")
  case (Inl e')
  then show ?thesis using assms by (simp add: recovery_execute_def)
next
  case (Inr u)
  then show ?thesis
    using assms
    by (cases "map_of handlers (command_value (rr_command rq))")
      (auto simp: recovery_execute_def sbind_def split: prod.splits sum.splits)
qed

subsection \<open>Witnesses\<close>

definition demo_recovery_request :: recovery_request where
  "demo_recovery_request = \<lparr>rr_request_id = ''req:1'', rr_command = CHECKOUT_FRESHNESS_CANARY, rr_target_state_ref = ''state:a'',
     rr_idempotency_key = ''idem:1'', rr_bounded_resources = [''repo:x''], rr_expected_effects = [''read''],
     rr_approval_evidence = [], rr_current_fence_token = None\<rparr>"

definition demo_recovery_context :: recovery_context where
  "demo_recovery_context = \<lparr>rx_current_target_state_ref = ''state:a'', rx_current_fence_token = None\<rparr>"

definition demo_recovery_handlers :: "nat recovery_handlers" where
  "demo_recovery_handlers = [(''checkout_freshness_canary'', \<lambda>rq cx n. (Inr \<lparr>hr_reason_code = ''FRESH'',
     hr_touched_resource_refs = [''repo:x''], hr_before_state_ref = ''state:a'', hr_after_state_ref = ''state:a'',
     hr_validation_status = ''PASS''\<rparr>, n + 1))]"

definition demo_bad_request :: recovery_request where
  "demo_bad_request = demo_recovery_request\<lparr>rr_bounded_resources := [''/etc/passwd'']\<rparr>"

lemma demo_recovery_runs:
  "recovery_execute demo_recovery_handlers demo_recovery_request demo_recovery_context 0 =
     (Inr \<lparr>ry_request_id = ''req:1'', ry_command = CHECKOUT_FRESHNESS_CANARY, ry_idempotency_key = ''idem:1'', ry_status = ''DONE'',
        ry_reason_code = ''FRESH'', ry_effect_ceiling = GREEN, ry_touched_resource_refs = [''repo:x''],
        ry_before_state_ref = ''state:a'', ry_after_state_ref = ''state:a'', ry_validation_status = ''PASS''\<rparr>, 1)"
  "recovery_execute demo_recovery_handlers demo_bad_request demo_recovery_context 0 =
     (Inl (RecoveryError ''RECOVERY_PUBLIC_REF_REQUIRED''), 1)"
  by (code_simp, code_simp)

theorem recovery_confined_witness:
  "\<exists>out. recovery_execute demo_recovery_handlers demo_recovery_request demo_recovery_context 0 = (Inr out, 1) \<and>
     set (ry_touched_resource_refs out) \<subseteq> {''repo:x''}"
proof -
  obtain out where "recovery_execute demo_recovery_handlers demo_recovery_request demo_recovery_context 0 = (Inr out, 1)"
    using demo_recovery_runs(1) by blast
  from this recovery_confined [OF this] show ?thesis by (auto simp: demo_recovery_request_def)
qed

theorem recovery_failure_state_witness:
  "\<exists>handler r. map_of demo_recovery_handlers ''checkout_freshness_canary'' = Some handler \<and>
     handler demo_bad_request demo_recovery_context 0 = (r, 1)"
  using recovery_failure_state [OF demo_recovery_runs(2)] by (auto simp: demo_bad_request_def demo_recovery_request_def)

end
