(* ===== verification/Shadow.thy ===== *)
theory Shadow
  imports Contracts
begin

text \<open>
  \<^verbatim>\<open>core/runner_vnext_compat.py\<close> and \<^verbatim>\<open>core/runner_vnext_shadow.py\<close>: a legacy task is adapted to the
  vNext vocabulary and classified, and the verdict is compared with the legacy class.  Pure code; the
  exceptions of the adapter are values.
\<close>

subsection \<open>The compatibility adapter\<close>

record legacy_observation =
  lo_source_task_ref :: string
  lo_target_state_ref :: string
  lo_repo :: string
  lo_branch :: string
  lo_task_kind :: string
  lo_requested_capabilities :: "string list"
  lo_allowed_files :: "string list"
  lo_privacy_boundary :: string
  lo_legacy_effect_class :: "effect_class option"
  lo_legacy_status :: string
  lo_evidence_refs :: "string list"

record adapted_task =
  at_task :: universal_task
  at_operation :: operation_ir
  at_policy_input :: policy_input

definition kind_map :: "(string \<times> string \<times> string \<times> reversibility) list" where
  "kind_map = [
     (''code_edit'', ''workspace_write'', ''workspace_write'', REVERSIBLE),
     (''code_generation'', ''workspace_write'', ''workspace_write'', REVERSIBLE),
     (''diagnostic'', ''read'', ''read'', REVERSIBLE),
     (''publish'', ''draft_pr_open'', ''draft_pr_open'', BOUNDED_REVERSIBLE),
     (''private_memory'', ''private_compute'', ''private_compute'', REVERSIBLE)]"

definition protected_exact :: "string list" where
  "protected_exact = [''BOOT_MANIFEST.yaml'', ''PROJECT_TREE.yaml'', ''OPERATOR_RULES.yaml'', ''CAPABILITY_REGISTRY.yaml'',
     ''scripts/runner_poll_github_tasks.py'', ''core/gate_engine.py'', ''core/action_gate.py'']"

definition protected_prefixes :: "string list" where
  "protected_prefixes = [''.github/workflows/'', ''secrets/'', ''deploy/'', ''server/'', ''finance/'', ''legal/'', ''governance/'',
     ''Runner_core/'', ''adapter_boundaries/'']"

definition status_chars :: string where
  "status_chars = ''ABCDEFGHIJKLMNOPQRSTUVWXYZabcdefghijklmnopqrstuvwxyz0123456789_.:-''"

definition compat_ref_ok :: "string \<Rightarrow> bool" where
  "compat_ref_ok v \<longleftrightarrow> \<not> (startswith_any [''/'', ''~''] v \<or> py_contains v [CHR 0x5C] \<or> py_contains v ''..'' \<or> \<not> py_contains v '':'')"

definition compat_public_ref :: "string \<Rightarrow> unit res" where
  "compat_public_ref v = raise_if (\<not> compat_ref_ok v) (CompatError ''PUBLIC_SAFE_REF_REQUIRED'')"

definition legacy_path_ok :: "string \<Rightarrow> bool" where
  "legacy_path_ok path \<longleftrightarrow> \<not> (path = [] \<or> startswith_any [''/'', ''~''] path \<or> py_contains path [CHR 0x5C] \<or> py_contains path ''..'')"

definition validate_observation :: "legacy_observation \<Rightarrow> unit res" where
  "validate_observation ob =
     rbind (check_all (\<lambda>v. v \<noteq> []) (CompatError ''LEGACY_REQUIRED_FIELD_MISSING'')
       [lo_source_task_ref ob, lo_target_state_ref ob, lo_repo ob, lo_branch ob, lo_legacy_status ob]) (\<lambda>_.
     rbind (guards [
       (list_ex (\<lambda>ch. ch \<notin> set status_chars) (lo_legacy_status ob), CompatError ''LEGACY_STATUS_INVALID''),
       (\<not> py_contains (lo_repo ob) ''/'' \<or> startswith_any [''/'', ''~''] (lo_repo ob) \<or> py_contains (lo_repo ob) ''..'',
          CompatError ''LEGACY_REPO_INVALID''),
       (startswith_any [''/'', ''~''] (lo_branch ob) \<or> py_contains (lo_branch ob) ''..'' \<or> list_ex py_isspace (lo_branch ob),
          CompatError ''LEGACY_BRANCH_INVALID'')]) (\<lambda>_.
     rbind (compat_public_ref (lo_source_task_ref ob)) (\<lambda>_.
     rbind (compat_public_ref (lo_target_state_ref ob)) (\<lambda>_.
     rbind (for_each compat_public_ref (lo_evidence_refs ob)) (\<lambda>_.
     rbind (guards [
       (lo_requested_capabilities ob = [], CompatError ''LEGACY_CAPABILITIES_REQUIRED''),
       (lo_allowed_files ob = [], CompatError ''LEGACY_ALLOWED_FILES_REQUIRED'')]) (\<lambda>_.
     check_all legacy_path_ok (CompatError ''LEGACY_REPOSITORY_PATH_INVALID'') (lo_allowed_files ob)))))))"

definition compat_privacy :: "string \<Rightarrow> privacy_class res" where
  "compat_privacy v =
     (let n = py_upper v in
      if n \<in> {''PUBLIC_SAFE'', ''PUBLIC_SAFE_CODE_AND_TESTS_ONLY'', ''PUBLIC_SAFE_REPOSITORY_ONLY''} then Inr PUBLIC_SAFE
      else if n \<in> {''PRIVATE'', ''PRIVATE_LOCAL_ONLY'', ''PRIVATE_MEMORY''} then Inr PRIVATE
      else Inl (CompatError ''LEGACY_PRIVACY_BOUNDARY_UNSUPPORTED''))"

definition protected_path :: "string \<Rightarrow> bool" where
  "protected_path path \<longleftrightarrow> path \<in> set protected_exact \<or> startswith_any protected_prefixes path"

definition resource_ref :: "string \<Rightarrow> string" where
  "resource_ref path = (if protected_path path then ''protected'' else ''repo'') @ '':'' @ path"

definition adapt_legacy_task :: "legacy_observation \<Rightarrow> adapted_task res" where
  "adapt_legacy_task ob =
     rbind (validate_observation ob) (\<lambda>_.
     case map_of kind_map (lo_task_kind ob) of None \<Rightarrow> Inl (CompatError ''LEGACY_TASK_KIND_UNSUPPORTED'')
     | Some (operation_kind, effect, rv) \<Rightarrow>
         rbind (compat_privacy (lo_privacy_boundary ob)) (\<lambda>privacy.
         let resources = map resource_ref (lo_allowed_files ob);
             key = ''shadow:'' @ lo_source_task_ref ob @ ''@'' @ lo_target_state_ref ob
         in rbind (raise_if (lo_task_kind ob = ''private_memory'' \<and> privacy \<noteq> PRIVATE)
              (CompatError ''LEGACY_PRIVATE_TASK_PRIVACY_MISMATCH'')) (\<lambda>_.
            rbind (mk_operation_ir (''shadow:'' @ lo_source_task_ref ob) operation_kind resources [effect] key) (\<lambda>operation.
            Inr \<lparr>at_task = \<lparr>task_id = lo_source_task_ref ob, task_intent = ''legacy:'' @ lo_task_kind ob,
                   task_domain = ''legacy_runner'', task_target_resources = resources,
                   task_required_capabilities = lo_requested_capabilities ob, task_privacy = privacy,
                   task_reversibility = rv, task_expected_effects = [effect], task_validation = [''shadow_parity_only''],
                   task_rollback = [''no_effects_executed''], task_idempotency_key = key,
                   task_operator_boundary_evidence = lo_evidence_refs ob\<rparr>,
                 at_operation = operation,
                 at_policy_input = \<lparr>pi_operation = operation, pi_reversibility = rv, pi_privacy = privacy,
                   pi_target_state_ref = Some (lo_target_state_ref ob),
                   pi_operator_boundary_evidence = lo_evidence_refs ob\<rparr>\<rparr>))))"

subsection \<open>The parity harness\<close>

datatype divergence_kind = MATCH | VNEXT_STRICTER | LEGACY_STRICTER | INCOMPARABLE | INVALID_LEGACY_INPUT

fun divergence_value :: "divergence_kind \<Rightarrow> string" where
  "divergence_value MATCH = ''MATCH''"
| "divergence_value VNEXT_STRICTER = ''VNEXT_STRICTER''"
| "divergence_value LEGACY_STRICTER = ''LEGACY_STRICTER''"
| "divergence_value INCOMPARABLE = ''INCOMPARABLE''"
| "divergence_value INVALID_LEGACY_INPUT = ''INVALID_LEGACY_INPUT''"

record parity_receipt =
  sp_source_task_ref :: string
  sp_target_state_ref :: string
  sp_legacy_effect_class :: "effect_class option"
  sp_legacy_status :: string
  sp_vnext_effect_class :: "effect_class option"
  sp_vnext_reason_code :: string
  sp_divergence :: divergence_kind
  sp_evidence_refs :: "string list"
  sp_side_effects_executed :: bool

fun effect_rank :: "effect_class \<Rightarrow> int" where
  "effect_rank GREEN = 0" | "effect_rank YELLOW = 1" | "effect_rank RED = 2"

definition compare_class :: "effect_class option \<Rightarrow> effect_class \<Rightarrow> divergence_kind" where
  "compare_class legacy vnext =
     (case legacy of None \<Rightarrow> INCOMPARABLE
      | Some l \<Rightarrow> if l = vnext then MATCH else if effect_rank vnext > effect_rank l then VNEXT_STRICTER else LEGACY_STRICTER)"

definition public_safe_ref :: "string \<Rightarrow> bool" where
  "public_safe_ref v \<longleftrightarrow> v \<noteq> [] \<and> \<not> startswith_any [''/'', ''~''] v \<and> \<not> py_contains v [CHR 0x5C] \<and> \<not> py_contains v ''..'' \<and>
     py_contains v '':''"

definition safe_ref_or_redacted :: "string \<Rightarrow> string \<Rightarrow> string" where
  "safe_ref_or_redacted v k = (if public_safe_ref v then v else ''redacted:invalid-'' @ k @ ''-ref'')"

definition safe_status_or_redacted :: "string \<Rightarrow> string" where
  "safe_status_or_redacted v =
     (if v \<noteq> [] \<and> list_all (\<lambda>ch. ch \<in> set status_chars) v then v else ''redacted:invalid-legacy-status'')"

fun is_compat_error :: "exn \<Rightarrow> bool" where
  "is_compat_error (CompatError r) = True" | "is_compat_error e = False"

definition shadow_evaluate :: "legacy_observation \<Rightarrow> parity_receipt res" where
  "shadow_evaluate ob =
     (case adapt_legacy_task ob of
        Inl e \<Rightarrow> if is_compat_error e then
            Inr \<lparr>sp_source_task_ref = safe_ref_or_redacted (lo_source_task_ref ob) ''source'',
              sp_target_state_ref = safe_ref_or_redacted (lo_target_state_ref ob) ''target'',
              sp_legacy_effect_class = lo_legacy_effect_class ob, sp_legacy_status = safe_status_or_redacted (lo_legacy_status ob),
              sp_vnext_effect_class = None, sp_vnext_reason_code = reason_code e, sp_divergence = INVALID_LEGACY_INPUT,
              sp_evidence_refs = filter public_safe_ref (lo_evidence_refs ob), sp_side_effects_executed = False\<rparr>
          else Inl e
      | Inr adapted \<Rightarrow>
          let dec = classify_policy (at_policy_input adapted) in
          Inr \<lparr>sp_source_task_ref = lo_source_task_ref ob, sp_target_state_ref = lo_target_state_ref ob,
            sp_legacy_effect_class = lo_legacy_effect_class ob, sp_legacy_status = lo_legacy_status ob,
            sp_vnext_effect_class = Some (pd_effect_class dec), sp_vnext_reason_code = pd_reason_code dec,
            sp_divergence = compare_class (lo_legacy_effect_class ob) (pd_effect_class dec),
            sp_evidence_refs = lo_evidence_refs ob, sp_side_effects_executed = False\<rparr>)"

subsection \<open>Adapted tasks\<close>

interpretation safe_ref: relative_ref_guard public_safe_ref
  by unfold_locales (auto simp: public_safe_ref_def startswith_any_def prefix_singleton)

lemma compat_ref_safe: "compat_ref_ok v \<Longrightarrow> public_safe_ref v"
  by (auto simp: compat_ref_ok_def public_safe_ref_def)

lemma effect_rank_less: "effect_rank a < effect_rank b \<longleftrightarrow> a < b"
  by (cases a; cases b) (simp_all add: less_effect_class_def less_eq_effect_class_def)

lemma kind_map_cases:
  assumes "map_of kind_map k = Some (op, e, rv)"
  shows "op = e" "e \<in> {''workspace_write'', ''read'', ''draft_pr_open'', ''private_compute''}" "rv \<noteq> IRREVERSIBLE"
  using assms by (auto simp: kind_map_def split: if_splits)

lemma kinds_ordinary:
  "e \<in> {''workspace_write'', ''read'', ''draft_pr_open'', ''private_compute''} \<Longrightarrow>
     e \<in> set ordinary_operation_kinds \<and> e \<in> set known_effects \<and> e \<notin> set red_effects \<and> e \<notin> set yellow_effects"
  by (auto simp: ordinary_operation_kinds_def green_effects_def known_effects_def red_effects_def yellow_effects_def)

lemma adapt_InrD:
  assumes "adapt_legacy_task ob = Inr a"
  shows "\<exists>e rv privacy. validate_observation ob = Inr () \<and> map_of kind_map (lo_task_kind ob) = Some (e, e, rv) \<and>
    compat_privacy (lo_privacy_boundary ob) = Inr privacy \<and> task_privacy (at_task a) = privacy \<and>
    ir_resources (at_operation a) = map resource_ref (lo_allowed_files ob) \<and> ir_kind (at_operation a) = e \<and>
    ir_effects (at_operation a) = [e] \<and> rv \<noteq> IRREVERSIBLE \<and>
    e \<in> {''workspace_write'', ''read'', ''draft_pr_open'', ''private_compute''} \<and>
    pi_operation (at_policy_input a) = at_operation a \<and> pi_reversibility (at_policy_input a) = rv \<and>
    pi_target_state_ref (at_policy_input a) = Some (lo_target_state_ref ob)"
proof -
  from assms obtain op e rv where k: "map_of kind_map (lo_task_kind ob) = Some (op, e, rv)" "validate_observation ob = Inr ()"
    by (auto simp: adapt_legacy_task_def split: option.splits)
  note c = kind_map_cases [OF k(1)]
  obtain privacy operation where "compat_privacy (lo_privacy_boundary ob) = Inr privacy"
    "mk_operation_ir (''shadow:'' @ lo_source_task_ref ob) e (map resource_ref (lo_allowed_files ob)) [e]
       (''shadow:'' @ lo_source_task_ref ob @ ''@'' @ lo_target_state_ref ob) = Inr operation"
    "task_privacy (at_task a) = privacy" "at_operation a = operation" "pi_operation (at_policy_input a) = operation"
    "pi_reversibility (at_policy_input a) = rv" "pi_target_state_ref (at_policy_input a) = Some (lo_target_state_ref ob)"
    using assms k c(1) by (auto simp: adapt_legacy_task_def Let_def)
  moreover from this(2) have "ir_resources operation = map resource_ref (lo_allowed_files ob) \<and> ir_kind operation = e \<and>
      ir_effects operation = [e]"
    by (auto simp: mk_operation_ir_def split: if_split_asm)
  ultimately show ?thesis using k c by simp
qed

lemma adapt_error: "adapt_legacy_task ob = Inl e \<Longrightarrow> is_compat_error e"
proof -
  assume e: "adapt_legacy_task ob = Inl e"
  have v: "is_compat_error x" if "validate_observation ob = Inl x" for x
    using that by (auto simp: validate_observation_def compat_public_ref_def dest!: guards_Inl for_each_Inl split: if_splits)
  have p: "is_compat_error x" if "compat_privacy w = Inl x" for w x
    using that by (auto simp: compat_privacy_def Let_def split: if_splits)
  have m: "mk_operation_ir i op rs es key \<noteq> Inl x" if "map_of kind_map k = Some (op, f, rv)" for i op rs es key x k f rv
    using kind_map_cases [OF that] kinds_ordinary [of op] by (simp add: mk_operation_ir_def)
  show ?thesis
    using e v p m by (auto simp: adapt_legacy_task_def Let_def split: option.splits)
qed

lemma resource_ref_class:
  "yellow_resource (resource_ref p) \<longleftrightarrow> protected_path p" "\<not> red_resource (resource_ref p)"
  "py_startswith (resource_ref p) ''repo:'' \<longleftrightarrow> \<not> protected_path p"
  by (simp_all add: resource_ref_def yellow_resource_def red_resource_def startswith_any_def yellow_resource_prefixes_def
      red_resource_prefixes_def)

text \<open>An adapted task is YELLOW when it names a protected file and GREEN otherwise.\<close>

lemma adapted_class:
  assumes "adapt_legacy_task ob = Inr a"
  shows "pd_effect_class (classify_policy (at_policy_input a)) =
    (if list_ex protected_path (lo_allowed_files ob) then YELLOW else GREEN)"
proof -
  obtain e rv where a: "ir_resources (at_operation a) = map resource_ref (lo_allowed_files ob)" "ir_effects (at_operation a) = [e]"
      "pi_operation (at_policy_input a) = at_operation a" "pi_reversibility (at_policy_input a) = rv" "rv \<noteq> IRREVERSIBLE"
      "pi_target_state_ref (at_policy_input a) = Some (lo_target_state_ref ob)" "validate_observation ob = Inr ()"
      "e \<in> {''workspace_write'', ''read'', ''draft_pr_open'', ''private_compute''}"
    using adapt_InrD [OF assms] by blast
  have "lo_target_state_ref ob \<noteq> []" using a(7) by (simp add: validate_observation_def split: if_splits)
  then show ?thesis
    using a kinds_ordinary [OF a(8)]
    by (auto simp: classify_policy_def Let_def list_ex_iff resource_ref_class falsy_def)
qed

subsection \<open>Properties\<close>

text \<open>
  The parity harness always returns and its verdict is exact: an observation the adapter accepts is
  classed YELLOW when it names a protected file and GREEN otherwise, never RED; the divergence is
  MATCH, stricter or laxer exactly by the order of the two classes; a refused observation yields
  INVALID_LEGACY_INPUT with the adapter's reason.
\<close>

theorem shadow_verdict_exact:
  "\<exists>r. shadow_evaluate ob = Inr r \<and> \<not> sp_side_effects_executed r \<and>
     (case adapt_legacy_task ob of
        Inl e \<Rightarrow> sp_divergence r = INVALID_LEGACY_INPUT \<and> sp_vnext_effect_class r = None \<and> sp_vnext_reason_code r = reason_code e
      | Inr a \<Rightarrow> \<exists>c. c = (if list_ex protected_path (lo_allowed_files ob) then YELLOW else GREEN) \<and>
          sp_vnext_effect_class r = Some c \<and>
          (case lo_legacy_effect_class ob of None \<Rightarrow> sp_divergence r = INCOMPARABLE
           | Some l \<Rightarrow> sp_divergence r = (if l = c then MATCH else if l < c then VNEXT_STRICTER else LEGACY_STRICTER)))"
proof (cases "adapt_legacy_task ob")
  case (Inl e)
  then show ?thesis using adapt_error [OF Inl] by (simp add: shadow_evaluate_def)
next
  case (Inr a)
  then show ?thesis
    using adapted_class [OF Inr]
    by (cases "lo_legacy_effect_class ob") (simp_all add: shadow_evaluate_def Let_def compare_class_def effect_rank_less)
qed

lemma redacted_safe:
  "k \<in> {''source'', ''target''} \<Longrightarrow> public_safe_ref (safe_ref_or_redacted v k)"
  "set (safe_status_or_redacted v) \<subseteq> set status_chars"
proof -
  have "public_safe_ref ''redacted:invalid-source-ref''" "public_safe_ref ''redacted:invalid-target-ref''"
    by code_simp+
  then show "k \<in> {''source'', ''target''} \<Longrightarrow> public_safe_ref (safe_ref_or_redacted v k)"
    by (auto simp: safe_ref_or_redacted_def)
  have "set ''redacted:invalid-legacy-status'' \<subseteq> set status_chars" by (simp add: status_chars_def)
  then show "set (safe_status_or_redacted v) \<subseteq> set status_chars"
    unfolding safe_status_or_redacted_def list_all_iff by (simp only: split: if_split) blast
qed

text \<open>
  C35. Whatever the legacy input, the receipt is public-safe: every reference in it is namespaced, relative,
  free of backslashes and parent segments, and the status uses only the listed characters.
\<close>

theorem shadow_receipt_public_safe:
  assumes "shadow_evaluate ob = Inr r" "ref \<in> {sp_source_task_ref r, sp_target_state_ref r} \<union> set (sp_evidence_refs r)"
  shows "CHR '':'' \<in> set ref \<and> hd ref \<notin> {CHR ''/'', CHR ''~''} \<and> CHR 0x5C \<notin> set ref \<and> \<not> sublist ''..'' ref \<and>
    set (sp_legacy_status r) \<subseteq> set status_chars"
proof -
  have "public_safe_ref ref \<and> set (sp_legacy_status r) \<subseteq> set status_chars"
  proof (cases "adapt_legacy_task ob")
    case (Inl e)
    then show ?thesis
      using assms adapt_error [OF Inl] redacted_safe(1) [of "''source''"] redacted_safe(1) [of "''target''"] redacted_safe(2)
      by (force simp: shadow_evaluate_def)
  next
    case (Inr a)
    then have "validate_observation ob = Inr ()" using adapt_InrD by blast
    then have "compat_ref_ok (lo_source_task_ref ob)" "compat_ref_ok (lo_target_state_ref ob)"
        "\<forall>x\<in>set (lo_evidence_refs ob). compat_ref_ok x" "set (lo_legacy_status ob) \<subseteq> set status_chars"
      by (auto simp: validate_observation_def compat_public_ref_def list_ex_iff)
    then show ?thesis using assms Inr compat_ref_safe by (auto simp: shadow_evaluate_def Let_def)
  qed
  then show ?thesis
    using safe_ref.namespaced safe_ref.not_rooted safe_ref.no_backslash safe_ref.no_dots by blast
qed

subsection \<open>Witnesses\<close>

definition demo_observation :: legacy_observation where
  "demo_observation = \<lparr>lo_source_task_ref = ''/home/x'', lo_target_state_ref = ''git:abc'', lo_repo = ''o/r'', lo_branch = ''main'',
     lo_task_kind = ''code_edit'', lo_requested_capabilities = [''read''], lo_allowed_files = [''README.md''],
     lo_privacy_boundary = ''PUBLIC_SAFE'', lo_legacy_effect_class = Some GREEN, lo_legacy_status = ''READY now'',
     lo_evidence_refs = []\<rparr>"

theorem shadow_receipt_public_safe_witness:
  "\<exists>r. shadow_evaluate demo_observation = Inr r \<and> CHR '':'' \<in> set (sp_source_task_ref r)"
proof -
  have "is_compat_error e" if "adapt_legacy_task demo_observation = Inl e" for e using that by (rule adapt_error)
  then obtain r where r: "shadow_evaluate demo_observation = Inr r"
    by (cases "adapt_legacy_task demo_observation") (auto simp: shadow_evaluate_def Let_def)
  then show ?thesis using shadow_receipt_public_safe [OF r, of "sp_source_task_ref r"] by blast
qed

end
