(* ===== verification/Cutover.thy ===== *)
theory Cutover
  imports Shadow Json
begin

text \<open>
  \<^verbatim>\<open>core/runner_vnext_cutover.py\<close>: the readiness evaluator.  It collects blockers and missing evidence,
  and at best asks for an operator decision; it never authorises a cutover by itself.
\<close>

subsection \<open>Definitions\<close>

record cutover_policy =
  co_minimum_parity_observations :: int
  co_required_validation_profiles :: "string list"
  co_required_failure_cases :: "string list"
  co_allow_incomparable :: bool

record validation_evidence =
  va_profile :: string
  va_commit_ref :: string
  va_passed :: bool
  va_test_count :: int
  va_evidence_refs :: "string list"

record failure_evidence =
  fa_case_id :: string
  fa_commit_ref :: string
  fa_passed :: bool
  fa_evidence_refs :: "string list"

record cutover_evidence =
  ce_stack_head_refs :: "string list"
  ce_parity_receipts :: "parity_receipt list"
  ce_validations :: "validation_evidence list"
  ce_failure_cases :: "failure_evidence list"
  ce_rollback_evidence_ref :: "string option"
  ce_unresolved_started_count :: int
  ce_privacy_boundary_verified :: bool
  ce_blockers :: "string list"

record readiness_receipt =
  cr_status :: string
  cr_reason_codes :: "string list"
  cr_policy_hash :: string
  cr_evidence_hash :: string
  cr_stack_head_hash :: string
  cr_stack_head_refs :: "string list"
  cr_parity_observation_count :: int
  cr_parity_match_count :: int
  cr_parity_vnext_stricter_count :: int
  cr_parity_legacy_stricter_count :: int
  cr_parity_incomparable_count :: int
  cr_parity_invalid_count :: int
  cr_validation_pass_count :: int
  cr_failure_case_pass_count :: int
  cr_unresolved_started_count :: int
  cr_rollback_evidence_present :: bool
  cr_privacy_boundary_verified :: bool
  cr_operator_approval_required :: bool
  cr_cutover_authorized :: bool

definition validate_cutover_policy :: "cutover_policy \<Rightarrow> unit res" where
  "validate_cutover_policy p = guards [
     (co_minimum_parity_observations p < 1, CutoverReadinessError ''CUTOVER_PARITY_MINIMUM_INVALID''),
     (co_required_validation_profiles p = [] \<or> co_required_failure_cases p = [],
        CutoverReadinessError ''CUTOVER_REQUIRED_EVIDENCE_EMPTY''),
     (\<not> distinct (co_required_validation_profiles p), CutoverReadinessError ''CUTOVER_VALIDATION_PROFILE_DUPLICATE''),
     (\<not> distinct (co_required_failure_cases p), CutoverReadinessError ''CUTOVER_FAILURE_CASE_DUPLICATE'')]"

definition parity_shape :: "parity_receipt \<Rightarrow> unit res" where
  "parity_shape r = guards [
     (sp_side_effects_executed r, CutoverReadinessError ''CUTOVER_SHADOW_SIDE_EFFECT_DETECTED''),
     (\<not> public_ref (sp_source_task_ref r) \<or> \<not> public_ref (sp_target_state_ref r), CutoverReadinessError ''CUTOVER_PARITY_REF_INVALID''),
     (sp_evidence_refs r = [] \<or> list_ex (\<lambda>ref. \<not> public_ref ref) (sp_evidence_refs r),
        CutoverReadinessError ''CUTOVER_PARITY_EVIDENCE_INVALID'')]"

definition validation_shape :: "validation_evidence \<Rightarrow> unit res" where
  "validation_shape v = guards [
     (va_profile v = [] \<or> \<not> public_ref (va_commit_ref v) \<or> va_test_count v < 0 \<or> va_evidence_refs v = [],
        CutoverReadinessError ''CUTOVER_VALIDATION_EVIDENCE_INVALID''),
     (list_ex (\<lambda>ref. \<not> public_ref ref) (va_evidence_refs v), CutoverReadinessError ''CUTOVER_VALIDATION_EVIDENCE_INVALID'')]"

definition failure_shape :: "failure_evidence \<Rightarrow> unit res" where
  "failure_shape f = guards [
     (fa_case_id f = [] \<or> \<not> public_ref (fa_commit_ref f) \<or> fa_evidence_refs f = [],
        CutoverReadinessError ''CUTOVER_FAILURE_EVIDENCE_INVALID''),
     (list_ex (\<lambda>ref. \<not> public_ref ref) (fa_evidence_refs f), CutoverReadinessError ''CUTOVER_FAILURE_EVIDENCE_INVALID'')]"

definition validate_evidence_shape :: "cutover_evidence \<Rightarrow> unit res" where
  "validate_evidence_shape e =
     rbind (guards [
       (ce_stack_head_refs e = [] \<or> list_ex (\<lambda>ref. \<not> public_ref ref) (ce_stack_head_refs e),
          CutoverReadinessError ''CUTOVER_STACK_HEAD_REF_INVALID''),
       (\<not> distinct (ce_stack_head_refs e), CutoverReadinessError ''CUTOVER_STACK_HEAD_REF_DUPLICATE''),
       (ce_unresolved_started_count e < 0, CutoverReadinessError ''CUTOVER_UNRESOLVED_COUNT_INVALID''),
       ((case ce_rollback_evidence_ref e of None \<Rightarrow> False | Some ref \<Rightarrow> \<not> public_ref ref),
          CutoverReadinessError ''CUTOVER_ROLLBACK_REF_INVALID'')]) (\<lambda>_.
     rbind (for_each parity_shape (ce_parity_receipts e)) (\<lambda>_.
     rbind (raise_if (\<not> distinct (map va_profile (ce_validations e)) \<or> \<not> distinct (map fa_case_id (ce_failure_cases e)))
        (CutoverReadinessError ''CUTOVER_EVIDENCE_ID_DUPLICATE'')) (\<lambda>_.
     rbind (for_each validation_shape (ce_validations e)) (\<lambda>_.
     for_each failure_shape (ce_failure_cases e)))))"

definition ordered_refs_hash :: "string list \<Rightarrow> string" where
  "ordered_refs_hash refs = sha256_hex (render (jstrs refs))"

definition cutover_policy_hash :: "cutover_policy \<Rightarrow> string" where
  "cutover_policy_hash p = json_digest (JObj [
     (''minimum_parity_observations'', JInt (co_minimum_parity_observations p)),
     (''required_validation_profiles'', jstrs (co_required_validation_profiles p)),
     (''required_failure_cases'', jstrs (co_required_failure_cases p)),
     (''allow_incomparable'', JBool (co_allow_incomparable p))])"

definition jclass :: "effect_class option \<Rightarrow> json" where
  "jclass c = (case c of None \<Rightarrow> JNull | Some v \<Rightarrow> JStr (effect_class_value v))"

definition parity_json :: "parity_receipt \<Rightarrow> json" where
  "parity_json r = JObj [
     (''source_task_ref'', JStr (sp_source_task_ref r)),
     (''target_state_ref'', JStr (sp_target_state_ref r)),
     (''legacy_effect_class'', jclass (sp_legacy_effect_class r)),
     (''legacy_status'', JStr (sp_legacy_status r)),
     (''vnext_effect_class'', jclass (sp_vnext_effect_class r)),
     (''vnext_reason_code'', JStr (sp_vnext_reason_code r)),
     (''divergence'', JStr (divergence_value (sp_divergence r))),
     (''evidence_refs'', jstrs (sp_evidence_refs r)),
     (''side_effects_executed'', JBool (sp_side_effects_executed r))]"

definition cutover_evidence_hash :: "cutover_evidence \<Rightarrow> string" where
  "cutover_evidence_hash e = json_digest (JObj [
     (''stack_head_refs'', jstrs (ce_stack_head_refs e)),
     (''parity'', JArr (map parity_json (ce_parity_receipts e))),
     (''validations'', JArr (map (\<lambda>v. JObj [(''profile'', JStr (va_profile v)), (''commit_ref'', JStr (va_commit_ref v)),
        (''passed'', JBool (va_passed v)), (''test_count'', JInt (va_test_count v)),
        (''evidence_refs'', jstrs (va_evidence_refs v))]) (ce_validations e))),
     (''failure_cases'', JArr (map (\<lambda>f. JObj [(''case_id'', JStr (fa_case_id f)), (''commit_ref'', JStr (fa_commit_ref f)),
        (''passed'', JBool (fa_passed f)), (''evidence_refs'', jstrs (fa_evidence_refs f))]) (ce_failure_cases e))),
     (''rollback_evidence_ref'', (case ce_rollback_evidence_ref e of None \<Rightarrow> JNull | Some r \<Rightarrow> JStr r)),
     (''unresolved_started_count'', JInt (ce_unresolved_started_count e)),
     (''privacy_boundary_verified'', JBool (ce_privacy_boundary_verified e)),
     (''blockers'', jstrs (ce_blockers e))])"

definition strip_underscores :: "string \<Rightarrow> string" where
  "strip_underscores s = rev (dropWhile (\<lambda>c. c = CHR ''_'') (rev (dropWhile (\<lambda>c. c = CHR ''_'') s)))"

definition reason_token :: "string \<Rightarrow> string" where
  "reason_token v =
     (let token = map (\<lambda>ch. if py_isalnum ch then ch else CHR ''_'') (py_upper v); stripped = strip_underscores token in
      if stripped = [] then ''UNKNOWN'' else stripped)"

definition divergence_count :: "divergence_kind \<Rightarrow> parity_receipt list \<Rightarrow> int" where
  "divergence_count k rs = int (length (filter (\<lambda>r. sp_divergence r = k) rs))"

text \<open>The two lists the evaluator collects; an optional reason contributes when its condition holds.\<close>

definition when_true :: "bool \<Rightarrow> string \<Rightarrow> string list" where
  "when_true b reason = (if b then [reason] else [])"

definition validation_by_profile :: "cutover_evidence \<Rightarrow> string \<Rightarrow> validation_evidence option" where
  "validation_by_profile e p = map_of (rev (map (\<lambda>v. (va_profile v, v)) (ce_validations e))) p"

definition failure_by_case :: "cutover_evidence \<Rightarrow> string \<Rightarrow> failure_evidence option" where
  "failure_by_case e c = map_of (rev (map (\<lambda>f. (fa_case_id f, f)) (ce_failure_cases e))) c"

definition cutover_blockers :: "cutover_policy \<Rightarrow> cutover_evidence \<Rightarrow> string list" where
  "cutover_blockers p e =
     when_true (ce_blockers e \<noteq> []) ''DECLARED_BLOCKER_PRESENT'' @
     when_true (\<not> ce_privacy_boundary_verified e) ''PRIVACY_BOUNDARY_NOT_VERIFIED'' @
     when_true (ce_unresolved_started_count e > 0) ''UNRESOLVED_STARTED_OPERATIONS'' @
     when_true (divergence_count LEGACY_STRICTER (ce_parity_receipts e) > 0) ''LEGACY_STRICTER_DIVERGENCE'' @
     when_true (divergence_count INVALID_LEGACY_INPUT (ce_parity_receipts e) > 0) ''INVALID_LEGACY_INPUT_PRESENT'' @
     concat (map (\<lambda>profile. case validation_by_profile e profile of None \<Rightarrow> []
       | Some v \<Rightarrow> when_true (\<not> va_passed v \<or> va_test_count v < 1) (''VALIDATION_PROFILE_FAILED_'' @ reason_token profile))
       (co_required_validation_profiles p)) @
     concat (map (\<lambda>case_id. case failure_by_case e case_id of None \<Rightarrow> []
       | Some f \<Rightarrow> when_true (\<not> fa_passed f) (''FAILURE_CASE_FAILED_'' @ reason_token case_id)) (co_required_failure_cases p))"

definition cutover_missing :: "cutover_policy \<Rightarrow> cutover_evidence \<Rightarrow> string list" where
  "cutover_missing p e =
     when_true (divergence_count INCOMPARABLE (ce_parity_receipts e) > 0 \<and> \<not> co_allow_incomparable p)
       ''INCOMPARABLE_PARITY_REQUIRES_EVIDENCE'' @
     when_true (int (length (ce_parity_receipts e)) < co_minimum_parity_observations p) ''PARITY_OBSERVATION_MINIMUM_NOT_MET'' @
     concat (map (\<lambda>profile. when_true (validation_by_profile e profile = None)
       (''VALIDATION_PROFILE_MISSING_'' @ reason_token profile)) (co_required_validation_profiles p)) @
     concat (map (\<lambda>case_id. when_true (failure_by_case e case_id = None) (''FAILURE_CASE_MISSING_'' @ reason_token case_id))
       (co_required_failure_cases p)) @
     when_true (ce_rollback_evidence_ref e = None) ''ROLLBACK_EVIDENCE_MISSING''"

text \<open>\<^verbatim>\<open>tuple(sorted(set(xs)))\<close>\<close>

definition sorted_set :: "string list \<Rightarrow> string list" where
  "sorted_set xs = sort (remdups xs)"

definition readiness_evaluate :: "cutover_policy \<Rightarrow> cutover_evidence \<Rightarrow> readiness_receipt res" where
  "readiness_evaluate p e =
     rbind (validate_cutover_policy p) (\<lambda>_.
     rbind (validate_evidence_shape e) (\<lambda>_.
     let blockers = cutover_blockers p e; missing = cutover_missing p e; parity = ce_parity_receipts e;
         (status, reasons) =
           (if blockers \<noteq> [] then (''BLOCKED'', sorted_set (blockers @ missing))
            else if missing \<noteq> [] then (''NEEDS_MORE_EVIDENCE'', sorted_set missing)
            else (''READY_FOR_OPERATOR_DECISION'', [''CUTOVER_EVIDENCE_COMPLETE'']))
     in Inr \<lparr>cr_status = status, cr_reason_codes = reasons, cr_policy_hash = cutover_policy_hash p,
          cr_evidence_hash = cutover_evidence_hash e, cr_stack_head_hash = ordered_refs_hash (ce_stack_head_refs e),
          cr_stack_head_refs = ce_stack_head_refs e, cr_parity_observation_count = int (length parity),
          cr_parity_match_count = divergence_count MATCH parity,
          cr_parity_vnext_stricter_count = divergence_count VNEXT_STRICTER parity,
          cr_parity_legacy_stricter_count = divergence_count LEGACY_STRICTER parity,
          cr_parity_incomparable_count = divergence_count INCOMPARABLE parity,
          cr_parity_invalid_count = divergence_count INVALID_LEGACY_INPUT parity,
          cr_validation_pass_count = int (length (filter va_passed (ce_validations e))),
          cr_failure_case_pass_count = int (length (filter fa_passed (ce_failure_cases e))),
          cr_unresolved_started_count = ce_unresolved_started_count e,
          cr_rollback_evidence_present = (ce_rollback_evidence_ref e \<noteq> None),
          cr_privacy_boundary_verified = ce_privacy_boundary_verified e,
          cr_operator_approval_required = True, cr_cutover_authorized = False\<rparr>))"

definition readiness_public_projection :: "readiness_receipt \<Rightarrow> json" where
  "readiness_public_projection r = JObj [
     (''schema'', JStr ''skeleton.runner_cutover_readiness_receipt.v1''),
     (''status'', JStr (cr_status r)), (''reason_codes'', jstrs (cr_reason_codes r)),
     (''policy_hash'', JStr (cr_policy_hash r)), (''evidence_hash'', JStr (cr_evidence_hash r)),
     (''stack_head_hash'', JStr (cr_stack_head_hash r)), (''stack_head_refs'', jstrs (cr_stack_head_refs r)),
     (''parity_observation_count'', JInt (cr_parity_observation_count r)),
     (''parity_match_count'', JInt (cr_parity_match_count r)),
     (''parity_vnext_stricter_count'', JInt (cr_parity_vnext_stricter_count r)),
     (''parity_legacy_stricter_count'', JInt (cr_parity_legacy_stricter_count r)),
     (''parity_incomparable_count'', JInt (cr_parity_incomparable_count r)),
     (''parity_invalid_count'', JInt (cr_parity_invalid_count r)),
     (''validation_pass_count'', JInt (cr_validation_pass_count r)),
     (''failure_case_pass_count'', JInt (cr_failure_case_pass_count r)),
     (''unresolved_started_count'', JInt (cr_unresolved_started_count r)),
     (''rollback_evidence_present'', JBool (cr_rollback_evidence_present r)),
     (''privacy_boundary_verified'', JBool (cr_privacy_boundary_verified r)),
     (''operator_approval_required'', JBool (cr_operator_approval_required r)),
     (''cutover_authorized'', JBool (cr_cutover_authorized r))]"

subsection \<open>Lemmas\<close>

lemma when_true_Nil [simp]: "when_true b r = [] \<longleftrightarrow> \<not> b"
  by (simp add: when_true_def)

lemma divergence_count_pos [simp]: "divergence_count k rs > 0 \<longleftrightarrow> (\<exists>r\<in>set rs. sp_divergence r = k)"
  by (auto simp: divergence_count_def filter_empty_conv)

lemma distinct_lookup:
  assumes "distinct (map key xs)"
  shows "map_of (rev (map (\<lambda>x. (key x, x)) xs)) k = Some x \<longleftrightarrow> x \<in> set xs \<and> key x = k"
proof -
  have d: "distinct (map fst (rev (map (\<lambda>x. (key x, x)) xs)))" using assms by (simp add: rev_map [symmetric] o_def)
  have "map_of (rev (map (\<lambda>x. (key x, x)) xs)) k = Some x \<longleftrightarrow> (k, x) \<in> set (rev (map (\<lambda>x. (key x, x)) xs))"
    using map_of_eq_Some_iff [OF d] .
  then show ?thesis by auto
qed

lemma shape_distinct:
  "validate_evidence_shape e = Inr () \<Longrightarrow> distinct (map va_profile (ce_validations e)) \<and> distinct (map fa_case_id (ce_failure_cases e))"
  by (simp add: validate_evidence_shape_def)

text \<open>What complete evidence is, said of the evidence itself.\<close>

definition evidence_complete :: "cutover_policy \<Rightarrow> cutover_evidence \<Rightarrow> bool" where
  "evidence_complete p e \<longleftrightarrow> ce_blockers e = [] \<and> ce_privacy_boundary_verified e \<and> ce_unresolved_started_count e = 0 \<and>
     (\<forall>r\<in>set (ce_parity_receipts e). sp_divergence r \<in> {MATCH, VNEXT_STRICTER} \<union> (if co_allow_incomparable p then {INCOMPARABLE} else {})) \<and>
     co_minimum_parity_observations p \<le> int (length (ce_parity_receipts e)) \<and>
     (\<forall>profile\<in>set (co_required_validation_profiles p).
        \<exists>v\<in>set (ce_validations e). va_profile v = profile \<and> va_passed v \<and> 1 \<le> va_test_count v) \<and>
     (\<forall>c\<in>set (co_required_failure_cases p). \<exists>f\<in>set (ce_failure_cases e). fa_case_id f = c \<and> fa_passed f) \<and>
     ce_rollback_evidence_ref e \<noteq> None"

text \<open>A dictionary built from a list of distinct keys, asked whether the entry of a key is good.\<close>

lemma lookup_good:
  assumes "distinct (map key xs)" "\<And>k. look k = map_of (rev (map (\<lambda>x. (key x, x)) xs)) k"
  shows "(look k \<noteq> None \<and> (\<forall>x. look k = Some x \<longrightarrow> good x)) \<longleftrightarrow> (\<exists>x\<in>set xs. key x = k \<and> good x)"
proof (cases "look k")
  case None
  then have "\<not> (x \<in> set xs \<and> key x = k)" for x using distinct_lookup [OF assms(1), of k x] assms(2) by simp
  then show ?thesis using None by blast
next
  case (Some y)
  then have "x \<in> set xs \<and> key x = k \<longleftrightarrow> x = y" for x using distinct_lookup [OF assms(1), of k x] assms(2) by auto
  then have only: "{x \<in> set xs. key x = k} = {y}" by blast
  have "(\<exists>x\<in>set xs. key x = k \<and> good x) \<longleftrightarrow> (\<exists>x\<in>{x \<in> set xs. key x = k}. good x)" by blast
  then have "(\<exists>x\<in>set xs. key x = k \<and> good x) \<longleftrightarrow> good y" unfolding only by simp
  then show ?thesis using Some by simp
qed

lemma profile_reasons:
  assumes "distinct (map va_profile (ce_validations e))"
  shows "(\<forall>profile\<in>set ps. validation_by_profile e profile \<noteq> None \<and>
      (\<forall>v. validation_by_profile e profile = Some v \<longrightarrow> va_passed v \<and> \<not> va_test_count v < 1)) \<longleftrightarrow>
    (\<forall>profile\<in>set ps. \<exists>v\<in>set (ce_validations e). va_profile v = profile \<and> va_passed v \<and> 1 \<le> va_test_count v)"
  unfolding lookup_good [where look = "validation_by_profile e", OF assms validation_by_profile_def] by (simp add: not_less)

lemma case_reasons:
  assumes "distinct (map fa_case_id (ce_failure_cases e))"
  shows "(\<forall>c\<in>set cs. failure_by_case e c \<noteq> None \<and> (\<forall>f. failure_by_case e c = Some f \<longrightarrow> fa_passed f)) \<longleftrightarrow>
    (\<forall>c\<in>set cs. \<exists>f\<in>set (ce_failure_cases e). fa_case_id f = c \<and> fa_passed f)"
  unfolding lookup_good [where look = "failure_by_case e", OF assms failure_by_case_def] by simp

lemma blockers_Nil:
  "cutover_blockers p e = [] \<longleftrightarrow> ce_blockers e = [] \<and> ce_privacy_boundary_verified e \<and> \<not> ce_unresolved_started_count e > 0 \<and>
     (\<forall>r\<in>set (ce_parity_receipts e). sp_divergence r \<noteq> LEGACY_STRICTER \<and> sp_divergence r \<noteq> INVALID_LEGACY_INPUT) \<and>
     (\<forall>profile\<in>set (co_required_validation_profiles p).
        \<forall>v. validation_by_profile e profile = Some v \<longrightarrow> va_passed v \<and> \<not> va_test_count v < 1) \<and>
     (\<forall>c\<in>set (co_required_failure_cases p). \<forall>f. failure_by_case e c = Some f \<longrightarrow> fa_passed f)"
  by (auto simp: cutover_blockers_def split: option.splits)

lemma missing_Nil:
  "cutover_missing p e = [] \<longleftrightarrow>
     (co_allow_incomparable p \<or> (\<forall>r\<in>set (ce_parity_receipts e). sp_divergence r \<noteq> INCOMPARABLE)) \<and>
     \<not> int (length (ce_parity_receipts e)) < co_minimum_parity_observations p \<and>
     (\<forall>profile\<in>set (co_required_validation_profiles p). validation_by_profile e profile \<noteq> None) \<and>
     (\<forall>c\<in>set (co_required_failure_cases p). failure_by_case e c \<noteq> None) \<and> ce_rollback_evidence_ref e \<noteq> None"
  by (auto simp: cutover_missing_def)

lemma complete_iff:
  assumes "validate_evidence_shape e = Inr ()"
  shows "evidence_complete p e \<longleftrightarrow> cutover_blockers p e = [] \<and> cutover_missing p e = []"
proof -
  have d: "distinct (map va_profile (ce_validations e))" "distinct (map fa_case_id (ce_failure_cases e))"
    using shape_distinct [OF assms] by auto
  have n: "ce_unresolved_started_count e = 0 \<longleftrightarrow> \<not> ce_unresolved_started_count e > 0"
    using assms by (auto simp: validate_evidence_shape_def)
  have k: "sp_divergence r \<in> {MATCH, VNEXT_STRICTER} \<union> (if co_allow_incomparable p then {INCOMPARABLE} else {}) \<longleftrightarrow>
      sp_divergence r \<noteq> LEGACY_STRICTER \<and> sp_divergence r \<noteq> INVALID_LEGACY_INPUT \<and>
      (co_allow_incomparable p \<or> sp_divergence r \<noteq> INCOMPARABLE)" for r
    by (cases "sp_divergence r") auto
  show ?thesis
    unfolding evidence_complete_def blockers_Nil missing_Nil k n
      profile_reasons [OF d(1), symmetric] case_reasons [OF d(2), symmetric] by auto
qed

lemma readiness_InrD:
  assumes "readiness_evaluate p e = Inr r"
  shows "validate_evidence_shape e = Inr ()" "\<not> cr_cutover_authorized r" "cr_operator_approval_required r"
    "cr_status r = (if cutover_blockers p e \<noteq> [] then ''BLOCKED'' else if cutover_missing p e \<noteq> [] then ''NEEDS_MORE_EVIDENCE''
       else ''READY_FOR_OPERATOR_DECISION'')"
    "cr_reason_codes r = (if cutover_blockers p e \<noteq> [] then sorted_set (cutover_blockers p e @ cutover_missing p e)
       else if cutover_missing p e \<noteq> [] then sorted_set (cutover_missing p e) else [''CUTOVER_EVIDENCE_COMPLETE''])"
  using assms by (auto simp: readiness_evaluate_def Let_def split: if_splits prod.splits)

subsection \<open>Properties\<close>

text \<open>
  The evaluator is exact.  Its verdict is READY_FOR_OPERATOR_DECISION if and only if the evidence is
  complete: no declared blocker, privacy verified, no unresolved started operation, no laxer or
  invalid parity observation, enough observations, every required profile with a passing validation of at
  least one test, every required failure case passed, and rollback evidence.  It never authorises the
  cutover, always requires the operator, and lists its reasons sorted and without repetition.
\<close>

theorem readiness_exact:
  assumes "readiness_evaluate p e = Inr r"
  shows "(cr_status r = ''READY_FOR_OPERATOR_DECISION'' \<longleftrightarrow> evidence_complete p e) \<and>
    \<not> cr_cutover_authorized r \<and> cr_operator_approval_required r \<and> cr_reason_codes r \<noteq> [] \<and>
    sorted (cr_reason_codes r) \<and> distinct (cr_reason_codes r)"
proof -
  note d = readiness_InrD [OF assms]
  have ne: "sorted_set xs \<noteq> []" if "xs \<noteq> []" for xs
    using that by (metis set_empty2 set_remdups set_sort sorted_set_def)
  have "sorted (cr_reason_codes r) \<and> distinct (cr_reason_codes r) \<and> cr_reason_codes r \<noteq> []"
    unfolding d(5) using ne by (simp add: sorted_set_def)
  moreover have "(cr_status r = ''READY_FOR_OPERATOR_DECISION'' \<longleftrightarrow> evidence_complete p e)"
    using d(4) complete_iff [OF d(1)] by simp
  ultimately show ?thesis using d(2,3) by blast
qed

text \<open>
  The counters of a receipt account for every observation once, and stay within their lists.
\<close>

theorem readiness_counts:
  assumes "readiness_evaluate p e = Inr r"
  shows "cr_parity_match_count r + cr_parity_vnext_stricter_count r + cr_parity_legacy_stricter_count r +
      cr_parity_incomparable_count r + cr_parity_invalid_count r = cr_parity_observation_count r \<and>
    0 \<le> cr_parity_match_count r \<and> 0 \<le> cr_parity_legacy_stricter_count r \<and>
    cr_parity_observation_count r = int (length (ce_parity_receipts e)) \<and>
    0 \<le> cr_validation_pass_count r \<and> cr_validation_pass_count r \<le> int (length (ce_validations e)) \<and>
    0 \<le> cr_failure_case_pass_count r \<and> cr_failure_case_pass_count r \<le> int (length (ce_failure_cases e)) \<and>
    0 \<le> cr_unresolved_started_count r"
proof -
  have total: "divergence_count MATCH rs + divergence_count VNEXT_STRICTER rs + divergence_count LEGACY_STRICTER rs +
      divergence_count INCOMPARABLE rs + divergence_count INVALID_LEGACY_INPUT rs = int (length rs)" for rs
  proof (induction rs)
    case (Cons r rs)
    then show ?case by (cases "sp_divergence r") (simp_all add: divergence_count_def)
  qed (simp add: divergence_count_def)
  have "0 \<le> ce_unresolved_started_count e"
    using readiness_InrD(1) [OF assms] by (auto simp: validate_evidence_shape_def)
  then show ?thesis
    using assms total [of "ce_parity_receipts e"]
    by (auto simp: readiness_evaluate_def Let_def divergence_count_def split: if_splits prod.splits)
qed

subsection \<open>Witnesses\<close>

definition demo_parity :: parity_receipt where
  "demo_parity = \<lparr>sp_source_task_ref = ''issue:1'', sp_target_state_ref = ''git:a'', sp_legacy_effect_class = Some GREEN,
     sp_legacy_status = ''READY'', sp_vnext_effect_class = Some GREEN, sp_vnext_reason_code = ''OK'', sp_divergence = MATCH,
     sp_evidence_refs = [''run:1''], sp_side_effects_executed = False\<rparr>"

definition demo_cutover_policy :: cutover_policy where
  "demo_cutover_policy = \<lparr>co_minimum_parity_observations = 1, co_required_validation_profiles = [''unit''],
     co_required_failure_cases = [''crash''], co_allow_incomparable = False\<rparr>"

definition demo_cutover_evidence :: cutover_evidence where
  "demo_cutover_evidence = \<lparr>ce_stack_head_refs = [''git:a''], ce_parity_receipts = [demo_parity],
     ce_validations = [\<lparr>va_profile = ''unit'', va_commit_ref = ''git:a'', va_passed = True, va_test_count = 3, va_evidence_refs = [''run:1'']\<rparr>],
     ce_failure_cases = [\<lparr>fa_case_id = ''crash'', fa_commit_ref = ''git:a'', fa_passed = True, fa_evidence_refs = [''run:1'']\<rparr>],
     ce_rollback_evidence_ref = Some ''run:2'', ce_unresolved_started_count = 0, ce_privacy_boundary_verified = True,
     ce_blockers = []\<rparr>"

lemma demo_readiness: "\<exists>r. readiness_evaluate demo_cutover_policy demo_cutover_evidence = Inr r"
proof -
  have "validate_cutover_policy demo_cutover_policy = Inr ()" "validate_evidence_shape demo_cutover_evidence = Inr ()"
    by code_simp+
  then show ?thesis by (simp add: readiness_evaluate_def Let_def split: prod.splits)
qed

theorem readiness_exact_witness:
  "\<exists>r. readiness_evaluate demo_cutover_policy demo_cutover_evidence = Inr r \<and> cr_status r = ''READY_FOR_OPERATOR_DECISION''"
proof -
  obtain r where r: "readiness_evaluate demo_cutover_policy demo_cutover_evidence = Inr r" using demo_readiness by blast
  have "evidence_complete demo_cutover_policy demo_cutover_evidence"
    by (simp add: evidence_complete_def demo_cutover_policy_def demo_cutover_evidence_def demo_parity_def)
  then show ?thesis using readiness_exact [OF r] r by blast
qed

theorem readiness_counts_witness:
  "\<exists>r. readiness_evaluate demo_cutover_policy demo_cutover_evidence = Inr r \<and> cr_parity_observation_count r = 1"
proof -
  obtain r where r: "readiness_evaluate demo_cutover_policy demo_cutover_evidence = Inr r" using demo_readiness by blast
  then show ?thesis using readiness_counts [OF r] by (simp add: demo_cutover_evidence_def)
qed

end
