(* ===== verification/CutoverBridge.thy ===== *)
theory CutoverBridge
  imports Shadow Json
begin

text \<open>
  \<^verbatim>\<open>core/runner_vnext_cutover_bridge.py\<close>: the decision whether the legacy runner may execute a task while
  the cutover to vNext is off, in shadow, in canary or authoritative.  The task metadata is a Python
  dictionary of arbitrary values, type \<open>py_value\<close>; \<open>VOther\<close> stands for a value of any other type.
\<close>

subsection \<open>Definitions\<close>

datatype py_value = VNone | VBool bool | VInt int | VStr string | VList "py_value list" | VTuple "py_value list" | VOther

type_synonym py_dict = "(string \<times> py_value) list"

definition py_get :: "py_dict \<Rightarrow> string \<Rightarrow> py_value" where
  "py_get d k = (case map_of d k of None \<Rightarrow> VNone | Some v \<Rightarrow> v)"

definition vnext_modes :: "string list" where
  "vnext_modes = [''off'', ''shadow'', ''green_canary'', ''authoritative'']"

record bridge_decision =
  bd_mode :: string
  bd_status :: string
  bd_divergence :: "string option"
  bd_vnext_effect_class :: "string option"
  bd_reason_code :: string
  bd_canary_eligible :: bool
  bd_allow_legacy_execution :: bool
  bd_source_task_ref :: "string option"
  bd_target_state_ref :: "string option"
  bd_side_effects_executed :: bool

definition bridge_public_mapping :: "bridge_decision \<Rightarrow> json" where
  "bridge_public_mapping d =
     (let opt = (\<lambda>v. case v of None \<Rightarrow> JNull | Some s \<Rightarrow> JStr s) in JObj [
       (''schema'', JStr ''skeleton.runner_vnext_cutover_bridge.v1''),
       (''mode'', JStr (bd_mode d)),
       (''status'', JStr (bd_status d)),
       (''divergence'', opt (bd_divergence d)),
       (''vnext_effect_class'', opt (bd_vnext_effect_class d)),
       (''reason_code'', JStr (bd_reason_code d)),
       (''canary_eligible'', JBool (bd_canary_eligible d)),
       (''allow_legacy_execution'', JBool (bd_allow_legacy_execution d)),
       (''source_task_ref'', opt (bd_source_task_ref d)),
       (''target_state_ref'', opt (bd_target_state_ref d)),
       (''side_effects_executed'', JBool (bd_side_effects_executed d))])"

definition bridge_mode :: "string option \<Rightarrow> string res" where
  "bridge_mode v =
     (case v of None \<Rightarrow> Inr ''off''
      | Some s \<Rightarrow> if py_strip s = [] then Inr ''off''
          else let mode = py_lower (py_strip s) in
            if mode \<notin> set vnext_modes then Inl (VNextCutoverBridgeError ''VNEXT_CUTOVER_MODE_INVALID'') else Inr mode)"

fun all_strs :: "py_value list \<Rightarrow> string list option" where
  "all_strs [] = Some []"
| "all_strs (VStr s # vs) = map_option (\<lambda>ss. s # ss) (all_strs vs)"
| "all_strs (v # vs) = None"

definition string_tuple :: "py_value \<Rightarrow> string list" where
  "string_tuple v =
     (case v of
        VTuple vs \<Rightarrow> (case all_strs vs of None \<Rightarrow> [] | Some ss \<Rightarrow> filter (\<lambda>s. s \<noteq> []) ss)
      | VList vs \<Rightarrow> (case all_strs vs of None \<Rightarrow> [] | Some ss \<Rightarrow> filter (\<lambda>s. s \<noteq> []) ss)
      | _ \<Rightarrow> [])"

definition privacy_boundary :: "py_value \<Rightarrow> string res" where
  "privacy_boundary v =
     (case v of
        VStr s \<Rightarrow>
          if py_strip s = [] then Inl (VNextCutoverBridgeError ''VNEXT_METADATA_PRIVACY_REQUIRED'')
          else let n = py_upper (py_strip s) in
            if n \<in> {''PUBLIC_SAFE_REPOSITORY_ONLY'', ''PUBLIC_SAFE_AGGREGATE_ONLY'', ''PUBLIC_SAFE_CODE_AND_TESTS_ONLY'', ''PUBLIC_SAFE''}
            then Inr ''PUBLIC_SAFE_REPOSITORY_ONLY''
            else if n \<in> {''LOCAL_PRIVATE'', ''PRIVATE_LOCAL'', ''PRIVATE'', ''PRIVATE_LOCAL_ONLY'', ''PRIVATE_MEMORY''}
            then Inr ''PRIVATE''
            else Inl (VNextCutoverBridgeError ''VNEXT_METADATA_PRIVACY_UNSUPPORTED'')
      | _ \<Rightarrow> Inl (VNextCutoverBridgeError ''VNEXT_METADATA_PRIVACY_REQUIRED''))"

text \<open>\<^verbatim>\<open>isinstance(n, int) and not n < 1\<close>, with the text an f-string gives; a bool is an int in Python.\<close>

definition issue_text :: "py_value \<Rightarrow> string option" where
  "issue_text v = (case v of VInt n \<Rightarrow> if n < 1 then None else Some (int_text n)
     | VBool b \<Rightarrow> if b then Some ''True'' else None | _ \<Rightarrow> None)"

definition as_str :: "py_value \<Rightarrow> string option" where
  "as_str v = (case v of VStr s \<Rightarrow> Some s | _ \<Rightarrow> None)"

definition route_task_kind :: "py_value \<Rightarrow> string" where
  "route_task_kind route =
     (if route = VStr ''code_generation'' then ''code_edit'' else if route = VStr ''publish_only'' then ''publish'' else ''diagnostic'')"

definition bridge_observation :: "py_dict \<Rightarrow> legacy_observation res" where
  "bridge_observation m =
     (case issue_text (py_get m ''issue_number'') of None \<Rightarrow> Inl (VNextCutoverBridgeError ''VNEXT_METADATA_ISSUE_INVALID'')
      | Some issue \<Rightarrow> (case (as_str (py_get m ''repo''), as_str (py_get m ''branch'')) of
          (Some repo, Some branch) \<Rightarrow>
            (case as_str (py_get m ''base_sha'') of None \<Rightarrow> Inl (VNextCutoverBridgeError ''VNEXT_METADATA_BASE_SHA_REQUIRED'')
             | Some base_sha \<Rightarrow>
                 if length base_sha \<noteq> 40 then Inl (VNextCutoverBridgeError ''VNEXT_METADATA_BASE_SHA_REQUIRED'')
                 else let task_kind = route_task_kind (py_get m ''legacy_route'');
                          legacy_effect = (if task_kind \<in> {''code_edit'', ''diagnostic''} then GREEN else YELLOW) in
                   rbind (privacy_boundary (py_get m ''privacy_boundary'')) (\<lambda>privacy.
                   let requested = string_tuple (py_get m ''requested_capabilities'');
                       capabilities = (if requested = [] \<and> task_kind = ''code_edit''
                         then [''repository_write_allowlisted'', ''test_execution''] else requested);
                       allowed_files = string_tuple (py_get m ''allowed_files'') in
                   if allowed_files = [] then Inl (VNextCutoverBridgeError ''VNEXT_METADATA_ALLOWED_FILES_REQUIRED'')
                   else Inr \<lparr>lo_source_task_ref = ''issue:'' @ issue, lo_target_state_ref = ''git:'' @ py_lower base_sha,
                     lo_repo = repo, lo_branch = branch, lo_task_kind = task_kind, lo_requested_capabilities = capabilities,
                     lo_allowed_files = allowed_files, lo_privacy_boundary = privacy,
                     lo_legacy_effect_class = Some legacy_effect, lo_legacy_status = ''READY'', lo_evidence_refs = []\<rparr>))
        | _ \<Rightarrow> Inl (VNextCutoverBridgeError ''VNEXT_METADATA_REPOSITORY_INVALID'')))"

text \<open>\<^verbatim>\<open>except CompatError: return False\<close>; no other exception can occur (lemma \<open>adapt_error\<close>).\<close>

definition canary_eligible :: "legacy_observation \<Rightarrow> bool res" where
  "canary_eligible ob =
     (if lo_task_kind ob \<noteq> ''code_edit'' then Inr False
      else case adapt_legacy_task ob of
        Inl e \<Rightarrow> if is_compat_error e then Inr False else Inl e
      | Inr a \<Rightarrow> Inr (task_privacy (at_task a) = PUBLIC_SAFE \<and>
          list_all (\<lambda>r. py_startswith r ''repo:'') (ir_resources (at_operation a))))"

definition authoritative_eligible :: "legacy_observation \<Rightarrow> bool res" where
  "authoritative_eligible ob =
     rbind (canary_eligible ob) (\<lambda>eligible. Inr (if \<not> eligible then False
       else lo_requested_capabilities ob = [''repository_read'', ''repository_write_allowlisted'', ''test_execution'']))"

definition mk_bridge :: "string \<Rightarrow> string \<Rightarrow> parity_receipt \<Rightarrow> string \<Rightarrow> bool \<Rightarrow> bool \<Rightarrow> bridge_decision" where
  "mk_bridge mode status r reason eligible allow =
     \<lparr>bd_mode = mode, bd_status = status, bd_divergence = Some (divergence_value (sp_divergence r)),
      bd_vnext_effect_class = map_option effect_class_value (sp_vnext_effect_class r), bd_reason_code = reason,
      bd_canary_eligible = eligible, bd_allow_legacy_execution = allow, bd_source_task_ref = Some (sp_source_task_ref r),
      bd_target_state_ref = Some (sp_target_state_ref r), bd_side_effects_executed = False\<rparr>"

definition green_match :: "parity_receipt \<Rightarrow> bool" where
  "green_match r \<longleftrightarrow> sp_divergence r = MATCH \<and> sp_vnext_effect_class r = Some GREEN \<and> sp_legacy_effect_class r = Some GREEN"

definition evaluate_bridge :: "string option \<Rightarrow> py_dict \<Rightarrow> bridge_decision res" where
  "evaluate_bridge configured m =
     rbind (bridge_mode configured) (\<lambda>mode.
     if mode = ''off'' then
       Inr \<lparr>bd_mode = mode, bd_status = ''off'', bd_divergence = None, bd_vnext_effect_class = None,
         bd_reason_code = ''VNEXT_CUTOVER_OFF'', bd_canary_eligible = False, bd_allow_legacy_execution = True,
         bd_source_task_ref = None, bd_target_state_ref = None, bd_side_effects_executed = False\<rparr>
     else
       rbind (bridge_observation m) (\<lambda>ob.
       rbind (shadow_evaluate ob) (\<lambda>r.
       rbind (canary_eligible ob) (\<lambda>eligible.
       if mode = ''shadow'' then
         Inr (mk_bridge mode ''shadow_observed'' r (sp_vnext_reason_code r) eligible True)
       else if mode = ''authoritative'' then
         rbind (authoritative_eligible ob) (\<lambda>auth.
         if \<not> auth then Inr (mk_bridge mode ''authoritative_block'' r ''VNEXT_AUTHORITATIVE_NOT_ELIGIBLE'' False False)
         else let allowed = green_match r in
           Inr (mk_bridge mode (if allowed then ''authoritative_green_ready'' else ''authoritative_block'') r
             (if allowed then ''VNEXT_AUTHORITATIVE_GREEN_READY'' else sp_vnext_reason_code r) True False))
       else if \<not> eligible then
         Inr (mk_bridge mode ''legacy_protected_path'' r ''VNEXT_CANARY_NOT_ELIGIBLE'' False True)
       else let allowed = green_match r in
         Inr (mk_bridge mode (if allowed then ''green_canary_pass'' else ''green_canary_block'') r
           (if allowed then ''VNEXT_GREEN_CANARY_MATCH'' else sp_vnext_reason_code r) True allowed)))))"

subsection \<open>Lemmas\<close>

lemma bridge_mode_Inr: "bridge_mode v = Inr mode \<Longrightarrow> mode \<in> set vnext_modes"
  by (auto simp: bridge_mode_def vnext_modes_def Let_def split: option.splits if_splits)

lemma observation_legacy_class:
  assumes "bridge_observation m = Inr ob"
  shows "lo_legacy_effect_class ob = Some (if lo_task_kind ob = ''publish'' then YELLOW else GREEN)"
    and "lo_task_kind ob \<in> {''code_edit'', ''publish'', ''diagnostic''}"
proof -
  have k: "route_task_kind v \<in> {''code_edit'', ''publish'', ''diagnostic''}" for v by (simp add: route_task_kind_def)
  have "lo_task_kind ob = route_task_kind (py_get m ''legacy_route'') \<and> lo_legacy_effect_class ob =
      Some (if route_task_kind (py_get m ''legacy_route'') \<in> {''code_edit'', ''diagnostic''} then GREEN else YELLOW)"
    using assms unfolding bridge_observation_def Let_def by (auto split: option.splits if_splits)
  then show "lo_legacy_effect_class ob = Some (if lo_task_kind ob = ''publish'' then YELLOW else GREEN)"
    and "lo_task_kind ob \<in> {''code_edit'', ''publish'', ''diagnostic''}"
    using k [of "py_get m ''legacy_route''"] by auto
qed

lemma canary_total: "\<exists>b. canary_eligible ob = Inr b"
  using adapt_error by (cases "adapt_legacy_task ob") (auto simp: canary_eligible_def)

lemma shadow_total: "\<exists>r. shadow_evaluate ob = Inr r"
  using adapt_error by (cases "adapt_legacy_task ob") (auto simp: shadow_evaluate_def Let_def)

text \<open>An eligible task names no protected file, so the two classifications agree on GREEN.\<close>

lemma eligible_matches:
  assumes ob: "bridge_observation m = Inr ob" and e: "canary_eligible ob = Inr True" and r: "shadow_evaluate ob = Inr r"
  shows "green_match r"
proof -
  have k: "lo_task_kind ob = ''code_edit''" using e by (simp add: canary_eligible_def split: if_splits)
  obtain a where a: "adapt_legacy_task ob = Inr a"
      "list_all (\<lambda>r. py_startswith r ''repo:'') (ir_resources (at_operation a))"
    using e k by (cases "adapt_legacy_task ob") (auto simp: canary_eligible_def split: if_splits)
  have "ir_resources (at_operation a) = map resource_ref (lo_allowed_files ob)" using adapt_InrD [OF a(1)] by blast
  then have "\<not> list_ex protected_path (lo_allowed_files ob)"
    using a(2) resource_ref_class(3) by (auto simp: list_all_iff list_ex_iff)
  then have "pd_effect_class (classify_policy (at_policy_input a)) = GREEN" using adapted_class [OF a(1)] by simp
  then show ?thesis
    using r a(1) observation_legacy_class(1) [OF ob] k
    by (auto simp: shadow_evaluate_def Let_def green_match_def compare_class_def)
qed

abbreviation exact_capabilities :: "string list" where
  "exact_capabilities \<equiv> [''repository_read'', ''repository_write_allowlisted'', ''test_execution'']"

text \<open>The decision in each mode, with the parity match of eligible tasks filled in.\<close>

lemma bridge_decides:
  assumes mode: "bridge_mode configured = Inr mode" "mode \<noteq> ''off''" and ob: "bridge_observation m = Inr ob"
  shows "\<exists>r el. shadow_evaluate ob = Inr r \<and> canary_eligible ob = Inr el \<and> (el \<longrightarrow> green_match r) \<and>
    evaluate_bridge configured m = Inr (
      if mode = ''shadow'' then mk_bridge mode ''shadow_observed'' r (sp_vnext_reason_code r) el True
      else if mode = ''authoritative'' then
        (if el \<and> lo_requested_capabilities ob = exact_capabilities
         then mk_bridge mode ''authoritative_green_ready'' r ''VNEXT_AUTHORITATIVE_GREEN_READY'' True False
         else mk_bridge mode ''authoritative_block'' r ''VNEXT_AUTHORITATIVE_NOT_ELIGIBLE'' False False)
      else if el then mk_bridge mode ''green_canary_pass'' r ''VNEXT_GREEN_CANARY_MATCH'' True True
      else mk_bridge mode ''legacy_protected_path'' r ''VNEXT_CANARY_NOT_ELIGIBLE'' False True)"
proof -
  obtain r where r: "shadow_evaluate ob = Inr r" using shadow_total by blast
  obtain el where el: "canary_eligible ob = Inr el" using canary_total by blast
  have gm: "el \<longrightarrow> green_match r" using eligible_matches [OF ob _ r] el by simp
  show ?thesis
    by (rule exI [of _ r], rule exI [of _ el])
      (cases el; use r el gm mode ob in \<open>simp add: evaluate_bridge_def authoritative_eligible_def Let_def\<close>)
qed

subsection \<open>Properties\<close>

text \<open>
  What each mode permits.  Authoritative mode never lets the legacy runner execute, and reports
  ready exactly for an eligible task with the exact capability list; off, shadow and canary mode always
  let it execute: in canary mode the block branch is unreachable, since a task that is eligible for the
  canary names no protected file and is GREEN on both sides.
\<close>

theorem bridge_permits:
  assumes "evaluate_bridge configured m = Inr d"
  shows "(bd_allow_legacy_execution d \<longleftrightarrow> bd_mode d \<noteq> ''authoritative'') \<and> bd_mode d \<in> set vnext_modes \<and>
    bd_status d \<noteq> ''green_canary_block'' \<and> \<not> bd_side_effects_executed d \<and>
    (bd_mode d = ''authoritative'' \<longrightarrow> (\<exists>ob. bridge_observation m = Inr ob \<and>
       (bd_status d = ''authoritative_green_ready'' \<longleftrightarrow> authoritative_eligible ob = Inr True))) \<and>
    (bd_status d = ''green_canary_pass'' \<longrightarrow> bd_vnext_effect_class d = Some ''GREEN'' \<and> bd_divergence d = Some ''MATCH'')"
proof -
  obtain mode where mode: "bridge_mode configured = Inr mode" using assms by (auto simp: evaluate_bridge_def)
  have known: "mode \<in> {''off'', ''shadow'', ''green_canary'', ''authoritative''}"
    using bridge_mode_Inr [OF mode] by (simp add: vnext_modes_def)
  show ?thesis
  proof (cases "mode = ''off''")
    case True
    then have "d = \<lparr>bd_mode = mode, bd_status = ''off'', bd_divergence = None, bd_vnext_effect_class = None,
         bd_reason_code = ''VNEXT_CUTOVER_OFF'', bd_canary_eligible = False, bd_allow_legacy_execution = True,
         bd_source_task_ref = None, bd_target_state_ref = None, bd_side_effects_executed = False\<rparr>"
      using assms mode by (simp add: evaluate_bridge_def)
    then show ?thesis using True by (simp add: vnext_modes_def)
  next
    case False
    then obtain ob where ob: "bridge_observation m = Inr ob" using assms mode by (auto simp: evaluate_bridge_def)
    obtain r el where el: "canary_eligible ob = Inr el" "el \<longrightarrow> green_match r"
      and d: "d = (if mode = ''shadow'' then mk_bridge mode ''shadow_observed'' r (sp_vnext_reason_code r) el True
        else if mode = ''authoritative'' then
          (if el \<and> lo_requested_capabilities ob = exact_capabilities
           then mk_bridge mode ''authoritative_green_ready'' r ''VNEXT_AUTHORITATIVE_GREEN_READY'' True False
           else mk_bridge mode ''authoritative_block'' r ''VNEXT_AUTHORITATIVE_NOT_ELIGIBLE'' False False)
        else if el then mk_bridge mode ''green_canary_pass'' r ''VNEXT_GREEN_CANARY_MATCH'' True True
        else mk_bridge mode ''legacy_protected_path'' r ''VNEXT_CANARY_NOT_ELIGIBLE'' False True)"
      using bridge_decides [OF mode False ob] assms by auto
    have auth: "authoritative_eligible ob = Inr True \<longleftrightarrow> el \<and> lo_requested_capabilities ob = exact_capabilities"
      using el(1) by (simp add: authoritative_eligible_def)
    from known False consider "mode = ''shadow''" | "mode = ''green_canary''" | "mode = ''authoritative''" by blast
    then show ?thesis
      by cases (use d el(2) ob auth in \<open>simp_all add: mk_bridge_def vnext_modes_def green_match_def\<close>)
  qed
qed

text \<open>
  The bridge fails only on its own inputs: with a valid mode and readable metadata it always decides,
  and every error is a VNextCutoverBridgeError.
\<close>

theorem bridge_total:
  "(case evaluate_bridge configured m of
      Inr d \<Rightarrow> True
    | Inl e \<Rightarrow> (\<exists>reason. e = VNextCutoverBridgeError reason) \<and>
        (bridge_mode configured = Inl e \<or> bridge_mode configured \<noteq> Inr ''off'' \<and> bridge_observation m = Inl e))"
proof (cases "bridge_mode configured")
  case (Inl e)
  then show ?thesis by (auto simp: evaluate_bridge_def bridge_mode_def Let_def split: option.splits if_splits)
next
  case (Inr mode)
  show ?thesis
  proof (cases "mode = ''off''")
    case True
    then show ?thesis using Inr by (simp add: evaluate_bridge_def)
  next
    case False
    show ?thesis
    proof (cases "bridge_observation m")
      case (Inl e)
      have "\<exists>reason. e = VNextCutoverBridgeError reason"
        using Inl unfolding bridge_observation_def Let_def
        by (auto simp: privacy_boundary_def Let_def split: option.splits if_splits py_value.splits)
      then show ?thesis using Inr Inl False by (simp add: evaluate_bridge_def)
    next
      case ob: (Inr ob)
      then show ?thesis using bridge_decides [OF Inr False ob] by auto
    qed
  qed
qed

subsection \<open>Witnesses\<close>

definition demo_metadata :: py_dict where
  "demo_metadata = [(''issue_number'', VInt 7), (''repo'', VStr ''o/r''), (''branch'', VStr ''main''),
     (''base_sha'', VStr (replicate 40 (CHR ''a''))), (''legacy_route'', VStr ''code_generation''),
     (''privacy_boundary'', VStr ''public_safe''), (''allowed_files'', VList [VStr ''README.md''])]"

definition demo_bridge_observation :: legacy_observation where
  "demo_bridge_observation = \<lparr>lo_source_task_ref = ''issue:7'', lo_target_state_ref = ''git:'' @ replicate 40 (CHR ''a''),
     lo_repo = ''o/r'', lo_branch = ''main'', lo_task_kind = ''code_edit'',
     lo_requested_capabilities = [''repository_write_allowlisted'', ''test_execution''], lo_allowed_files = [''README.md''],
     lo_privacy_boundary = ''PUBLIC_SAFE_REPOSITORY_ONLY'', lo_legacy_effect_class = Some GREEN, lo_legacy_status = ''READY'',
     lo_evidence_refs = []\<rparr>"

lemma demo_bridge: "bridge_mode (Some '' Green_Canary'') = Inr ''green_canary''"
    "bridge_observation demo_metadata = Inr demo_bridge_observation"
  by code_simp+

theorem bridge_permits_witness:
  "\<exists>d. evaluate_bridge (Some '' Green_Canary'') demo_metadata = Inr d \<and> bd_allow_legacy_execution d \<and> bd_mode d = ''green_canary''"
proof -
  have m: "''green_canary'' \<noteq> ''off''" by simp
  obtain d where d: "evaluate_bridge (Some '' Green_Canary'') demo_metadata = Inr d" "bd_mode d = ''green_canary''"
    using bridge_decides [OF demo_bridge(1) m demo_bridge(2)] by (auto simp: mk_bridge_def)
  from bridge_permits [OF d(1)] d show ?thesis by auto
qed

end
