(* ===== verification/RunnerTask.thy ===== *)
theory RunnerTask
  imports Json
begin

text \<open>
  \<^verbatim>\<open>core/runner_task.py\<close>: the envelope of a runner task.  \<open>from_mapping\<close> validates and normalises an
  untrusted Python object, \<open>to_mapping\<close> and \<open>to_json\<close> give it back.  Untrusted values have type
  \<open>py_obj\<close>; a dictionary is the list of its items, \<open>KOther\<close> is a key that is not a string and
  \<open>OOther\<close> a value that is neither a JSON scalar, a mapping, a list nor a tuple.  A finite float is
  given by its \<^verbatim>\<open>repr\<close>.  The frozen payload (read-only mappings and tuples) has type \<open>json\<close>.
  An exception carries its reason code; the message text is left out, and with it the \<^verbatim>\<open>path\<close>
  argument of \<^verbatim>\<open>_freeze_json\<close>, which only goes into messages.  The regular expressions are written
  as the predicates on strings that \<^verbatim>\<open>fullmatch\<close> decides.  \<^verbatim>\<open>from_json\<close> is in theory TaskText.
\<close>

subsection \<open>Definitions\<close>

datatype py_key = KStr string | KOther nat

datatype py_obj =
    ONone
  | OBool bool
  | OInt int
  | OFloat string
  | ONonFinite
  | OStr string
  | OBytes
  | OList "py_obj list"
  | OTuple "py_obj list"
  | OMap "(py_key \<times> py_obj) list"
  | OOther

definition runner_task_schema :: string where
  "runner_task_schema = ''skeleton.runner_task.v1''"

definition task_kinds :: "string list" where
  "task_kinds = [''code_edit'', ''repository_maintenance'', ''private_memory'', ''diagnostic'', ''loop_control'', ''publish'']"

definition requested_capabilities_known :: "string list" where
  "requested_capabilities_known = [''repository_read'', ''repository_write_allowlisted'', ''test_execution'',
     ''subprocess_isolated'', ''memory_gateway_read'', ''memory_gateway_write'', ''diagnostic_read'',
     ''repository_maintenance'', ''loop_control'', ''publish_pull_request'']"

definition privacy_boundaries :: "string list" where
  "privacy_boundaries = [''PUBLIC_SAFE_REPOSITORY_ONLY'', ''PUBLIC_SAFE_AGGREGATE_ONLY'', ''LOCAL_PRIVATE'', ''PRIVATE_LOCAL'']"

text \<open>The character classes \<^verbatim>\<open>[A-Za-z0-9]\<close> and \<^verbatim>\<open>[A-Za-z0-9...]\<close>, and \<^verbatim>\<open>[A-Za-z0-9][...]{0,n}\<close>.\<close>

definition ascii_alnum :: "char \<Rightarrow> bool" where
  "ascii_alnum c = (let n = code_point c in 65 \<le> n \<and> n \<le> 90 \<or> 97 \<le> n \<and> n \<le> 122 \<or> 48 \<le> n \<and> n \<le> 57)"

definition name_char :: "string \<Rightarrow> char \<Rightarrow> bool" where
  "name_char extra c \<longleftrightarrow> ascii_alnum c \<or> c \<in> set extra"

definition bounded_name :: "string \<Rightarrow> string \<Rightarrow> nat \<Rightarrow> string \<Rightarrow> bool" where
  "bounded_name extra0 extra n s \<longleftrightarrow>
     s \<noteq> [] \<and> name_char extra0 (hd s) \<and> list_all (name_char extra) (tl s) \<and> length (tl s) \<le> n"

definition repository_re :: "string \<Rightarrow> bool" where
  "repository_re s = (case py_partition (CHR ''/'') s of (owner, found, name) \<Rightarrow>
     found \<and> bounded_name [] ''_.-'' 99 owner \<and> bounded_name [] ''_.-'' 99 name)"

definition hex_char :: "char \<Rightarrow> bool" where
  "hex_char c = (let n = code_point c in 48 \<le> n \<and> n \<le> 57 \<or> 97 \<le> n \<and> n \<le> 102 \<or> 65 \<le> n \<and> n \<le> 70)"

definition sha_re :: "string \<Rightarrow> bool" where
  "sha_re s \<longleftrightarrow> length s = 40 \<and> list_all hex_char s"

definition branch_re :: "string \<Rightarrow> bool" where
  "branch_re = bounded_name [] ''._/-'' 254"

definition token_re :: "string \<Rightarrow> bool" where
  "token_re = bounded_name [] ''_.:-'' 127"

definition payload_key_re :: "string \<Rightarrow> bool" where
  "payload_key_re = bounded_name [] ''_.:-'' 127"

definition safe_path_re :: "string \<Rightarrow> bool" where
  "safe_path_re = bounded_name ''._-'' ''._/@+-'' 511"

definition required_fields :: "string list" where
  "required_fields = [''schema'', ''repo'', ''branch'', ''base_sha'', ''task_kind'', ''payload'', ''requested_capabilities'',
     ''allowed_files'', ''forbidden_actions'', ''validation_commands'', ''validation_timeout_seconds'', ''expected_output'',
     ''privacy_boundary'', ''approval_reference'', ''idempotency_key'']"

definition max_payload_depth :: nat where "max_payload_depth = 16"

definition max_payload_items :: nat where "max_payload_items = 256"

definition max_payload_string_length :: nat where "max_payload_string_length = 4096"

definition max_payload_bytes :: nat where "max_payload_bytes = 65536"

record runner_task =
  rt_schema :: string
  rt_repo :: string
  rt_branch :: string
  rt_base_sha :: string
  rt_task_kind :: string
  rt_payload :: json
  rt_requested_capabilities :: "string list"
  rt_allowed_files :: "string list"
  rt_forbidden_actions :: "string list"
  rt_validation_commands :: "string list list"
  rt_validation_timeout_seconds :: int
  rt_expected_output :: "string list"
  rt_privacy_boundary :: string
  rt_approval_reference :: string
  rt_idempotency_key :: string

abbreviation task_error :: "string \<Rightarrow> 'a res" where
  "task_error reason \<equiv> Inl (RunnerTaskValidationError reason)"

definition exact_string :: "py_obj \<Rightarrow> string \<Rightarrow> string res" where
  "exact_string v expected = (if v \<noteq> OStr expected then task_error ''INVALID_TASK_SCHEMA'' else Inr expected)"

definition rt_repository :: "py_obj \<Rightarrow> string res" where
  "rt_repository v =
     (case v of OStr s \<Rightarrow> if repository_re s then Inr s else task_error ''INVALID_REPOSITORY''
      | _ \<Rightarrow> task_error ''INVALID_REPOSITORY'')"

text \<open>\<^verbatim>\<open>value.split(sep)\<close> for a one-character separator.\<close>

fun py_split :: "char \<Rightarrow> string \<Rightarrow> string list" where
  "py_split sep [] = [[]]"
| "py_split sep (c # cs) =
     (if c = sep then [] # py_split sep cs
      else (case py_split sep cs of [] \<Rightarrow> [[c]] | w # ws \<Rightarrow> (c # w) # ws))"

definition dot_segment :: "string \<Rightarrow> bool" where
  "dot_segment s \<longleftrightarrow> s \<in> {[], ''.'', ''..''}"

definition branch_malformed :: "string \<Rightarrow> bool" where
  "branch_malformed s \<longleftrightarrow> suffix ''/'' s \<or> suffix ''.'' s \<or> suffix ''.lock'' s \<or> py_contains s ''..'' \<or>
     py_contains s (CHR 0x40 # ''{'') \<or> py_contains s ''//'' \<or> list_ex dot_segment (py_split (CHR ''/'') s)"

definition rt_branch_of :: "py_obj \<Rightarrow> string res" where
  "rt_branch_of v =
     (case v of
        OStr s \<Rightarrow> if \<not> branch_re s then task_error ''INVALID_BRANCH''
          else if branch_malformed s then task_error ''INVALID_BRANCH'' else Inr s
      | _ \<Rightarrow> task_error ''INVALID_BRANCH'')"

definition rt_base_sha_of :: "py_obj \<Rightarrow> string res" where
  "rt_base_sha_of v =
     (case v of OStr s \<Rightarrow> if sha_re s then Inr (py_lower s) else task_error ''INVALID_BASE_SHA''
      | _ \<Rightarrow> task_error ''INVALID_BASE_SHA'')"

definition enum_string :: "py_obj \<Rightarrow> string \<Rightarrow> string list \<Rightarrow> string res" where
  "enum_string v field allowed =
     (case v of OStr s \<Rightarrow> if s \<in> set allowed then Inr s else task_error (''INVALID_'' @ py_upper field)
      | _ \<Rightarrow> task_error (''INVALID_'' @ py_upper field))"

definition safe_token :: "py_obj \<Rightarrow> string \<Rightarrow> string res" where
  "safe_token v field =
     (case v of OStr s \<Rightarrow> if token_re s then Inr s else task_error (''INVALID_'' @ py_upper field)
      | _ \<Rightarrow> task_error (''INVALID_'' @ py_upper field))"

text \<open>
  \<^verbatim>\<open>_freeze_json\<close>.  The children of a mapping are frozen in the order of the sorted keys, so the
  first error in that order is the one reported: \<open>collect_fields\<close> walks the results in that order.
\<close>

fun key_text :: "py_key \<Rightarrow> string" where
  "key_text (KStr s) = s"
| "key_text (KOther n) = []"

definition bad_key :: "py_key \<Rightarrow> bool" where
  "bad_key k = (case k of KStr s \<Rightarrow> \<not> payload_key_re s | KOther n \<Rightarrow> True)"

fun collect_fields :: "(string \<times> json res) list \<Rightarrow> (string \<times> json) list res" where
  "collect_fields [] = Inr []"
| "collect_fields ((k, r) # fs) = rbind r (\<lambda>j. rbind (collect_fields fs) (\<lambda>js. Inr ((k, j) # js)))"

definition at_depth :: "nat \<Rightarrow> 'a res \<Rightarrow> 'a res" where
  "at_depth depth r = (if depth > max_payload_depth then task_error ''ROUTE_PAYLOAD_TOO_DEEP'' else r)"

fun freeze_json :: "py_obj \<Rightarrow> nat \<Rightarrow> json res"
and freeze_items :: "py_obj list \<Rightarrow> nat \<Rightarrow> json list res"
and freeze_fields :: "(py_key \<times> py_obj) list \<Rightarrow> nat \<Rightarrow> (string \<times> json res) list" where
  "freeze_json ONone d = at_depth d (Inr JNull)"
| "freeze_json (OBool b) d = at_depth d (Inr (JBool b))"
| "freeze_json (OInt i) d = at_depth d (Inr (JInt i))"
| "freeze_json (OFloat t) d = at_depth d (Inr (JFloat t))"
| "freeze_json ONonFinite d = at_depth d (task_error ''INVALID_ROUTE_PAYLOAD'')"
| "freeze_json (OStr s) d = at_depth d
     (if length s > max_payload_string_length then task_error ''ROUTE_PAYLOAD_STRING_TOO_LONG'' else Inr (JStr s))"
| "freeze_json (OMap kvs) d = at_depth d
     (if length kvs > max_payload_items then task_error ''ROUTE_PAYLOAD_TOO_LARGE''
      else if list_ex bad_key (map fst kvs) then task_error ''INVALID_ROUTE_PAYLOAD_KEY''
      else rbind (collect_fields (sort_key fst (freeze_fields kvs (Suc d)))) (\<lambda>fs. Inr (JObj fs)))"
| "freeze_json (OList xs) d = at_depth d
     (if length xs > max_payload_items then task_error ''ROUTE_PAYLOAD_TOO_LARGE''
      else rbind (freeze_items xs (Suc d)) (\<lambda>js. Inr (JArr js)))"
| "freeze_json (OTuple xs) d = at_depth d
     (if length xs > max_payload_items then task_error ''ROUTE_PAYLOAD_TOO_LARGE''
      else rbind (freeze_items xs (Suc d)) (\<lambda>js. Inr (JArr js)))"
| "freeze_json OBytes d = at_depth d (task_error ''INVALID_ROUTE_PAYLOAD'')"
| "freeze_json OOther d = at_depth d (task_error ''INVALID_ROUTE_PAYLOAD'')"
| "freeze_items [] d = Inr []"
| "freeze_items (x # xs) d = rbind (freeze_json x d) (\<lambda>j. rbind (freeze_items xs d) (\<lambda>js. Inr (j # js)))"
| "freeze_fields [] d = []"
| "freeze_fields ((k, v) # kvs) d = (key_text k, freeze_json v d) # freeze_fields kvs d"

fun thaw_json :: "json \<Rightarrow> py_obj"
and thaw_items :: "json list \<Rightarrow> py_obj list"
and thaw_fields :: "(string \<times> json) list \<Rightarrow> (py_key \<times> py_obj) list" where
  "thaw_json JNull = ONone"
| "thaw_json (JBool b) = OBool b"
| "thaw_json (JInt i) = OInt i"
| "thaw_json (JFloat t) = OFloat t"
| "thaw_json (JStr s) = OStr s"
| "thaw_json (JArr js) = OList (thaw_items js)"
| "thaw_json (JObj fs) = OMap (thaw_fields fs)"
| "thaw_items [] = []"
| "thaw_items (j # js) = thaw_json j # thaw_items js"
| "thaw_fields [] = []"
| "thaw_fields ((k, j) # fs) = (KStr k, thaw_json j) # thaw_fields fs"

definition rt_payload_of :: "py_obj \<Rightarrow> json res" where
  "rt_payload_of v =
     (case v of
        OMap kvs \<Rightarrow> rbind (freeze_json v 0) (\<lambda>frozen.
          if \<not> printable_ints frozen then Inl int_limit_error
          else if length (dumps_sorted frozen) > max_payload_bytes then task_error ''ROUTE_PAYLOAD_TOO_LARGE'' else Inr frozen)
      | _ \<Rightarrow> task_error ''INVALID_ROUTE_PAYLOAD'')"

definition rt_sequence :: "py_obj \<Rightarrow> string \<Rightarrow> py_obj list res" where
  "rt_sequence v field =
     rbind (case v of OList xs \<Rightarrow> Inr xs | OTuple xs \<Rightarrow> Inr xs | _ \<Rightarrow> task_error (''INVALID_'' @ py_upper field))
       (\<lambda>xs. if xs = [] then task_error (''EMPTY_'' @ py_upper field) else Inr xs)"

text \<open>A loop over untrusted items that keeps the strings it accepts and raises at the first other item.\<close>

fun accept_strs :: "(string \<Rightarrow> bool) \<Rightarrow> string \<Rightarrow> py_obj list \<Rightarrow> string list res" where
  "accept_strs ok reason [] = Inr []"
| "accept_strs ok reason (OStr s # vs) =
     (if ok s then rbind (accept_strs ok reason vs) (\<lambda>ss. Inr (s # ss)) else task_error reason)"
| "accept_strs ok reason (v # vs) = task_error reason"

definition reject_duplicates :: "'a list \<Rightarrow> string \<Rightarrow> unit res" where
  "reject_duplicates xs field =
     raise_if (length (remdups xs) \<noteq> length xs) (RunnerTaskValidationError (''DUPLICATE_'' @ py_upper field))"

definition rt_capabilities :: "py_obj \<Rightarrow> string list res" where
  "rt_capabilities v =
     rbind (rt_sequence v ''requested_capabilities'') (\<lambda>items.
     rbind (accept_strs (\<lambda>s. s \<in> set requested_capabilities_known) ''INVALID_REQUESTED_CAPABILITY'' items) (\<lambda>ns.
     rbind (reject_duplicates ns ''requested_capabilities'') (\<lambda>_. Inr (sort ns))))"

definition repository_path :: "string \<Rightarrow> bool" where
  "repository_path s \<longleftrightarrow> safe_path_re s \<and> \<not> prefix ''/'' s \<and> \<not> suffix ''/'' s \<and> \<not> py_contains s [CHR 0x5C] \<and>
     \<not> py_contains s ''//'' \<and> \<not> list_ex dot_segment (py_split (CHR ''/'') s)"

definition rt_files :: "py_obj \<Rightarrow> string list res" where
  "rt_files v =
     rbind (rt_sequence v ''allowed_files'') (\<lambda>items.
     rbind (accept_strs repository_path ''INVALID_ALLOWED_FILE'' items) (\<lambda>ns.
     rbind (reject_duplicates ns ''allowed_files'') (\<lambda>_. Inr (sort ns))))"

definition text_item :: "string \<Rightarrow> bool" where
  "text_item s \<longleftrightarrow> py_strip s \<noteq> [] \<and> length s \<le> 512"

definition bounded_text_items :: "py_obj \<Rightarrow> string \<Rightarrow> bool \<Rightarrow> string list res" where
  "bounded_text_items v field sort_items =
     rbind (rt_sequence v field) (\<lambda>items.
     if length items > 64 then task_error (''TOO_MANY_'' @ py_upper field)
     else rbind (accept_strs text_item (''INVALID_'' @ py_upper field) items) (\<lambda>ss.
       let ns = map py_strip ss in
       rbind (reject_duplicates ns field) (\<lambda>_. Inr (if sort_items then sort ns else ns))))"

definition command_argument :: "string \<Rightarrow> bool" where
  "command_argument s \<longleftrightarrow> s \<noteq> [] \<and> CHR 0x00 \<notin> set s \<and> length s \<le> 2048"

definition rt_command :: "py_obj \<Rightarrow> string list res" where
  "rt_command v =
     rbind (rt_sequence v ''validation_command'') (\<lambda>argv.
     if length argv > 64 then task_error ''VALIDATION_COMMAND_TOO_LONG''
     else accept_strs command_argument ''INVALID_VALIDATION_COMMAND'' argv)"

fun rt_command_loop :: "py_obj list \<Rightarrow> string list list res" where
  "rt_command_loop [] = Inr []"
| "rt_command_loop (v # vs) = rbind (rt_command v) (\<lambda>c. rbind (rt_command_loop vs) (\<lambda>cs. Inr (c # cs)))"

definition rt_commands :: "py_obj \<Rightarrow> string list list res" where
  "rt_commands v =
     rbind (rt_sequence v ''validation_commands'') (\<lambda>commands.
     if length commands > 16 then task_error ''TOO_MANY_VALIDATION_COMMANDS''
     else rbind (rt_command_loop commands) (\<lambda>ns. rbind (reject_duplicates ns ''validation_commands'') (\<lambda>_. Inr ns)))"

definition rt_timeout :: "py_obj \<Rightarrow> int res" where
  "rt_timeout v =
     (case v of OInt n \<Rightarrow> if n < 1 \<or> n > 3600 then task_error ''INVALID_VALIDATION_TIMEOUT'' else Inr n
      | _ \<Rightarrow> task_error ''INVALID_VALIDATION_TIMEOUT'')"

definition envelope_fields :: "py_obj \<Rightarrow> (py_key \<times> py_obj) list res" where
  "envelope_fields v =
     (case v of
        OMap kvs \<Rightarrow>
          if list_ex (\<lambda>k. case k of KStr s \<Rightarrow> False | KOther n \<Rightarrow> True) (map fst kvs) then task_error ''INVALID_TASK_FIELD''
          else if list_ex (\<lambda>k. key_text k \<notin> set required_fields) (map fst kvs) then task_error ''UNKNOWN_TASK_FIELD''
          else if list_ex (\<lambda>f. KStr f \<notin> set (map fst kvs)) required_fields then task_error ''MISSING_TASK_FIELD''
          else Inr kvs
      | _ \<Rightarrow> task_error ''INVALID_TASK_ENVELOPE'')"

text \<open>\<^verbatim>\<open>value[key]\<close>, for a key that was checked to be present.\<close>

definition field_value :: "(py_key \<times> py_obj) list \<Rightarrow> string \<Rightarrow> py_obj" where
  "field_value kvs f = (case map_of kvs (KStr f) of Some v \<Rightarrow> v | None \<Rightarrow> ONone)"

definition from_mapping :: "py_obj \<Rightarrow> runner_task res" where
  "from_mapping value =
     rbind (envelope_fields value) (\<lambda>kvs. let v = field_value kvs in
     rbind (exact_string (v ''schema'') runner_task_schema) (\<lambda>schema.
     rbind (rt_repository (v ''repo'')) (\<lambda>repo.
     rbind (rt_branch_of (v ''branch'')) (\<lambda>branch.
     rbind (rt_base_sha_of (v ''base_sha'')) (\<lambda>base_sha.
     rbind (enum_string (v ''task_kind'') ''task_kind'' task_kinds) (\<lambda>task_kind.
     rbind (rt_payload_of (v ''payload'')) (\<lambda>payload.
     rbind (rt_capabilities (v ''requested_capabilities'')) (\<lambda>caps.
     rbind (rt_files (v ''allowed_files'')) (\<lambda>files.
     rbind (bounded_text_items (v ''forbidden_actions'') ''forbidden_actions'' True) (\<lambda>forbidden.
     rbind (rt_commands (v ''validation_commands'')) (\<lambda>commands.
     rbind (rt_timeout (v ''validation_timeout_seconds'')) (\<lambda>timeout.
     rbind (bounded_text_items (v ''expected_output'') ''expected_output'' True) (\<lambda>expected.
     rbind (enum_string (v ''privacy_boundary'') ''privacy_boundary'' privacy_boundaries) (\<lambda>privacy.
     rbind (safe_token (v ''approval_reference'') ''approval_reference'') (\<lambda>approval.
     rbind (safe_token (v ''idempotency_key'') ''idempotency_key'') (\<lambda>key.
     Inr \<lparr>rt_schema = schema, rt_repo = repo, rt_branch = branch, rt_base_sha = base_sha, rt_task_kind = task_kind,
          rt_payload = payload, rt_requested_capabilities = caps, rt_allowed_files = files,
          rt_forbidden_actions = forbidden, rt_validation_commands = commands, rt_validation_timeout_seconds = timeout,
          rt_expected_output = expected, rt_privacy_boundary = privacy, rt_approval_reference = approval,
          rt_idempotency_key = key\<rparr>))))))))))))))))"

text \<open>The document of a task: \<^verbatim>\<open>to_mapping\<close> as JSON, of which \<^verbatim>\<open>to_json\<close> prints the sorted text.\<close>

definition task_json :: "runner_task \<Rightarrow> json" where
  "task_json t = JObj [
     (''schema'', JStr (rt_schema t)),
     (''repo'', JStr (rt_repo t)),
     (''branch'', JStr (rt_branch t)),
     (''base_sha'', JStr (rt_base_sha t)),
     (''task_kind'', JStr (rt_task_kind t)),
     (''payload'', rt_payload t),
     (''requested_capabilities'', jstrs (rt_requested_capabilities t)),
     (''allowed_files'', jstrs (rt_allowed_files t)),
     (''forbidden_actions'', jstrs (rt_forbidden_actions t)),
     (''validation_commands'', JArr (map jstrs (rt_validation_commands t))),
     (''validation_timeout_seconds'', JInt (rt_validation_timeout_seconds t)),
     (''expected_output'', jstrs (rt_expected_output t)),
     (''privacy_boundary'', JStr (rt_privacy_boundary t)),
     (''approval_reference'', JStr (rt_approval_reference t)),
     (''idempotency_key'', JStr (rt_idempotency_key t))]"

definition to_mapping :: "runner_task \<Rightarrow> py_obj" where
  "to_mapping t = thaw_json (task_json t)"

definition to_json :: "runner_task \<Rightarrow> string" where
  "to_json t = dumps_sorted (task_json t)"

subsection \<open>Normalising validators\<close>

text \<open>
  Every field of the envelope is read by a validator that may normalise (lower case, strip, sort,
  freeze) and is written back by a printer.  The contract of such a pair: reading what was printed
  gives the accepted value again.  Then the accepted values are exactly those that survive a print
  and a read, and printing loses nothing.
\<close>

locale normaliser =
  fixes read :: "'v \<Rightarrow> 'a res" and print :: "'a \<Rightarrow> 'v"
  assumes reread: "read v = Inr x \<Longrightarrow> read (print x) = Inr x"
begin

lemma accepted_iff: "(\<exists>v. read v = Inr x) \<longleftrightarrow> read (print x) = Inr x"
proof
  assume "\<exists>v. read v = Inr x"
  then obtain v where "read v = Inr x" ..
  then show "read (print x) = Inr x" by (rule reread)
qed blast

lemma print_injective:
  assumes "read v = Inr x" "read w = Inr y" "print x = print y"
  shows "x = y"
proof -
  have "(Inr x :: 'a res) = read (print x)" by (rule sym, rule reread) (rule assms(1))
  also have "\<dots> = Inr y" unfolding assms(3) by (rule reread) (rule assms(2))
  finally show ?thesis by simp
qed

lemma normal_form: "read v = Inr x \<Longrightarrow> read (print x) = read v"
  by (simp only: reread)

end

subsection \<open>Strings\<close>

lemma hex_lower_mem:
  assumes "48 \<le> code_point c \<and> code_point c \<le> 57 \<or> 97 \<le> code_point c \<and> code_point c \<le> 102"
  shows "c \<in> set hex_lower"
proof -
  have "code_point c \<in> set ([48..<58] @ [97..<103])" unfolding set_append set_upt using assms by auto
  also have "[48..<58] @ [97..<103] = map code_point hex_lower" by code_simp
  finally show ?thesis by (simp only: set_map inj_image_mem_iff [OF inj_of_char])
qed

lemma hex_char_lower:
  assumes "hex_char c"
  shows "hex_char (py_lower_char c) \<and> py_lower_char (py_lower_char c) = py_lower_char c \<and> py_lower_char c \<in> set hex_lower"
proof (cases "65 \<le> code_point c \<and> code_point c \<le> 70")
  case True
  define d where "d = (char_of (code_point c + 32) :: char)"
  have d: "code_point d = code_point c + 32" using True by (simp add: d_def)
  have "py_lower_char c = d" using True by (simp add: py_lower_char_def Let_def d_def)
  moreover have "py_lower_char d = d" using d True by (simp add: py_lower_char_def Let_def)
  moreover have "hex_char d" using d True by (simp add: hex_char_def Let_def)
  moreover have "d \<in> set hex_lower" by (rule hex_lower_mem) (use d True in simp)
  ultimately show ?thesis by simp
next
  case False
  then have n: "48 \<le> code_point c \<and> code_point c \<le> 57 \<or> 97 \<le> code_point c \<and> code_point c \<le> 102"
    using assms by (auto simp: hex_char_def Let_def)
  then have "py_lower_char c = c" by (auto simp: py_lower_char_def Let_def)
  then show ?thesis using assms hex_lower_mem [OF n] by simp
qed

lemma py_lower_hex:
  assumes "sha_re s"
  shows "sha_re (py_lower s)" "py_lower (py_lower s) = py_lower s" "set (py_lower s) \<subseteq> set hex_lower"
  using assms hex_char_lower by (auto simp: sha_re_def py_lower_def list_all_iff)

lemma last_dropWhile: "dropWhile P xs \<noteq> [] \<Longrightarrow> last (dropWhile P xs) = last xs"
  by (metis last_appendR takeWhile_dropWhile_id)

lemma py_strip_fixed: "\<not> py_isspace (hd s) \<Longrightarrow> \<not> py_isspace (last s) \<Longrightarrow> py_strip s = s"
proof (cases s rule: rev_cases)
  case (snoc ys y)
  assume "\<not> py_isspace (hd s)" "\<not> py_isspace (last s)"
  then have "dropWhile py_isspace s = s" "dropWhile py_isspace (rev s) = rev s"
    using snoc by (auto simp: dropWhile_eq_self_iff)
  then show ?thesis by (simp add: py_strip_def)
qed (simp add: py_strip_def)

lemma py_strip_ends:
  assumes "py_strip s \<noteq> []"
  shows "\<not> py_isspace (hd (py_strip s))" "\<not> py_isspace (last (py_strip s))"
proof -
  define u where "u = dropWhile py_isspace s"
  define w where "w = dropWhile py_isspace (rev u)"
  have w: "py_strip s = rev w" "w \<noteq> []" using assms by (simp_all add: py_strip_def u_def w_def)
  have "u \<noteq> []" using w(2) by (auto simp: w_def)
  then have u: "\<not> py_isspace (hd u)" unfolding u_def by (rule hd_dropWhile)
  have "\<not> py_isspace (hd w)" using w(2) unfolding w_def by (rule hd_dropWhile)
  moreover have "last w = hd u" using last_dropWhile [of py_isspace "rev u"] w(2) by (simp add: w_def last_rev)
  ultimately show "\<not> py_isspace (hd (py_strip s))" "\<not> py_isspace (last (py_strip s))"
    using u w by (simp_all add: hd_rev last_rev)
qed

lemma py_strip_idem [simp]: "py_strip (py_strip s) = py_strip s"
proof (cases "py_strip s = []")
  case True
  then show ?thesis by (simp only: True) (simp add: py_strip_def)
next
  case False
  then show ?thesis using py_strip_ends py_strip_fixed by blast
qed

lemma py_strip_length: "length (py_strip s) \<le> length s"
  by (simp add: py_strip_def) (metis length_dropWhile_le length_rev order_trans)

subsection \<open>Freezing and thawing\<close>

text \<open>The frozen values \<open>freeze_json\<close> returns at a given depth.\<close>

fun canonical :: "json \<Rightarrow> nat \<Rightarrow> bool"
and canonical_items :: "json list \<Rightarrow> nat \<Rightarrow> bool"
and canonical_fields :: "(string \<times> json) list \<Rightarrow> nat \<Rightarrow> bool" where
  "canonical (JStr s) d \<longleftrightarrow> d \<le> max_payload_depth \<and> length s \<le> max_payload_string_length"
| "canonical (JArr js) d \<longleftrightarrow> d \<le> max_payload_depth \<and> length js \<le> max_payload_items \<and> canonical_items js (Suc d)"
| "canonical (JObj fs) d \<longleftrightarrow> d \<le> max_payload_depth \<and> length fs \<le> max_payload_items \<and>
     sorted (map fst fs) \<and> canonical_fields fs (Suc d)"
| "canonical j d \<longleftrightarrow> d \<le> max_payload_depth"
| "canonical_items [] d = True"
| "canonical_items (j # js) d \<longleftrightarrow> canonical j d \<and> canonical_items js d"
| "canonical_fields [] d = True"
| "canonical_fields ((k, j) # fs) d \<longleftrightarrow> payload_key_re k \<and> canonical j d \<and> canonical_fields fs d"

lemma canonical_items_iff: "canonical_items js d \<longleftrightarrow> (\<forall>j\<in>set js. canonical j d)"
  by (induction js) auto

lemma canonical_fields_iff: "canonical_fields fs d \<longleftrightarrow> (\<forall>(k, j)\<in>set fs. payload_key_re k \<and> canonical j d)"
  by (induction fs) auto

lemma at_depth_Inr [simp]: "at_depth d r = Inr x \<longleftrightarrow> d \<le> max_payload_depth \<and> r = Inr x"
  by (simp add: at_depth_def)

lemma collect_fields_Inr:
  "collect_fields rs = Inr fs \<longleftrightarrow> rs = map (\<lambda>(k, j). (k, Inr j)) fs"
  by (induction rs arbitrary: fs) (auto simp: Cons_eq_map_conv)

lemma freeze_fields_map: "freeze_fields kvs d = map (\<lambda>(k, v). (key_text k, freeze_json v d)) kvs"
  by (induction kvs) auto

lemma thaw_fields_map: "thaw_fields fs = map (\<lambda>(k, j). (KStr k, thaw_json j)) fs"
  by (induction fs) auto

lemma thaw_items_map: "thaw_items js = map thaw_json js"
  by (induction js) auto

lemma freeze_items_length: "freeze_items xs d = Inr js \<Longrightarrow> length js = length xs"
  by (induction xs arbitrary: js) auto

lemma freeze_canonical:
  "freeze_json v d = Inr j \<Longrightarrow> canonical j d"
  "freeze_items vs d = Inr js \<Longrightarrow> canonical_items js d"
  "list_all (\<lambda>k. \<not> bad_key k) (map fst kvs) \<Longrightarrow> (k, Inr j) \<in> set (freeze_fields kvs d) \<Longrightarrow> payload_key_re k \<and> canonical j d"
proof (induction v d and vs d and kvs d arbitrary: j and js and k j rule: freeze_json_freeze_items_freeze_fields.induct)
  case (7 kvs d)
  then obtain fs where fs: "d \<le> max_payload_depth" "length kvs \<le> max_payload_items" "j = JObj fs"
      "list_all (\<lambda>k. \<not> bad_key k) (map fst kvs)" "sort_key fst (freeze_fields kvs (Suc d)) = map (\<lambda>(k, j). (k, Inr j)) fs"
    by (auto simp: collect_fields_Inr list_ex_iff list_all_iff split: if_splits)
  have "length (sort_key fst (freeze_fields kvs (Suc d))) = length kvs" by (simp add: freeze_fields_map)
  then have len: "length fs = length kvs" using fs(5) by simp
  have "map fst (sort_key fst (freeze_fields kvs (Suc d))) = map fst fs"
    unfolding fs(5) by (induction fs) auto
  then have srt: "sorted (map fst fs)" by (metis sorted_sort_key)
  have "payload_key_re k \<and> canonical j (Suc d)" if "(k, j) \<in> set fs" for k j
  proof -
    have "(k, Inr j) \<in> set (sort_key fst (freeze_fields kvs (Suc d)))" unfolding fs(5) using that by force
    then show ?thesis using 7(1) fs(1,2,4) by (simp add: list_ex_iff list_all_iff)
  qed
  then show ?case using fs len srt by (auto simp: canonical_fields_iff)
qed (auto simp: bad_key_def freeze_items_length split: if_splits py_key.splits)

lemma freeze_thaw:
  "canonical j d \<Longrightarrow> freeze_json (thaw_json j) d = Inr j"
  "canonical_items js d \<Longrightarrow> freeze_items (thaw_items js) d = Inr js"
  "canonical_fields fs d \<Longrightarrow> freeze_fields (thaw_fields fs) d = map (\<lambda>(k, j). (k, Inr j)) fs"
proof (induction j d and js d and fs d rule: canonical_canonical_items_canonical_fields.induct)
  case (3 fs d)
  then have "freeze_fields (thaw_fields fs) (Suc d) = map (\<lambda>(k, j). (k, Inr j)) fs" by simp
  moreover have "map fst (map (\<lambda>(k, j). (k, Inr j :: json res)) fs) = map fst fs" by (induction fs) auto
  then have "sort_key fst (map (\<lambda>(k, j). (k, Inr j :: json res)) fs) = map (\<lambda>(k, j). (k, Inr j)) fs"
    using 3(2) by (intro sort_key_fixed) (simp only: canonical.simps)
  moreover have "\<not> bad_key k" if "k \<in> set (map fst (thaw_fields fs))" for k
    using 3(2) that by (auto simp: thaw_fields_map canonical_fields_iff bad_key_def)
  ultimately show ?case using 3(2)
    by (auto simp: at_depth_def list_ex_iff collect_fields_Inr thaw_fields_map)
qed (auto simp: at_depth_def thaw_items_map)

text \<open>A frozen value has its keys sorted already, so \<^verbatim>\<open>sort_keys=True\<close> changes nothing.\<close>

lemma sort_keys_canonical:
  "canonical j d \<Longrightarrow> sort_keys j = j"
  "canonical_items js d \<Longrightarrow> sort_keys_items js = js"
  "canonical_fields fs d \<Longrightarrow> sort_keys_fields fs = fs"
  by (induction j d and js d and fs d rule: canonical_canonical_items_canonical_fields.induct) (auto simp: sort_key_fixed)

subsection \<open>The validators of the fields\<close>

lemma if_raise_Inr [simp]: "(if b then Inl e else r) = Inr x \<longleftrightarrow> \<not> b \<and> r = Inr x"
  by simp

lemma accept_strs_Inr [simp]:
  "accept_strs ok reason vs = Inr ss \<longleftrightarrow> vs = map OStr ss \<and> (\<forall>s\<in>set ss. ok s)"
  by (induction ok reason vs arbitrary: ss rule: accept_strs.induct) (auto simp: Cons_eq_map_conv)

lemma rt_sequence_Inr:
  "rt_sequence v field = Inr xs \<longleftrightarrow> xs \<noteq> [] \<and> (v = OList xs \<or> v = OTuple xs)"
  by (cases v) (auto simp: rt_sequence_def split: if_splits)

lemma reject_duplicates_Inr [simp]: "reject_duplicates xs field = Inr u \<longleftrightarrow> distinct xs"
  by (simp add: reject_duplicates_def)

lemmas field_defs = rt_capabilities_def rt_files_def bounded_text_items_def rt_command_def rt_commands_def rt_sequence_Inr Let_def

abbreviation strs_obj :: "string list \<Rightarrow> py_obj" where
  "strs_obj ss \<equiv> OList (map OStr ss)"

lemma rt_capabilities_Inr:
  "rt_capabilities v = Inr cs \<longleftrightarrow> (\<exists>ns. ns \<noteq> [] \<and> (v = strs_obj ns \<or> v = OTuple (map OStr ns)) \<and> distinct ns \<and>
     set ns \<subseteq> set requested_capabilities_known \<and> cs = sort ns)"
  by (auto simp: field_defs)

lemma rt_files_Inr:
  "rt_files v = Inr cs \<longleftrightarrow> (\<exists>ns. ns \<noteq> [] \<and> (v = strs_obj ns \<or> v = OTuple (map OStr ns)) \<and> distinct ns \<and>
     (\<forall>s\<in>set ns. repository_path s) \<and> cs = sort ns)"
  by (auto simp: field_defs)

lemma bounded_text_items_Inr:
  "bounded_text_items v field so = Inr cs \<longleftrightarrow> (\<exists>ss. ss \<noteq> [] \<and> (v = strs_obj ss \<or> v = OTuple (map OStr ss)) \<and> length ss \<le> 64 \<and>
     (\<forall>s\<in>set ss. text_item s) \<and> distinct (map py_strip ss) \<and> cs = (if so then sort (map py_strip ss) else map py_strip ss))"
  by (cases so) (auto simp: field_defs not_less)

lemma rt_command_Inr:
  "rt_command v = Inr c \<longleftrightarrow> c \<noteq> [] \<and> (v = strs_obj c \<or> v = OTuple (map OStr c)) \<and> length c \<le> 64 \<and> (\<forall>s\<in>set c. command_argument s)"
  by (auto simp: field_defs not_less)

lemma sort_sort [simp]: "sort (sort xs) = sort (xs :: 'a :: linorder list)"
  by (rule sorted_sort_id) simp

lemma sort_nonempty: "xs \<noteq> [] \<Longrightarrow> sort xs \<noteq> []"
  by (metis length_0_conv length_sort)

interpretation repository_field: normaliser rt_repository OStr
  by unfold_locales (auto simp: rt_repository_def split: py_obj.splits if_splits)

interpretation branch_field: normaliser rt_branch_of OStr
  by unfold_locales (auto simp: rt_branch_of_def split: py_obj.splits if_splits)

interpretation sha_field: normaliser rt_base_sha_of OStr
  by unfold_locales (auto simp: rt_base_sha_of_def py_lower_hex split: py_obj.splits if_splits)

interpretation enum_field: normaliser "\<lambda>v. enum_string v field allowed" OStr for field allowed
  by unfold_locales (auto simp: enum_string_def split: py_obj.splits if_splits)

interpretation token_field: normaliser "\<lambda>v. safe_token v field" OStr for field
  by unfold_locales (auto simp: safe_token_def split: py_obj.splits if_splits)

interpretation schema_field: normaliser "\<lambda>v. exact_string v expected" OStr for expected
  by unfold_locales (auto simp: exact_string_def split: if_splits)

interpretation timeout_field: normaliser rt_timeout OInt
  by unfold_locales (auto simp: rt_timeout_def split: py_obj.splits if_splits)

interpretation capabilities_field: normaliser rt_capabilities strs_obj
proof
  show "rt_capabilities (strs_obj x) = Inr x" if "rt_capabilities v = Inr x" for v x
    using that sort_nonempty unfolding rt_capabilities_Inr by (auto intro!: exI [of _ x])
qed

interpretation files_field: normaliser rt_files strs_obj
proof
  show "rt_files (strs_obj x) = Inr x" if "rt_files v = Inr x" for v x
    using that sort_nonempty unfolding rt_files_Inr by (auto intro!: exI [of _ x])
qed

lemma text_item_strip: "text_item s \<Longrightarrow> text_item (py_strip s)"
  using py_strip_length [of s] by (simp add: text_item_def)

interpretation text_field: normaliser "\<lambda>v. bounded_text_items v field so" strs_obj for field so
proof
  show "bounded_text_items (strs_obj x) field so = Inr x" if "bounded_text_items v field so = Inr x" for v x
  proof -
    from that obtain ss where ss: "ss \<noteq> []" "length ss \<le> 64" "\<forall>s\<in>set ss. text_item s" "distinct (map py_strip ss)"
        "x = (if so then sort (map py_strip ss) else map py_strip ss)"
      unfolding bounded_text_items_Inr by blast
    then have x: "set x = py_strip ` set ss" "length x = length ss" "distinct x" "so \<longrightarrow> sort x = x" by auto
    then have "map py_strip x = x" by (intro map_idI) auto
    moreover have "x \<noteq> []" using x(2) ss(1) by auto
    ultimately show ?thesis
      unfolding bounded_text_items_Inr using x ss text_item_strip by (intro exI [of _ x]) auto
  qed
qed

interpretation command_field: normaliser rt_command strs_obj
  by unfold_locales (simp add: rt_command_Inr)

lemma rt_command_loop_reread:
  "rt_command_loop vs = Inr cs \<Longrightarrow> rt_command_loop (map strs_obj cs) = Inr cs \<and> length cs = length vs"
proof (induction vs arbitrary: cs)
  case (Cons v vs)
  then obtain c cs' where "rt_command v = Inr c" "rt_command_loop vs = Inr cs'" "cs = c # cs'" by auto
  then show ?case using Cons.IH command_field.reread by simp
qed simp

interpretation commands_field: normaliser rt_commands "\<lambda>cs. OList (map strs_obj cs)"
proof
  show "rt_commands (OList (map strs_obj x)) = Inr x" if "rt_commands v = Inr x" for v x
  proof -
    from that obtain vs where vs: "vs \<noteq> []" "length vs \<le> 16" "rt_command_loop vs = Inr x" "distinct x"
      by (auto simp: field_defs split: if_splits)
    then show ?thesis using rt_command_loop_reread [OF vs(3)] by (auto simp: field_defs)
  qed
qed

lemma rt_payload_of_Inr:
  "rt_payload_of v = Inr j \<longleftrightarrow> (\<exists>kvs. v = OMap kvs) \<and> freeze_json v 0 = Inr j \<and> printable_ints j \<and>
     length (dumps_sorted j) \<le> max_payload_bytes"
  by (cases v) (auto simp: rt_payload_of_def not_less)

lemma rt_payload_shape: "rt_payload_of v = Inr j \<Longrightarrow> (\<exists>fs. j = JObj fs) \<and> canonical j 0"
  using freeze_canonical(1) [of v 0 j] by (auto simp: rt_payload_of_Inr split: if_splits)

interpretation payload_field: normaliser rt_payload_of thaw_json
proof
  show "rt_payload_of (thaw_json j) = Inr j" if "rt_payload_of v = Inr j" for v j
    using rt_payload_shape [OF that] freeze_thaw(1) [of j 0] that unfolding rt_payload_of_Inr by auto
qed

subsection \<open>The envelope\<close>

text \<open>What \<^verbatim>\<open>from_mapping\<close> accepts, field by field.\<close>

lemma from_mapping_Inr:
  "from_mapping v = Inr t \<longleftrightarrow> (\<exists>kvs. envelope_fields v = Inr kvs \<and>
     exact_string (field_value kvs ''schema'') runner_task_schema = Inr (rt_schema t) \<and>
     rt_repository (field_value kvs ''repo'') = Inr (rt_repo t) \<and>
     rt_branch_of (field_value kvs ''branch'') = Inr (rt_branch t) \<and>
     rt_base_sha_of (field_value kvs ''base_sha'') = Inr (rt_base_sha t) \<and>
     enum_string (field_value kvs ''task_kind'') ''task_kind'' task_kinds = Inr (rt_task_kind t) \<and>
     rt_payload_of (field_value kvs ''payload'') = Inr (rt_payload t) \<and>
     rt_capabilities (field_value kvs ''requested_capabilities'') = Inr (rt_requested_capabilities t) \<and>
     rt_files (field_value kvs ''allowed_files'') = Inr (rt_allowed_files t) \<and>
     bounded_text_items (field_value kvs ''forbidden_actions'') ''forbidden_actions'' True = Inr (rt_forbidden_actions t) \<and>
     rt_commands (field_value kvs ''validation_commands'') = Inr (rt_validation_commands t) \<and>
     rt_timeout (field_value kvs ''validation_timeout_seconds'') = Inr (rt_validation_timeout_seconds t) \<and>
     bounded_text_items (field_value kvs ''expected_output'') ''expected_output'' True = Inr (rt_expected_output t) \<and>
     enum_string (field_value kvs ''privacy_boundary'') ''privacy_boundary'' privacy_boundaries = Inr (rt_privacy_boundary t) \<and>
     safe_token (field_value kvs ''approval_reference'') ''approval_reference'' = Inr (rt_approval_reference t) \<and>
     safe_token (field_value kvs ''idempotency_key'') ''idempotency_key'' = Inr (rt_idempotency_key t))"
proof (cases "envelope_fields v")
  case (Inr kvs)
  show ?thesis
    unfolding from_mapping_def Let_def Inr by (cases t) auto
qed (simp add: from_mapping_def)

lemma thaw_jstrs [simp]: "thaw_json (jstrs ss) = strs_obj ss" "thaw_items (map JStr ss) = map OStr ss"
    "thaw_items (map jstrs cs) = map strs_obj cs"
  by (auto simp: jstrs_def thaw_items_map)

definition task_items :: "runner_task \<Rightarrow> (py_key \<times> py_obj) list" where
  "task_items t = (case to_mapping t of OMap kvs \<Rightarrow> kvs | _ \<Rightarrow> [])"

lemma envelope_of_task: "envelope_fields (to_mapping t) = Inr (task_items t)"
  by (simp add: task_items_def to_mapping_def task_json_def envelope_fields_def required_fields_def)

lemma task_fields:
  "field_value (task_items t) ''schema'' = OStr (rt_schema t)" "field_value (task_items t) ''repo'' = OStr (rt_repo t)"
    "field_value (task_items t) ''branch'' = OStr (rt_branch t)" "field_value (task_items t) ''base_sha'' = OStr (rt_base_sha t)"
    "field_value (task_items t) ''task_kind'' = OStr (rt_task_kind t)" "field_value (task_items t) ''payload'' = thaw_json (rt_payload t)"
    "field_value (task_items t) ''requested_capabilities'' = strs_obj (rt_requested_capabilities t)"
    "field_value (task_items t) ''allowed_files'' = strs_obj (rt_allowed_files t)"
    "field_value (task_items t) ''forbidden_actions'' = strs_obj (rt_forbidden_actions t)"
    "field_value (task_items t) ''validation_commands'' = OList (map strs_obj (rt_validation_commands t))"
    "field_value (task_items t) ''validation_timeout_seconds'' = OInt (rt_validation_timeout_seconds t)"
    "field_value (task_items t) ''expected_output'' = strs_obj (rt_expected_output t)"
    "field_value (task_items t) ''privacy_boundary'' = OStr (rt_privacy_boundary t)"
    "field_value (task_items t) ''approval_reference'' = OStr (rt_approval_reference t)"
    "field_value (task_items t) ''idempotency_key'' = OStr (rt_idempotency_key t)"
  by (simp_all add: task_items_def to_mapping_def task_json_def field_value_def)

lemmas fields_reread = schema_field.reread repository_field.reread branch_field.reread sha_field.reread enum_field.reread
  payload_field.reread capabilities_field.reread files_field.reread text_field.reread commands_field.reread
  timeout_field.reread token_field.reread

lemma mapping_reread: "from_mapping v = Inr t \<Longrightarrow> from_mapping (to_mapping t) = Inr t"
  unfolding from_mapping_Inr [of v] from_mapping_Inr [of "to_mapping t"]
  by (elim exE conjE, intro exI [of _ "task_items t"] conjI envelope_of_task, unfold task_fields) (erule fields_reread)+

lemma accepted_shape:
  assumes "from_mapping v = Inr t"
  shows "canonical (rt_payload t) 0" "sort_keys (rt_payload t) = rt_payload t"
  using assms rt_payload_shape sort_keys_canonical(1) unfolding from_mapping_Inr by blast+

lemma sort_keys_jstrs [simp]: "sort_keys (jstrs ss) = jstrs ss" "sort_keys_items (map jstrs cs) = map jstrs cs"
    "no_floats (jstrs ss)" "no_floats_items (map jstrs cs)"
proof -
  show j: "sort_keys (jstrs ss) = jstrs ss" "no_floats (jstrs ss)" for ss using flat_value_plain [of "jstrs ss"] by simp_all
  show "sort_keys_items (map jstrs cs) = map jstrs cs" "no_floats_items (map jstrs cs)" by (induction cs) (simp_all add: j)
qed

lemma task_json_inject: "task_json a = task_json b \<Longrightarrow> a = b"
  by (cases a; cases b) (auto simp: task_json_def dest: map_injective [of jstrs] simp: inj_def)

text \<open>The text of a task without floats in its payload determines the task.\<close>

lemma to_json_inject:
  assumes "from_mapping v = Inr a" "from_mapping w = Inr b" "to_json a = to_json b"
    and "no_floats (rt_payload a)" "no_floats (rt_payload b)"
  shows "a = b"
proof -
  obtain f g where fg: "task_json a = JObj f" "task_json b = JObj g" by (simp add: task_json_def)
  have "f = g"
    by (rule document_inject)
      (use assms fg accepted_shape(2) [OF assms(1)] accepted_shape(2) [OF assms(2)] in
        \<open>auto simp: to_json_def task_json_def\<close>)
  then show ?thesis using fg task_json_inject by metis
qed

subsection \<open>Paths and sizes\<close>

lemma py_split_nonempty [simp]: "py_split sep s \<noteq> []"
  by (cases s) (auto split: list.splits)

lemma py_split_segment: "x @ sep # y = s \<Longrightarrow> sep \<notin> set x \<Longrightarrow> hd (py_split sep s) = x"
  by (induction x arbitrary: s) (auto split: list.splits)

text \<open>The nesting of a document: 0 for a scalar.\<close>

fun json_depth :: "json \<Rightarrow> nat"
and json_depth_items :: "json list \<Rightarrow> nat"
and json_depth_fields :: "(string \<times> json) list \<Rightarrow> nat" where
  "json_depth (JArr js) = json_depth_items js"
| "json_depth (JObj fs) = json_depth_fields fs"
| "json_depth j = 0"
| "json_depth_items [] = 0"
| "json_depth_items (j # js) = max (Suc (json_depth j)) (json_depth_items js)"
| "json_depth_fields [] = 0"
| "json_depth_fields ((k, j) # fs) = max (Suc (json_depth j)) (json_depth_fields fs)"

lemma canonical_depth:
  "canonical j d \<Longrightarrow> d + json_depth j \<le> max_payload_depth"
  "canonical_items js d \<Longrightarrow> d \<le> Suc max_payload_depth \<Longrightarrow> d + json_depth_items js \<le> Suc max_payload_depth"
  "canonical_fields fs d \<Longrightarrow> d \<le> Suc max_payload_depth \<Longrightarrow> d + json_depth_fields fs \<le> Suc max_payload_depth"
  by (induction j d and js d and fs d rule: canonical_canonical_items_canonical_fields.induct) auto

lemma repository_path_safe:
  assumes "repository_path s"
  shows "s \<noteq> []" "hd s \<noteq> CHR ''/''" "CHR 0x5C \<notin> set s" "''..'' \<notin> set (py_split (CHR ''/'') s)" "length s \<le> 512"
proof -
  have p: "safe_path_re s" "\<not> prefix ''/'' s" "CHR 0x5C \<notin> set s" "\<forall>x\<in>set (py_split (CHR ''/'') s). \<not> dot_segment x"
    using assms by (simp_all add: repository_path_def list_ex_iff)
  then show ne: "s \<noteq> []" and "hd s \<noteq> CHR ''/''" "CHR 0x5C \<notin> set s"
    by (simp_all add: safe_path_re_def bounded_name_def prefix_singleton)
  show "''..'' \<notin> set (py_split (CHR ''/'') s)" using p(4) by (auto simp: dot_segment_def)
  have "length (tl s) \<le> 511" using p(1) by (simp add: safe_path_re_def bounded_name_def)
  then show "length s \<le> 512" by simp
qed

lemma sha_accepted: "rt_base_sha_of v = Inr x \<Longrightarrow> length x = 40 \<and> set x \<subseteq> set hex_lower"
proof (cases v)
  case (OStr s)
  assume "rt_base_sha_of v = Inr x"
  with OStr have "sha_re s" "x = py_lower s" by (simp_all add: rt_base_sha_of_def split: if_splits)
  then show ?thesis using py_lower_hex [of s] by (simp add: sha_re_def)
qed (simp_all add: rt_base_sha_of_def)

lemma capabilities_bounded:
  "rt_capabilities v = Inr cs \<Longrightarrow> cs \<noteq> [] \<and> sorted cs \<and> distinct cs \<and> set cs \<subseteq> set requested_capabilities_known"
  by (auto simp: rt_capabilities_Inr dest: sort_nonempty)

lemma files_bounded:
  "rt_files v = Inr fs \<Longrightarrow> fs \<noteq> [] \<and> sorted fs \<and> distinct fs \<and> (\<forall>s\<in>set fs. repository_path s)"
  by (auto simp: rt_files_Inr dest: sort_nonempty)

lemma loop_commands:
  "rt_command_loop vs = Inr cs \<Longrightarrow> \<forall>c\<in>set cs. c \<noteq> [] \<and> length c \<le> 64 \<and> (\<forall>s\<in>set c. command_argument s)"
proof (induction vs arbitrary: cs)
  case (Cons v vs)
  then obtain c cs' where "rt_command v = Inr c" "rt_command_loop vs = Inr cs'" "cs = c # cs'" by auto
  then show ?case using Cons.IH by (simp add: rt_command_Inr)
qed simp

lemma commands_bounded:
  assumes "rt_commands v = Inr cs"
  shows "cs \<noteq> [] \<and> length cs \<le> 16 \<and> distinct cs \<and> (\<forall>c\<in>set cs. c \<noteq> [] \<and> length c \<le> 64 \<and> (\<forall>s\<in>set c. command_argument s))"
proof -
  from assms obtain vs where vs: "vs \<noteq> []" "length vs \<le> 16" "rt_command_loop vs = Inr cs" "distinct cs"
    by (auto simp: field_defs not_less)
  have "\<forall>c\<in>set cs. c \<noteq> [] \<and> length c \<le> 64 \<and> (\<forall>s\<in>set c. command_argument s)"
    using vs(3) by (rule loop_commands)
  then show ?thesis using vs rt_command_loop_reread [OF vs(3)] by auto
qed

subsection \<open>Properties\<close>

text \<open>
  Printing and reading back is the identity on accepted tasks: whatever untrusted object was
  accepted, validating the mapping of the resulting task accepts it again and gives the same task.  The
  normalisations (lower-cased commit, stripped and sorted texts, sorted files and capabilities, frozen
  payload with sorted keys) are therefore done once and for all.
\<close>

theorem runner_task_roundtrip:
  assumes "from_mapping v = Inr t"
  shows "from_mapping (to_mapping t) = Inr t"
  using assms by (rule mapping_reread)

text \<open>
  C38. What an accepted task guarantees to everything downstream: the commit is 40 lower-case hex digits,
  the timeout lies between 1 and 3600 seconds, the capabilities are known, the allowed files are
  relative paths without a parent segment or backslash, sorted and free of duplicates, the
  validation commands are between 1 and 16 with 1 to 64 non-empty arguments each, and the payload
  is nested at most 16 deep and prints to at most 65536 bytes.
\<close>

theorem runner_task_bounded:
  assumes "from_mapping v = Inr t"
  shows "length (rt_base_sha t) = 40 \<and> set (rt_base_sha t) \<subseteq> set hex_lower \<and>
    1 \<le> rt_validation_timeout_seconds t \<and> rt_validation_timeout_seconds t \<le> 3600 \<and>
    rt_requested_capabilities t \<noteq> [] \<and> set (rt_requested_capabilities t) \<subseteq> set requested_capabilities_known \<and>
    distinct (rt_requested_capabilities t) \<and>
    rt_allowed_files t \<noteq> [] \<and> sorted (rt_allowed_files t) \<and> distinct (rt_allowed_files t) \<and>
    (\<forall>f\<in>set (rt_allowed_files t). f \<noteq> [] \<and> hd f \<noteq> CHR ''/'' \<and> CHR 0x5C \<notin> set f \<and>
       ''..'' \<notin> set (py_split (CHR ''/'') f) \<and> length f \<le> 512) \<and>
    0 < length (rt_validation_commands t) \<and> length (rt_validation_commands t) \<le> 16 \<and>
    (\<forall>c\<in>set (rt_validation_commands t). c \<noteq> [] \<and> length c \<le> 64 \<and>
       (\<forall>s\<in>set c. s \<noteq> [] \<and> CHR 0x00 \<notin> set s \<and> length s \<le> 2048)) \<and>
    json_depth (rt_payload t) \<le> 16 \<and> length (dumps_sorted (rt_payload t)) \<le> 65536"
proof -
  from assms obtain kvs where f: "rt_base_sha_of (field_value kvs ''base_sha'') = Inr (rt_base_sha t)"
      "rt_timeout (field_value kvs ''validation_timeout_seconds'') = Inr (rt_validation_timeout_seconds t)"
      "rt_capabilities (field_value kvs ''requested_capabilities'') = Inr (rt_requested_capabilities t)"
      "rt_files (field_value kvs ''allowed_files'') = Inr (rt_allowed_files t)"
      "rt_commands (field_value kvs ''validation_commands'') = Inr (rt_validation_commands t)"
      "rt_payload_of (field_value kvs ''payload'') = Inr (rt_payload t)"
    unfolding from_mapping_Inr by blast
  have sha: "length (rt_base_sha t) = 40" "set (rt_base_sha t) \<subseteq> set hex_lower"
    using f(1) sha_accepted by auto
  have time: "1 \<le> rt_validation_timeout_seconds t" "rt_validation_timeout_seconds t \<le> 3600"
    using f(2) by (auto simp: rt_timeout_def split: py_obj.splits if_splits)
  have pay: "json_depth (rt_payload t) \<le> 16" "length (dumps_sorted (rt_payload t)) \<le> 65536"
    using canonical_depth(1) [of "rt_payload t" 0] accepted_shape(1) [OF assms] f(6)
    by (simp_all add: max_payload_depth_def max_payload_bytes_def rt_payload_of_Inr)
  show ?thesis
    using sha time pay capabilities_bounded [OF f(3)] files_bounded [OF f(4)] commands_bounded [OF f(5)] repository_path_safe
    by (simp add: command_argument_def)
qed

subsection \<open>Witnesses\<close>

definition demo_runner_task :: runner_task where
  "demo_runner_task = \<lparr>rt_schema = ''skeleton.runner_task.v1'', rt_repo = ''o/r'', rt_branch = ''main'',
     rt_base_sha = replicate 40 (CHR ''a''), rt_task_kind = ''code_edit'',
     rt_payload = JObj [(''a'', JArr [JInt 1, JNull]), (''b'', JStr ''x'')],
     rt_requested_capabilities = [''repository_read'', ''test_execution''], rt_allowed_files = [''src/a.py''],
     rt_forbidden_actions = [''deploy''], rt_validation_commands = [[''pytest'', ''-q'']],
     rt_validation_timeout_seconds = 60, rt_expected_output = [''tests pass''],
     rt_privacy_boundary = ''PUBLIC_SAFE_REPOSITORY_ONLY'', rt_approval_reference = ''op-1'', rt_idempotency_key = ''k1''\<rparr>"

text \<open>The same task as it may arrive: tuples, unsorted keys, an upper-case commit, texts with spaces.\<close>

definition demo_task_fields :: "(py_key \<times> py_obj) list" where
  "demo_task_fields = [
     (KStr ''repo'', OStr ''o/r''), (KStr ''schema'', OStr ''skeleton.runner_task.v1''), (KStr ''branch'', OStr ''main''),
     (KStr ''base_sha'', OStr (replicate 40 (CHR ''A''))), (KStr ''task_kind'', OStr ''code_edit''),
     (KStr ''payload'', OMap [(KStr ''b'', OStr ''x''), (KStr ''a'', OTuple [OInt 1, ONone])]),
     (KStr ''requested_capabilities'', OList [OStr ''test_execution'', OStr ''repository_read'']),
     (KStr ''allowed_files'', OTuple [OStr ''src/a.py'']), (KStr ''forbidden_actions'', OList [OStr '' deploy'']),
     (KStr ''validation_commands'', OList [OTuple [OStr ''pytest'', OStr ''-q'']]),
     (KStr ''validation_timeout_seconds'', OInt 60), (KStr ''expected_output'', OList [OStr ''tests pass '']),
     (KStr ''privacy_boundary'', OStr ''PUBLIC_SAFE_REPOSITORY_ONLY''),
     (KStr ''approval_reference'', OStr ''op-1''), (KStr ''idempotency_key'', OStr ''k1'')]"

lemma demo_payload: "rt_payload_of (field_value demo_task_fields ''payload'') = Inr (rt_payload demo_runner_task)"
proof -
  have f: "field_value demo_task_fields ''payload'' = OMap [(KStr ''b'', OStr ''x''), (KStr ''a'', OTuple [OInt 1, ONone])]"
    by code_simp
  have k: "bad_key (KStr ''a'') = False" "bad_key (KStr ''b'') = False" by code_simp+
  have "length (dumps_sorted (rt_payload demo_runner_task)) = 22" "printable_int 1" by code_simp+
  then show ?thesis
    unfolding rt_payload_of_Inr f
    by (simp add: k at_depth_def demo_runner_task_def max_payload_depth_def max_payload_items_def
        max_payload_string_length_def max_payload_bytes_def)
qed

lemma demo_task_accepted: "from_mapping (OMap demo_task_fields) = Inr demo_runner_task"
  unfolding from_mapping_Inr
proof (intro exI [of _ demo_task_fields] conjI)
  show "rt_payload_of (field_value demo_task_fields ''payload'') = Inr (rt_payload demo_runner_task)" by (rule demo_payload)
qed code_simp+

theorem runner_task_roundtrip_witness: "from_mapping (to_mapping demo_runner_task) = Inr demo_runner_task"
  by (rule runner_task_roundtrip [OF demo_task_accepted])

theorem runner_task_bounded_witness: "json_depth (rt_payload demo_runner_task) \<le> 16"
  using runner_task_bounded [OF demo_task_accepted] by blast

end
