(* ===== verification/Authority.thy ===== *)
theory Authority
  imports ExecutionGate RunnerTask
begin

text \<open>
  \<^verbatim>\<open>core/runner_vnext_authority.py\<close>: how a validated runner task or a typed privileged request becomes a
  bound operation with its identity, policy class, adapter and lane, and the calls that prepare, grant,
  reserve and broker it.  The GREEN calls go to the control plane and the execution gate, the
  privileged ones to the adapter planner, the ledger and the enforcement point.  The stores are the
  \<open>runner_state\<close> of theory \<open>ControlPlane\<close>; clock readings are arguments.  The functions that
  resolve and open the SQLite files are not modelled: what they decide depends on the file system.
\<close>

subsection \<open>Definitions\<close>

abbreviation authority_error :: "string \<Rightarrow> 'a res" where
  "authority_error reason \<equiv> Inl (RunnerVNextAuthorityError reason)"

record route_binding =
  ra_route :: string
  ra_operation :: string
  ra_lane :: lane
  ra_adapter_id :: string
  ra_operation_kind :: string
  ra_effects :: "string list"
  ra_reversibility :: reversibility
  ra_requires_runner_task :: bool
  ra_requires_operator :: bool
  ra_requires_fresh_operator_evidence :: bool

record source_identity =
  si_runner_task_hash :: string
  si_source_task_ref :: string
  si_adapter_id :: string
  si_binding_hash :: string
  si_task_id :: string
  si_operation_id :: string
  si_idempotency_key :: string

record bound_operation =
  bo_route :: string
  bo_operation :: string
  bo_binding :: route_binding
  bo_runner_task :: "runner_task option"
  bo_source_task_ref :: string
  bo_runner_task_hash :: "string option"
  bo_source_binding_hash :: string
  bo_universal_task :: universal_task
  bo_operation_ir :: operation_ir
  bo_policy_input :: policy_input
  bo_policy_decision :: policy_decision
  bo_target_state_ref :: string
  bo_lease_scope_key :: string

record privileged_input =
  pv_source_task_ref :: string
  pv_target_state_ref :: string
  pv_resources :: "string list"
  pv_required_capabilities :: "string list"
  pv_privacy :: privacy_class
  pv_operator_boundary_evidence :: "string list"
  pv_idempotency_seed :: string

record authority_receipt =
  au_mode :: string
  au_status :: string
  au_reason_code :: string
  au_route :: string
  au_operation :: string
  au_lane :: "string option"
  au_adapter_id :: "string option"
  au_effect_class :: "string option"
  au_target_state_ref_hash :: "string option"
  au_idempotency_key_hash :: "string option"
  au_source_binding_hash :: "string option"
  au_execution_authorized :: bool
  au_privileged_broker_request :: bool
  au_allow_legacy_mechanical_shell :: bool
  au_side_effects_executed :: bool

definition opt_json :: "string option \<Rightarrow> json" where
  "opt_json v = (case v of None \<Rightarrow> JNull | Some s \<Rightarrow> JStr s)"

definition authority_public_mapping :: "authority_receipt \<Rightarrow> json" where
  "authority_public_mapping r = JObj [
     (''schema'', JStr ''skeleton.runner_vnext_authority_receipt.v1''),
     (''mode'', JStr (au_mode r)),
     (''status'', JStr (au_status r)),
     (''reason_code'', JStr (au_reason_code r)),
     (''route'', JStr (au_route r)),
     (''operation'', JStr (au_operation r)),
     (''lane'', opt_json (au_lane r)),
     (''adapter_id'', opt_json (au_adapter_id r)),
     (''effect_class'', opt_json (au_effect_class r)),
     (''target_state_ref_hash'', opt_json (au_target_state_ref_hash r)),
     (''idempotency_key_hash'', opt_json (au_idempotency_key_hash r)),
     (''source_binding_hash'', opt_json (au_source_binding_hash r)),
     (''execution_authorized'', JBool (au_execution_authorized r)),
     (''privileged_broker_request'', JBool (au_privileged_broker_request r)),
     (''allow_legacy_mechanical_shell'', JBool (au_allow_legacy_mechanical_shell r)),
     (''side_effects_executed'', JBool (au_side_effects_executed r))]"

definition route_bindings :: "((string \<times> string) \<times> route_binding) list" where
  "route_bindings = [
     ((''code_generation'', ''codegen''),
        \<lparr>ra_route = ''code_generation'', ra_operation = ''codegen'', ra_lane = CODEGEN,
         ra_adapter_id = ''adapter:repo-codegen'', ra_operation_kind = ''workspace_write'', ra_effects = [''workspace_write''],
         ra_reversibility = REVERSIBLE, ra_requires_runner_task = True, ra_requires_operator = False,
         ra_requires_fresh_operator_evidence = False\<rparr>),
     ((''validation'', ''validation''),
        \<lparr>ra_route = ''validation'', ra_operation = ''validation'', ra_lane = VALIDATE,
         ra_adapter_id = ''adapter:repo-validation'', ra_operation_kind = ''validate'', ra_effects = [''validate'', ''test''],
         ra_reversibility = REVERSIBLE, ra_requires_runner_task = True, ra_requires_operator = False,
         ra_requires_fresh_operator_evidence = False\<rparr>),
     ((''publish_only'', ''publication''),
        \<lparr>ra_route = ''publish_only'', ra_operation = ''publication'', ra_lane = PUBLISH,
         ra_adapter_id = ''adapter:draft-publication'', ra_operation_kind = ''draft_pr_open'', ra_effects = [''draft_pr_open''],
         ra_reversibility = BOUNDED_REVERSIBLE, ra_requires_runner_task = True, ra_requires_operator = False,
         ra_requires_fresh_operator_evidence = False\<rparr>),
     ((''diagnostic'', ''diagnostic''),
        \<lparr>ra_route = ''diagnostic'', ra_operation = ''diagnostic'', ra_lane = VALIDATE,
         ra_adapter_id = ''adapter:harmless-diagnostic'', ra_operation_kind = ''read'', ra_effects = [''read''],
         ra_reversibility = REVERSIBLE, ra_requires_runner_task = True, ra_requires_operator = False,
         ra_requires_fresh_operator_evidence = False\<rparr>),
     ((''runtime_only'', ''control''),
        \<lparr>ra_route = ''runtime_only'', ra_operation = ''control'', ra_lane = CONTROL,
         ra_adapter_id = ''adapter:runtime-control'', ra_operation_kind = ''bounded_service_restart'',
         ra_effects = [''bounded_service_restart''], ra_reversibility = BOUNDED_REVERSIBLE, ra_requires_runner_task = False,
         ra_requires_operator = True, ra_requires_fresh_operator_evidence = False\<rparr>),
     ((''recovery'', ''recovery''),
        \<lparr>ra_route = ''recovery'', ra_operation = ''recovery'', ra_lane = CONTROL,
         ra_adapter_id = ''adapter:operation-recovery'', ra_operation_kind = ''bounded_service_restart'',
         ra_effects = [''bounded_service_restart''], ra_reversibility = BOUNDED_REVERSIBLE, ra_requires_runner_task = False,
         ra_requires_operator = True, ra_requires_fresh_operator_evidence = False\<rparr>),
     ((''merge'', ''merge''),
        \<lparr>ra_route = ''merge'', ra_operation = ''merge'', ra_lane = MERGE,
         ra_adapter_id = ''adapter:exact-operator-merge'', ra_operation_kind = ''workspace_bind'', ra_effects = [''protected_merge''],
         ra_reversibility = IRREVERSIBLE, ra_requires_runner_task = False, ra_requires_operator = True,
         ra_requires_fresh_operator_evidence = True\<rparr>)]"

definition route_inventory :: "route_binding list" where
  "route_inventory = map snd (sort_key fst route_bindings)"

definition route_inventory_proof :: json where
  "route_inventory_proof = JObj [
     (''schema'', JStr ''skeleton.runner_vnext_route_inventory.v1''),
     (''authoritative_mode'', JStr ''authoritative''),
     (''legacy_decision_fallback'', JBool False),
     (''route_count'', JInt (int (length route_inventory))),
     (''routes'', JArr (map (\<lambda>b. JObj [
        (''route'', JStr (ra_route b)),
        (''operation'', JStr (ra_operation b)),
        (''lane'', JStr (lane_value (ra_lane b))),
        (''adapter_id'', JStr (ra_adapter_id b)),
        (''requires_operator'', JBool (ra_requires_operator b)),
        (''requires_fresh_operator_evidence'', JBool (ra_requires_fresh_operator_evidence b))]) route_inventory))]"

definition binding_for :: "string \<Rightarrow> string \<Rightarrow> route_binding res" where
  "binding_for route operation =
     (case map_of route_bindings (route, operation) of
        None \<Rightarrow> authority_error ''VNEXT_AUTHORITY_ROUTE_UNMAPPED_FAIL_CLOSED''
      | Some b \<Rightarrow> Inr b)"

definition require_public_ref :: "string \<Rightarrow> string \<Rightarrow> unit res" where
  "require_public_ref v reason = raise_if (\<not> public_ref v) (RunnerVNextAuthorityError reason)"

definition runner_task_hash :: "runner_task \<Rightarrow> string" where
  "runner_task_hash t = sha256_hex (to_json t)"

definition source_payload :: "runner_task \<Rightarrow> string \<Rightarrow> string \<Rightarrow> string \<Rightarrow> string \<Rightarrow> (string \<times> json) list" where
  "source_payload t source adapter route operation = [
     (''runner_task_sha256'', JStr (runner_task_hash t)),
     (''source_task_ref'', JStr source),
     (''adapter_id'', JStr adapter),
     (''route'', JStr route),
     (''operation'', JStr operation)]"

text \<open>The three names an operation gets from its binding hash.\<close>

definition bound_name :: "string \<Rightarrow> string \<Rightarrow> string \<Rightarrow> string" where
  "bound_name ns operation binding_hash = ns @ '':'' @ operation @ '':'' @ binding_hash"

definition source_authority_identity :: "runner_task \<Rightarrow> string \<Rightarrow> string \<Rightarrow> string \<Rightarrow> string \<Rightarrow> source_identity res" where
  "source_authority_identity t source adapter route operation =
     rbind (require_public_ref source ''VNEXT_AUTHORITY_SOURCE_TASK_REF_INVALID'') (\<lambda>_.
     rbind (require_public_ref adapter ''VNEXT_AUTHORITY_ADAPTER_ID_INVALID'') (\<lambda>_.
     let h = json_digest (JObj (source_payload t source adapter route operation)) in
     Inr \<lparr>si_runner_task_hash = runner_task_hash t, si_source_task_ref = source, si_adapter_id = adapter, si_binding_hash = h,
       si_task_id = bound_name ''task'' operation h, si_operation_id = bound_name ''op'' operation h,
       si_idempotency_key = bound_name ''idem'' operation h\<rparr>))"

definition source_ref :: "string option \<Rightarrow> int option \<Rightarrow> string res" where
  "source_ref source issue =
     (if source \<noteq> None \<and> issue \<noteq> None then authority_error ''VNEXT_AUTHORITY_SOURCE_TASK_REF_AMBIGUOUS''
      else rbind (case source of
          Some s \<Rightarrow> Inr s
        | None \<Rightarrow> (case issue of
              None \<Rightarrow> authority_error ''VNEXT_AUTHORITY_SOURCE_TASK_REF_REQUIRED''
            | Some n \<Rightarrow> if n < 1 then authority_error ''VNEXT_AUTHORITY_SOURCE_TASK_REF_REQUIRED''
                else Inr (''issue:'' @ int_text n)))
        (\<lambda>s. rbind (require_public_ref s ''VNEXT_AUTHORITY_SOURCE_TASK_REF_INVALID'') (\<lambda>_. Inr s)))"

definition runner_task_privacy :: "runner_task \<Rightarrow> privacy_class" where
  "runner_task_privacy t = (if rt_privacy_boundary t = ''PUBLIC_SAFE_REPOSITORY_ONLY'' then PUBLIC_SAFE else PRIVATE)"

definition bind_runner_operation ::
    "runner_task \<Rightarrow> string \<Rightarrow> string \<Rightarrow> string option \<Rightarrow> int option \<Rightarrow> bound_operation res" where
  "bind_runner_operation t route operation source issue =
     rbind (binding_for route operation) (\<lambda>b.
     rbind (raise_if (\<not> ra_requires_runner_task b) (RunnerVNextAuthorityError ''VNEXT_AUTHORITY_TYPED_PRIVILEGED_BINDER_REQUIRED'')) (\<lambda>_.
     rbind (source_ref source issue) (\<lambda>src.
     rbind (guards [
       (route = ''code_generation'' \<and> rt_privacy_boundary t \<noteq> ''PUBLIC_SAFE_REPOSITORY_ONLY'',
          RunnerVNextAuthorityError ''VNEXT_AUTHORITY_CODEGEN_PUBLIC_REPOSITORY_PRIVACY_REQUIRED''),
       (rt_allowed_files t = [], RunnerVNextAuthorityError ''VNEXT_AUTHORITY_RESOURCES_REQUIRED'')]) (\<lambda>_.
     rbind (source_authority_identity t src (ra_adapter_id b) route operation) (\<lambda>i.
     let resources = map (\<lambda>path. ''repo:'' @ path) (rt_allowed_files t);
         privacy = runner_task_privacy t;
         target = ''git:'' @ rt_base_sha t;
         evidence = [''runner_task_sha256:'' @ si_runner_task_hash i, ''source_task_ref:'' @ src,
           ''adapter_id:'' @ ra_adapter_id b, ''approval:'' @ rt_approval_reference t];
         task = \<lparr>task_id = si_task_id i, task_intent = ''runner:'' @ route @ '':'' @ operation, task_domain = ''github'',
           task_target_resources = resources, task_required_capabilities = rt_requested_capabilities t, task_privacy = privacy,
           task_reversibility = ra_reversibility b, task_expected_effects = ra_effects b,
           task_validation = map (py_join '' '') (rt_validation_commands t), task_rollback = [''operator_recovery_required''],
           task_idempotency_key = si_idempotency_key i, task_operator_boundary_evidence = evidence\<rparr>
     in rbind (mk_operation_ir (si_operation_id i) (ra_operation_kind b) resources (ra_effects b) (si_idempotency_key i)) (\<lambda>ir.
     let policy = \<lparr>pi_operation = ir, pi_reversibility = ra_reversibility b, pi_privacy = privacy,
           pi_target_state_ref = Some target, pi_operator_boundary_evidence = evidence\<rparr> in
     Inr \<lparr>bo_route = route, bo_operation = operation, bo_binding = b, bo_runner_task = Some t, bo_source_task_ref = src,
       bo_runner_task_hash = Some (si_runner_task_hash i), bo_source_binding_hash = si_binding_hash i,
       bo_universal_task = task, bo_operation_ir = ir, bo_policy_input = policy,
       bo_policy_decision = classify_policy policy, bo_target_state_ref = target,
       bo_lease_scope_key = ''repo:'' @ rt_repo t @ CHR 0x40 # rt_branch t\<rparr>))))))"

definition privileged_payload :: "route_binding \<Rightarrow> string \<Rightarrow> string \<Rightarrow> privileged_input \<Rightarrow> (string \<times> json) list" where
  "privileged_payload b route operation a = [
     (''source_task_ref'', JStr (pv_source_task_ref a)),
     (''adapter_id'', JStr (ra_adapter_id b)),
     (''route'', JStr route),
     (''operation'', JStr operation),
     (''target_state_ref'', JStr (pv_target_state_ref a)),
     (''resources'', jstrs (pv_resources a)),
     (''required_capabilities'', jstrs (pv_required_capabilities a)),
     (''privacy'', JStr (privacy_value (pv_privacy a))),
     (''operator_boundary_evidence'', jstrs (pv_operator_boundary_evidence a)),
     (''idempotency_seed'', JStr (pv_idempotency_seed a))]"

definition privileged_checks :: "route_binding \<Rightarrow> privileged_input \<Rightarrow> unit res" where
  "privileged_checks b a =
     rbind (raise_if (ra_requires_runner_task b) (RunnerVNextAuthorityError ''VNEXT_AUTHORITY_RUNNER_TASK_BINDER_REQUIRED'')) (\<lambda>_.
     rbind (require_public_ref (pv_source_task_ref a) ''VNEXT_AUTHORITY_SOURCE_TASK_REF_INVALID'') (\<lambda>_.
     rbind (require_public_ref (pv_target_state_ref a) ''VNEXT_AUTHORITY_TARGET_STATE_REF_INVALID'') (\<lambda>_.
     rbind (require_public_ref (pv_idempotency_seed a) ''VNEXT_AUTHORITY_IDEMPOTENCY_SEED_INVALID'') (\<lambda>_.
     rbind (guards [
       (pv_resources a = [], RunnerVNextAuthorityError ''VNEXT_AUTHORITY_RESOURCES_REQUIRED''),
       (pv_required_capabilities a = [], RunnerVNextAuthorityError ''VNEXT_AUTHORITY_CAPABILITIES_REQUIRED'')]) (\<lambda>_.
     rbind (for_each (\<lambda>r. require_public_ref r ''VNEXT_AUTHORITY_RESOURCE_REF_INVALID'') (pv_resources a)) (\<lambda>_.
     rbind (raise_if (ra_requires_operator b \<and> pv_operator_boundary_evidence a = [])
        (RunnerVNextAuthorityError ''VNEXT_AUTHORITY_OPERATOR_EVIDENCE_REQUIRED'')) (\<lambda>_.
     for_each (\<lambda>r. require_public_ref r ''VNEXT_AUTHORITY_OPERATOR_EVIDENCE_INVALID'') (pv_operator_boundary_evidence a))))))))"

definition bind_privileged_operation :: "string \<Rightarrow> string \<Rightarrow> privileged_input \<Rightarrow> bound_operation res" where
  "bind_privileged_operation route operation a =
     rbind (binding_for route operation) (\<lambda>b.
     rbind (privileged_checks b a) (\<lambda>_.
     let h = json_digest (JObj (privileged_payload b route operation a));
         task = \<lparr>task_id = bound_name ''task'' operation h, task_intent = ''runner:'' @ route @ '':'' @ operation,
           task_domain = ''github'', task_target_resources = pv_resources a,
           task_required_capabilities = pv_required_capabilities a, task_privacy = pv_privacy a,
           task_reversibility = ra_reversibility b, task_expected_effects = ra_effects b, task_validation = [],
           task_rollback = [''operator_recovery_required''], task_idempotency_key = bound_name ''idem'' operation h,
           task_operator_boundary_evidence = pv_operator_boundary_evidence a\<rparr>
     in rbind (mk_operation_ir (bound_name ''op'' operation h) (ra_operation_kind b) (pv_resources a) (ra_effects b)
                 (bound_name ''idem'' operation h)) (\<lambda>ir.
     let policy = \<lparr>pi_operation = ir, pi_reversibility = ra_reversibility b, pi_privacy = pv_privacy a,
           pi_target_state_ref = Some (pv_target_state_ref a),
           pi_operator_boundary_evidence = pv_operator_boundary_evidence a\<rparr>;
         dec = classify_policy policy
     in rbind (raise_if (ra_requires_fresh_operator_evidence b \<and> pd_effect_class dec \<noteq> RED)
          (RunnerVNextAuthorityError ''VNEXT_AUTHORITY_RED_POLICY_REQUIRED'')) (\<lambda>_.
     Inr \<lparr>bo_route = route, bo_operation = operation, bo_binding = b, bo_runner_task = None,
       bo_source_task_ref = pv_source_task_ref a, bo_runner_task_hash = None, bo_source_binding_hash = h,
       bo_universal_task = task, bo_operation_ir = ir, bo_policy_input = policy, bo_policy_decision = dec,
       bo_target_state_ref = pv_target_state_ref a,
       bo_lease_scope_key = lane_value (ra_lane b) @ '':'' @ h\<rparr>))))"

definition repo_manifest :: "string \<Rightarrow> string \<Rightarrow> string list \<Rightarrow> adapter_manifest" where
  "repo_manifest adapter op_kind extra =
     \<lparr>am_adapter_id = adapter, am_operation_kinds = [op_kind],
      am_capabilities = [''repository_read'', ''repository_write_allowlisted'', ''test_execution''] @ extra,
      am_allowed_effect_classes = [GREEN], am_resource_patterns = [''repo:*''], am_privacy_classes = [PUBLIC_SAFE],
      am_privileged_pep_required = False\<rparr>"

definition default_authority_manifests :: "(string \<times> adapter_manifest) list" where
  "default_authority_manifests = [
     (''adapter:repo-codegen'', repo_manifest ''adapter:repo-codegen'' ''workspace_write'' []),
     (''adapter:repo-validation'', repo_manifest ''adapter:repo-validation'' ''validate'' []),
     (''adapter:draft-publication'', repo_manifest ''adapter:draft-publication'' ''draft_pr_open'' [''publish_pull_request'']),
     (''adapter:harmless-diagnostic'', repo_manifest ''adapter:harmless-diagnostic'' ''read'' []),
     (''adapter:runtime-control'',
        \<lparr>am_adapter_id = ''adapter:runtime-control'', am_operation_kinds = [''bounded_service_restart''],
         am_capabilities = [''repository_maintenance'', ''diagnostic_read'', ''subprocess_isolated''],
         am_allowed_effect_classes = [GREEN, YELLOW], am_resource_patterns = [''service-config:*'', ''control:*'', ''repo:*''],
         am_privacy_classes = [PUBLIC_SAFE], am_privileged_pep_required = True\<rparr>),
     (''adapter:operation-recovery'',
        \<lparr>am_adapter_id = ''adapter:operation-recovery'', am_operation_kinds = [''bounded_service_restart''],
         am_capabilities = [''repository_maintenance'', ''diagnostic_read'', ''subprocess_isolated''],
         am_allowed_effect_classes = [GREEN, YELLOW], am_resource_patterns = [''control:*'', ''service-config:*'', ''repo:*''],
         am_privacy_classes = [PUBLIC_SAFE], am_privileged_pep_required = True\<rparr>),
     (''adapter:exact-operator-merge'',
        \<lparr>am_adapter_id = ''adapter:exact-operator-merge'', am_operation_kinds = [''workspace_bind''],
         am_capabilities = [''publish_pull_request''], am_allowed_effect_classes = [RED],
         am_resource_patterns = [''protected:*'', ''repo:*''], am_privacy_classes = [PUBLIC_SAFE],
         am_privileged_pep_required = True\<rparr>)]"

definition default_lane_policy :: "lane \<Rightarrow> lane_environment_policy" where
  "default_lane_policy l =
     \<lparr>ep_lane_id = ''lane:'' @ lane_value l, ep_inherit_keys = [''HOME'', ''PATH''], ep_inject_keys = [],
      ep_denied_keys = [''OPENROUTER_API_KEY'', ''BWS_ACCESS_TOKEN'', ''SKELETON_TG_BOT''], ep_secret_keys = []\<rparr>"

definition default_lane_policies :: env_registry where
  "default_lane_policies =
     map (\<lambda>l. (''lane:'' @ lane_value l, default_lane_policy l)) [CODEGEN, VALIDATE, PUBLISH, CONTROL, MERGE, PRIVILEGED]"

definition default_environment_registry :: "env_registry res" where
  "default_environment_registry = mk_env_registry default_lane_policies"

definition green_request :: "bound_operation \<Rightarrow> real \<Rightarrow> real \<Rightarrow> str_dict \<Rightarrow> prepare_request" where
  "green_request bound ttl now parent =
     \<lparr>pq_task = bo_universal_task bound, pq_operation = bo_operation_ir bound, pq_adapter_id = ra_adapter_id (bo_binding bound),
      pq_lane = ra_lane (bo_binding bound), pq_lease_scope_key = bo_lease_scope_key bound,
      pq_target_state_ref = bo_target_state_ref bound, pq_ttl_seconds = ttl, pq_now = now, pq_parent_environment = parent,
      pq_injected_environment = []\<rparr>"

definition prepare_green_authority ::
    "(real \<Rightarrow> string) \<Rightarrow> bound_operation \<Rightarrow> node_registry \<Rightarrow> real \<Rightarrow> real \<Rightarrow> str_dict \<Rightarrow> real \<Rightarrow> real
      \<Rightarrow> (runner_state, green_handoff) op" where
  "prepare_green_authority frepr bound nodes ttl now parent t1 t2 =
     guarded (rbind (raise_if (pd_effect_class (bo_policy_decision bound) \<noteq> GREEN)
                (RunnerVNextAuthorityError ''VNEXT_AUTHORITY_PRIVILEGED_OPERATION_REQUIRES_BROKER'')) (\<lambda>_.
              rbind default_environment_registry (\<lambda>envs.
              rbind (mk_adapter_planner default_authority_manifests) (\<lambda>planner. Inr (envs, planner)))))
       (\<lambda>(envs, planner). prepare frepr nodes envs planner (green_request bound ttl now parent) t1 t2)"

definition grant_green_authority ::
    "(real \<Rightarrow> string) \<Rightarrow> green_handoff \<Rightarrow> node_registry \<Rightarrow> (green_handoff \<Rightarrow> string) \<Rightarrow> real \<Rightarrow> real \<Rightarrow> runner_state \<Rightarrow> green_grant res" where
  "grant_green_authority frepr handoff nodes current_ref t now rs =
     rbind default_environment_registry (\<lambda>envs. gate_grant frepr nodes envs current_ref t now handoff rs)"

definition privileged_envelope :: "bound_operation \<Rightarrow> int \<Rightarrow> execution_envelope res" where
  "privileged_envelope bound fence =
     (if pd_effect_class (bo_policy_decision bound) = GREEN then authority_error ''VNEXT_AUTHORITY_PRIVILEGED_EFFECT_REQUIRED''
      else case map_of default_authority_manifests (ra_adapter_id (bo_binding bound)) of
          None \<Rightarrow> Inl (OtherException ''KeyError'')
        | Some m \<Rightarrow> rbind (mk_adapter_planner [(am_adapter_id m, m)]) (\<lambda>planner.
            adapter_plan planner (am_adapter_id m) (bo_universal_task bound) (bo_operation_ir bound) (bo_policy_input bound)
              (bo_policy_decision bound) (bo_target_state_ref bound) fence))"

definition reserve_privileged_authority :: "bound_operation \<Rightarrow> int \<Rightarrow> (operation_ledger, execution_envelope) op" where
  "reserve_privileged_authority bound fence =
     guarded (privileged_envelope bound fence) (\<lambda>envelope.
       let identity = \<lparr>op_operation_id = ir_operation_id (bo_operation_ir bound),
             op_idempotency_key = ir_idempotency_key (bo_operation_ir bound), op_target_state_ref = bo_target_state_ref bound\<rparr>
       in sbind (ledger_reserve identity fence (reservation_scope_fingerprint envelope) None) (\<lambda>_ s. (Inr envelope, s)))"

definition authorize_privileged_broker_request ::
    "execution_envelope \<Rightarrow> operation_ledger \<Rightarrow> authority_claim \<Rightarrow> (authority_claim \<Rightarrow> bool) \<Rightarrow> broker_request res" where
  "authorize_privileged_broker_request envelope ledger claim verifier =
     rbind (reraise_as RunnerVNextAuthorityError is_pep_error (pep_evaluate envelope ledger (Some claim) (Some verifier))) (\<lambda>out.
       case out of Broker b \<Rightarrow> Inr b | Authorized r \<Rightarrow> authority_error ''VNEXT_AUTHORITY_PRIVILEGED_BROKER_REQUIRED'')"

definition authority_receipt_from_bound :: "bound_operation \<Rightarrow> string \<Rightarrow> string \<Rightarrow> authority_receipt" where
  "authority_receipt_from_bound bound status reason =
     (let c = pd_effect_class (bo_policy_decision bound) in
      \<lparr>au_mode = ''authoritative'', au_status = status, au_reason_code = reason, au_route = bo_route bound,
       au_operation = bo_operation bound, au_lane = Some (lane_value (ra_lane (bo_binding bound))),
       au_adapter_id = Some (ra_adapter_id (bo_binding bound)), au_effect_class = Some (effect_class_value c),
       au_target_state_ref_hash = Some (text_hash (bo_target_state_ref bound)),
       au_idempotency_key_hash = Some (text_hash (ir_idempotency_key (bo_operation_ir bound))),
       au_source_binding_hash = Some (bo_source_binding_hash bound), au_execution_authorized = False,
       au_privileged_broker_request = (c \<noteq> GREEN), au_allow_legacy_mechanical_shell = False,
       au_side_effects_executed = False\<rparr>)"

subsection \<open>Names that every reference check accepts\<close>

definition plain_text :: "string \<Rightarrow> bool" where
  "plain_text s \<longleftrightarrow> (\<forall>c\<in>set s. \<not> py_isspace c \<and> c \<noteq> CHR 0x5C) \<and> \<not> sublist ''..'' s"

lemma dots_append:
  assumes "c \<noteq> CHR ''.''"
  shows "sublist ''..'' (xs @ c # ys) \<longleftrightarrow> sublist ''..'' xs \<or> sublist ''..'' ys"
proof (induction xs)
  case Nil
  then show ?case using assms by (simp add: sublist_Cons_right)
next
  case (Cons x xs)
  have "prefix ''..'' (x # xs @ c # ys) \<longleftrightarrow> prefix ''..'' (x # xs)" using assms by (cases xs) auto
  then show ?case using Cons by (simp only: append_Cons sublist_Cons_right simp_thms) blast
qed

lemma plain_text_append:
  assumes "c \<noteq> CHR ''.''"
  shows "plain_text (xs @ c # ys) \<longleftrightarrow> plain_text xs \<and> plain_text ys \<and> \<not> py_isspace c \<and> c \<noteq> CHR 0x5C"
  using assms by (auto simp: plain_text_def dots_append)

lemma plain_text_no_dot: "CHR ''.'' \<notin> set s \<Longrightarrow> \<forall>c\<in>set s. \<not> py_isspace c \<and> c \<noteq> CHR 0x5C \<Longrightarrow> plain_text s"
proof -
  assume "CHR ''.'' \<notin> set s" and c: "\<forall>c\<in>set s. \<not> py_isspace c \<and> c \<noteq> CHR 0x5C"
  then have "\<not> sublist ''..'' s" using set_mono_sublist [of "''..''" s] by auto
  with c show ?thesis by (simp add: plain_text_def)
qed

lemma partition_at: "CHR '':'' \<notin> set ns \<Longrightarrow> py_partition (CHR '':'') (ns @ CHR '':'' # s) = (ns, True, s)"
  by (induction ns) auto

lemma namespaced_ref:
  assumes "plain_text ns" "CHR '':'' \<notin> set ns" "ns \<noteq> []" "hd ns \<notin> {CHR ''/'', CHR ''~''}"
    and "plain_text s" "s \<noteq> []" "hd s \<notin> {CHR ''/'', CHR ''~''}"
  shows "public_ref (ns @ CHR '':'' # s)" "partition_ref (ns @ CHR '':'' # s)"
proof -
  have "\<not> py_isspace (CHR '':'')" by (simp add: py_isspace_def)
  then have "plain_text (ns @ CHR '':'' # s)" using assms by (simp add: plain_text_append)
  then show "public_ref (ns @ CHR '':'' # s)" "partition_ref (ns @ CHR '':'' # s)"
    using assms by (auto simp: public_ref_def partition_ref_def plain_text_def list_ex_iff startswith_any_def prefix_singleton partition_at)
qed

lemma hex_lower_plain: "\<forall>c\<in>set hex_lower. \<not> py_isspace c \<and> c \<noteq> CHR 0x5C \<and> c \<noteq> CHR ''.'' \<and> c \<notin> {CHR ''/'', CHR ''~''}"
  by (simp add: hex_lower_def py_isspace_def)

lemma plain_hex: "set h \<subseteq> set hex_lower \<Longrightarrow> plain_text h"
  using hex_lower_plain by (intro plain_text_no_dot) blast+

lemma hex_head: "set h \<subseteq> set hex_lower \<Longrightarrow> h \<noteq> [] \<Longrightarrow> hd h \<notin> {CHR ''/'', CHR ''~''}"
  using hex_lower_plain hd_in_set by blast

lemma ascii_alnum_plain:
  "ascii_alnum c \<Longrightarrow> \<not> py_isspace c \<and> c \<noteq> CHR 0x5C \<and> c \<notin> {CHR ''/'', CHR ''~''}"
  by (auto simp: ascii_alnum_def py_isspace_def Let_def)

lemma bounded_name_plain:
  assumes "bounded_name e0 e n s" "\<forall>c\<in>set (e0 @ e). \<not> py_isspace c \<and> c \<noteq> CHR 0x5C" "\<not> sublist ''..'' s"
  shows "plain_text s" "s \<noteq> []" "\<forall>c\<in>set e0. c \<notin> {CHR ''/'', CHR ''~''} \<Longrightarrow> hd s \<notin> {CHR ''/'', CHR ''~''}"
proof -
  have ne: "s \<noteq> []" and h: "name_char e0 (hd s)" and t: "\<forall>c\<in>set (tl s). name_char e c"
    using assms(1) by (simp_all add: bounded_name_def list_all_iff)
  show "s \<noteq> []" by (rule ne)
  have "c = hd s \<or> c \<in> set (tl s)" if "c \<in> set s" for c using that ne by (cases s) auto
  then have "c \<in> set (e0 @ e) \<or> ascii_alnum c" if "c \<in> set s" for c
    using that h t by (fastforce simp: name_char_def)
  then show "plain_text s"
    using assms(2,3) ascii_alnum_plain unfolding plain_text_def by blast
  show "hd s \<notin> {CHR ''/'', CHR ''~''}" if "\<forall>c\<in>set e0. c \<notin> {CHR ''/'', CHR ''~''}"
    using h that ascii_alnum_plain by (auto simp: name_char_def)
qed

subsection \<open>The route table and the manifests\<close>

lemma default_registries:
  "mk_adapter_planner default_authority_manifests = Inr default_authority_manifests"
  "default_environment_registry = Inr default_lane_policies"
  by code_simp+

lemma default_lane_lookup: "map_of default_lane_policies (''lane:'' @ lane_value l) = Some (default_lane_policy l)"
  by (cases l) (simp_all add: default_lane_policies_def)

lemma default_lane_policy_ok: "validate_lane_environment_policy (default_lane_policy l) = Inr ()"
  by (cases l) (simp_all only:, code_simp+)

lemma default_build: "\<exists>plan. registry_build default_lane_policies (''lane:'' @ lane_value l) parent [] = Inr plan"
  unfolding registry_build_def default_lane_lookup
  by (simp add: build_child_environment_def lane_environment_policy_hash_def default_lane_policy_ok Let_def)

definition binding_consistent :: "(string \<times> string) \<times> route_binding \<Rightarrow> bool" where
  "binding_consistent kb = (case kb of ((route, operation), b) \<Rightarrow>
     ra_route b = route \<and> ra_operation b = operation \<and> ra_operation_kind b \<in> set ordinary_operation_kinds \<and>
     set (ra_effects b) \<subseteq> set known_effects \<and> ra_effects b \<noteq> [] \<and>
     plain_text operation \<and> operation \<noteq> [] \<and> hd operation \<notin> {CHR ''/'', CHR ''~''} \<and>
     public_ref (ra_adapter_id b) \<and> partition_ref (ra_adapter_id b) \<and>
     (case map_of default_authority_manifests (ra_adapter_id b) of None \<Rightarrow> False
      | Some m \<Rightarrow> am_adapter_id m = ra_adapter_id b \<and> am_operation_kinds m = [ra_operation_kind b] \<and>
          am_privacy_classes m = [PUBLIC_SAFE] \<and> ''repo:*'' \<in> set (am_resource_patterns m) \<and>
          (if ra_requires_runner_task b then am_allowed_effect_classes m = [GREEN] \<and> set (ra_effects b) \<subseteq> set green_effects \<and>
             ra_reversibility b \<noteq> IRREVERSIBLE \<and> \<not> ra_requires_operator b \<and> \<not> am_privileged_pep_required m
           else am_privileged_pep_required m \<and> ra_requires_operator b)))"

lemma route_bindings_consistent: "list_all binding_consistent route_bindings"
  by code_simp

lemma binding_forD: "binding_for route operation = Inr b \<Longrightarrow> binding_consistent ((route, operation), b)"
  using route_bindings_consistent by (auto simp: binding_for_def list_all_iff split: option.splits dest: map_of_SomeD)

subsection \<open>Binding a runner task\<close>

lemma bind_runner_InrD:
  assumes "bind_runner_operation t route operation source issue = Inr bo"
  shows "binding_for route operation = Inr (bo_binding bo)" "ra_requires_runner_task (bo_binding bo)"
    "public_ref (bo_source_task_ref bo)" "bo_route bo = route" "bo_operation bo = operation" "bo_runner_task bo = Some t"
    "bo_runner_task_hash bo = Some (runner_task_hash t)" "source_ref source issue = Inr (bo_source_task_ref bo)"
    "bo_source_binding_hash bo =
       json_digest (JObj (source_payload t (bo_source_task_ref bo) (ra_adapter_id (bo_binding bo)) route operation))"
    "bo_target_state_ref bo = ''git:'' @ rt_base_sha t" "bo_lease_scope_key bo = ''repo:'' @ rt_repo t @ CHR 0x40 # rt_branch t"
    "bo_policy_decision bo = classify_policy (bo_policy_input bo)" "rt_allowed_files t \<noteq> []"
  using assms
  by (auto simp: bind_runner_operation_def source_authority_identity_def require_public_ref_def mk_operation_ir_def Let_def
      split: if_splits)

lemma bind_runner_task:
  assumes "bind_runner_operation t route operation source issue = Inr bo"
  defines "res \<equiv> map (\<lambda>path. ''repo:'' @ path) (rt_allowed_files t)"
  shows "ir_operation_id (bo_operation_ir bo) = bound_name ''op'' operation (bo_source_binding_hash bo)"
    "ir_idempotency_key (bo_operation_ir bo) = bound_name ''idem'' operation (bo_source_binding_hash bo)"
    "ir_kind (bo_operation_ir bo) = ra_operation_kind (bo_binding bo)" "ir_resources (bo_operation_ir bo) = res"
    "ir_effects (bo_operation_ir bo) = ra_effects (bo_binding bo)"
    "task_id (bo_universal_task bo) = bound_name ''task'' operation (bo_source_binding_hash bo)"
    "task_idempotency_key (bo_universal_task bo) = bound_name ''idem'' operation (bo_source_binding_hash bo)"
    "task_target_resources (bo_universal_task bo) = res"
    "task_expected_effects (bo_universal_task bo) = ra_effects (bo_binding bo)"
    "task_required_capabilities (bo_universal_task bo) = rt_requested_capabilities t"
    "task_privacy (bo_universal_task bo) = runner_task_privacy t"
    "bo_policy_input bo = \<lparr>pi_operation = bo_operation_ir bo, pi_reversibility = task_reversibility (bo_universal_task bo),
       pi_privacy = task_privacy (bo_universal_task bo), pi_target_state_ref = Some (bo_target_state_ref bo),
       pi_operator_boundary_evidence = task_operator_boundary_evidence (bo_universal_task bo)\<rparr>"
    "task_reversibility (bo_universal_task bo) = ra_reversibility (bo_binding bo)"
  using assms(1) unfolding res_def
  by (auto simp: bind_runner_operation_def source_authority_identity_def require_public_ref_def mk_operation_ir_def Let_def
      split: if_splits)

text \<open>Every operation bound from a runner task is GREEN: its effects are, and it names only repository files.\<close>

lemma repo_resource_plain: "\<not> red_resource (''repo:'' @ path)" "\<not> yellow_resource (''repo:'' @ path)"
  by (simp_all add: red_resource_def yellow_resource_def startswith_any_def red_resource_prefixes_def yellow_resource_prefixes_def)

lemma bound_runner_green:
  assumes "bind_runner_operation t route operation source issue = Inr bo"
  shows "pd_effect_class (bo_policy_decision bo) = GREEN"
proof -
  note b = bind_runner_InrD [OF assms] and u = bind_runner_task [OF assms]
  have "binding_consistent ((route, operation), bo_binding bo)" using b(1) by (rule binding_forD)
  then show ?thesis
    unfolding b(12) classify_GREEN_iff u(12) using b(2,10) u(4,5,13) repo_resource_plain
    by (auto simp: binding_consistent_def falsy_def split: option.splits)
qed

lemma bound_names:
  assumes "binding_consistent ((route, operation), b)" "set h \<subseteq> set hex_lower" "h \<noteq> []" "ns \<in> {''task'', ''op'', ''idem''}"
  shows "public_ref (bound_name ns operation h)" "partition_ref (bound_name ns operation h)" "prefix (ns @ '':'') (bound_name ns operation h)"
proof -
  have op: "plain_text operation" "operation \<noteq> []" "hd operation \<notin> {CHR ''/'', CHR ''~''}"
    using assms(1) by (simp_all add: binding_consistent_def)
  have "\<not> py_isspace (CHR '':'')" by (simp add: py_isspace_def)
  then have tail: "plain_text (operation @ CHR '':'' # h)" "operation @ CHR '':'' # h \<noteq> []"
      "hd (operation @ CHR '':'' # h) \<notin> {CHR ''/'', CHR ''~''}"
    using op plain_hex [OF assms(2)] by (simp_all add: plain_text_append hd_append)
  have ns: "plain_text ns" "CHR '':'' \<notin> set ns" "ns \<noteq> []" "hd ns \<notin> {CHR ''/'', CHR ''~''}"
    using assms(4) plain_text_no_dot [of ns] by (auto simp: py_isspace_def)
  show "public_ref (bound_name ns operation h)" "partition_ref (bound_name ns operation h)"
    using namespaced_ref [OF ns tail] by (simp_all add: bound_name_def)
  show "prefix (ns @ '':'') (bound_name ns operation h)" by (simp add: bound_name_def)
qed

lemma repo_refs:
  assumes "repository_path path" "\<not> sublist ''..'' path"
  shows "public_ref (''repo:'' @ path)" "partition_ref (''repo:'' @ path)" "fnmatch (''repo:'' @ path) ''repo:*''"
proof -
  have n: "bounded_name ''._-'' ''._/@+-'' 511 path" using assms(1) by (simp add: repository_path_def safe_path_re_def)
  have e: "\<forall>c\<in>set (''._-'' @ ''._/@+-''). \<not> py_isspace c \<and> c \<noteq> CHR 0x5C" by (simp add: py_isspace_def)
  have h: "\<forall>c\<in>set ''._-''. c \<notin> {CHR ''/'', CHR ''~''}" by simp
  note path = bounded_name_plain [OF n e assms(2)]
  have ns: "plain_text ''repo''" by (rule plain_text_no_dot) (simp_all add: py_isspace_def)
  show "public_ref (''repo:'' @ path)" "partition_ref (''repo:'' @ path)"
    using namespaced_ref [OF ns _ _ _ path(1,2) path(3) [OF h]] by simp_all
  have "fnmatch path ''*''" using fnmatch_star [of path "[]"] by (simp add: fnmatch_def)
  then show "fnmatch (''repo:'' @ path) ''repo:*''"
    using fnmatch_plain_prefix [of "''repo:''" "''repo:'' @ path" "''*''"] by (simp add: plain_char_def)
qed

lemma repo_path_plain: "repository_path path \<Longrightarrow> list_all plain_char (''repo:'' @ path)"
proof -
  have a: "ascii_alnum c \<Longrightarrow> plain_char c" for c by (auto simp: ascii_alnum_def plain_char_def Let_def)
  assume "repository_path path"
  then have "path \<noteq> []" "name_char ''._-'' (hd path)" "list_all (name_char ''._/@+-'') (tl path)"
    by (simp_all add: repository_path_def safe_path_re_def bounded_name_def)
  then show ?thesis using a by (cases path) (auto simp: name_char_def list_all_iff plain_char_def)
qed

lemma target_refs:
  assumes "set sha \<subseteq> set hex_lower" "length sha = 40"
  shows "public_ref (''git:'' @ sha)" "partition_ref (''git:'' @ sha)"
proof -
  have ns: "plain_text ''git''" by (rule plain_text_no_dot) (simp_all add: py_isspace_def)
  have "sha \<noteq> []" using assms(2) by auto
  then show "public_ref (''git:'' @ sha)" "partition_ref (''git:'' @ sha)"
    using namespaced_ref [OF ns _ _ _ plain_hex [OF assms(1)] _ hex_head [OF assms(1)]] by simp_all
qed

lemma scope_ref:
  assumes "repository_re repo" "\<not> sublist ''..'' repo" "branch_re branch" "\<not> sublist ''..'' branch"
  shows "public_ref (''repo:'' @ repo @ CHR 0x40 # branch)" "partition_ref (''repo:'' @ repo @ CHR 0x40 # branch)"
proof -
  obtain owner name where r: "repo = owner @ CHR ''/'' # name" "bounded_name [] ''_.-'' 99 owner" "bounded_name [] ''_.-'' 99 name"
    using assms(1) py_partition_found [of "CHR ''/''" repo] by (auto simp: repository_re_def split: prod.splits)
  have e: "\<forall>c\<in>set ([] @ ''_.-''). \<not> py_isspace c \<and> c \<noteq> CHR 0x5C" "\<forall>c\<in>set ([] @ ''._/-''). \<not> py_isspace c \<and> c \<noteq> CHR 0x5C"
    by (simp_all add: py_isspace_def)
  have d: "\<not> sublist ''..'' owner" "\<not> sublist ''..'' name" using assms(2) r(1) by (simp_all add: dots_append)
  note o1 = bounded_name_plain [OF r(2) e(1) d(1)] and n1 = bounded_name_plain [OF r(3) e(1) d(2)]
  have br: "plain_text branch" using assms(3) bounded_name_plain(1) [OF _ e(2) assms(4)] by (simp add: branch_re_def)
  have sp: "\<not> py_isspace (CHR ''/'')" "\<not> py_isspace (CHR 0x40)" by (simp_all add: py_isspace_def)
  have "plain_text repo" unfolding r(1) using o1(1) n1(1) sp by (simp add: plain_text_append)
  then have t: "plain_text (repo @ CHR 0x40 # branch)" using br sp by (simp add: plain_text_append)
  have ns: "plain_text ''repo''" by (rule plain_text_no_dot) (simp_all add: py_isspace_def)
  have hd: "hd (repo @ CHR 0x40 # branch) \<notin> {CHR ''/'', CHR ''~''}" unfolding r(1) using o1(2,3) by (simp add: hd_append)
  show "public_ref (''repo:'' @ repo @ CHR 0x40 # branch)" "partition_ref (''repo:'' @ repo @ CHR 0x40 # branch)"
    using namespaced_ref [OF ns _ _ _ t _ hd] by simp_all
qed

text \<open>
  The task validator lets \<^verbatim>\<open>..\<close> pass inside a file or repository name; the reference checks further down
  do not.  What the GREEN path needs beyond an accepted task:
\<close>

definition preparable :: "runner_task \<Rightarrow> bound_operation \<Rightarrow> bool" where
  "preparable t bo \<longleftrightarrow> rt_privacy_boundary t = ''PUBLIC_SAFE_REPOSITORY_ONLY'' \<and>
     (\<forall>f\<in>set (rt_allowed_files t). \<not> sublist ''..'' f) \<and> \<not> sublist ''..'' (rt_repo t) \<and>
     (\<exists>m. map_of default_authority_manifests (ra_adapter_id (bo_binding bo)) = Some m \<and>
        set (rt_requested_capabilities t) \<subseteq> set (am_capabilities m))"

lemma accepted_refs:
  assumes "from_mapping v = Inr t" "preparable t bo"
  shows "\<forall>r\<in>set (map (\<lambda>path. ''repo:'' @ path) (rt_allowed_files t)). public_ref r \<and> partition_ref r \<and> fnmatch r ''repo:*''"
    "public_ref (''git:'' @ rt_base_sha t)" "partition_ref (''git:'' @ rt_base_sha t)"
    "public_ref (''repo:'' @ rt_repo t @ CHR 0x40 # rt_branch t)" "partition_ref (''repo:'' @ rt_repo t @ CHR 0x40 # rt_branch t)"
proof -
  from assms(1) obtain kvs where f: "rt_repository (field_value kvs ''repo'') = Inr (rt_repo t)"
      "rt_branch_of (field_value kvs ''branch'') = Inr (rt_branch t)" "rt_base_sha_of (field_value kvs ''base_sha'') = Inr (rt_base_sha t)"
      "rt_files (field_value kvs ''allowed_files'') = Inr (rt_allowed_files t)"
    unfolding from_mapping_Inr by blast
  show "\<forall>r\<in>set (map (\<lambda>path. ''repo:'' @ path) (rt_allowed_files t)). public_ref r \<and> partition_ref r \<and> fnmatch r ''repo:*''"
  proof
    fix r assume "r \<in> set (map (\<lambda>path. ''repo:'' @ path) (rt_allowed_files t))"
    then obtain path where p: "path \<in> set (rt_allowed_files t)" "r = ''repo:'' @ path" by auto
    have "repository_path path" "\<not> sublist ''..'' path" using p(1) files_bounded [OF f(4)] assms(2) by (auto simp: preparable_def)
    then show "public_ref r \<and> partition_ref r \<and> fnmatch r ''repo:*''" unfolding p(2) using repo_refs by blast
  qed
  show "public_ref (''git:'' @ rt_base_sha t)" "partition_ref (''git:'' @ rt_base_sha t)"
    using target_refs sha_accepted [OF f(3)] by blast+
  have "repository_re (rt_repo t)" using f(1) by (auto simp: rt_repository_def split: py_obj.splits if_splits)
  moreover have "branch_re (rt_branch t)" "\<not> sublist ''..'' (rt_branch t)"
    using f(2) by (auto simp: rt_branch_of_def branch_malformed_def split: py_obj.splits if_splits)
  ultimately show "public_ref (''repo:'' @ rt_repo t @ CHR 0x40 # rt_branch t)" "partition_ref (''repo:'' @ rt_repo t @ CHR 0x40 # rt_branch t)"
    using scope_ref assms(2) unfolding preparable_def by blast+
qed

lemma bound_names_of:
  assumes "bind_runner_operation t route operation source issue = Inr bo" "ns \<in> {''task'', ''op'', ''idem''}"
  shows "public_ref (bound_name ns operation (bo_source_binding_hash bo))"
    "partition_ref (bound_name ns operation (bo_source_binding_hash bo))" "prefix (ns @ '':'') (bound_name ns operation (bo_source_binding_hash bo))"
  using bound_names [OF binding_forD [OF bind_runner_InrD(1) [OF assms(1)]] _ _ assms(2), of "bo_source_binding_hash bo"]
    bind_runner_InrD(9) [OF assms(1)] json_digest_chars by auto

lemma green_reason: "pd_effect_class (classify_policy p) = GREEN \<Longrightarrow> pd_reason_code (classify_policy p) = ''GREEN_AUTONOMOUS_TYPED_EFFECT''"
  by (simp add: classify_policy_def Let_def split: if_splits)

lemma bound_planned:
  assumes t: "from_mapping v = Inr t" and bo: "bind_runner_operation t route operation source issue = Inr bo"
    and pr: "preparable t bo" and f: "1 \<le> f"
  shows "\<exists>env. adapter_plan default_authority_manifests (ra_adapter_id (bo_binding bo)) (bo_universal_task bo) (bo_operation_ir bo)
      (bo_policy_input bo) (bo_policy_decision bo) (bo_target_state_ref bo) f = Inr env \<and> validate_envelope env = Inr ()"
proof -
  note b = bind_runner_InrD [OF bo] and u = bind_runner_task [OF bo] and g = bound_runner_green [OF bo] and refs = accepted_refs [OF t pr]
  let ?h = "bo_source_binding_hash bo"
  have bc: "binding_consistent ((route, operation), bo_binding bo)" using b(1) by (rule binding_forD)
  obtain m where m: "map_of default_authority_manifests (ra_adapter_id (bo_binding bo)) = Some m"
      "set (rt_requested_capabilities t) \<subseteq> set (am_capabilities m)" using pr unfolding preparable_def by blast
  have mm: "am_operation_kinds m = [ra_operation_kind (bo_binding bo)]" "am_privacy_classes m = [PUBLIC_SAFE]"
      "''repo:*'' \<in> set (am_resource_patterns m)" "am_allowed_effect_classes m = [GREEN]" "public_ref (ra_adapter_id (bo_binding bo))"
      "ra_effects (bo_binding bo) \<noteq> []"
    using bc b(2) m(1) by (auto simp: binding_consistent_def)
  have priv: "runner_task_privacy t = PUBLIC_SAFE" using pr by (simp add: preparable_def runner_task_privacy_def)
  have sep: "\<not> pd_separate_privileged_pep_required (bo_policy_decision bo)" using g unfolding b(12) classify_pep_required by simp
  have ns: "public_ref (bound_name ''op'' operation ?h)" "public_ref (bound_name ''idem'' operation ?h)"
    using bound_names_of(1) [OF bo] by simp_all
  have match: "\<forall>r\<in>set (ir_resources (bo_operation_ir bo)). resource_matches r (am_resource_patterns m)"
    using refs(1) mm(3) unfolding u(4) by (auto simp: resource_matches_def list_ex_iff)
  have reason: "pd_reason_code (bo_policy_decision bo) = ''GREEN_AUTONOMOUS_TYPED_EFFECT''" using g green_reason unfolding b(12) by blast
  let ?env = "\<lparr>ev_operation_id = bound_name ''op'' operation ?h, ev_adapter_id = ra_adapter_id (bo_binding bo),
      ev_target_state_ref = bo_target_state_ref bo, ev_fence_token = f, ev_idempotency_key = bound_name ''idem'' operation ?h,
      ev_resources = ir_resources (bo_operation_ir bo), ev_effects = ra_effects (bo_binding bo), ev_effect_class = GREEN,
      ev_policy_reason_code = ''GREEN_AUTONOMOUS_TYPED_EFFECT'', ev_required_capabilities = rt_requested_capabilities t,
      ev_privacy = PUBLIC_SAFE, ev_dry_run = True\<rparr>"
  have "adapter_plan default_authority_manifests (ra_adapter_id (bo_binding bo)) (bo_universal_task bo) (bo_operation_ir bo)
      (bo_policy_input bo) (bo_policy_decision bo) (bo_target_state_ref bo) f = Inr ?env"
    using f g sep m mm(1,2,4) priv refs(2) match b(10,12) reason u by (simp add: adapter_plan_def Let_def)
  moreover have "validate_envelope ?env = Inr ()"
    using f mm(5,6) ns refs(1,2) u(4) b(10,13) by (simp add: validate_envelope_def upper_digits_underscore_def)
  ultimately show ?thesis by blast
qed

lemma bound_run_checks:
  assumes t: "from_mapping v = Inr t" and bo: "bind_runner_operation t route operation source issue = Inr bo"
    and pr: "preparable t bo"
    and route: "plan_route frepr nodes (bo_universal_task bo) (ra_adapter_id (bo_binding bo)) (ra_lane (bo_binding bo)) now = Inr rp"
      "routed_node rp = Inr (node_id, gen)"
  shows "\<exists>env_plan. run_checks frepr nodes default_lane_policies (green_request bo ttl now parent) =
    Inr (bo_policy_input bo, bo_policy_decision bo, rp, node_id, gen, env_plan)"
proof -
  note b = bind_runner_InrD [OF bo] and u = bind_runner_task [OF bo] and refs = accepted_refs [OF t pr]
  obtain env_plan where env: "registry_build default_lane_policies (''lane:'' @ lane_value (ra_lane (bo_binding bo))) parent [] = Inr env_plan"
    using default_build by blast
  have pre: "prefix ''op:'' (bound_name ''op'' operation h)" "prefix ''idem:'' (bound_name ''idem'' operation h)" for h
    by (simp_all add: bound_name_def)
  have "validate_task_operation (bo_universal_task bo) (bo_operation_ir bo) = Inr ()"
    using bound_names_of(2) [OF bo] u(1,2,4,5,7-9) pre by (simp add: validate_task_operation_def)
  then show ?thesis
    using refs(3,5) b(10,11,12) u(12) bound_runner_green [OF bo] route env
    by (simp add: prepare_checks_def green_request_def Let_def reraise_control_Inr reraise_control_def)
qed

lemma bound_prepared:
  assumes "from_mapping v = Inr t" "bind_runner_operation t route operation source issue = Inr bo" "preparable t bo"
    and "plan_route frepr nodes (bo_universal_task bo) (ra_adapter_id (bo_binding bo)) (ra_lane (bo_binding bo)) now = Inr rp"
      "routed_node rp = Inr (node_id, gen)"
    and "ledger_reachable (rs_ledger rs)" "lane_reachable (rs_leases rs)" "0 < ttl"
    and "lease_current t1 (ra_lane (bo_binding bo)) (bo_lease_scope_key bo) (rs_leases rs) = None"
    and "ledger_entry (rs_ledger rs) (ir_idempotency_key (bo_operation_ir bo)) = None"
    and "fence_of (rs_leases rs) (ra_lane (bo_binding bo), bo_lease_scope_key bo) + 1 < 2 ^ 63"
  shows "\<exists>h rs'. prepare frepr nodes default_lane_policies default_authority_manifests (green_request bo ttl now parent) t1 t2 rs = (Inr h, rs')"
proof -
  let ?q = "green_request bo ttl now parent"
  let ?f = "fence_of (rs_leases rs) (pq_lane ?q, pq_lease_scope_key ?q) + 1"
  obtain env_plan where checks: "run_checks frepr nodes default_lane_policies ?q =
      Inr (bo_policy_input bo, bo_policy_decision bo, rp, node_id, gen, env_plan)"
    using bound_run_checks [OF assms(1-5)] by blast
  have q: "0 < pq_ttl_seconds ?q" "lease_current t1 (pq_lane ?q) (pq_lease_scope_key ?q) (rs_leases rs) = None"
      "ledger_entry (rs_ledger rs) (ir_idempotency_key (pq_operation ?q)) = None" "?f < 2 ^ 63"
    using assms(8-11) by (simp_all add: green_request_def)
  have f: "1 \<le> ?f" using fence_of_nonneg [OF lane_reachable_ok [OF assms(7)]] by simp
  obtain env where env: "adapter_plan default_authority_manifests (pq_adapter_id ?q) (pq_task ?q) (pq_operation ?q) (bo_policy_input bo)
      (bo_policy_decision bo) (pq_target_state_ref ?q) ?f = Inr env" "validate_envelope env = Inr ()"
    using bound_planned [OF assms(1-3) f] by (auto simp: green_request_def)
  have "public_ref (bo_target_state_ref bo)" using accepted_refs(2) [OF assms(1,3)] bind_runner_InrD(10) [OF assms(2)] by simp
  then have id: "ledger_identity (request_identity ?q) = Inr ()"
    using bind_runner_task(1,2) [OF assms(2)]
    by (auto simp: green_request_def ledger_identity_def ledger_public_refs_def ledger_ref_ok_def public_ref_def bound_name_def)
  show ?thesis
    using prepare_fresh [where ?t1.0 = t1 and ?t2.0 = t2, OF assms(6,7) checks q(1,2,3) refl q(4) env id] .
qed

subsection \<open>Identity\<close>

lemma bound_name_inject: "bound_name ns op1 h1 = bound_name ns op2 h2 \<Longrightarrow> length h1 = length h2 \<Longrightarrow> h1 = h2 \<and> op1 = op2"
  by (simp add: bound_name_def)

lemma source_payload_inject:
  assumes "json_digest (JObj (source_payload t src ad ro oper)) = json_digest (JObj (source_payload t' src' ad' ro' oper'))"
    and "no_collision (JObj (source_payload t src ad ro oper)) (JObj (source_payload t' src' ad' ro' oper'))"
  shows "runner_task_hash t = runner_task_hash t' \<and> src = src' \<and> ad = ad' \<and> ro = ro' \<and> oper = oper'"
proof -
  have flat: "flat_payload (source_payload t src ad ro oper)" for t src ad ro oper
    by (simp add: source_payload_def flat_payload_def)
  have "source_payload t src ad ro oper = source_payload t' src' ad' ro' oper'"
    by (rule digest_payload_inject [OF assms flat flat]) (simp add: source_payload_def)
  then show ?thesis by (simp add: source_payload_def)
qed

lemma runner_task_hash_inject:
  assumes "from_mapping v = Inr t" "from_mapping v' = Inr t'" "runner_task_hash t = runner_task_hash t'"
    and "no_collision (task_json t) (task_json t')" "no_floats (rt_payload t)" "no_floats (rt_payload t')"
  shows "t = t'"
  using to_json_inject [OF assms(1,2) _ assms(5,6)] assms(3,4)
  by (simp add: runner_task_hash_def to_json_def no_collision_def json_digest_def)

lemma bound_determined:
  assumes "bind_runner_operation t route operation source issue = Inr bo"
    and "bind_runner_operation t route operation source' issue' = Inr bo'" "bo_source_task_ref bo = bo_source_task_ref bo'"
  shows "bo = bo'"
proof -
  have "source_ref source issue = Inr (bo_source_task_ref bo)" "source_ref source' issue' = Inr (bo_source_task_ref bo)"
    using bind_runner_InrD(8) [OF assms(1)] bind_runner_InrD(8) [OF assms(2)] assms(3) by simp_all
  then have "bind_runner_operation t route operation source issue = bind_runner_operation t route operation source' issue'"
    by (simp add: bind_runner_operation_def)
  then show ?thesis using assms(1,2) by simp
qed

text \<open>The idempotency key pins the task, the route and the whole bound operation.\<close>

lemma bound_key_inject:
  assumes "from_mapping v = Inr t" "bind_runner_operation t route operation source issue = Inr bo"
    and "from_mapping v' = Inr t'" "bind_runner_operation t' route' operation' source' issue' = Inr bo'"
    and "ir_idempotency_key (bo_operation_ir bo) = ir_idempotency_key (bo_operation_ir bo')"
    and "no_floats (rt_payload t)" "no_floats (rt_payload t')" "no_collision (task_json t) (task_json t')"
    and "no_collision (JObj (source_payload t (bo_source_task_ref bo) (ra_adapter_id (bo_binding bo)) route operation))
      (JObj (source_payload t' (bo_source_task_ref bo') (ra_adapter_id (bo_binding bo')) route' operation'))"
  shows "t = t' \<and> route = route' \<and> operation = operation' \<and> bo = bo'"
proof -
  note b = bind_runner_InrD [OF assms(2)] and b' = bind_runner_InrD [OF assms(4)]
  have "bo_source_binding_hash bo = bo_source_binding_hash bo'"
    using assms(5) bound_name_inject unfolding bind_runner_task(2) [OF assms(2)] bind_runner_task(2) [OF assms(4)] b(9) b'(9)
    by (metis json_digest_shape(1))
  then have "runner_task_hash t = runner_task_hash t'" "bo_source_task_ref bo = bo_source_task_ref bo'" "route = route'" "operation = operation'"
    using source_payload_inject [OF _ assms(9)] unfolding b(9) b'(9) by blast+
  moreover from this have "t = t'" using runner_task_hash_inject [OF assms(1,3) _ assms(8,6,7)] by blast
  ultimately show ?thesis using bound_determined [OF assms(2)] assms(4) by blast
qed

subsection \<open>Privileged operations\<close>

lemma privileged_binding: "binding_for route operation = Inr b \<Longrightarrow> \<not> ra_requires_runner_task b \<Longrightarrow>
    (route = ''merge'' \<and> ra_effects b = [''protected_merge''] \<and> ra_reversibility b = IRREVERSIBLE \<and> ra_requires_fresh_operator_evidence b \<or>
     route \<in> {''runtime_only'', ''recovery''} \<and> ra_effects b = [''bounded_service_restart''] \<and> ra_reversibility b = BOUNDED_REVERSIBLE) \<and>
    ra_requires_operator b"
  by (auto simp: binding_for_def route_bindings_def split: if_splits)

lemma bind_privileged_InrD:
  assumes "bind_privileged_operation route operation a = Inr bo"
  shows "binding_for route operation = Inr (bo_binding bo)" "privileged_checks (bo_binding bo) a = Inr ()"
    "bo_policy_decision bo = classify_policy (bo_policy_input bo)" "ir_resources (pi_operation (bo_policy_input bo)) = pv_resources a"
    "ir_effects (pi_operation (bo_policy_input bo)) = ra_effects (bo_binding bo)"
    "pi_reversibility (bo_policy_input bo) = ra_reversibility (bo_binding bo)"
    "pi_target_state_ref (bo_policy_input bo) = Some (pv_target_state_ref a)" "bo_target_state_ref bo = pv_target_state_ref a"
    "pi_operation (bo_policy_input bo) = bo_operation_ir bo"
    "bo_universal_task bo = \<lparr>task_id = bound_name ''task'' operation (bo_source_binding_hash bo),
       task_intent = ''runner:'' @ route @ '':'' @ operation, task_domain = ''github'', task_target_resources = pv_resources a,
       task_required_capabilities = pv_required_capabilities a, task_privacy = pv_privacy a,
       task_reversibility = ra_reversibility (bo_binding bo), task_expected_effects = ra_effects (bo_binding bo), task_validation = [],
       task_rollback = [''operator_recovery_required''],
       task_idempotency_key = bound_name ''idem'' operation (bo_source_binding_hash bo),
       task_operator_boundary_evidence = pv_operator_boundary_evidence a\<rparr>"
    "bo_operation_ir bo = \<lparr>ir_operation_id = bound_name ''op'' operation (bo_source_binding_hash bo),
       ir_kind = ra_operation_kind (bo_binding bo), ir_resources = pv_resources a, ir_effects = ra_effects (bo_binding bo),
       ir_idempotency_key = bound_name ''idem'' operation (bo_source_binding_hash bo)\<rparr>"
    "pi_privacy (bo_policy_input bo) = pv_privacy a" 
    "bo_source_binding_hash bo = json_digest (JObj (privileged_payload (bo_binding bo) route operation a))"
  using assms by (auto simp: bind_privileged_operation_def mk_operation_ir_def Let_def split: if_splits)

lemma privileged_checksD:
  assumes "privileged_checks b a = Inr ()"
  shows "\<not> ra_requires_runner_task b" "pv_resources a \<noteq> []" "\<forall>r\<in>set (pv_resources a) \<union> set (pv_operator_boundary_evidence a). public_ref r"
    "public_ref (pv_target_state_ref a)" "ra_requires_operator b \<Longrightarrow> pv_operator_boundary_evidence a \<noteq> []"
  using assms by (auto simp: privileged_checks_def require_public_ref_def)

lemma privileged_class:
  assumes "bind_privileged_operation route operation a = Inr bo"
  shows "pd_effect_class (bo_policy_decision bo) =
    (if route = ''merge'' \<or> list_ex red_resource (pv_resources a) then RED
     else if list_ex yellow_resource (pv_resources a) then YELLOW else GREEN)"
proof -
  note b = bind_privileged_InrD [OF assms] and c = privileged_checksD [OF bind_privileged_InrD(2) [OF assms]]
  have t: "\<not> falsy (Some (pv_target_state_ref a))" using public_ref.accepted_nonempty [OF c(4)] by (simp add: falsy_def)
  have known: "''protected_merge'' \<in> set known_effects" "''bounded_service_restart'' \<in> set known_effects"
      "''bounded_service_restart'' \<notin> set red_effects" "''bounded_service_restart'' \<notin> set yellow_effects"
    by (simp_all add: known_effects_def green_effects_def yellow_effects_def red_effects_def)
  from privileged_binding [OF b(1) c(1)]
  consider "route = ''merge''" "ra_effects (bo_binding bo) = [''protected_merge'']" "ra_reversibility (bo_binding bo) = IRREVERSIBLE"
    | "route \<noteq> ''merge''" "ra_effects (bo_binding bo) = [''bounded_service_restart'']" "ra_reversibility (bo_binding bo) \<noteq> IRREVERSIBLE"
    by force
  then show ?thesis
  proof cases
    case 1
    then show ?thesis unfolding b(3) classify_policy_def Let_def b(4-7) using known(1) by simp
  next
    case 2
    then show ?thesis unfolding b(3) classify_policy_def Let_def b(4-7) using t known(2-4) by simp
  qed
qed

lemma reserve_privileged_InrD:
  assumes "reserve_privileged_authority bo f s = (Inr env, s')"
  shows "pd_effect_class (bo_policy_decision bo) \<noteq> GREEN" "ev_effect_class env = pd_effect_class (bo_policy_decision bo)"
    "ev_resources env = ir_resources (bo_operation_ir bo)" "ev_operation_id env = ir_operation_id (bo_operation_ir bo)"
    "ev_fence_token env = f" "ev_target_state_ref env = bo_target_state_ref bo"
    "\<exists>i sc. s' = snd (ledger_reserve i f sc None s)"
proof -
  obtain x where p: "privileged_envelope bo f = Inr env"
      and r: "ledger_reserve \<lparr>op_operation_id = ir_operation_id (bo_operation_ir bo),
             op_idempotency_key = ir_idempotency_key (bo_operation_ir bo), op_target_state_ref = bo_target_state_ref bo\<rparr> f
             (reservation_scope_fingerprint env) None s = (Inr x, s')"
    using assms by (auto simp: reserve_privileged_authority_def guarded_Inr_iff sbind_Inr_iff Let_def)
  then show "\<exists>i sc. s' = snd (ledger_reserve i f sc None s)" by (metis snd_conv)
  from p show "pd_effect_class (bo_policy_decision bo) \<noteq> GREEN" by (simp add: privileged_envelope_def)
  from p obtain pl ad where plan: "adapter_plan pl ad (bo_universal_task bo) (bo_operation_ir bo) (bo_policy_input bo)
      (bo_policy_decision bo) (bo_target_state_ref bo) f = Inr env"
    by (auto simp: privileged_envelope_def split: option.splits if_splits)
  show "ev_effect_class env = pd_effect_class (bo_policy_decision bo)"
    "ev_resources env = ir_resources (bo_operation_ir bo)" "ev_operation_id env = ir_operation_id (bo_operation_ir bo)"
    "ev_fence_token env = f" "ev_target_state_ref env = bo_target_state_ref bo"
    by (rule adapter_plan_InrD [OF plan], simp)+
qed

subsection \<open>Properties\<close>

text \<open>
  A validated public task reaches a handoff.  Any task the envelope validator accepted, bound on a
  route of the table, public, with capabilities its adapter declares and no \<^verbatim>\<open>..\<close> inside a name, for which
  the router finds a node, whose lane is free and whose key is new, is prepared by the GREEN path.
\<close>

theorem bound_task_prepared:
  assumes "from_mapping v = Inr t" "bind_runner_operation t route operation source issue = Inr bo" "preparable t bo"
    and "plan_route frepr nodes (bo_universal_task bo) (ra_adapter_id (bo_binding bo)) (ra_lane (bo_binding bo)) now = Inr rp"
      "routed_node rp = Inr (node_id, gen)"
    and "ledger_reachable (rs_ledger rs)" "lane_reachable (rs_leases rs)" "0 < ttl"
    and "lease_current t1 (ra_lane (bo_binding bo)) (bo_lease_scope_key bo) (rs_leases rs) = None"
    and "ledger_entry (rs_ledger rs) (ir_idempotency_key (bo_operation_ir bo)) = None"
    and "fence_of (rs_leases rs) (ra_lane (bo_binding bo), bo_lease_scope_key bo) + 1 < 2 ^ 63"
  shows "\<exists>h rs'. prepare_green_authority frepr bo nodes ttl now parent t1 t2 rs = (Inr h, rs')"
  using bound_prepared [where ?t1.0 = t1 and ?t2.0 = t2 and parent = parent, OF assms]
  unfolding prepare_green_authority_def default_registries using bound_runner_green [OF assms(2)] by simp

text \<open>
  The idempotency key of a bound operation pins everything that was bound: two bindings of validated
  tasks without floats in their payloads that get the same key are the same bound operation of the same
  task on the same route, unless the two source payloads or the two task documents are a SHA-256 collision.
\<close>

theorem authority_identity_binds:
  assumes "from_mapping v = Inr t" "bind_runner_operation t route operation source issue = Inr bo"
    and "from_mapping v' = Inr t'" "bind_runner_operation t' route' operation' source' issue' = Inr bo'"
    and "ir_idempotency_key (bo_operation_ir bo) = ir_idempotency_key (bo_operation_ir bo')"
    and "no_floats (rt_payload t)" "no_floats (rt_payload t')" "no_collision (task_json t) (task_json t')"
    and "no_collision (JObj (source_payload t (bo_source_task_ref bo) (ra_adapter_id (bo_binding bo)) route operation))
      (JObj (source_payload t' (bo_source_task_ref bo') (ra_adapter_id (bo_binding bo')) route' operation'))"
  shows "t = t' \<and> route = route' \<and> operation = operation' \<and> bo = bo'"
  using assms by (rule bound_key_inject)

text \<open>
  C39. The class of a privileged binding is exact, and it decides which door is open.  A merge is always
  RED; control and recovery are RED, YELLOW or GREEN according to their resources only.  Operator
  evidence is present and public.  The GREEN path refuses everything else without touching a store, and
  the privileged path refuses a GREEN operation, so a control or recovery operation on plain
  repository resources can only go through the GREEN path, which asks for no operator claim.
\<close>

theorem privileged_doors:
  assumes "bind_privileged_operation route operation a = Inr bo"
  shows "pd_effect_class (bo_policy_decision bo) =
      (if route = ''merge'' \<or> list_ex red_resource (pv_resources a) then RED
       else if list_ex yellow_resource (pv_resources a) then YELLOW else GREEN) \<and>
    pv_operator_boundary_evidence a \<noteq> [] \<and> (\<forall>r\<in>set (pv_resources a) \<union> set (pv_operator_boundary_evidence a). public_ref r) \<and>
    (if pd_effect_class (bo_policy_decision bo) = GREEN
     then reserve_privileged_authority bo f s = (authority_error ''VNEXT_AUTHORITY_PRIVILEGED_EFFECT_REQUIRED'', s)
     else prepare_green_authority frepr bo nodes ttl now parent t1 t2 rs =
       (authority_error ''VNEXT_AUTHORITY_PRIVILEGED_OPERATION_REQUIRES_BROKER'', rs))"
proof -
  note b = bind_privileged_InrD [OF assms] and c = privileged_checksD [OF bind_privileged_InrD(2) [OF assms]]
  have "ra_requires_operator (bo_binding bo)" using privileged_binding [OF b(1) c(1)] by blast
  moreover have "if pd_effect_class (bo_policy_decision bo) = GREEN
     then reserve_privileged_authority bo f s = (authority_error ''VNEXT_AUTHORITY_PRIVILEGED_EFFECT_REQUIRED'', s)
     else prepare_green_authority frepr bo nodes ttl now parent t1 t2 rs =
       (authority_error ''VNEXT_AUTHORITY_PRIVILEGED_OPERATION_REQUIRES_BROKER'', rs)"
    by (simp add: reserve_privileged_authority_def privileged_envelope_def prepare_green_authority_def)
  ultimately show ?thesis using privileged_class [OF assms] c(3,5) by blast
qed

text \<open>
  C40. A broker request rests on an operator.  If a privileged operation was reserved, any calls were made
  on the ledger since, and a broker request is then authorised, the claim was accepted by the verifier,
  carries evidence, names exactly the bound operation, its target state, its resources and its class,
  and is fresh if the class is RED, in particular for every merge; the reservation is still open and
  unstarted with that fence; and the request itself authorises no execution.
\<close>

theorem broker_request_justified:
  assumes "ledger_reachable s" "bind_privileged_operation route operation a = Inr bo"
    and "reserve_privileged_authority bo f s = (Inr env, s')" "s'' = snd (run_ops ledger_exec cs s')"
    and "authorize_privileged_broker_request env s'' claim verifier = Inr br"
  shows "verifier claim \<and> ac_evidence_refs claim \<noteq> [] \<and> ac_operation_id claim = ir_operation_id (bo_operation_ir bo) \<and>
    ac_target_state_ref claim = pv_target_state_ref a \<and> ac_resources claim = pv_resources a \<and>
    ac_effect_class claim = pd_effect_class (bo_policy_decision bo) \<and> ac_effect_class claim \<noteq> GREEN \<and>
    (route = ''merge'' \<longrightarrow> ac_effect_class claim = RED) \<and> (ac_effect_class claim = RED \<longrightarrow> ac_fresh claim) \<and>
    reserved_for env s'' \<and> ev_fence_token env = f \<and> br_resources br = pv_resources a \<and>
    br_approval_evidence_refs br = ac_evidence_refs claim \<and> \<not> br_execution_authorized br"
proof -
  note r = reserve_privileged_InrD [OF assms(3)] and b = bind_privileged_InrD [OF assms(2)]
  have ok: "ledger_ok s''"
    using r(7) ledger_reachable_ops(1) [OF assms(1)] ledger_run_reachable ledger_reachable_ok unfolding assms(4) by blast
  have "pep_evaluate env s'' (Some claim) (Some verifier) = Inr (Broker br)"
  proof -
    obtain out where "pep_evaluate env s'' (Some claim) (Some verifier) = Inr out"
        "(case out of Broker b \<Rightarrow> Inr b | Authorized r \<Rightarrow> authority_error ''VNEXT_AUTHORITY_PRIVILEGED_BROKER_REQUIRED'') = Inr br"
      using assms(5) by (auto simp: authorize_privileged_broker_request_def)
    then show ?thesis by (cases out) simp_all
  qed
  note p = pep_InrD [OF ok this]
  have "ev_resources env = pv_resources a" using r(3) b(4,9) by simp
  moreover have "route = ''merge'' \<longrightarrow> ev_effect_class env = RED" using r(2) privileged_class [OF assms(2)] by simp
  ultimately show ?thesis
    using p r(1,2,4,5,6) b(8) authority_bindingD [of env claim] by simp
qed

subsection \<open>Witnesses\<close>

definition demo_authority_node :: node_snapshot where
  "demo_authority_node = \<lparr>nd_node_id = ''node:a'', nd_generation = 1, nd_route_rank = 0,
     nd_capabilities = [''repository_read'', ''test_execution''], nd_supported_adapters = [''adapter:repo-codegen''],
     nd_supported_lanes = [CODEGEN], nd_privacy_classes = [PUBLIC_SAFE], nd_resource_patterns = [''repo:*''],
     nd_observed_at = 0, nd_expires_at = 100, nd_attestation_ref = ''att:1''\<rparr>"

lemma demo_bound: "\<exists>bo. bind_runner_operation demo_runner_task ''code_generation'' ''codegen'' (Some ''issue:7'') None = Inr bo"
proof -
  obtain b where b: "binding_for ''code_generation'' ''codegen'' = Inr b" "ra_requires_runner_task b"
      "ra_operation_kind b = ''workspace_write''" "ra_adapter_id b = ''adapter:repo-codegen''"
    by (simp add: binding_for_def route_bindings_def)
  have refs: "public_ref ''adapter:repo-codegen''" "public_ref ''issue:7''" by code_simp+
  have "source_ref (Some ''issue:7'') None = Inr ''issue:7''" using refs(2) by (simp add: source_ref_def require_public_ref_def)
  then show ?thesis
    using b refs by (simp add: bind_runner_operation_def demo_runner_task_def source_authority_identity_def require_public_ref_def
      mk_operation_ir_def ordinary_operation_kinds_def green_effects_def Let_def)
qed

definition demo_privileged_input :: privileged_input where
  "demo_privileged_input = \<lparr>pv_source_task_ref = ''issue:7'', pv_target_state_ref = ''git:a'', pv_resources = [''repo:x''],
     pv_required_capabilities = [''publish_pull_request''], pv_privacy = PUBLIC_SAFE,
     pv_operator_boundary_evidence = [''op:approval''], pv_idempotency_seed = ''seed:1''\<rparr>"

lemma demo_preparable:
  assumes "bind_runner_operation demo_runner_task ''code_generation'' ''codegen'' (Some ''issue:7'') None = Inr bo"
  shows "preparable demo_runner_task bo" "ra_lane (bo_binding bo) = CODEGEN" "ra_adapter_id (bo_binding bo) = ''adapter:repo-codegen''"
proof -
  show b: "ra_lane (bo_binding bo) = CODEGEN" "ra_adapter_id (bo_binding bo) = ''adapter:repo-codegen''"
  proof -
    have "bo_binding bo = projr (binding_for ''code_generation'' ''codegen'')" unfolding bind_runner_InrD(1) [OF assms] by simp
    then show "ra_lane (bo_binding bo) = CODEGEN" "ra_adapter_id (bo_binding bo) = ''adapter:repo-codegen''"
      by (simp_all add: binding_for_def route_bindings_def)
  qed
  have "\<not> sublist ''..'' ''src/a.py''" "\<not> sublist ''..'' ''o/r''" by code_simp+
  then show "preparable demo_runner_task bo"
    unfolding preparable_def b by (simp add: demo_runner_task_def default_authority_manifests_def repo_manifest_def)
qed

lemma demo_authority_route:
  assumes bo: "bind_runner_operation demo_runner_task ''code_generation'' ''codegen'' (Some ''issue:7'') None = Inr bo"
  shows "\<exists>rp. plan_route demo_repr [(''node:a'', demo_authority_node)] (bo_universal_task bo) (ra_adapter_id (bo_binding bo))
    (ra_lane (bo_binding bo)) 10 = Inr rp \<and> routed_node rp = Inr (''node:a'', 1)"
proof -
  note u = bind_runner_task [OF bo] and p = demo_preparable [OF bo]
  let ?task = "bo_universal_task bo"
  have refs: "partition_ref ''adapter:repo-codegen''" "partition_ref ''repo:src/a.py''" "public_ref ''repo:src/a.py''" "fnmatch ''repo:src/a.py'' ''repo:*''"
    by code_simp+
  have pre: "prefix ''task:'' (task_id ?task)" unfolding u(6) by (simp add: bound_name_def)
  have pt: "partition_ref (task_id ?task)" unfolding u(6) by (rule bound_names_of(2) [OF bo]) simp
  have fields: "task_target_resources ?task = [''repo:src/a.py'']" "task_required_capabilities ?task = [''repository_read'', ''test_execution'']"
      "task_privacy ?task = PUBLIC_SAFE"
    unfolding u(8,10,11) by (simp_all add: demo_runner_task_def runner_task_privacy_def)
  have "route_checked ?task ''adapter:repo-codegen''" using pre pt refs fields by (simp add: route_checked_def)
  then obtain rp where rp: "plan_route demo_repr [(''node:a'', demo_authority_node)] ?task ''adapter:repo-codegen'' CODEGEN 10 = Inr rp"
    using route_plan_total by blast
  have "eligible ?task ''adapter:repo-codegen'' CODEGEN 10 demo_authority_node"
    using fields refs by (simp add: eligible_def demo_authority_node_def fresh_at_def all_resources_match_def)
  then have "candidates [(''node:a'', demo_authority_node)] ?task ''adapter:repo-codegen'' CODEGEN 10 = [demo_authority_node]"
    by (simp add: candidates_def)
  then have "routed_node rp = Inr (''node:a'', 1)" using route_plan_cases [OF rp] by (simp add: routed_node_def demo_authority_node_def)
  then show ?thesis using rp p by auto
qed

theorem bound_task_prepared_witness:
  "\<exists>bo h rs'. bind_runner_operation demo_runner_task ''code_generation'' ''codegen'' (Some ''issue:7'') None = Inr bo \<and>
    prepare_green_authority demo_repr bo [(''node:a'', demo_authority_node)] 30 10 [] 0 1 empty_runner = (Inr h, rs')"
proof -
  obtain bo where bo: "bind_runner_operation demo_runner_task ''code_generation'' ''codegen'' (Some ''issue:7'') None = Inr bo"
    using demo_bound by blast
  obtain rp where rp: "plan_route demo_repr [(''node:a'', demo_authority_node)] (bo_universal_task bo) (ra_adapter_id (bo_binding bo))
    (ra_lane (bo_binding bo)) 10 = Inr rp" "routed_node rp = Inr (''node:a'', 1)" using demo_authority_route [OF bo] by blast
  have "\<exists>h rs'. prepare_green_authority demo_repr bo [(''node:a'', demo_authority_node)] 30 10 [] 0 1 empty_runner = (Inr h, rs')"
    by (rule bound_task_prepared [OF demo_task_accepted bo demo_preparable(1) [OF bo] rp empty_runner_reachable])
      (simp_all add: empty_runner_def empty_lane_store_def lease_current_def lease_row_def fence_of_def empty_ledger_def
        ledger_entry_def ledger_reservation_def)
  with bo show ?thesis by blast
qed

theorem authority_identity_binds_witness:
  "\<exists>bo bo'. bind_runner_operation demo_runner_task ''code_generation'' ''codegen'' (Some ''issue:7'') None = Inr bo \<and>
     bind_runner_operation demo_runner_task ''code_generation'' ''codegen'' None (Some 7) = Inr bo' \<and> bo = bo'"
proof -
  obtain bo where bo: "bind_runner_operation demo_runner_task ''code_generation'' ''codegen'' (Some ''issue:7'') None = Inr bo"
    using demo_bound by blast
  have "source_ref None (Some 7) = source_ref (Some ''issue:7'') None" by code_simp
  then have bo': "bind_runner_operation demo_runner_task ''code_generation'' ''codegen'' None (Some 7) = Inr bo"
    using bo by (simp add: bind_runner_operation_def)
  have f: "no_floats (rt_payload demo_runner_task)" by (simp add: demo_runner_task_def)
  from authority_identity_binds [OF demo_task_accepted bo demo_task_accepted bo' refl f f no_collision_refl no_collision_refl]
  show ?thesis using bo bo' by blast
qed

lemma demo_privileged: "\<exists>bo. bind_privileged_operation ''merge'' ''merge'' demo_privileged_input = Inr bo"
proof -
  obtain b where b: "binding_for ''merge'' ''merge'' = Inr b" "ra_operation_kind b = ''workspace_bind''" "ra_reversibility b = IRREVERSIBLE"
      "ra_effects b = [''protected_merge'']" "privileged_checks b demo_privileged_input = Inr ()"
  proof -
    have "case binding_for ''merge'' ''merge'' of Inl e \<Rightarrow> False | Inr b \<Rightarrow> ra_operation_kind b = ''workspace_bind'' \<and>
       ra_reversibility b = IRREVERSIBLE \<and> ra_effects b = [''protected_merge''] \<and> privileged_checks b demo_privileged_input = Inr ()"
      by code_simp
    then show thesis using that by (cases "binding_for ''merge'' ''merge''") auto
  qed
  then show ?thesis
    by (simp add: bind_privileged_operation_def mk_operation_ir_def ordinary_operation_kinds_def green_effects_def Let_def
        classify_policy_def known_effects_def red_effects_def)
qed

theorem privileged_doors_witness:
  "\<exists>bo. bind_privileged_operation ''merge'' ''merge'' demo_privileged_input = Inr bo \<and> pd_effect_class (bo_policy_decision bo) = RED"
proof -
  obtain bo where bo: "bind_privileged_operation ''merge'' ''merge'' demo_privileged_input = Inr bo" using demo_privileged by blast
  then show ?thesis using privileged_doors [OF bo] by auto
qed

lemma privileged_reserved:
  assumes "ledger_reachable s" "privileged_envelope bo f = Inr env" "ledger_entry s (ev_idempotency_key env) = None" "f < 2 ^ 63"
    and "public_ref (ev_target_state_ref env)" "ev_operation_id env \<noteq> []" "ev_idempotency_key env \<noteq> []"
  shows "\<exists>s'. reserve_privileged_authority bo f s = (Inr env, s') \<and> reserved_for env s' \<and> ledger_ok s'"
proof -
  from assms(2) obtain pl ad where plan: "adapter_plan pl ad (bo_universal_task bo) (bo_operation_ir bo) (bo_policy_input bo)
      (bo_policy_decision bo) (bo_target_state_ref bo) f = Inr env"
    by (auto simp: privileged_envelope_def split: option.splits if_splits)
  let ?i = "\<lparr>op_operation_id = ev_operation_id env, op_idempotency_key = ev_idempotency_key env, op_target_state_ref = ev_target_state_ref env\<rparr>"
  have env: "ev_operation_id env = ir_operation_id (bo_operation_ir bo)" "ev_idempotency_key env = ir_idempotency_key (bo_operation_ir bo)"
      "ev_target_state_ref env = bo_target_state_ref bo" "ev_fence_token env = f" "1 \<le> f"
    by (rule adapter_plan_InrD [OF plan], simp)+
  have "ledger_identity ?i = Inr ()"
    using assms(5-7) by (auto simp: ledger_identity_def ledger_public_refs_def ledger_ref_ok_def public_ref_def)
  then have args: "call_check (Reserve ?i f (reservation_scope_fingerprint env) None) = Inr ()"
    using env(5) fingerprint_is_hash by (simp add: ledger_fence_check_def ledger_scope_hash_def ledger_nonce_def)
  have step: "entry_step (Reserve ?i f (reservation_scope_fingerprint env) None) (ledger_entry s (op_idempotency_key ?i)) = Inr \<lparr>en_identity = ?i,
      en_scope = Some (reservation_scope_fingerprint env), en_nonce = None, en_fence = f, en_grant = None, en_receipt = None\<rparr>"
    using assms(3,4) by simp
  obtain x s' where run: "ledger_reserve ?i f (reservation_scope_fingerprint env) None s = (Inr x, s')"
      and en: "ledger_entry s' (op_idempotency_key ?i) = Some \<lparr>en_identity = ?i,
      en_scope = Some (reservation_scope_fingerprint env), en_nonce = None, en_fence = f, en_grant = None, en_receipt = None\<rparr>"
      and ok: "ledger_ok s'"
    using reserve_refines [OF ledger_reachable_ok [OF assms(1)] args] unfolding step
    by (cases "ledger_reserve ?i f (reservation_scope_fingerprint env) None s") (auto simp: meets_def)
  have "reserved_for env s'" using en env(4) by (simp add: reserved_for_def)
  moreover have "reserve_privileged_authority bo f s = (Inr env, s')"
    using run assms(2) by (simp add: reserve_privileged_authority_def sbind_def env(1-3) [symmetric])
  ultimately show ?thesis using ok by blast
qed

lemma demo_merge:
  assumes bo: "bind_privileged_operation ''merge'' ''merge'' demo_privileged_input = Inr bo"
  shows "\<exists>env s'. reserve_privileged_authority bo 1 empty_ledger = (Inr env, s') \<and> reserved_for env s' \<and> ledger_ok s' \<and>
    validate_envelope env = Inr ()"
proof -
  note b = bind_privileged_InrD [OF bo]
  have bind: "bo_binding bo = projr (binding_for ''merge'' ''merge'')" unfolding b(1) by simp
  have fields: "ra_adapter_id (bo_binding bo) = ''adapter:exact-operator-merge''" "ra_operation_kind (bo_binding bo) = ''workspace_bind''"
      "ra_effects (bo_binding bo) = [''protected_merge'']" "ra_reversibility (bo_binding bo) = IRREVERSIBLE"
    unfolding bind by (simp_all add: binding_for_def route_bindings_def)
  have refs: "public_ref ''git:a''" "resource_matches ''repo:x'' [''protected:*'', ''repo:*'']" "public_ref ''repo:x''"
      "public_ref ''adapter:exact-operator-merge''" by code_simp+
  obtain m where m: "map_of default_authority_manifests ''adapter:exact-operator-merge'' = Some m"
      "am_adapter_id m = ''adapter:exact-operator-merge''" "am_operation_kinds m = [''workspace_bind'']"
      "am_capabilities m = [''publish_pull_request'']" "am_allowed_effect_classes m = [RED]" "am_privacy_classes m = [PUBLIC_SAFE]"
      "am_resource_patterns m = [''protected:*'', ''repo:*'']" "am_privileged_pep_required m"
    by (rule that [where m = "the (map_of default_authority_manifests ''adapter:exact-operator-merge'')"])
      (simp_all add: default_authority_manifests_def)
  have pl: "mk_adapter_planner [(am_adapter_id m, m)] = Inr [(am_adapter_id m, m)]"
    using default_registries(1) map_of_SomeD [OF m(1)] by (auto simp: mk_adapter_planner_def split: if_splits)
  have red: "pd_effect_class (bo_policy_decision bo) = RED" using privileged_class [OF bo] by simp
  have reason: "pd_reason_code (bo_policy_decision bo) = ''IRREVERSIBLE_EFFECT_BOUNDARY''"
    unfolding b(3) classify_policy_def Let_def b(5,6) fields by (simp add: known_effects_def red_effects_def)
  have "set (bo_source_binding_hash bo) \<subseteq> set hex_lower" "bo_source_binding_hash bo \<noteq> []"
    unfolding b(13) by (simp_all only: json_digest_chars json_digest_shape not_False_eq_True)
  note names = bound_names(1) [OF binding_forD [OF b(1)] this]
  obtain env where env: "privileged_envelope bo 1 = Inr env" "validate_envelope env = Inr ()"
      "ev_idempotency_key env = bound_name ''idem'' ''merge'' (bo_source_binding_hash bo)"
      "ev_operation_id env = bound_name ''op'' ''merge'' (bo_source_binding_hash bo)" "ev_target_state_ref env = ''git:a''"
  proof
    let ?env = "\<lparr>ev_operation_id = bound_name ''op'' ''merge'' (bo_source_binding_hash bo), ev_adapter_id = ''adapter:exact-operator-merge'',
      ev_target_state_ref = ''git:a'', ev_fence_token = 1, ev_idempotency_key = bound_name ''idem'' ''merge'' (bo_source_binding_hash bo),
      ev_resources = [''repo:x''], ev_effects = [''protected_merge''], ev_effect_class = RED,
      ev_policy_reason_code = ''IRREVERSIBLE_EFFECT_BOUNDARY'', ev_required_capabilities = [''publish_pull_request''],
      ev_privacy = PUBLIC_SAFE, ev_dry_run = True\<rparr>"
    show "privileged_envelope bo 1 = Inr ?env"
      using m pl red reason refs fields b(3,7-12) by (simp add: privileged_envelope_def adapter_plan_def demo_privileged_input_def Let_def)
    show "validate_envelope ?env = Inr ()"
      using refs names [of "''op''"] names [of "''idem''"] by (simp add: validate_envelope_def upper_digits_underscore_def)
  qed simp_all
  have "ledger_entry empty_ledger (ev_idempotency_key env) = None" by (simp add: ledger_entry_def ledger_reservation_def empty_ledger_def)
  from privileged_reserved [OF ledger_init env(1) this] env refs show ?thesis by (auto simp: bound_name_def)
qed

theorem broker_request_justified_witness:
  "\<exists>bo env s' br. bind_privileged_operation ''merge'' ''merge'' demo_privileged_input = Inr bo \<and>
    reserve_privileged_authority bo 1 empty_ledger = (Inr env, s') \<and>
    authorize_privileged_broker_request env s' \<lparr>ac_evidence_refs = [''op:approval''], ac_operation_id = ev_operation_id env,
      ac_target_state_ref = ev_target_state_ref env, ac_effect_class = ev_effect_class env, ac_resources = ev_resources env,
      ac_fresh = True\<rparr> (\<lambda>c. ac_fresh c) = Inr br \<and> br_resources br = [''repo:x''] \<and> \<not> br_execution_authorized br"
proof -
  obtain bo where bo: "bind_privileged_operation ''merge'' ''merge'' demo_privileged_input = Inr bo" using demo_privileged by blast
  obtain env s' where r: "reserve_privileged_authority bo 1 empty_ledger = (Inr env, s')" "reserved_for env s'" "ledger_ok s'"
      "validate_envelope env = Inr ()" using demo_merge [OF bo] by blast
  let ?c = "\<lparr>ac_evidence_refs = [''op:approval''], ac_operation_id = ev_operation_id env,
      ac_target_state_ref = ev_target_state_ref env, ac_effect_class = ev_effect_class env, ac_resources = ev_resources env,
      ac_fresh = True\<rparr>"
  have ng: "ev_effect_class env \<noteq> GREEN" using reserve_privileged_InrD(1,2) [OF r(1)] by simp
  have "public_ref ''op:approval''" by code_simp
  then have bind: "validate_authority_binding env ?c = Inr ()" by (simp add: validate_authority_binding_def)
  obtain v where "pep_ledger_view (ev_idempotency_key env) s' = Inr (v, ev_fence_token env, Some ''RESERVED'')"
      "validate_ledger env v (ev_fence_token env) (Some ''RESERVED'') = Inr ()"
    using reserved_checks [OF r(3,2)] .
  then have "\<exists>br. authorize_privileged_broker_request env s' ?c (\<lambda>c. ac_fresh c) = Inr br"
    using r(4) ng bind by (simp add: authorize_privileged_broker_request_def pep_evaluate_def reraise_as_def guards.simps)
  then obtain br where br: "authorize_privileged_broker_request env s' ?c (\<lambda>c. ac_fresh c) = Inr br" by blast
  have run: "s' = snd (run_ops ledger_exec [] s')" by simp
  from broker_request_justified [OF ledger_init bo r(1) run br]
  show ?thesis using bo r(1) br by (auto simp: demo_privileged_input_def)
qed

end
