(* ===== verification/Dispatch.thy ===== *)
theory Dispatch
  imports Execution Authority
begin

text \<open>
  \<^verbatim>\<open>core/runner_vnext_authoritative_dispatch.py\<close>: the two entry points that drive a bound operation from
  admission to its terminal receipt.  The GREEN dispatch composes preparation, grant and execution
  lifecycle; the privileged one takes the global privileged lease, reserves, brokers, starts, executes
  and finishes by itself.  Both answer from the ledger when the operation is already terminal and refuse one
  that was started.  The mechanical backends are parameters, stateful calls on the stores; the
  target-state verifier is a parameter (its two readings in the privileged dispatch are two arguments);
  clock readings are arguments in the order they are taken.
\<close>

subsection \<open>Definitions\<close>

record mechanical_result =
  mr_succeeded :: bool
  mr_reason_code :: string
  mr_touched_resources :: "string list"
  mr_before_state_ref :: string
  mr_after_state_ref :: string
  mr_validation_status :: string
  mr_rollback_requested :: bool

record privileged_grant =
  pg_adapter_id :: string
  pg_operation_id :: string
  pg_target_state_ref :: string
  pg_fence_token :: int
  pg_idempotency_key :: string
  pg_resources :: "string list"
  pg_effects :: "string list"
  pg_effect_class :: effect_class
  pg_policy_reason_code :: string
  pg_approval_evidence_refs :: "string list"
  pg_execution_authorized :: bool

type_synonym green_backend = "bound_operation \<Rightarrow> green_grant \<Rightarrow> (runner_state, mechanical_result) op"

type_synonym privileged_backend = "bound_operation \<Rightarrow> privileged_grant \<Rightarrow> (runner_state, mechanical_result) op"

record dispatch_receipt =
  dr_operation_id :: string
  dr_idempotency_key :: string
  dr_route :: string
  dr_operation :: string
  dr_lane :: string
  dr_adapter_id :: string
  dr_terminal_status :: string
  dr_reason_code :: string
  dr_validation_status :: string
  dr_touched_resources :: "string list"
  dr_before_state_ref :: string
  dr_after_state_ref :: string
  dr_replayed :: bool
  dr_execution_started :: bool
  dr_lease_released :: bool

definition dispatch_public_mapping :: "dispatch_receipt \<Rightarrow> json" where
  "dispatch_public_mapping r = JObj [
     (''schema'', JStr ''skeleton.runner_vnext_authoritative_dispatch_receipt.v1''),
     (''operation_id_hash'', JStr (text_hash (dr_operation_id r))),
     (''idempotency_key_hash'', JStr (text_hash (dr_idempotency_key r))),
     (''route'', JStr (dr_route r)),
     (''operation'', JStr (dr_operation r)),
     (''lane'', JStr (dr_lane r)),
     (''adapter_id'', JStr (dr_adapter_id r)),
     (''terminal_status'', JStr (dr_terminal_status r)),
     (''reason_code'', JStr (dr_reason_code r)),
     (''validation_status'', JStr (dr_validation_status r)),
     (''touched_resource_count'', JInt (int (length (dr_touched_resources r)))),
     (''touched_resource_hash'', JStr (refs_hash (dr_touched_resources r))),
     (''before_state_ref_hash'', JStr (text_hash (dr_before_state_ref r))),
     (''after_state_ref_hash'', JStr (text_hash (dr_after_state_ref r))),
     (''replayed'', JBool (dr_replayed r)),
     (''execution_started'', JBool (dr_execution_started r)),
     (''lease_released'', JBool (dr_lease_released r))]"

abbreviation dispatch_error :: "string \<Rightarrow> 'a res" where
  "dispatch_error reason \<equiv> Inl (RunnerVNextDispatchError reason)"

definition exact_authority_verifier :: "string list \<Rightarrow> authority_claim \<Rightarrow> bool" where
  "exact_authority_verifier expected claim \<longleftrightarrow> ac_evidence_refs claim = expected"

definition validate_green_grant :: "bound_operation \<Rightarrow> green_grant \<Rightarrow> unit res" where
  "validate_green_grant bound g = raise_if
     ((gg_task_id g, gg_operation_id g, gg_idempotency_key g, gg_adapter_id g, gg_target_state_ref g,
       ev_resources (gg_planner_envelope g), ev_effects (gg_planner_envelope g), ev_required_capabilities (gg_planner_envelope g)) \<noteq>
      (task_id (bo_universal_task bound), ir_operation_id (bo_operation_ir bound), ir_idempotency_key (bo_operation_ir bound),
       ra_adapter_id (bo_binding bound), bo_target_state_ref bound,
       ir_resources (bo_operation_ir bound), ir_effects (bo_operation_ir bound), task_required_capabilities (bo_universal_task bound)))
     (RunnerVNextDispatchError ''VNEXT_DISPATCH_GRANT_SCOPE_MISMATCH'')"

definition green_adapter :: "bound_operation \<Rightarrow> green_backend \<Rightarrow> green_executor" where
  "green_adapter bound backend g =
     guarded (validate_green_grant bound g) (\<lambda>_. sbind (backend bound g) (\<lambda>r rs.
       (Inr \<lparr>er_operation_id = gg_operation_id g, er_idempotency_key = gg_idempotency_key g, er_adapter_id = gg_adapter_id g,
          er_target_state_ref = gg_target_state_ref g, er_fence_token = gg_fence_token g, er_resources = mr_touched_resources r,
          er_effects = ev_effects (gg_planner_envelope g), er_outcome = (if mr_succeeded r then ''SUCCEEDED'' else ''FAILED''),
          er_reason_code = mr_reason_code r, er_before_state_ref = mr_before_state_ref r, er_after_state_ref = mr_after_state_ref r,
          er_validation_status = mr_validation_status r, er_rollback_requested = mr_rollback_requested r\<rparr>, rs)))"

definition exact_node_registry :: "bound_operation \<Rightarrow> node_snapshot \<Rightarrow> real \<Rightarrow> node_registry res" where
  "exact_node_registry bound n now =
     (if (nd_capabilities n, nd_supported_adapters n, nd_supported_lanes n, nd_privacy_classes n, nd_resource_patterns n) \<noteq>
         (task_required_capabilities (bo_universal_task bound), [ra_adapter_id (bo_binding bound)], [ra_lane (bo_binding bound)],
          [task_privacy (bo_universal_task bound)], task_target_resources (bo_universal_task bound))
      then dispatch_error ''VNEXT_DISPATCH_NODE_EVIDENCE_SCOPE_MISMATCH''
      else if \<not> py_startswith (nd_attestation_ref n) ''attestation:''
      then dispatch_error ''VNEXT_DISPATCH_NODE_ATTESTATION_REQUIRED''
      else (case register_node n now [] of (Inl e, reg) \<Rightarrow> dispatch_error (reason_code e) | (Inr _, reg) \<Rightarrow> Inr reg))"

definition validate_terminal_identity :: "bound_operation \<Rightarrow> ledger_event \<Rightarrow> unit res" where
  "validate_terminal_identity bound e = raise_if
     (op_operation_id (le_identity e) \<noteq> ir_operation_id (bo_operation_ir bound) \<or>
      op_idempotency_key (le_identity e) \<noteq> ir_idempotency_key (bo_operation_ir bound) \<or>
      op_target_state_ref (le_identity e) \<noteq> bo_target_state_ref bound)
     (RunnerVNextDispatchError ''VNEXT_DISPATCH_TERMINAL_IDENTITY_MISMATCH'')"

text \<open>\<^verbatim>\<open>value or default\<close> for an optional string.\<close>

definition str_or :: "string option \<Rightarrow> string \<Rightarrow> string" where
  "str_or v d = (if falsy v then d else the v)"

definition terminal_replay :: "bound_operation \<Rightarrow> operation_ledger \<Rightarrow> dispatch_receipt option res" where
  "terminal_replay bound s =
     (let k = ir_idempotency_key (bo_operation_ir bound) in
      if ledger_status k s \<notin> {Some ''COMPLETED'', Some ''FAILED''} then Inr None
      else case find (\<lambda>e. event_type_text (le_event_type e) \<in> {''COMPLETED'', ''FAILED''}) (rev (ledger_history k s)) of
          None \<Rightarrow> Inl (OtherException ''StopIteration'')
        | Some e \<Rightarrow> rbind (validate_terminal_identity bound e) (\<lambda>_.
            Inr (Some \<lparr>dr_operation_id = op_operation_id (le_identity e), dr_idempotency_key = op_idempotency_key (le_identity e),
              dr_route = bo_route bound, dr_operation = bo_operation bound, dr_lane = lane_value (ra_lane (bo_binding bound)),
              dr_adapter_id = ra_adapter_id (bo_binding bound), dr_terminal_status = event_type_text (le_event_type e),
              dr_reason_code = le_reason_code e, dr_validation_status = str_or (le_validation_status e) ''FAIL'',
              dr_touched_resources = le_touched_resource_refs e,
              dr_before_state_ref = str_or (le_before_state_ref e) (bo_target_state_ref bound),
              dr_after_state_ref = str_or (le_after_state_ref e) (bo_target_state_ref bound),
              dr_replayed = True, dr_execution_started = True, dr_lease_released = True\<rparr>)))"

definition fail_closed_on_started :: "bound_operation \<Rightarrow> operation_ledger \<Rightarrow> unit res" where
  "fail_closed_on_started bound s = raise_if (ledger_status (ir_idempotency_key (bo_operation_ir bound)) s = Some ''STARTED'')
     (RunnerVNextDispatchError ''VNEXT_DISPATCH_STARTED_NEEDS_RECOVERY'')"

text \<open>The common opening of both dispatches: replay a terminal operation, refuse a started one.\<close>

definition replay_or :: "bound_operation \<Rightarrow> (runner_state, dispatch_receipt) op \<Rightarrow> (runner_state, dispatch_receipt) op" where
  "replay_or bound body rs =
     (case terminal_replay bound (rs_ledger rs) of
        Inl e \<Rightarrow> (Inl e, rs)
      | Inr (Some r) \<Rightarrow> (Inr r, rs)
      | Inr None \<Rightarrow> guarded (fail_closed_on_started bound (rs_ledger rs)) (\<lambda>_. body) rs)"

definition from_green_receipt :: "bound_operation \<Rightarrow> green_exec_receipt \<Rightarrow> dispatch_receipt" where
  "from_green_receipt bound x =
     \<lparr>dr_operation_id = xr_operation_id x, dr_idempotency_key = xr_idempotency_key x, dr_route = bo_route bound,
      dr_operation = bo_operation bound, dr_lane = xr_lane x, dr_adapter_id = xr_adapter_id x,
      dr_terminal_status = xr_terminal_status x, dr_reason_code = xr_reason_code x, dr_validation_status = xr_validation_status x,
      dr_touched_resources = xr_touched_resource_refs x, dr_before_state_ref = xr_before_state_ref x,
      dr_after_state_ref = xr_after_state_ref x, dr_replayed = False, dr_execution_started = xr_effect_execution_started x,
      dr_lease_released = xr_lease_released x\<rparr>"

fun green_caught :: "exn \<Rightarrow> bool" where
  "green_caught (RunnerVNextAuthorityError r) = True"
| "green_caught (GreenExecutionError r) = True"
| "green_caught (LedgerError r) = True"
| "green_caught (LeaseError r) = True"
| "green_caught e = False"

record dispatch_clock =
  ck_reserve :: real
  ck_release :: real
  ck_gate :: real
  ck_begin :: real
  ck_finalize :: real
  ck_done :: real

definition green_steps ::
    "(real \<Rightarrow> string) \<Rightarrow> bound_operation \<Rightarrow> node_registry \<Rightarrow> (green_handoff \<Rightarrow> string) \<Rightarrow> green_backend \<Rightarrow> real \<Rightarrow> real \<Rightarrow> str_dict
      \<Rightarrow> dispatch_clock \<Rightarrow> (runner_state, green_exec_receipt) op" where
  "green_steps frepr bound nodes current_ref backend now ttl parent ck =
     sbind (prepare_green_authority frepr bound nodes ttl now parent (ck_reserve ck) (ck_release ck)) (\<lambda>handoff rs.
       guarded (grant_green_authority frepr handoff nodes current_ref (ck_gate ck) now rs)
         (\<lambda>grant. exec_run (ck_begin ck) (ck_finalize ck) (ck_done ck) (green_adapter bound backend) grant) rs)"

definition green_body ::
    "(real \<Rightarrow> string) \<Rightarrow> bound_operation \<Rightarrow> node_snapshot \<Rightarrow> (green_handoff \<Rightarrow> string) \<Rightarrow> green_backend \<Rightarrow> real \<Rightarrow> real \<Rightarrow> str_dict
      \<Rightarrow> dispatch_clock \<Rightarrow> (runner_state, dispatch_receipt) op" where
  "green_body frepr bound snapshot current_ref backend now ttl parent ck =
     guarded (exact_node_registry bound snapshot now) (\<lambda>nodes.
       sbind (sreraise RunnerVNextDispatchError green_caught (green_steps frepr bound nodes current_ref backend now ttl parent ck))
         (\<lambda>x rs. (Inr (from_green_receipt bound x), rs)))"

definition green_guard :: "bound_operation \<Rightarrow> unit res" where
  "green_guard bound = raise_if (pd_effect_class (bo_policy_decision bound) \<noteq> GREEN)
     (RunnerVNextDispatchError ''VNEXT_DISPATCH_GREEN_POLICY_REQUIRED'')"

definition run_green_dispatch ::
    "(real \<Rightarrow> string) \<Rightarrow> bound_operation \<Rightarrow> node_snapshot \<Rightarrow> (green_handoff \<Rightarrow> string) \<Rightarrow> green_backend \<Rightarrow> real \<Rightarrow> real \<Rightarrow> str_dict
      \<Rightarrow> dispatch_clock \<Rightarrow> (runner_state, dispatch_receipt) op" where
  "run_green_dispatch frepr bound snapshot current_ref backend now ttl parent ck =
     guarded (green_guard bound) (\<lambda>_. replay_or bound (green_body frepr bound snapshot current_ref backend now ttl parent ck))"

definition privileged_execution_grant :: "broker_request \<Rightarrow> string list \<Rightarrow> privileged_grant res" where
  "privileged_execution_grant b evidence =
     rbind (guards [
       (br_execution_authorized b, RunnerVNextDispatchError ''VNEXT_DISPATCH_BROKER_REQUEST_STATE_INVALID''),
       (br_approval_evidence_refs b \<noteq> evidence \<or> evidence = [], RunnerVNextDispatchError ''VNEXT_DISPATCH_BROKER_EVIDENCE_MISMATCH'')])
     (\<lambda>_. Inr \<lparr>pg_adapter_id = br_adapter_id b, pg_operation_id = br_operation_id b, pg_target_state_ref = br_target_state_ref b,
        pg_fence_token = br_fence_token b, pg_idempotency_key = br_idempotency_key b, pg_resources = br_resources b,
        pg_effects = br_effects b, pg_effect_class = br_effect_class b, pg_policy_reason_code = br_policy_reason_code b,
        pg_approval_evidence_refs = br_approval_evidence_refs b, pg_execution_authorized = True\<rparr>)"

definition validate_privileged_result :: "bound_operation \<Rightarrow> privileged_grant \<Rightarrow> mechanical_result \<Rightarrow> unit res" where
  "validate_privileged_result bound g r = guards [
     (\<not> pg_execution_authorized g, RunnerVNextDispatchError ''VNEXT_DISPATCH_PRIVILEGED_GRANT_REQUIRED''),
     (mr_validation_status r \<notin> {''PASS'', ''FAIL''}, RunnerVNextDispatchError ''VNEXT_DISPATCH_RESULT_VALIDATION_INVALID''),
     (mr_succeeded r \<noteq> (mr_validation_status r = ''PASS''), RunnerVNextDispatchError ''VNEXT_DISPATCH_RESULT_VALIDATION_MISMATCH''),
     (mr_reason_code r = [] \<or> list_ex (\<lambda>ch. ch \<notin> set upper_digits_underscore) (mr_reason_code r),
        RunnerVNextDispatchError ''VNEXT_DISPATCH_RESULT_REASON_INVALID''),
     (mr_before_state_ref r \<noteq> bo_target_state_ref bound, RunnerVNextDispatchError ''VNEXT_DISPATCH_RESULT_BEFORE_STATE_MISMATCH''),
     (\<not> public_ref (mr_before_state_ref r) \<or> \<not> public_ref (mr_after_state_ref r),
        RunnerVNextDispatchError ''VNEXT_DISPATCH_RESULT_STATE_REF_INVALID''),
     (length (remdups (mr_touched_resources r)) \<noteq> length (mr_touched_resources r),
        RunnerVNextDispatchError ''VNEXT_DISPATCH_RESULT_RESOURCE_DUPLICATE''),
     (list_ex (\<lambda>x. \<not> public_ref x \<or> x \<notin> set (pg_resources g)) (mr_touched_resources r),
        RunnerVNextDispatchError ''VNEXT_DISPATCH_RESULT_RESOURCE_OUT_OF_SCOPE''),
     (mr_succeeded r \<and> mr_touched_resources r = [], RunnerVNextDispatchError ''VNEXT_DISPATCH_RESULT_RESOURCE_REQUIRED''),
     (\<not> mr_succeeded r \<and> mr_touched_resources r = [] \<and>
        (mr_before_state_ref r \<noteq> mr_after_state_ref r \<or> mr_rollback_requested r),
        RunnerVNextDispatchError ''VNEXT_DISPATCH_FAILED_MUTATION_RESOURCE_REQUIRED'')]"

definition privileged_grant_payload :: "privileged_grant \<Rightarrow> (string \<times> json) list" where
  "privileged_grant_payload g = [
     (''adapter_id'', JStr (pg_adapter_id g)),
     (''operation_id'', JStr (pg_operation_id g)),
     (''target_state_ref'', JStr (pg_target_state_ref g)),
     (''fence_token'', JInt (pg_fence_token g)),
     (''idempotency_key'', JStr (pg_idempotency_key g)),
     (''resources'', jstrs (pg_resources g)),
     (''effects'', jstrs (pg_effects g)),
     (''effect_class'', JStr (effect_class_value (pg_effect_class g))),
     (''policy_reason_code'', JStr (pg_policy_reason_code g)),
     (''approval_evidence_refs'', jstrs (pg_approval_evidence_refs g)),
     (''execution_authorized'', JBool (pg_execution_authorized g))]"

definition privileged_grant_hash :: "privileged_grant \<Rightarrow> string" where
  "privileged_grant_hash g = json_digest (JObj (privileged_grant_payload g))"

definition bound_identity :: "bound_operation \<Rightarrow> operation_identity" where
  "bound_identity bound = \<lparr>op_operation_id = ir_operation_id (bo_operation_ir bound),
     op_idempotency_key = ir_idempotency_key (bo_operation_ir bound), op_target_state_ref = bo_target_state_ref bound\<rparr>"

definition privileged_scope :: string where
  "privileged_scope = ''authority:privileged-global''"

definition privileged_request :: "bound_operation \<Rightarrow> string \<Rightarrow> real \<Rightarrow> lane_request" where
  "privileged_request bound node_id ttl =
     \<lparr>rq_task_id = task_id (bo_universal_task bound), rq_lane = PRIVILEGED, rq_owner = node_id, rq_scope_key = privileged_scope,
      rq_ttl_seconds = ttl, rq_target_state_ref = Some (bo_target_state_ref bound)\<rparr>"

text \<open>Between the reservation and the start: the claim, the broker request, the grant and the second state check.\<close>

definition privileged_clearance ::
    "bound_operation \<Rightarrow> execution_envelope \<Rightarrow> string list \<Rightarrow> bool \<Rightarrow> (bound_operation \<Rightarrow> string) \<Rightarrow> operation_ledger \<Rightarrow> privileged_grant res" where
  "privileged_clearance bound env evidence fresh ref2 s =
     rbind (authorize_privileged_broker_request env s
        \<lparr>ac_evidence_refs = evidence, ac_operation_id = ev_operation_id env, ac_target_state_ref = ev_target_state_ref env,
         ac_effect_class = ev_effect_class env, ac_resources = ev_resources env, ac_fresh = fresh\<rparr>
        (exact_authority_verifier evidence)) (\<lambda>b.
     rbind (privileged_execution_grant b evidence) (\<lambda>g.
     rbind (raise_if (ref2 bound \<noteq> bo_target_state_ref bound) (RunnerVNextDispatchError ''VNEXT_DISPATCH_TARGET_STATE_STALE''))
       (\<lambda>_. Inr g)))"

definition privileged_execute ::
    "bound_operation \<Rightarrow> int \<Rightarrow> privileged_grant \<Rightarrow> privileged_backend \<Rightarrow> (runner_state, mechanical_result) op" where
  "privileged_execute bound fence g backend =
     sbind (on_ledger (ledger_mark_started (bound_identity bound) fence (privileged_grant_hash g))) (\<lambda>_.
     sbind (backend bound g) (\<lambda>r.
     guarded (validate_privileged_result bound g r) (\<lambda>_.
     sbind (on_ledger (ledger_finish (bound_identity bound) fence (mr_succeeded r) (mr_reason_code r) (mr_touched_resources r)
        (mr_before_state_ref r) (mr_after_state_ref r) (mr_validation_status r))) (\<lambda>_ rs. (Inr r, rs)))))"

definition privileged_steps ::
    "bound_operation \<Rightarrow> string \<Rightarrow> (bound_operation \<Rightarrow> string) \<Rightarrow> privileged_backend \<Rightarrow> string list \<Rightarrow> bool \<Rightarrow> real \<Rightarrow> real \<Rightarrow> real
      \<Rightarrow> (runner_state, mechanical_result \<times> bool) op" where
  "privileged_steps bound node_id ref2 backend evidence fresh ttl t1 t2 =
     sbind (on_leases (scheduler_reserve t1 (privileged_request bound node_id ttl))) (\<lambda>lease.
     sbind (on_ledger (reserve_privileged_authority bound (lr_fence_token lease))) (\<lambda>env rs.
     guarded (privileged_clearance bound env evidence fresh ref2 (rs_ledger rs)) (\<lambda>g.
     sbind (privileged_execute bound (lr_fence_token lease) g backend) (\<lambda>r.
     sbind (on_leases (scheduler_release_exact t2 PRIVILEGED privileged_scope node_id (lr_fence_token lease))) (\<lambda>released rs.
       (Inr (r, lr_status released = ''RELEASED''), rs)))) rs))"

fun privileged_handler :: "exn \<Rightarrow> exn" where
  "privileged_handler (RunnerVNextDispatchError r) = RunnerVNextDispatchError r"
| "privileged_handler (RunnerVNextAuthorityError r) = RunnerVNextDispatchError r"
| "privileged_handler (LedgerError r) = RunnerVNextDispatchError r"
| "privileged_handler (LeaseError r) = RunnerVNextDispatchError r"
| "privileged_handler e = RunnerVNextDispatchError ''VNEXT_DISPATCH_PRIVILEGED_BACKEND_EXCEPTION''"

definition privileged_checked :: "(runner_state, 'a) op \<Rightarrow> (runner_state, 'a) op" where
  "privileged_checked m rs = (case m rs of (Inl e, rs') \<Rightarrow> (Inl (privileged_handler e), rs') | (Inr x, rs') \<Rightarrow> (Inr x, rs'))"

definition privileged_admission ::
    "(real \<Rightarrow> string) \<Rightarrow> bound_operation \<Rightarrow> node_snapshot \<Rightarrow> (bound_operation \<Rightarrow> string) \<Rightarrow> real \<Rightarrow> unit res" where
  "privileged_admission frepr bound snapshot ref1 now =
     rbind (exact_node_registry bound snapshot now) (\<lambda>nodes.
     rbind (plan_route frepr nodes (bo_universal_task bound) (ra_adapter_id (bo_binding bound)) (ra_lane (bo_binding bound)) now) (\<lambda>plan.
     guards [
       (rp_status plan \<noteq> ''ROUTED'' \<or> rp_selected_node_id plan \<noteq> Some (nd_node_id snapshot), RunnerVNextDispatchError (rp_reason_code plan)),
       (ref1 bound \<noteq> bo_target_state_ref bound, RunnerVNextDispatchError ''VNEXT_DISPATCH_TARGET_STATE_STALE'')]))"

definition privileged_receipt :: "bound_operation \<Rightarrow> mechanical_result \<Rightarrow> bool \<Rightarrow> dispatch_receipt" where
  "privileged_receipt bound r released =
     \<lparr>dr_operation_id = ir_operation_id (bo_operation_ir bound), dr_idempotency_key = ir_idempotency_key (bo_operation_ir bound),
      dr_route = bo_route bound, dr_operation = bo_operation bound, dr_lane = lane_value (ra_lane (bo_binding bound)),
      dr_adapter_id = ra_adapter_id (bo_binding bound),
      dr_terminal_status = (if mr_succeeded r then ''COMPLETED'' else ''FAILED''), dr_reason_code = mr_reason_code r,
      dr_validation_status = mr_validation_status r, dr_touched_resources = mr_touched_resources r,
      dr_before_state_ref = mr_before_state_ref r, dr_after_state_ref = mr_after_state_ref r, dr_replayed = False,
      dr_execution_started = True, dr_lease_released = released\<rparr>"

definition privileged_body ::
    "(real \<Rightarrow> string) \<Rightarrow> bound_operation \<Rightarrow> node_snapshot \<Rightarrow> (bound_operation \<Rightarrow> string) \<Rightarrow> (bound_operation \<Rightarrow> string)
      \<Rightarrow> privileged_backend \<Rightarrow> string list \<Rightarrow> bool \<Rightarrow> real \<Rightarrow> real \<Rightarrow> real \<Rightarrow> real \<Rightarrow> (runner_state, dispatch_receipt) op" where
  "privileged_body frepr bound snapshot ref1 ref2 backend evidence fresh now ttl t1 t2 =
     guarded (privileged_admission frepr bound snapshot ref1 now) (\<lambda>_.
       sbind (privileged_checked (privileged_steps bound (nd_node_id snapshot) ref2 backend evidence fresh ttl t1 t2))
         (\<lambda>(r, released) rs. (Inr (privileged_receipt bound r released), rs)))"

definition privileged_guard :: "bound_operation \<Rightarrow> unit res" where
  "privileged_guard bound = raise_if (pd_effect_class (bo_policy_decision bound) = GREEN)
     (RunnerVNextDispatchError ''VNEXT_DISPATCH_PRIVILEGED_POLICY_REQUIRED'')"

definition run_privileged_dispatch ::
    "(real \<Rightarrow> string) \<Rightarrow> bound_operation \<Rightarrow> node_snapshot \<Rightarrow> (bound_operation \<Rightarrow> string) \<Rightarrow> (bound_operation \<Rightarrow> string)
      \<Rightarrow> privileged_backend \<Rightarrow> string list \<Rightarrow> bool \<Rightarrow> real \<Rightarrow> real \<Rightarrow> real \<Rightarrow> real \<Rightarrow> (runner_state, dispatch_receipt) op" where
  "run_privileged_dispatch frepr bound snapshot ref1 ref2 backend evidence fresh now ttl t1 t2 =
     guarded (privileged_guard bound)
       (\<lambda>_. replay_or bound (privileged_body frepr bound snapshot ref1 ref2 backend evidence fresh now ttl t1 t2))"

subsection \<open>Replay\<close>

text \<open>The receipt a replay makes of a terminal entry.\<close>

definition replay_of :: "bound_operation \<Rightarrow> terminal_receipt \<Rightarrow> dispatch_receipt" where
  "replay_of bound r =
     \<lparr>dr_operation_id = ir_operation_id (bo_operation_ir bound), dr_idempotency_key = ir_idempotency_key (bo_operation_ir bound),
      dr_route = bo_route bound, dr_operation = bo_operation bound, dr_lane = lane_value (ra_lane (bo_binding bound)),
      dr_adapter_id = ra_adapter_id (bo_binding bound), dr_terminal_status = event_type_text (tr_type r),
      dr_reason_code = tr_reason r, dr_validation_status = str_or (tr_validation r) ''FAIL'', dr_touched_resources = tr_touched r,
      dr_before_state_ref = str_or (tr_before r) (bo_target_state_ref bound),
      dr_after_state_ref = str_or (tr_after r) (bo_target_state_ref bound),
      dr_replayed = True, dr_execution_started = True, dr_lease_released = True\<rparr>"

abbreviation bound_key :: "bound_operation \<Rightarrow> string" where
  "bound_key bound \<equiv> ir_idempotency_key (bo_operation_ir bound)"

lemma bound_identity_key [simp]: "op_idempotency_key (bound_identity bound) = bound_key bound"
  by (simp add: bound_identity_def)

lemma validate_terminal_identity_iff:
  "validate_terminal_identity bound e = (if le_identity e = bound_identity bound then Inr ()
     else Inl (RunnerVNextDispatchError ''VNEXT_DISPATCH_TERMINAL_IDENTITY_MISMATCH''))"
  by (cases "le_identity e") (auto simp: validate_terminal_identity_def bound_identity_def)

lemma terminal_text: "event_type_text ty \<in> {''COMPLETED'', ''FAILED''} \<longleftrightarrow> ty \<in> {COMPLETED, FAILED}"
  by (cases ty) simp_all

text \<open>What the scan of the history finds is what the entry of the key says.\<close>

lemma terminal_replay_entry:
  assumes reach: "ledger_reachable s"
  shows "terminal_replay bound s = (case ledger_entry s (bound_key bound) of
      None \<Rightarrow> Inr None
    | Some x \<Rightarrow> (case en_receipt x of
          None \<Rightarrow> Inr None
        | Some r \<Rightarrow> if en_identity x = bound_identity bound then Inr (Some (replay_of bound r))
            else dispatch_error ''VNEXT_DISPATCH_TERMINAL_IDENTITY_MISMATCH''))"
proof -
  note ok = ledger_reachable_ok [OF reach]
  note status = ledger_status_entry [OF ok, of "bound_key bound"]
  show ?thesis
  proof (cases "ledger_entry s (bound_key bound)")
    case None
    then show ?thesis using status by (simp add: terminal_replay_def)
  next
    case (Some x)
    note x = Some
    show ?thesis
    proof (cases "ledger_terminal (bound_key bound) s")
      case None
      then have "en_receipt x = None" using x by (auto simp: ledger_entry_def)
      then show ?thesis using x status by (simp add: terminal_replay_def entry_status_def)
    next
      case (Some t)
      then have r: "en_receipt x = Some (receipt_of (fst t))" using x by (auto simp: ledger_entry_def)
      have "ledger_status (bound_key bound) s \<in> {Some ''COMPLETED'', Some ''FAILED''}"
        using x status r ok_terminal(3) [OF ok Some] by (auto simp: entry_status_def receipt_of_def)
      moreover have "find (\<lambda>e. event_type_text (le_event_type e) \<in> {''COMPLETED'', ''FAILED''}) (rev (ledger_history (bound_key bound) s)) = Some (fst t)"
        unfolding find_rev_last terminal_text using history_terminal [OF ok Some] by simp
      moreover have "le_identity (fst t) = en_identity x" by (rule terminal_identity [OF reach x Some])
      ultimately show ?thesis
        using x r by (simp add: terminal_replay_def Let_def validate_terminal_identity_iff replay_of_def receipt_of_def bound_identity_def)
    qed
  qed
qed

lemma started_entry:
  assumes "ledger_reachable s"
  shows "ledger_status k s = Some ''STARTED'' \<longleftrightarrow> (\<exists>x. ledger_entry s k = Some x \<and> en_grant x \<noteq> None \<and> en_receipt x = None)"
proof -
  have "event_type_text ty \<noteq> ''STARTED''" for ty by (cases ty) simp_all
  then show ?thesis
    using ledger_status_entry [OF ledger_reachable_ok [OF assms], of k] by (auto simp: entry_status_def split: option.splits if_splits)
qed

text \<open>The facts of a receipt are in the ledger.\<close>

definition recorded :: "bound_operation \<Rightarrow> dispatch_receipt \<Rightarrow> operation_ledger \<Rightarrow> bool" where
  "recorded bound out s \<longleftrightarrow> (\<exists>x r. ledger_entry s (bound_key bound) = Some x \<and> en_identity x = bound_identity bound \<and>
     en_receipt x = Some r \<and>
     replay_of bound r = out\<lparr>dr_replayed := True, dr_execution_started := True, dr_lease_released := True\<rparr>)"

lemma recorded_run:
  assumes "ledger_reachable s" "recorded bound out s"
  shows "recorded bound out (snd (run_ops ledger_exec cs s))"
proof -
  obtain x r where x: "ledger_entry s (bound_key bound) = Some x" "en_identity x = bound_identity bound" "en_receipt x = Some r"
      "replay_of bound r = out\<lparr>dr_replayed := True, dr_execution_started := True, dr_lease_released := True\<rparr>"
    using assms(2) unfolding recorded_def by blast
  have "ledger_entry (snd (run_ops ledger_exec cs s)) (bound_key bound) = Some x"
    using run_evolves [OF ledger_reachable_ok [OF assms(1)] x(1), of cs] x(3) by (auto simp: evolves_def)
  then show ?thesis using x(2-4) unfolding recorded_def by blast
qed

lemma replay_recorded:
  assumes "ledger_reachable (rs_ledger rs)" "recorded bound out (rs_ledger rs)"
  shows "replay_or bound body rs =
    (Inr (out\<lparr>dr_replayed := True, dr_execution_started := True, dr_lease_released := True\<rparr>), rs)"
  using assms terminal_replay_entry [OF assms(1), of bound] by (auto simp: recorded_def replay_or_def)

text \<open>
  A dispatcher guards, replays a terminal operation or refuses a started one, and otherwise runs its body.
  The interface: the body, on arguments that are well formed, keeps the ledger reachable, leaves the facts
  of its receipt in the ledger when it returns one.
\<close>

locale dispatcher =
  fixes bound :: bound_operation and guard :: "unit res" and wf :: "'p \<Rightarrow> bool"
    and body run :: "'p \<Rightarrow> (runner_state, dispatch_receipt) op"
  assumes run_guarded: "run p = guarded guard (\<lambda>_. replay_or bound (body p))"
    and body_records: "wf p \<Longrightarrow> ledger_reachable (rs_ledger rs) \<Longrightarrow> body p rs = (Inr out, rs') \<Longrightarrow>
      ledger_reachable (rs_ledger rs') \<and> recorded bound out (rs_ledger rs')"
begin

lemma run_Inr:
  assumes "wf p" "ledger_reachable (rs_ledger rs)" "run p rs = (Inr out, rs')"
  shows "guard = Inr () \<and> ledger_reachable (rs_ledger rs') \<and> recorded bound out (rs_ledger rs')"
proof -
  have g: "guard = Inr ()" and r: "replay_or bound (body p) rs = (Inr out, rs')"
    using assms(3) by (auto simp: run_guarded guarded_Inr_iff)
  show ?thesis
  proof (cases "terminal_replay bound (rs_ledger rs)")
    case (Inl e)
    then show ?thesis using r by (simp add: replay_or_def)
  next
    case (Inr q)
    show ?thesis
    proof (cases q)
      case None
      then show ?thesis using body_records [OF assms(1,2)] r Inr g by (auto simp: replay_or_def guarded_Inr_iff)
    next
      case (Some d)
      then have d: "terminal_replay bound (rs_ledger rs) = Inr (Some d)" "out = d" "rs' = rs" using Inr r by (simp_all add: replay_or_def)
      have "recorded bound out (rs_ledger rs)"
        using d(1,2) terminal_replay_entry [OF assms(2), of bound] unfolding recorded_def
        by (auto simp: replay_of_def split: option.splits if_splits)
      then show ?thesis using g assms(2) d(3) by simp
    qed
  qed
qed

lemma replays:
  assumes "wf p" "ledger_reachable (rs_ledger rs)" "run p rs = (Inr out, rs')"
    and "rs_ledger rs'' = snd (run_ops ledger_exec cs (rs_ledger rs'))"
  shows "run p' rs'' = (Inr (out\<lparr>dr_replayed := True, dr_execution_started := True, dr_lease_released := True\<rparr>), rs'')"
proof -
  note r = run_Inr [OF assms(1-3)]
  have "ledger_reachable (rs_ledger rs'')" "recorded bound out (rs_ledger rs'')"
    unfolding assms(4) using r ledger_run_reachable recorded_run by blast+
  then show ?thesis using r replay_recorded by (simp add: run_guarded)
qed

lemma refuses_started:
  assumes "ledger_reachable (rs_ledger rs)" "ledger_entry (rs_ledger rs) (bound_key bound) = Some x"
    "en_grant x \<noteq> None" "en_receipt x = None"
  shows "run p rs = (case guard of Inl e \<Rightarrow> (Inl e, rs) | Inr _ \<Rightarrow> (dispatch_error ''VNEXT_DISPATCH_STARTED_NEEDS_RECOVERY'', rs))"
proof -
  have "ledger_status (bound_key bound) (rs_ledger rs) = Some ''STARTED''" using started_entry [OF assms(1)] assms(2-4) by blast
  moreover have "terminal_replay bound (rs_ledger rs) = Inr None" using terminal_replay_entry [OF assms(1)] assms(2,4) by simp
  ultimately show ?thesis by (cases guard) (simp_all add: run_guarded replay_or_def fail_closed_on_started_def)
qed

end

subsection \<open>The GREEN dispatch\<close>

text \<open>A backend that acts on the ledger only through the ledger's own calls.\<close>

definition backend_via :: "(bound_operation \<Rightarrow> 'g \<Rightarrow> (runner_state, mechanical_result) op) \<Rightarrow> bool" where
  "backend_via backend \<longleftrightarrow> (\<forall>bound g rs. \<exists>cs. rs_ledger (snd (backend bound g rs)) = snd (run_ops ledger_exec cs (rs_ledger rs)))"

lemma adapter_via_ledger:
  assumes "backend_via backend"
  shows "via_ledger (green_adapter bound backend)"
  unfolding via_ledger_def
proof (intro allI)
  fix g rs
  obtain cs where cs: "rs_ledger (snd (backend bound g rs)) = snd (run_ops ledger_exec cs (rs_ledger rs))"
    using assms unfolding backend_via_def by blast
  have "\<exists>cs. rs_ledger rs = snd (run_ops ledger_exec cs (rs_ledger rs))" by (rule exI [of _ "[]"]) simp
  then show "\<exists>cs. rs_ledger (snd (green_adapter bound backend g rs)) = snd (run_ops ledger_exec cs (rs_ledger rs))"
    using cs by (auto simp: green_adapter_def guarded_def sbind_def split: sum.splits prod.splits)
qed

lemma green_adapter_Inr:
  assumes "green_adapter bound backend g rs = (Inr r, rs')"
  shows "validate_green_grant bound g = Inr ()"
    "\<exists>m. backend bound g rs = (Inr m, rs') \<and> er_resources r = mr_touched_resources m \<and> er_reason_code r = mr_reason_code m \<and>
      er_before_state_ref r = mr_before_state_ref m \<and> er_after_state_ref r = mr_after_state_ref m \<and>
      er_validation_status r = mr_validation_status m \<and> er_outcome r = (if mr_succeeded m then ''SUCCEEDED'' else ''FAILED'')"
  using assms by (auto simp: green_adapter_def guarded_Inr_iff sbind_Inr_iff)

lemma green_steps_InrD:
  assumes "green_steps frepr bound nodes current_ref backend now ttl parent ck rs = (Inr x, rs')"
  obtains h rs1 g where
    "prepare frepr nodes default_lane_policies default_authority_manifests (green_request bound ttl now parent) (ck_reserve ck) (ck_release ck) rs = (Inr h, rs1)"
    "gate_grant frepr nodes default_lane_policies current_ref (ck_gate ck) now h rs1 = Inr g"
    "exec_run (ck_begin ck) (ck_finalize ck) (ck_done ck) (green_adapter bound backend) g rs1 = (Inr x, rs')"
proof -
  obtain h rs1 g where "prepare_green_authority frepr bound nodes ttl now parent (ck_reserve ck) (ck_release ck) rs = (Inr h, rs1)"
      "grant_green_authority frepr h nodes current_ref (ck_gate ck) now rs1 = Inr g"
      "exec_run (ck_begin ck) (ck_finalize ck) (ck_done ck) (green_adapter bound backend) g rs1 = (Inr x, rs')"
    using assms by (auto simp: green_steps_def sbind_Inr_iff guarded_Inr_iff)
  then show thesis
    by (intro that [of h rs1 g])
      (auto simp: prepare_green_authority_def grant_green_authority_def default_registries guarded_Inr_iff)
qed

lemma public_ref_nonempty: "public_ref r \<Longrightarrow> str_or (Some r) d = r"
  using public_ref.accepted_nonempty [of r] by (simp add: str_or_def falsy_def)

lemma green_body_records:
  assumes via: "backend_via backend" and reach: "ledger_reachable (rs_ledger rs)"
    and run: "green_body frepr bound snapshot current_ref backend now ttl parent ck rs = (Inr out, rs')"
  shows "ledger_reachable (rs_ledger rs') \<and> recorded bound out (rs_ledger rs')"
proof -
  obtain nodes x where steps: "green_steps frepr bound nodes current_ref backend now ttl parent ck rs = (Inr x, rs')"
      and out: "out = from_green_receipt bound x"
    using run by (auto simp: green_body_def guarded_Inr_iff sbind_Inr_iff)
  obtain h rs1 g where p: "prepare frepr nodes default_lane_policies default_authority_manifests (green_request bound ttl now parent)
        (ck_reserve ck) (ck_release ck) rs = (Inr h, rs1)"
      and g: "gate_grant frepr nodes default_lane_policies current_ref (ck_gate ck) now h rs1 = Inr g"
      and ex: "exec_run (ck_begin ck) (ck_finalize ck) (ck_done ck) (green_adapter bound backend) g rs1 = (Inr x, rs')"
    by (rule green_steps_InrD [OF steps])
  note prep = prepare_success [OF reach p]
  have lane: "gg_lane g = lane_value (ra_lane (bo_binding bound))"
    using grant_InrD(8) [OF g] prep(6) by (simp add: green_request_def)
  obtain st0 rs2 r0 rs3 where "green_adapter bound backend g rs2 = (Inr r0, rs3)"
    using run_InrD [OF ex] by blast
  then have v: "validate_green_grant bound g = Inr ()" by (rule green_adapter_Inr)
  have id: "grant_identity g = bound_identity bound" "gg_adapter_id g = ra_adapter_id (bo_binding bound)"
      "gg_idempotency_key g = bound_key bound" "gg_operation_id g = ir_operation_id (bo_operation_ir bound)"
    using v by (auto simp: validate_green_grant_def grant_identity_def bound_identity_def)
  obtain y st r rel where y: "granted_entry g y"
      "ledger_entry (rs_ledger rs') (gg_idempotency_key g) = Some (y\<lparr>en_receipt := Some (result_receipt g r)\<rparr>)"
      and r: "result_accepted g r" and x: "x = mk_exec_receipt g st r rel" and reach': "ledger_reachable (rs_ledger rs')"
    by (rule run_finished [OF prep(2) adapter_via_ledger [OF via] ex])
  have "er_validation_status r \<noteq> []" using r by (auto simp: result_accepted_def)
  then have "replay_of bound (result_receipt g r) = out\<lparr>dr_replayed := True, dr_execution_started := True, dr_lease_released := True\<rparr>"
    using result_acceptedD(9,10) [OF r] id lane
    by (simp add: replay_of_def out x mk_exec_receipt_def from_green_receipt_def public_ref_nonempty) (simp add: str_or_def falsy_def)
  moreover have "en_identity y = bound_identity bound" using y(1) id(1) by (simp add: granted_entry_def)
  ultimately show ?thesis
    using reach' y(2) unfolding recorded_def id(3)
    by (intro conjI exI [of _ "y\<lparr>en_receipt := Some (result_receipt g r)\<rparr>"] exI [of _ "result_receipt g r"]) simp_all
qed

type_synonym green_args = "node_snapshot \<times> (green_handoff \<Rightarrow> string) \<times> green_backend \<times> real \<times> real \<times> str_dict \<times> dispatch_clock"

interpretation green_dispatch: dispatcher bound "green_guard bound" "\<lambda>(sn, cr, backend, now, ttl, pe, ck). backend_via backend"
    "\<lambda>(sn, cr, backend, now, ttl, pe, ck). green_body frepr bound sn cr backend now ttl pe ck"
    "\<lambda>(sn, cr, backend, now, ttl, pe, ck). run_green_dispatch frepr bound sn cr backend now ttl pe ck" for frepr bound
proof
  fix p :: green_args and rs out rs'
  obtain sn cr backend now ttl pe ck where p: "p = (sn, cr, backend, now, ttl, pe, ck)" by (rule prod_cases7)
  show "(case p of (sn, cr, backend, now, ttl, pe, ck) \<Rightarrow> run_green_dispatch frepr bound sn cr backend now ttl pe ck) =
      guarded (green_guard bound) (\<lambda>_. replay_or bound (case p of (sn, cr, backend, now, ttl, pe, ck) \<Rightarrow>
        green_body frepr bound sn cr backend now ttl pe ck))"
    by (simp add: p run_green_dispatch_def)
  assume "case p of (sn, cr, backend, now, ttl, pe, ck) \<Rightarrow> backend_via backend" "ledger_reachable (rs_ledger rs)"
    "(case p of (sn, cr, backend, now, ttl, pe, ck) \<Rightarrow> green_body frepr bound sn cr backend now ttl pe ck) rs = (Inr out, rs')"
  then show "ledger_reachable (rs_ledger rs') \<and> recorded bound out (rs_ledger rs')"
    using green_body_records by (simp add: p)
qed

subsection \<open>The privileged dispatch\<close>

lemma finish_receipt:
  assumes ok: "ledger_ok s" and run: "ledger_finish i f ok' r tc b a st s = (Inr v, s')"
  shows "\<exists>x. ledger_entry s (op_idempotency_key i) = Some x \<and> en_identity x = i \<and>
    ledger_entry s' (op_idempotency_key i) = Some (x\<lparr>en_receipt := call_receipt (Finish i f ok' r tc b a st)\<rparr>)"
  using ok
proof (cases rule: exec_cases [of s "Finish i f ok' r tc b a st"])
  case (served v s' en)
  then show ?thesis
    using run by (auto simp: reply_def known_entry_def call_identity_def split: option.splits if_splits)
qed (use run in \<open>auto simp: reply_def\<close>)

lemma clearance_InrD:
  assumes "ledger_ok s" "privileged_clearance bound env evidence fresh ref2 s = Inr g"
  shows "reserved_for env s" "validate_envelope env = Inr ()" "evidence \<noteq> []" "\<forall>e\<in>set evidence. public_ref e"
    "ev_effect_class env = RED \<Longrightarrow> fresh" "ref2 bound = bo_target_state_ref bound" "pg_execution_authorized g"
    "pg_resources g = ev_resources env" "pg_approval_evidence_refs g = evidence"
proof -
  obtain b where b: "authorize_privileged_broker_request env s \<lparr>ac_evidence_refs = evidence, ac_operation_id = ev_operation_id env,
        ac_target_state_ref = ev_target_state_ref env, ac_effect_class = ev_effect_class env, ac_resources = ev_resources env,
        ac_fresh = fresh\<rparr> (exact_authority_verifier evidence) = Inr b"
      and g: "privileged_execution_grant b evidence = Inr g" and ref: "ref2 bound = bo_target_state_ref bound"
    using assms(2) by (auto simp: privileged_clearance_def)
  obtain out where o: "pep_evaluate env s (Some \<lparr>ac_evidence_refs = evidence, ac_operation_id = ev_operation_id env,
        ac_target_state_ref = ev_target_state_ref env, ac_effect_class = ev_effect_class env, ac_resources = ev_resources env,
        ac_fresh = fresh\<rparr>) (Some (exact_authority_verifier evidence)) = Inr out"
      and ob: "(case out of Broker b \<Rightarrow> Inr b | Authorized r \<Rightarrow> authority_error ''VNEXT_AUTHORITY_PRIVILEGED_BROKER_REQUIRED'') = Inr b"
    using b by (auto simp: authorize_privileged_broker_request_def)
  note p = pep_InrD [OF assms(1) o]
  show "ref2 bound = bo_target_state_ref bound" by (rule ref)
  show "reserved_for env s" "validate_envelope env = Inr ()" using p by blast+
  have ng: "ev_effect_class env \<noteq> GREEN" using p ob by (cases out) (auto split: if_splits)
  then show "ev_effect_class env = RED \<Longrightarrow> fresh" using p by (auto split: if_splits)
  have bind: "validate_authority_binding env \<lparr>ac_evidence_refs = evidence, ac_operation_id = ev_operation_id env,
        ac_target_state_ref = ev_target_state_ref env, ac_effect_class = ev_effect_class env, ac_resources = ev_resources env,
        ac_fresh = fresh\<rparr> = Inr ()" using p ng by auto
  then show "evidence \<noteq> []" "\<forall>e\<in>set evidence. public_ref e"
    by (auto simp: validate_authority_binding_def list_ex_iff)
  show "pg_execution_authorized g" "pg_approval_evidence_refs g = evidence"
    using g by (auto simp: privileged_execution_grant_def)
  show "pg_resources g = ev_resources env" using g p ng ob by (auto simp: privileged_execution_grant_def)
qed

lemma privileged_reservation:
  assumes reach: "ledger_reachable s" and run: "reserve_privileged_authority bo f s = (r, s')"
  shows "ledger_reachable s'" "ledger_entry s (bound_key bo) \<noteq> None \<Longrightarrow> s' = s"
    "r = Inr env \<Longrightarrow> ev_idempotency_key env = bound_key bo \<and> ev_fence_token env = f \<and> ev_target_state_ref env = bo_target_state_ref bo \<and>
       ev_operation_id env = ir_operation_id (bo_operation_ir bo) \<and> ev_resources env = ir_resources (bo_operation_ir bo) \<and>
       ev_effect_class env = pd_effect_class (bo_policy_decision bo)"
proof -
  have cases: "s' = s \<or> (\<exists>env. privileged_envelope bo f = Inr env \<and>
      s' = snd (ledger_reserve (bound_identity bo) f (reservation_scope_fingerprint env) None s))"
    using run by (auto simp: reserve_privileged_authority_def guarded_def sbind_def bound_identity_def Let_def split: sum.splits prod.splits)
  then show "ledger_reachable s'" using reach ledger_reachable_ops(1) by blast
  show "s' = s" if x: "ledger_entry s (bound_key bo) \<noteq> None"
  proof -
    have "snd (ledger_reserve (bound_identity bo) f sc None s) = s" for sc
    proof (cases "call_check (Reserve (bound_identity bo) f sc None)")
      case (Inl e)
      then show ?thesis using bad_arguments [OF Inl, of s] by (auto simp: reply_Inl_iff)
    next
      case (Inr u)
      then show ?thesis
        using reserve_cases [OF ledger_reachable_ok [OF reach], of "bound_identity bo" f sc None] x
        by (auto simp: entry_None simp del: entry_step.simps call_check.simps split: sum.splits option.splits)
    qed
    then show ?thesis using cases by auto
  qed
  assume "r = Inr env"
  then have "reserve_privileged_authority bo f s = (Inr env, s')" using run by simp
  moreover from this have "privileged_envelope bo f = Inr env"
    by (auto simp: reserve_privileged_authority_def guarded_Inr_iff sbind_Inr_iff Let_def)
  then have "ev_idempotency_key env = bound_key bo"
    by (auto simp: privileged_envelope_def elim!: adapter_plan_InrD split: option.splits if_splits)
  ultimately show "ev_idempotency_key env = bound_key bo \<and> ev_fence_token env = f \<and> ev_target_state_ref env = bo_target_state_ref bo \<and>
       ev_operation_id env = ir_operation_id (bo_operation_ir bo) \<and> ev_resources env = ir_resources (bo_operation_ir bo) \<and>
       ev_effect_class env = pd_effect_class (bo_policy_decision bo)"
    using reserve_privileged_InrD by metis
qed

text \<open>A backend that leaves the lease store alone.\<close>

definition backend_leases :: "(bound_operation \<Rightarrow> 'g \<Rightarrow> (runner_state, mechanical_result) op) \<Rightarrow> bool" where
  "backend_leases backend \<longleftrightarrow> (\<forall>bound g rs. rs_leases (snd (backend bound g rs)) = rs_leases rs)"

lemma backend_leasesD: "backend_leases backend \<Longrightarrow> backend bound g rs = (r, rs') \<Longrightarrow> rs_leases rs' = rs_leases rs"
  unfolding backend_leases_def by (metis snd_conv)

text \<open>The entry of the operation carries start evidence for this grant.\<close>

definition started_with :: "bound_operation \<Rightarrow> privileged_grant \<Rightarrow> int \<Rightarrow> operation_ledger \<Rightarrow> bool" where
  "started_with bound g f s \<longleftrightarrow> (\<exists>x. ledger_entry s (bound_key bound) = Some x \<and> en_identity x = bound_identity bound \<and>
     en_grant x = Some (privileged_grant_hash g) \<and> en_fence x = f)"

lemma started_with_run:
  assumes "ledger_reachable s" "started_with bound g f s"
  shows "started_with bound g f (snd (run_ops ledger_exec cs s))"
proof -
  obtain x where x: "ledger_entry s (bound_key bound) = Some x" "en_identity x = bound_identity bound"
      "en_grant x = Some (privileged_grant_hash g)" "en_fence x = f"
    using assms(2) unfolding started_with_def by blast
  then show ?thesis
    using run_evolves [OF ledger_reachable_ok [OF assms(1)] x(1), of cs] unfolding started_with_def evolves_def by fastforce
qed

lemma started_with_finish:
  assumes "ledger_reachable s" "started_with bound g f s"
  shows "started_with bound g f (snd (ledger_finish i f' ok r tc b a st s))"
  using started_with_run [OF assms, of "[Finish i f' ok r tc b a st]"] by simp

lemma backend_viaD:
  assumes "backend_via backend" "ledger_reachable (rs_ledger rs)" "started_with bound g f (rs_ledger rs)"
    "backend b' g' rs = (r, rs')"
  shows "ledger_reachable (rs_ledger rs')" "started_with bound g f (rs_ledger rs')"
proof -
  obtain cs where "rs_ledger rs' = snd (run_ops ledger_exec cs (rs_ledger rs))"
    using assms(1,4) unfolding backend_via_def by (metis snd_conv)
  then show "ledger_reachable (rs_ledger rs')" "started_with bound g f (rs_ledger rs')"
    using ledger_run_reachable [OF assms(2)] started_with_run [OF assms(2,3)] by simp_all
qed

text \<open>From the start to the terminal receipt.\<close>

lemma execute_cases:
  assumes via: "backend_via backend" and reach: "ledger_reachable (rs_ledger rs)"
    and run: "privileged_execute bound f g backend rs = (out, rs')"
  shows "ledger_reachable (rs_ledger rs') \<and> (backend_leases backend \<longrightarrow> rs_leases rs' = rs_leases rs) \<and>
    (case out of
       Inl e \<Rightarrow> rs' = rs \<or> started_with bound g f (rs_ledger rs')
     | Inr r \<Rightarrow> validate_privileged_result bound g r = Inr () \<and> started_with bound g f (rs_ledger rs') \<and>
         (\<exists>x. ledger_entry (rs_ledger rs') (bound_key bound) = Some x \<and> en_receipt x =
            call_receipt (Finish (bound_identity bound) f (mr_succeeded r) (mr_reason_code r) (mr_touched_resources r)
              (mr_before_state_ref r) (mr_after_state_ref r) (mr_validation_status r))))"
proof (cases "ledger_mark_started (bound_identity bound) f (privileged_grant_hash g) (rs_ledger rs)")
  case (Pair ms l1)
  note m = Pair
  show ?thesis
  proof (cases ms)
    case (Inl e)
    then have "rs' = rs \<and> out = Inl e"
      using run m ledger_aborts(3) [of "bound_identity bound" f "privileged_grant_hash g" "rs_ledger rs" e l1]
      by (auto simp: privileged_execute_def sbind_def on_ledger_def)
    then show ?thesis using reach by simp
  next
    case (Inr v)
    let ?rs1 = "rs\<lparr>rs_ledger := l1\<rparr>"
    have m': "ledger_mark_started (bound_identity bound) f (privileged_grant_hash g) (rs_ledger rs) = (Inr v, l1)" using m Inr by simp
    have st1: "started_with bound g f (rs_ledger ?rs1)" and reach1: "ledger_reachable (rs_ledger ?rs1)"
      using mark_started_Inr [OF ledger_reachable_ok [OF reach] m']
        ledger_reachable_ops(3) [OF reach, of "bound_identity bound" f "privileged_grant_hash g"] m'
      by (auto simp: started_with_def)
    obtain br rs2 where b: "backend bound g ?rs1 = (br, rs2)" by (cases "backend bound g ?rs1")
    note via2 = backend_viaD [OF via reach1 st1 b]
    have leases: "backend_leases backend \<longrightarrow> rs_leases rs2 = rs_leases rs" using backend_leasesD [of backend, OF _ b] by simp
    have out: "(out, rs') = (case br of Inl e \<Rightarrow> (Inl e, rs2) | Inr r \<Rightarrow> guarded (validate_privileged_result bound g r) (\<lambda>_.
        sbind (on_ledger (ledger_finish (bound_identity bound) f (mr_succeeded r) (mr_reason_code r) (mr_touched_resources r)
        (mr_before_state_ref r) (mr_after_state_ref r) (mr_validation_status r))) (\<lambda>_ rs. (Inr r, rs))) rs2)"
      using run m' b by (auto simp: privileged_execute_def sbind_def on_ledger_def split: sum.splits)
    show ?thesis
    proof (cases br)
      case (Inl e)
      then show ?thesis using out via2 leases by simp
    next
      case (Inr r)
      let ?fin = "ledger_finish (bound_identity bound) f (mr_succeeded r) (mr_reason_code r) (mr_touched_resources r)
        (mr_before_state_ref r) (mr_after_state_ref r) (mr_validation_status r)"
      obtain w l3 where fin: "?fin (rs_ledger rs2) = (w, l3)" by (cases "?fin (rs_ledger rs2)")
      have l3: "ledger_reachable l3" "started_with bound g f l3"
        using ledger_reachable_ops(4) [OF via2(1), of "bound_identity bound" f "mr_succeeded r" "mr_reason_code r" "mr_touched_resources r"
            "mr_before_state_ref r" "mr_after_state_ref r" "mr_validation_status r"]
          started_with_finish [OF via2, of "bound_identity bound" f "mr_succeeded r" "mr_reason_code r" "mr_touched_resources r"
            "mr_before_state_ref r" "mr_after_state_ref r" "mr_validation_status r"] fin by simp_all
      show ?thesis
      proof (cases "validate_privileged_result bound g r")
        case (Inl e)
        then show ?thesis using out Inr via2 leases by simp
      next
        case v: (Inr u)
        then have o: "(out, rs') = (case w of Inl e \<Rightarrow> (Inl e, rs2\<lparr>rs_ledger := l3\<rparr>) | Inr _ \<Rightarrow> (Inr r, rs2\<lparr>rs_ledger := l3\<rparr>))"
          using out Inr fin by (auto simp: sbind_def on_ledger_def split: sum.splits)
        show ?thesis
        proof (cases w)
          case Inl
          then show ?thesis using o l3 leases by simp
        next
          case w: (Inr ev)
          have "\<exists>x. ledger_entry l3 (bound_key bound) = Some x \<and> en_receipt x =
              call_receipt (Finish (bound_identity bound) f (mr_succeeded r) (mr_reason_code r) (mr_touched_resources r)
                (mr_before_state_ref r) (mr_after_state_ref r) (mr_validation_status r))"
            using finish_receipt [OF ledger_reachable_ok [OF via2(1)] fin [unfolded w]] by auto
          then show ?thesis using o w l3 leases v by simp
        qed
      qed
    qed
  qed
qed

text \<open>Where a privileged dispatch may stop once it is admitted.\<close>

lemma steps_cases:
  assumes via: "backend_via backend" and reach: "ledger_reachable (rs_ledger rs)"
    and run: "privileged_steps bound node_id ref2 backend evidence fresh ttl t1 t2 rs = (out, rs')"
  obtains (no_lease) e where "scheduler_reserve t1 (privileged_request bound node_id ttl) (rs_leases rs) = (Inl e, rs_leases rs)"
      "out = Inl e" "rs' = rs"
  | (unreserved) e lease ls where "scheduler_reserve t1 (privileged_request bound node_id ttl) (rs_leases rs) = (Inr lease, ls)"
      "reserve_privileged_authority bound (lr_fence_token lease) (rs_ledger rs) = (Inl e, rs_ledger rs')" "out = Inl e" "rs_leases rs' = ls"
  | (uncleared) e lease ls env where "scheduler_reserve t1 (privileged_request bound node_id ttl) (rs_leases rs) = (Inr lease, ls)"
      "reserve_privileged_authority bound (lr_fence_token lease) (rs_ledger rs) = (Inr env, rs_ledger rs')"
      "privileged_clearance bound env evidence fresh ref2 (rs_ledger rs') = Inl e" "out = Inl e" "rs_leases rs' = ls"
  | (executed) lease ls env g l2 x rs3 where "scheduler_reserve t1 (privileged_request bound node_id ttl) (rs_leases rs) = (Inr lease, ls)"
      "reserve_privileged_authority bound (lr_fence_token lease) (rs_ledger rs) = (Inr env, l2)"
      "privileged_clearance bound env evidence fresh ref2 l2 = Inr g"
      "privileged_execute bound (lr_fence_token lease) g backend (rs\<lparr>rs_leases := ls, rs_ledger := l2\<rparr>) = (x, rs3)"
      "rs_ledger rs' = rs_ledger rs3"
      "case x of Inl e \<Rightarrow> out = Inl e \<and> rs' = rs3 | Inr r \<Rightarrow>
         (case scheduler_release_exact t2 PRIVILEGED privileged_scope node_id (lr_fence_token lease) (rs_leases rs3) of
            (Inl e, l4) \<Rightarrow> out = Inl e \<and> rs' = rs3 | (Inr rel, l4) \<Rightarrow> out = Inr (r, lr_status rel = ''RELEASED'') \<and> rs_leases rs' = l4)"
proof -
  obtain lr ls where l: "scheduler_reserve t1 (privileged_request bound node_id ttl) (rs_leases rs) = (lr, ls)"
    by (cases "scheduler_reserve t1 (privileged_request bound node_id ttl) (rs_leases rs)")
  show thesis
  proof (cases lr)
    case (Inl e)
    then have "ls = rs_leases rs" using l acquire_abort by (auto simp: scheduler_reserve_def)
    then show thesis using l Inl run by (intro no_lease [of e]) (auto simp: privileged_steps_def sbind_def on_leases_def)
  next
    case (Inr lease)
    obtain er l2 where r: "reserve_privileged_authority bound (lr_fence_token lease) (rs_ledger rs) = (er, l2)"
      by (cases "reserve_privileged_authority bound (lr_fence_token lease) (rs_ledger rs)")
    show thesis
    proof (cases er)
      case (Inl e)
      show thesis
        by (rule unreserved [of lease ls e])
          (use run l r Inl Inr in \<open>auto simp: privileged_steps_def sbind_def on_leases_def on_ledger_def\<close>)
    next
      case env: (Inr env)
      show thesis
      proof (cases "privileged_clearance bound env evidence fresh ref2 l2")
        case (Inl e)
        show thesis
          by (rule uncleared [of lease ls env e])
            (use run l r Inl Inr env in \<open>auto simp: privileged_steps_def sbind_def on_leases_def on_ledger_def\<close>)
      next
        case g: (Inr g)
        obtain x rs3 where x: "privileged_execute bound (lr_fence_token lease) g backend (rs\<lparr>rs_leases := ls, rs_ledger := l2\<rparr>) = (x, rs3)"
          by (cases "privileged_execute bound (lr_fence_token lease) g backend (rs\<lparr>rs_leases := ls, rs_ledger := l2\<rparr>)")
        obtain rel l4 where rel: "scheduler_release_exact t2 PRIVILEGED privileged_scope node_id (lr_fence_token lease) (rs_leases rs3) = (rel, l4)"
          by (cases "scheduler_release_exact t2 PRIVILEGED privileged_scope node_id (lr_fence_token lease) (rs_leases rs3)")
        have same: "rel = Inl e \<Longrightarrow> l4 = rs_leases rs3" for e using rel release_abort by (auto simp: scheduler_release_exact_def)
        have "(out, rs') = (case x of Inl e \<Rightarrow> (Inl e, rs3) | Inr m \<Rightarrow>
            (case rel of Inl e \<Rightarrow> (Inl e, rs3\<lparr>rs_leases := l4\<rparr>) | Inr q \<Rightarrow> (Inr (m, lr_status q = ''RELEASED''), rs3\<lparr>rs_leases := l4\<rparr>)))"
          using run l r Inr env g x rel
          by (auto simp: privileged_steps_def sbind_def on_leases_def on_ledger_def split: sum.splits)
        then show thesis
          by (intro executed [OF l [unfolded Inr] r [unfolded env] g x]) (use rel same in \<open>auto split: sum.splits\<close>)
      qed
    qed
  qed
qed

lemma privileged_body_records:
  assumes via: "backend_via backend" and reach: "ledger_reachable (rs_ledger rs)"
    and run: "privileged_body frepr bound snapshot ref1 ref2 backend evidence fresh now ttl t1 t2 rs = (Inr out, rs')"
  shows "ledger_reachable (rs_ledger rs') \<and> recorded bound out (rs_ledger rs')"
proof -
  obtain r rel where steps: "privileged_steps bound (nd_node_id snapshot) ref2 backend evidence fresh ttl t1 t2 rs = (Inr (r, rel), rs')"
      and out: "out = privileged_receipt bound r rel"
    using run by (auto simp: privileged_body_def privileged_checked_def guarded_Inr_iff sbind_Inr_iff split: prod.splits sum.splits)
  from via reach steps show ?thesis
  proof (cases rule: steps_cases)
    case (executed lease ls env g l2 x rs3)
    have x: "x = Inr r" using executed(6) by (auto split: sum.splits prod.splits) (metis sum.exhaust)
    have l2: "ledger_reachable (rs_ledger (rs\<lparr>rs_leases := ls, rs_ledger := l2\<rparr>))"
      using privileged_reservation(1) [OF reach executed(2)] by simp
    note ex = execute_cases [OF via l2 executed(4), unfolded x sum.case]
    obtain y where y: "ledger_entry (rs_ledger rs') (bound_key bound) = Some y" "en_identity y = bound_identity bound"
        "en_receipt y = call_receipt (Finish (bound_identity bound) (lr_fence_token lease) (mr_succeeded r) (mr_reason_code r)
          (mr_touched_resources r) (mr_before_state_ref r) (mr_after_state_ref r) (mr_validation_status r))"
      using ex unfolding executed(5) started_with_def by auto
    have v: "public_ref (mr_before_state_ref r)" "public_ref (mr_after_state_ref r)" "mr_validation_status r \<noteq> []"
      using ex by (auto simp: validate_privileged_result_def)
    have "replay_of bound (the (en_receipt y)) = out\<lparr>dr_replayed := True, dr_execution_started := True, dr_lease_released := True\<rparr>"
      unfolding y(3) out using v
      by (simp add: call_receipt_def replay_of_def privileged_receipt_def terminal_type_def public_ref_nonempty) (simp add: str_or_def falsy_def)
    moreover have "ledger_reachable (rs_ledger rs')" using ex executed(5) by simp
    moreover have "en_receipt y = Some (the (en_receipt y))" unfolding y(3) by (simp add: call_receipt_def)
    ultimately show ?thesis using y(1,2) unfolding recorded_def by blast
  qed auto
qed

type_synonym privileged_args = "node_snapshot \<times> (bound_operation \<Rightarrow> string) \<times> (bound_operation \<Rightarrow> string) \<times> privileged_backend \<times>
  string list \<times> bool \<times> real \<times> real \<times> real \<times> real"

interpretation privileged_dispatch: dispatcher bound "privileged_guard bound"
    "\<lambda>(sn, ref1, ref2, backend, ev, fresh, now, ttl, t1, t2). backend_via backend"
    "\<lambda>(sn, ref1, ref2, backend, ev, fresh, now, ttl, t1, t2). privileged_body frepr bound sn ref1 ref2 backend ev fresh now ttl t1 t2"
    "\<lambda>(sn, ref1, ref2, backend, ev, fresh, now, ttl, t1, t2). run_privileged_dispatch frepr bound sn ref1 ref2 backend ev fresh now ttl t1 t2"
    for frepr bound
proof
  fix p :: privileged_args and rs out rs'
  obtain sn ref1 ref2 backend ev fresh now ttl t1 t2 where p: "p = (sn, ref1, ref2, backend, ev, fresh, now, ttl, t1, t2)" by (metis surj_pair)
  show "(case p of (sn, ref1, ref2, backend, ev, fresh, now, ttl, t1, t2) \<Rightarrow>
        run_privileged_dispatch frepr bound sn ref1 ref2 backend ev fresh now ttl t1 t2) =
      guarded (privileged_guard bound) (\<lambda>_. replay_or bound (case p of (sn, ref1, ref2, backend, ev, fresh, now, ttl, t1, t2) \<Rightarrow>
        privileged_body frepr bound sn ref1 ref2 backend ev fresh now ttl t1 t2))"
    by (simp add: p run_privileged_dispatch_def)
  assume "case p of (sn, ref1, ref2, backend, ev, fresh, now, ttl, t1, t2) \<Rightarrow> backend_via backend" "ledger_reachable (rs_ledger rs)"
    "(case p of (sn, ref1, ref2, backend, ev, fresh, now, ttl, t1, t2) \<Rightarrow>
        privileged_body frepr bound sn ref1 ref2 backend ev fresh now ttl t1 t2) rs = (Inr out, rs')"
  then show "ledger_reachable (rs_ledger rs') \<and> recorded bound out (rs_ledger rs')"
    using privileged_body_records by (simp add: p)
qed

subsection \<open>How a privileged dispatch fails\<close>

lemma privileged_handler_error: "\<exists>r. privileged_handler e = RunnerVNextDispatchError r"
  by (cases e) simp_all

lemma steps_failure:
  assumes via: "backend_via backend" "backend_leases backend" and reach: "ledger_reachable (rs_ledger rs)"
    and run: "privileged_steps bound node_id ref2 backend evidence fresh ttl t1 t2 rs = (Inl e, rs')"
  shows "ledger_reachable (rs_ledger rs') \<and> (rs' = rs \<or> (\<exists>lease ls.
    scheduler_reserve t1 (privileged_request bound node_id ttl) (rs_leases rs) = (Inr lease, ls) \<and> rs_leases rs' = ls \<and>
    ((\<exists>res. reserve_privileged_authority bound (lr_fence_token lease) (rs_ledger rs) = (res, rs_ledger rs')) \<or>
     (\<exists>g. started_with bound g (lr_fence_token lease) (rs_ledger rs')))))"
  using via(1) reach run
proof (cases rule: steps_cases)
  case (no_lease e)
  then show ?thesis using reach by simp
next
  case (unreserved e lease ls)
  then show ?thesis using privileged_reservation(1) [OF reach unreserved(2)] by blast
next
  case (uncleared e lease ls env)
  then show ?thesis using privileged_reservation(1) [OF reach uncleared(2)] by blast
next
  case (executed lease ls env g l2 x rs3)
  let ?rs2 = "rs\<lparr>rs_leases := ls, rs_ledger := l2\<rparr>"
  have l2: "ledger_reachable (rs_ledger ?rs2)" using privileged_reservation(1) [OF reach executed(2)] by simp
  note ex = execute_cases [OF via(1) l2 executed(4)]
  have rs': "rs' = rs3" using executed(6) by (auto split: sum.splits prod.splits) (metis sum.exhaust)
  have leases: "rs_leases rs3 = ls" using ex via(2) by simp
  have "rs3 = ?rs2 \<or> started_with bound g (lr_fence_token lease) (rs_ledger rs3)" using ex by (auto split: sum.splits)
  then have "(\<exists>res. reserve_privileged_authority bound (lr_fence_token lease) (rs_ledger rs) = (res, rs_ledger rs')) \<or>
     (\<exists>g. started_with bound g (lr_fence_token lease) (rs_ledger rs'))"
    using executed(2) rs' by auto
  then show ?thesis using executed(1) leases ex rs' by blast
qed

lemma run_privileged_Inl:
  assumes "run_privileged_dispatch frepr bound sn ref1 ref2 backend ev fresh now ttl t1 t2 rs = (Inl e, rs')"
  shows "rs' = rs \<or> (\<exists>e'. privileged_steps bound (nd_node_id sn) ref2 backend ev fresh ttl t1 t2 rs = (Inl e', rs') \<and> e = privileged_handler e')"
  using assms
  by (auto simp: run_privileged_dispatch_def replay_or_def privileged_body_def privileged_checked_def guarded_Inl_iff sbind_Inl_iff
      split: sum.splits option.splits prod.splits)

lemma lease_conflict:
  assumes "scheduler_reserve t1 (privileged_request bound node_id ttl) s = (Inr lease, ls)"
    and "lease_current t' PRIVILEGED privileged_scope ls \<noteq> None" "rq_lane rq = PRIVILEGED" "rq_scope_key rq = privileged_scope"
    and "rq_task_id rq \<noteq> task_id (bo_universal_task bound)" "0 < rq_ttl_seconds rq"
  shows "scheduler_reserve t' rq ls = (Inl (LeaseError ''LEASE_CONFLICT_ACTIVE_OWNER''), ls)"
proof -
  obtain l where l: "lease_current t' PRIVILEGED privileged_scope ls = Some l" using assms(2) by blast
  obtain l1 where "lease_current t1 PRIVILEGED privileged_scope ls = Some l1" "ll_task_id l1 = task_id (bo_universal_task bound)"
    using acquire_current assms(1) by (fastforce simp: scheduler_reserve_def privileged_request_def)
  then have "ll_task_id l = task_id (bo_universal_task bound)" using l lease_current_row [of t1] lease_current_row [of t'] by (metis option.inject)
  then show ?thesis using acquire_held [OF assms(6) l] assms(3-5) by (simp add: scheduler_reserve_def)
qed

text \<open>An operation with start evidence is settled: no dispatch of it runs anything, whatever its arguments.\<close>

lemma started_settled:
  assumes reach: "ledger_reachable (rs_ledger rs)" and st: "started_with bound g f (rs_ledger rs)"
  shows "\<exists>res. \<forall>sn ref1 ref2 backend ev fresh now ttl t1 t2.
    run_privileged_dispatch frepr bound sn ref1 ref2 backend ev fresh now ttl t1 t2 rs = (res, rs)"
proof -
  obtain x where x: "ledger_entry (rs_ledger rs) (bound_key bound) = Some x" "en_identity x = bound_identity bound" "en_grant x \<noteq> None"
    using st unfolding started_with_def by auto
  show ?thesis
  proof (cases "en_receipt x")
    case None
    from privileged_dispatch.refuses_started [OF reach x(1,3) None, of frepr, where p = "(sn, ref1, ref2, backend, ev, fresh, now, ttl, t1, t2)" for sn ref1 ref2 backend ev fresh now ttl t1 t2]
    show ?thesis by (cases "privileged_guard bound") auto
  next
    case (Some r)
    then have "terminal_replay bound (rs_ledger rs) = Inr (Some (replay_of bound r))" using terminal_replay_entry [OF reach] x by simp
    then show ?thesis
      by (cases "privileged_guard bound") (auto simp: run_privileged_dispatch_def replay_or_def)
  qed
qed

text \<open>A reservation whose fence the privileged lane has outgrown.\<close>

definition outgrown :: "bound_operation \<Rightarrow> runner_state \<Rightarrow> bool" where
  "outgrown bound rs \<longleftrightarrow> lane_reachable (rs_leases rs) \<and> ledger_reachable (rs_ledger rs) \<and>
     (\<exists>x. ledger_entry (rs_ledger rs) (bound_key bound) = Some x \<and> en_grant x = None \<and> en_receipt x = None \<and>
        en_fence x < fence_of (rs_leases rs) (PRIVILEGED, privileged_scope))"

lemma acquired_fence:
  assumes "lane_reachable s" "lease_acquire now tid lane owner scope ttl target s = (r, s')"
  shows "lane_reachable s'" "fence_of s (lane, scope) \<le> fence_of s' (lane, scope)"
    "r = Inr lease \<Longrightarrow> lr_fence_token lease = fence_of s' (lane, scope)"
proof -
  show s': "lane_reachable s'" using lane_call [OF assms(1), of "Acquire now tid lane owner scope ttl target"] assms(2) by simp
  show "fence_of s (lane, scope) \<le> fence_of s' (lane, scope)"
    using fence_of_acquire [of now tid lane owner scope ttl target s "(lane, scope)"] assms(2) by simp
  assume "r = Inr lease"
  then obtain l where "lease_current now lane scope s' = Some l" "ll_fence_token l = lr_fence_token lease"
    using acquire_current assms(2) by blast
  then show "lr_fence_token lease = fence_of s' (lane, scope)" using held_fence [OF s'] lease_current_row by metis
qed

lemma outgrown_steps:
  assumes out: "outgrown bound rs" and via: "backend_via backend"
    and run: "privileged_steps bound node_id ref2 backend evidence fresh ttl t1 t2 rs = (res, rs')"
  shows "(\<exists>e. res = Inl e) \<and> outgrown bound rs' \<and> rs_ledger rs' = rs_ledger rs"
proof -
  note [simp] = scheduler_reserve_def privileged_request_def
  obtain x where x: "ledger_entry (rs_ledger rs) (bound_key bound) = Some x" "en_fence x < fence_of (rs_leases rs) (PRIVILEGED, privileged_scope)"
      "en_grant x = None" "en_receipt x = None"
    and reach: "lane_reachable (rs_leases rs)" "ledger_reachable (rs_ledger rs)"
    using out unfolding outgrown_def by blast
  have kept: "l2 = rs_ledger rs" if "reserve_privileged_authority bound f (rs_ledger rs) = (q, l2)" for f q l2
    using privileged_reservation(2) [OF reach(2) that] x(1) by simp
  have grown: "outgrown bound rs'" if "rs_ledger rs' = rs_ledger rs" "rs_leases rs' = ls" "lane_reachable ls"
      "fence_of (rs_leases rs) (PRIVILEGED, privileged_scope) \<le> fence_of ls (PRIVILEGED, privileged_scope)" for ls
    using that x reach unfolding outgrown_def by auto
  from via reach(2) run show ?thesis
  proof (cases rule: steps_cases)
    case (no_lease e)
    then show ?thesis using out by simp
  next
    case (unreserved e lease ls)
    then show ?thesis using grown [of ls] kept acquired_fence(1,2) [OF reach(1)] by auto
  next
    case (uncleared e lease ls env)
    then show ?thesis using grown [of ls] kept acquired_fence(1,2) [OF reach(1)] by auto
  next
    case (executed lease ls env g l2 y rs3)
    have "reserved_for env l2"
      using clearance_InrD(1) [OF ledger_reachable_ok executed(3)] privileged_reservation(1) [OF reach(2) executed(2)] by blast
    then have "en_fence x = lr_fence_token lease"
      using privileged_reservation(3) [OF reach(2) executed(2)] kept [OF executed(2)] x(1) by (auto simp: reserved_for_def)
    then have False using acquired_fence [OF reach(1)] executed(1) x(2) by fastforce
    then show ?thesis ..
  qed
qed

subsection \<open>Progress\<close>

lemma exact_registryD:
  assumes "exact_node_registry bound n now = Inr nodes"
  shows "nodes = [(nd_node_id n, n)]" "validate_snapshot n now = Inr ()"
    "nd_capabilities n = task_required_capabilities (bo_universal_task bound)" "nd_supported_adapters n = [ra_adapter_id (bo_binding bound)]"
    "nd_supported_lanes n = [ra_lane (bo_binding bound)]" "nd_privacy_classes n = [task_privacy (bo_universal_task bound)]"
    "nd_resource_patterns n = task_target_resources (bo_universal_task bound)" "registry_ok nodes"
proof -
  show n: "nodes = [(nd_node_id n, n)]" and v: "validate_snapshot n now = Inr ()"
    and "nd_capabilities n = task_required_capabilities (bo_universal_task bound)" "nd_supported_adapters n = [ra_adapter_id (bo_binding bound)]"
    "nd_supported_lanes n = [ra_lane (bo_binding bound)]" "nd_privacy_classes n = [task_privacy (bo_universal_task bound)]"
    "nd_resource_patterns n = task_target_resources (bo_universal_task bound)"
    using assms by (auto simp: exact_node_registry_def register_cases split: if_splits sum.splits)
  have "registry_ok []" by (simp add: registry_ok_def)
  from registry_ok_update [OF this v] show "registry_ok nodes" by (simp add: n)
qed

text \<open>The evidence of exactly one node, naming exactly the task's needs, routes to that node.\<close>

lemma exact_routed:
  assumes "exact_node_registry bound n now = Inr nodes" "route_checked (bo_universal_task bound) (ra_adapter_id (bo_binding bound))"
    and "\<forall>r\<in>set (task_target_resources (bo_universal_task bound)). list_all plain_char r"
  shows "\<exists>rp. plan_route frepr nodes (bo_universal_task bound) (ra_adapter_id (bo_binding bound)) (ra_lane (bo_binding bound)) now = Inr rp \<and>
    rp_status rp = ''ROUTED'' \<and> rp_selected_node_id rp = Some (nd_node_id n) \<and> routed_node rp = Inr (nd_node_id n, nd_generation n)"
proof -
  note e = exact_registryD [OF assms(1)]
  obtain rp where rp: "plan_route frepr nodes (bo_universal_task bound) (ra_adapter_id (bo_binding bound)) (ra_lane (bo_binding bound)) now = Inr rp"
    using route_plan_total [OF assms(2)] by blast
  have "fresh_at now n" using e(2) by (auto simp: validate_snapshot_def fresh_at_def)
  moreover have "all_resources_match (task_target_resources (bo_universal_task bound)) (nd_resource_patterns n)"
    using assms(3) fnmatch_refl unfolding e(7) all_resources_match_def list_all_iff list_ex_iff by blast
  ultimately have "eligible (bo_universal_task bound) (ra_adapter_id (bo_binding bound)) (ra_lane (bo_binding bound)) now n"
    unfolding eligible_def e(3-6) by simp
  then have "candidates nodes (bo_universal_task bound) (ra_adapter_id (bo_binding bound)) (ra_lane (bo_binding bound)) now = [n]"
    by (simp add: candidates_def e(1))
  then have "rp_status rp = ''ROUTED'' \<and> rp_selected_node_id rp = Some (nd_node_id n) \<and> routed_node rp = Inr (nd_node_id n, nd_generation n)"
    using route_plan_cases [OF rp] by (simp add: routed_node_def)
  then show ?thesis using rp by blast
qed

lemma exact_checked:
  assumes "exact_node_registry bound n now = Inr nodes" "partition_ref (task_id (bo_universal_task bound))"
    and "prefix ''task:'' (task_id (bo_universal_task bound))" "\<forall>r\<in>set (task_target_resources (bo_universal_task bound)). partition_ref r"
  shows "route_checked (bo_universal_task bound) (ra_adapter_id (bo_binding bound))"
  using exact_registryD(2-7) [OF assms(1)] assms(2-4)
  by (auto simp: route_checked_def validate_snapshot_def nonempty_unique_def list_all_iff split: if_splits)

lemma runner_exact_routed:
  assumes t: "from_mapping v = Inr t" and bo: "bind_runner_operation t route operation source issue = Inr bo" and pr: "preparable t bo"
    and ex: "exact_node_registry bo n now = Inr nodes"
  shows "\<exists>rp. plan_route frepr nodes (bo_universal_task bo) (ra_adapter_id (bo_binding bo)) (ra_lane (bo_binding bo)) now = Inr rp \<and>
    routed_node rp = Inr (nd_node_id n, nd_generation n)"
proof -
  note u = bind_runner_task [OF bo]
  have pre: "prefix ''task:'' (task_id (bo_universal_task bo))" unfolding u(6) by (simp add: bound_name_def)
  have pt: "partition_ref (task_id (bo_universal_task bo))" unfolding u(6) by (rule bound_names_of(2) [OF bo]) simp
  have "route_checked (bo_universal_task bo) (ra_adapter_id (bo_binding bo))"
    by (rule exact_checked [OF ex pt pre]) (use accepted_refs(1) [OF t pr] in \<open>simp add: u(8)\<close>)
  moreover have "list_all plain_char r" if "r \<in> set (task_target_resources (bo_universal_task bo))" for r
  proof -
    obtain kvs where "rt_files (field_value kvs ''allowed_files'') = Inr (rt_allowed_files t)"
      using t unfolding from_mapping_Inr by blast
    then show ?thesis using that files_bounded repo_path_plain unfolding u(8) by fastforce
  qed
  ultimately show ?thesis using exact_routed [OF ex] by blast
qed

text \<open>A successful mechanical result that the lifecycle accepts.\<close>

definition mechanical_ok :: "bound_operation \<Rightarrow> mechanical_result \<Rightarrow> bool" where
  "mechanical_ok bound m \<longleftrightarrow> mr_succeeded m \<and> mr_validation_status m = ''PASS'' \<and> mr_reason_code m \<noteq> [] \<and>
     set (mr_reason_code m) \<subseteq> set upper_digits_underscore \<and> public_ref (mr_before_state_ref m) \<and> public_ref (mr_after_state_ref m) \<and>
     distinct (mr_touched_resources m) \<and> mr_touched_resources m \<noteq> [] \<and> set (mr_touched_resources m) \<subseteq> set (ir_resources (bo_operation_ir bound))"

lemma adapter_accepts:
  assumes "validate_green_grant bound g = Inr ()" "backend bound g rs = (Inr m, rs)" "mechanical_ok bound m"
    and "\<forall>r\<in>set (ir_resources (bo_operation_ir bound)). public_ref r"
  shows "\<exists>r. green_adapter bound backend g rs = (Inr r, rs) \<and> result_accepted g r \<and> er_outcome r = ''SUCCEEDED''"
  using assms
  by (auto simp: green_adapter_def sbind_def mechanical_ok_def result_accepted_def validate_result_def list_ex_iff
      validate_actual_touched_resources_def touched_ref_def Let_def validate_green_grant_def)

lemma prepared_green_grant:
  assumes "ledger_reachable (rs_ledger rs)" "prepare frepr nodes envs planner (green_request bound ttl now parent) t1 t2 rs = (Inr h, rs')"
    and "gate_grant frepr nodes envs current_ref t now h rs' = Inr g"
  shows "validate_green_grant bound g = Inr ()"
proof -
  note p = prepare_success [OF assms(1,2)] and d = grant_InrD(8) [OF assms(3)] and v = prepared_envelope_valid(3) [OF assms(1,2)]
  obtain pol dec where "adapter_plan planner (ra_adapter_id (bo_binding bound)) (bo_universal_task bound) (bo_operation_ir bound) pol dec
      (bo_target_state_ref bound) (gh_fence_token h) = Inr (gh_envelope h)"
    using p(3) by (auto simp: green_request_def)
  then have "gh_envelope h = \<lparr>ev_operation_id = ir_operation_id (bo_operation_ir bound), ev_adapter_id = ra_adapter_id (bo_binding bound),
      ev_target_state_ref = bo_target_state_ref bound, ev_fence_token = gh_fence_token h,
      ev_idempotency_key = bound_key bound, ev_resources = ir_resources (bo_operation_ir bound), ev_effects = ir_effects (bo_operation_ir bound),
      ev_effect_class = ev_effect_class (gh_envelope h), ev_policy_reason_code = ev_policy_reason_code (gh_envelope h),
      ev_required_capabilities = task_required_capabilities (bo_universal_task bound), ev_privacy = ev_privacy (gh_envelope h), ev_dry_run = ev_dry_run (gh_envelope h)\<rparr>"
    by (auto elim!: adapter_plan_InrD)
  then have "ev_operation_id (gh_envelope h) = ir_operation_id (bo_operation_ir bound)" "ev_adapter_id (gh_envelope h) = ra_adapter_id (bo_binding bound)"
      "ev_target_state_ref (gh_envelope h) = bo_target_state_ref bound" "ev_idempotency_key (gh_envelope h) = bound_key bound"
      "ev_resources (gh_envelope h) = ir_resources (bo_operation_ir bound)" "ev_effects (gh_envelope h) = ir_effects (bo_operation_ir bound)"
      "ev_required_capabilities (gh_envelope h) = task_required_capabilities (bo_universal_task bound)"
    by (metis execution_envelope.select_convs)+
  then show ?thesis
    using d v p(1,6) by (simp add: validate_green_grant_def handoff_backed_def green_request_def)
qed

text \<open>The privileged path, from a free lane and a new key to the released lease.\<close>

lemma clearance_progress:
  assumes ok: "ledger_ok s" and res: "reserved_for env s" and valid: "validate_envelope env = Inr ()" and ng: "ev_effect_class env \<noteq> GREEN"
    and ev: "evidence \<noteq> []" "\<forall>e\<in>set evidence. public_ref e" and fresh: "ev_effect_class env = RED \<longrightarrow> fresh"
    and ref: "ref2 bound = bo_target_state_ref bound"
  shows "\<exists>g. privileged_clearance bound env evidence fresh ref2 s = Inr g \<and> pg_execution_authorized g \<and> pg_resources g = ev_resources env"
proof -
  obtain v where "pep_ledger_view (ev_idempotency_key env) s = Inr (v, ev_fence_token env, Some ''RESERVED'')"
      "validate_ledger env v (ev_fence_token env) (Some ''RESERVED'') = Inr ()"
    using reserved_checks [OF ok res] .
  moreover have "validate_authority_binding env \<lparr>ac_evidence_refs = evidence, ac_operation_id = ev_operation_id env,
      ac_target_state_ref = ev_target_state_ref env, ac_effect_class = ev_effect_class env, ac_resources = ev_resources env, ac_fresh = fresh\<rparr> = Inr ()"
    using ev by (auto simp: validate_authority_binding_def list_ex_iff)
  ultimately show ?thesis
    using valid ng fresh ref ev(1)
    by (simp add: privileged_clearance_def authorize_privileged_broker_request_def pep_evaluate_def reraise_as_def guards.simps
        exact_authority_verifier_def privileged_execution_grant_def)
qed

lemma privileged_hash_is_hash: "is_hash (privileged_grant_hash g)"
  using json_digest_chars by (auto simp: is_hash_def privileged_grant_hash_def list_all_iff)

lemma execute_progress:
  assumes ok: "ledger_reachable (rs_ledger rs)"
    and x: "ledger_entry (rs_ledger rs) (bound_key bound) = Some x" "en_identity x = bound_identity bound" "en_fence x = f" "en_grant x = None" "en_receipt x = None"
    and b: "\<And>rs. backend bound g rs = (Inr r, rs)" and v: "validate_privileged_result bound g r = Inr ()"
  shows "\<exists>rs'. privileged_execute bound f g backend rs = (Inr r, rs') \<and> rs_leases rs' = rs_leases rs"
proof -
  note ok' = ledger_reachable_ok [OF ok]
  have f: "1 \<le> f" using ledger_entry_fence [OF ok' x(1)] x(3) by simp
  let ?c = "MarkStarted (bound_identity bound) f (privileged_grant_hash g)"
  have c: "call_check ?c = Inr ()" using f by (simp add: ledger_fence_check_def ledger_scope_hash_def privileged_hash_is_hash)
  have e: "entry_step ?c (ledger_entry (rs_ledger rs) (op_idempotency_key (bound_identity bound))) = Inr (x\<lparr>en_grant := Some (privileged_grant_hash g)\<rparr>)"
    using x by (simp add: known_entry_def)
  obtain w l1 where m: "ledger_mark_started (bound_identity bound) f (privileged_grant_hash g) (rs_ledger rs) = (Inr w, l1)"
    using mark_started_cases [OF ok' c] e by (simp add: Let_def del: entry_step.simps)
  have l1: "ledger_reachable l1" using ledger_reachable_ops(3) [OF ok, of "bound_identity bound" f "privileged_grant_hash g"] m by simp
  have y: "ledger_entry l1 (bound_key bound) = Some (x\<lparr>en_grant := Some (privileged_grant_hash g)\<rparr>)"
    using mark_started_Inr [OF ok' m] x(1) by auto
  let ?y = "x\<lparr>en_grant := Some (privileged_grant_hash g)\<rparr>"
  have args: "call_check (Finish (bound_identity bound) (en_fence ?y) (mr_succeeded r) (mr_reason_code r) (mr_touched_resources r)
      (mr_before_state_ref r) (mr_after_state_ref r) (mr_validation_status r)) = Inr ()"
    using v f x(3) public_ledger_ref
    by (auto simp: validate_privileged_result_def ledger_fence_check_def ledger_public_refs_def ledger_reason_def list_ex_iff)
  obtain w2 l2 where fin: "ledger_finish (bound_identity bound) f (mr_succeeded r) (mr_reason_code r) (mr_touched_resources r)
      (mr_before_state_ref r) (mr_after_state_ref r) (mr_validation_status r) l1 = (Inr w2, l2)"
    using finish_open [OF ledger_reachable_ok [OF l1], of "bound_identity bound", unfolded bound_identity_key, OF y _ _ args] x(2,3,5) by auto
  show ?thesis using m fin b v by (simp add: privileged_execute_def sbind_def on_ledger_def)
qed

lemma privileged_progress:
  assumes reach: "ledger_reachable (rs_ledger rs)" "lane_reachable (rs_leases rs)" and ttl: "0 < ttl" "t2 < t1 + ttl"
    and free: "lease_current t1 PRIVILEGED privileged_scope (rs_leases rs) = None"
    and none: "ledger_entry (rs_ledger rs) (bound_key bound) = None"
    and f: "f = fence_of (rs_leases rs) (PRIVILEGED, privileged_scope) + 1" "f < 2 ^ 63"
    and env: "privileged_envelope bound f = Inr env" "validate_envelope env = Inr ()"
    and ev: "evidence \<noteq> []" "\<forall>e\<in>set evidence. public_ref e" and fresh: "ev_effect_class env = RED \<longrightarrow> fresh"
    and ref: "ref2 bound = bo_target_state_ref bound"
    and b: "\<And>g rs. backend bound g rs = (Inr r, rs)" and v: "\<And>g. pg_execution_authorized g \<Longrightarrow> pg_resources g = ev_resources env \<Longrightarrow>
      validate_privileged_result bound g r = Inr ()"
  shows "\<exists>rs'. privileged_steps bound node_id ref2 backend evidence fresh ttl t1 t2 rs = (Inr (r, True), rs')"
proof -
  let ?new = "new_lease t1 (task_id (bo_universal_task bound)) PRIVILEGED node_id privileged_scope ttl (Some (bo_target_state_ref bound)) f"
  obtain lease ls where l: "scheduler_reserve t1 (privileged_request bound node_id ttl) (rs_leases rs) = (Inr lease, ls)"
      "lr_fence_token lease = f" "lane_leases ls (PRIVILEGED, privileged_scope) = Some ?new"
    using acquire_free [OF ttl(1) free] f(1) by (simp add: scheduler_reserve_def privileged_request_def)
  have ids: "ev_idempotency_key env = bound_key bound" "ev_operation_id env = ir_operation_id (bo_operation_ir bound)"
      "ev_target_state_ref env = bo_target_state_ref bound" "ev_fence_token env = f"
    using env(1) by (auto simp: privileged_envelope_def elim!: adapter_plan_InrD split: option.splits if_splits)
  have ng: "ev_effect_class env \<noteq> GREEN"
    using env(1) by (auto simp: privileged_envelope_def elim!: adapter_plan_InrD split: option.splits if_splits)
  have pub: "public_ref (ev_target_state_ref env)" "ev_operation_id env \<noteq> []" "ev_idempotency_key env \<noteq> []"
    using env(2) public_ref.accepted_nonempty by (auto simp: validate_envelope_def split: if_splits)
  obtain l2 where r: "reserve_privileged_authority bound f (rs_ledger rs) = (Inr env, l2)" "reserved_for env l2" "ledger_ok l2"
    using privileged_reserved [OF reach(1) env(1) _ f(2) pub] none ids(1) by auto
  obtain g where g: "privileged_clearance bound env evidence fresh ref2 l2 = Inr g" "pg_execution_authorized g" "pg_resources g = ev_resources env"
    using clearance_progress [where ?ref2.0 = ref2, OF r(3,2) env(2) ng ev fresh ref] by blast
  let ?rs2 = "rs\<lparr>rs_leases := ls, rs_ledger := l2\<rparr>"
  obtain x where x: "ledger_entry l2 (bound_key bound) = Some x" "en_identity x = bound_identity bound" "en_fence x = f" "en_grant x = None" "en_receipt x = None"
    using r(2) ids by (auto simp: reserved_for_def bound_identity_def)
  have reach2: "ledger_reachable (rs_ledger ?rs2)" using privileged_reservation(1) [OF reach(1) r(1)] by simp
  obtain rs3 where ex: "privileged_execute bound f g backend ?rs2 = (Inr r, rs3)" "rs_leases rs3 = ls"
    using execute_progress [where backend = backend and r = r and g = g, OF reach2 _ x(2-5) b v [OF g(2,3)]] x(1) by auto
  have "lease_held t2 PRIVILEGED privileged_scope node_id f ls = Inr ?new"
    using l(3) ttl(2) by (simp add: lease_held_Inr lease_current_def lease_row_def expired_def)
  then have "\<exists>rs'. privileged_steps bound node_id ref2 backend evidence fresh ttl t1 t2 rs = (Inr (r, True), rs')"
    using l r(1) g(1) ex
    by (simp add: privileged_steps_def sbind_def on_leases_def on_ledger_def scheduler_release_exact_def release_cases)
  then show ?thesis .
qed

lemma fresh_dispatch:
  assumes "ledger_reachable (rs_ledger rs)" "ledger_entry (rs_ledger rs) (bound_key bound) = None"
  shows "replay_or bound body rs = body rs"
  using terminal_replay_entry [OF assms(1), of bound] ledger_status_entry [OF ledger_reachable_ok [OF assms(1)], of "bound_key bound"] assms(2)
  by (simp add: replay_or_def fail_closed_on_started_def)

text \<open>
  What the GREEN path needs of a bound task and the stores, and the handoff, the grant and the live lease
  it then has.
\<close>

definition green_ready ::
    "runner_task \<Rightarrow> bound_operation \<Rightarrow> (green_handoff \<Rightarrow> string) \<Rightarrow> real \<Rightarrow> dispatch_clock \<Rightarrow> runner_state \<Rightarrow> bool" where
  "green_ready t bo current_ref ttl ck rs \<longleftrightarrow>
     preparable t bo \<and> (\<forall>h. current_ref h = bo_target_state_ref bo) \<and>
     ledger_reachable (rs_ledger rs) \<and> lane_reachable (rs_leases rs) \<and> 0 < ttl \<and>
     lease_current (ck_reserve ck) (ra_lane (bo_binding bo)) (bo_lease_scope_key bo) (rs_leases rs) = None \<and>
     ledger_entry (rs_ledger rs) (ir_idempotency_key (bo_operation_ir bo)) = None \<and>
     fence_of (rs_leases rs) (ra_lane (bo_binding bo), bo_lease_scope_key bo) + 1 < 2 ^ 63 \<and>
     (\<forall>u\<in>{ck_gate ck, ck_begin ck, ck_finalize ck, ck_done ck}. u < ck_reserve ck + ttl)"

lemma green_granted:
  fixes parent :: str_dict
  assumes "from_mapping v = Inr t" "bind_runner_operation t route operation source issue = Inr bo"
    and "exact_node_registry bo snapshot now = Inr nodes" and ready: "green_ready t bo current_ref ttl ck rs"
  defines "q \<equiv> green_request bo ttl now parent"
  shows "\<exists>h rs1 g. prepare frepr nodes default_lane_policies default_authority_manifests q (ck_reserve ck) (ck_release ck) rs = (Inr h, rs1) \<and>
    gate_grant frepr nodes default_lane_policies current_ref (ck_gate ck) now h rs1 = Inr g \<and> public_ref (pq_lease_scope_key q) \<and>
    (\<forall>u\<in>{ck_begin ck, ck_finalize ck, ck_done ck}. lease_current u (pq_lane q) (pq_lease_scope_key q) (rs_leases rs1) \<noteq> None) \<and>
    gh_idempotency_key h = ir_idempotency_key (bo_operation_ir bo)"
proof -
  have r: "preparable t bo" "\<forall>h. current_ref h = bo_target_state_ref bo" "ledger_reachable (rs_ledger rs)" "lane_reachable (rs_leases rs)" "0 < ttl"
      "lease_current (ck_reserve ck) (ra_lane (bo_binding bo)) (bo_lease_scope_key bo) (rs_leases rs) = None"
      "ledger_entry (rs_ledger rs) (ir_idempotency_key (bo_operation_ir bo)) = None"
      "fence_of (rs_leases rs) (ra_lane (bo_binding bo), bo_lease_scope_key bo) + 1 < 2 ^ 63"
      "\<forall>u\<in>{ck_gate ck, ck_begin ck, ck_finalize ck, ck_done ck}. u < ck_reserve ck + ttl"
    using ready by (simp_all add: green_ready_def)
  obtain rp where rp: "plan_route frepr nodes (bo_universal_task bo) (ra_adapter_id (bo_binding bo)) (ra_lane (bo_binding bo)) now = Inr rp"
      "routed_node rp = Inr (nd_node_id snapshot, nd_generation snapshot)"
    using runner_exact_routed [OF assms(1,2) r(1) assms(3)] by blast
  obtain h rs1 where p: "prepare frepr nodes default_lane_policies default_authority_manifests q (ck_reserve ck) (ck_release ck) rs = (Inr h, rs1)"
    using bound_prepared [OF assms(1,2) r(1) rp r(3-8)] unfolding q_def by blast
  note prep = prepare_success [OF r(3) p]
  have live: "lease_current u (pq_lane q) (pq_lease_scope_key q) (rs_leases rs1) \<noteq> None" if "u \<in> {ck_gate ck, ck_begin ck, ck_finalize ck, ck_done ck}" for u
  proof -
    have "u < ck_reserve ck + ttl" using that r(9) by blast
    then show ?thesis by (intro prepare_lease_live [OF r(3) p]) (simp_all add: r(6) q_def green_request_def)
  qed
  have "ev_target_state_ref (gh_envelope h) = bo_target_state_ref bo" using prep(3) by (auto simp: q_def green_request_def elim!: adapter_plan_InrD)
  then have ref: "current_ref h = ev_target_state_ref (gh_envelope h)" using r(2) by simp
  obtain g where g: "gate_grant frepr nodes default_lane_policies current_ref (ck_gate ck) now h rs1 = Inr g"
    using prepared_gate [where current_ref = current_ref, OF exact_registryD(8) [OF assms(3)] r(3) p ref live [of "ck_gate ck"]]
    by (auto simp: q_def green_request_def)
  have "public_ref (pq_lease_scope_key q)"
    using accepted_refs(4) [OF assms(1) r(1)] bind_runner_InrD(11) [OF assms(2)] by (simp add: q_def green_request_def)
  moreover have "gh_idempotency_key h = ir_idempotency_key (bo_operation_ir bo)"
    using prepared_green_grant [OF r(3) p [unfolded q_def] g] grant_InrD(8) [OF g] by (simp add: validate_green_grant_def)
  ultimately show ?thesis using p g live by blast
qed

lemma green_body_completes:
  assumes "from_mapping v = Inr t" "bind_runner_operation t route operation source issue = Inr bo"
    and "exact_node_registry bo snapshot now = Inr nodes" and ready: "green_ready t bo current_ref ttl ck rs"
    and backend: "\<forall>g rs. \<exists>m. backend bo g rs = (Inr m, rs) \<and> mechanical_ok bo m"
  shows "\<exists>x rs'. green_body frepr bo snapshot current_ref backend now ttl parent ck rs = (Inr (from_green_receipt bo x), rs') \<and>
    xr_terminal_status x = ''COMPLETED'' \<and> xr_effect_execution_started x \<and> xr_lease_released x \<and>
    ledger_status (ir_idempotency_key (bo_operation_ir bo)) (rs_ledger rs') = Some ''COMPLETED'' \<and>
    lane_leases (rs_leases rs') (ra_lane (bo_binding bo), bo_lease_scope_key bo) = None"
proof -
  let ?q = "green_request bo ttl now parent"
  have reach: "ledger_reachable (rs_ledger rs)" and pr: "preparable t bo" using ready by (simp_all add: green_ready_def)
  obtain h rs1 g where p: "prepare frepr nodes default_lane_policies default_authority_manifests ?q (ck_reserve ck) (ck_release ck) rs = (Inr h, rs1)"
    and g: "gate_grant frepr nodes default_lane_policies current_ref (ck_gate ck) now h rs1 = Inr g" and sc: "public_ref (pq_lease_scope_key ?q)"
    and lives: "\<forall>u\<in>{ck_begin ck, ck_finalize ck, ck_done ck}. lease_current u (pq_lane ?q) (pq_lease_scope_key ?q) (rs_leases rs1) \<noteq> None"
    and key: "gh_idempotency_key h = ir_idempotency_key (bo_operation_ir bo)"
    using green_granted [OF assms(1-3) ready] by blast
  have v: "validate_green_grant bo g = Inr ()" by (rule prepared_green_grant [OF reach p g])
  have pub: "\<forall>r\<in>set (ir_resources (bo_operation_ir bo)). public_ref r"
    using accepted_refs(1) [OF assms(1) pr] unfolding bind_runner_task(4) [OF assms(2)] by blast
  have ex: "\<exists>r. green_adapter bo backend g rs = (Inr r, rs) \<and> result_accepted g r \<and> er_outcome r = ''SUCCEEDED''" for rs
    using adapter_accepts [OF v _ _ pub] backend by blast
  obtain x rs2 where x: "exec_run (ck_begin ck) (ck_finalize ck) (ck_done ck) (green_adapter bo backend) g rs1 = (Inr x, rs2)"
      "xr_terminal_status x = ''COMPLETED''" "xr_lease_released x" "ledger_status (gh_idempotency_key h) (rs_ledger rs2) = Some ''COMPLETED''"
      "lane_leases (rs_leases rs2) (pq_lane ?q, pq_lease_scope_key ?q) = None"
    using granted_run_completes [where executor = "green_adapter bo backend", OF reach p g sc lives ex] by blast
  have steps: "green_steps frepr bo nodes current_ref backend now ttl parent ck rs = (Inr x, rs2)"
    using p g x(1) bound_runner_green [OF assms(2)]
    by (simp add: green_steps_def sbind_def prepare_green_authority_def grant_green_authority_def default_registries guarded_def)
  have "green_body frepr bo snapshot current_ref backend now ttl parent ck rs = (Inr (from_green_receipt bo x), rs2)"
    using steps assms(3) by (simp add: green_body_def sbind_def sreraise_def)
  moreover have "xr_effect_execution_started x" using run_InrD [OF x(1)] by (auto simp: exec_finalize_def guarded_Inr_iff sbind_Inr_iff mk_exec_receipt_def)
  ultimately show ?thesis using x(2-5) key by (auto simp: green_request_def)
qed

subsection \<open>Properties\<close>

text \<open>
  C6. A GREEN dispatch happens once.  After a dispatch that returned a receipt, and any further calls on
  the ledger, every dispatch of the same operation, with any node, verifier, backend, clock or environment,
  returns the facts of that first receipt marked as a replay and leaves both stores as they are: the
  second backend never runs.
\<close>

theorem green_dispatch_replays:
  assumes "ledger_reachable (rs_ledger rs)" "backend_via backend"
    and "run_green_dispatch frepr bound snapshot current_ref backend now ttl parent ck rs = (Inr out, rs')"
    and "rs_ledger rs'' = snd (run_ops ledger_exec cs (rs_ledger rs'))"
  shows "run_green_dispatch frepr bound snapshot' current_ref' backend' now' ttl' parent' ck' rs'' =
    (Inr (out\<lparr>dr_replayed := True, dr_execution_started := True, dr_lease_released := True\<rparr>), rs'')"
  using green_dispatch.replays [where p = "(snapshot, current_ref, backend, now, ttl, parent, ck)" and rs'' = rs'' and cs = cs
      and p' = "(snapshot', current_ref', backend', now', ttl', parent', ck')", of rs frepr bound out rs'] assms by simp

text \<open>
  C7. A privileged dispatch happens once, in the same sense: whatever evidence, verifier readings, backend
  or clock a later dispatch of the operation comes with, it answers from the ledger.
\<close>

theorem privileged_dispatch_replays:
  assumes "ledger_reachable (rs_ledger rs)" "backend_via backend"
    and "run_privileged_dispatch frepr bound snapshot ref1 ref2 backend evidence fresh now ttl t1 t2 rs = (Inr out, rs')"
    and "rs_ledger rs'' = snd (run_ops ledger_exec cs (rs_ledger rs'))"
  shows "run_privileged_dispatch frepr bound snapshot' ref1' ref2' backend' evidence' fresh' now' ttl' t1' t2' rs'' =
    (Inr (out\<lparr>dr_replayed := True, dr_execution_started := True, dr_lease_released := True\<rparr>), rs'')"
  using privileged_dispatch.replays [where p = "(snapshot, ref1, ref2, backend, evidence, fresh, now, ttl, t1, t2)" and rs'' = rs'' and cs = cs
      and p' = "(snapshot', ref1', ref2', backend', evidence', fresh', now', ttl', t1', t2')", of rs frepr bound out rs'] assms by simp

text \<open>
  C8. How a privileged dispatch fails, when its backend uses the ledger only through its calls and leaves
  the leases alone.  Either nothing changed, or the global privileged lease was taken and is still there:
  the error is a dispatch error, no other task can take the lease while it is live, and the ledger
  holds at most the reservation, or it holds start evidence and then, after any further ledger calls,
  every dispatch of the operation answers the same whatever it is given and changes nothing.
\<close>

theorem privileged_failure_holds_lease:
  assumes "ledger_reachable (rs_ledger rs)" "backend_via backend" "backend_leases backend"
    and "run_privileged_dispatch frepr bound snapshot ref1 ref2 backend evidence fresh now ttl t1 t2 rs = (Inl e, rs')"
  shows "rs' = rs \<or> (\<exists>lease. (\<exists>r. e = RunnerVNextDispatchError r) \<and>
    scheduler_reserve t1 (privileged_request bound (nd_node_id snapshot) ttl) (rs_leases rs) = (Inr lease, rs_leases rs') \<and>
    (\<forall>t rq. lease_current t PRIVILEGED privileged_scope (rs_leases rs') \<noteq> None \<and> rq_lane rq = PRIVILEGED \<and> rq_scope_key rq = privileged_scope \<and>
       rq_task_id rq \<noteq> task_id (bo_universal_task bound) \<and> 0 < rq_ttl_seconds rq \<longrightarrow>
       scheduler_reserve t rq (rs_leases rs') = (Inl (LeaseError ''LEASE_CONFLICT_ACTIVE_OWNER''), rs_leases rs')) \<and>
    ((\<exists>res. reserve_privileged_authority bound (lr_fence_token lease) (rs_ledger rs) = (res, rs_ledger rs')) \<or>
     (\<forall>cs leases. \<exists>res. \<forall>sn r1 r2 b ev fr n tt u1 u2.
        run_privileged_dispatch frepr bound sn r1 r2 b ev fr n tt u1 u2
          \<lparr>rs_leases = leases, rs_ledger = snd (run_ops ledger_exec cs (rs_ledger rs'))\<rparr> =
        (res, \<lparr>rs_leases = leases, rs_ledger = snd (run_ops ledger_exec cs (rs_ledger rs'))\<rparr>))))"
proof (cases "rs' = rs")
  case False
  then obtain e' where st: "privileged_steps bound (nd_node_id snapshot) ref2 backend evidence fresh ttl t1 t2 rs = (Inl e', rs')"
      "e = privileged_handler e'"
    using run_privileged_Inl [OF assms(4)] by blast
  note f = steps_failure [OF assms(2,3,1) st(1)]
  then obtain lease where lease: "scheduler_reserve t1 (privileged_request bound (nd_node_id snapshot) ttl) (rs_leases rs) = (Inr lease, rs_leases rs')"
      "(\<exists>res. reserve_privileged_authority bound (lr_fence_token lease) (rs_ledger rs) = (res, rs_ledger rs')) \<or>
       (\<exists>g. started_with bound g (lr_fence_token lease) (rs_ledger rs'))"
    using False by blast
  have settled: "\<exists>res. \<forall>sn r1 r2 b ev fr n tt u1 u2. run_privileged_dispatch frepr bound sn r1 r2 b ev fr n tt u1 u2
          \<lparr>rs_leases = leases, rs_ledger = snd (run_ops ledger_exec cs (rs_ledger rs'))\<rparr> =
        (res, \<lparr>rs_leases = leases, rs_ledger = snd (run_ops ledger_exec cs (rs_ledger rs'))\<rparr>)"
    if "started_with bound g (lr_fence_token lease) (rs_ledger rs')" for g cs leases
  proof -
    have "ledger_reachable (rs_ledger rs')" using f by simp
    from started_with_run [OF this that] ledger_run_reachable [OF this] show ?thesis
      by (intro started_settled) (simp_all, blast)
  qed
  show ?thesis
    using lease settled lease_conflict [OF lease(1)] privileged_handler_error [of e'] unfolding st(2) by blast
qed simp

text \<open>
  C9. A privileged reservation can be orphaned.  Once the privileged lane has issued a token above the fence
  of an operation that is reserved and not started, no dispatch of it ever succeeds: each one fails,
  leaves the ledger as it is and the operation in the same situation, because nothing on the privileged
  path rebinds the fence.
\<close>

theorem privileged_reservation_orphaned:
  assumes "outgrown bound rs" "backend_via backend"
    and "run_privileged_dispatch frepr bound snapshot ref1 ref2 backend evidence fresh now ttl t1 t2 rs = (res, rs')"
  shows "(\<exists>e. res = Inl e) \<and> rs_ledger rs' = rs_ledger rs \<and> outgrown bound rs'"
proof -
  obtain x where x: "ledger_entry (rs_ledger rs) (bound_key bound) = Some x" "en_receipt x = None" and reach: "ledger_reachable (rs_ledger rs)"
    using assms(1) unfolding outgrown_def by blast
  then have none: "terminal_replay bound (rs_ledger rs) = Inr None" using terminal_replay_entry [OF reach] by simp
  obtain st rs1 where st: "privileged_steps bound (nd_node_id snapshot) ref2 backend evidence fresh ttl t1 t2 rs = (st, rs1)"
    by (cases "privileged_steps bound (nd_node_id snapshot) ref2 backend evidence fresh ttl t1 t2 rs")
  obtain e where e: "st = Inl e" "outgrown bound rs1" "rs_ledger rs1 = rs_ledger rs"
    using outgrown_steps [OF assms(1,2) st] by blast
  have "(\<exists>e. res = Inl e \<and> rs' = rs) \<or> (\<exists>e. res = Inl e \<and> rs' = rs1)"
    using assms(3) none st e(1)
    by (auto simp: run_privileged_dispatch_def replay_or_def privileged_body_def privileged_checked_def guarded_def sbind_def
        split: sum.splits)
  then show ?thesis using assms(1) e(2,3) by auto
qed

text \<open>
  C5. A validated task runs to completion.  A task the envelope validator accepted, bound on a route of the
  table and preparable, dispatched with the exact evidence of a valid node, a free lane, a new key, a target
  state that has not moved, a lease that outlives the dispatch and a backend that answers with an acceptable success,
  returns a COMPLETED receipt; the ledger then says COMPLETED and the lane is free.
\<close>

theorem green_dispatch_completes:
  assumes "from_mapping v = Inr t" "bind_runner_operation t route operation source issue = Inr bo" "preparable t bo"
    and "exact_node_registry bo snapshot now = Inr nodes" "\<forall>h. current_ref h = bo_target_state_ref bo"
    and "ledger_reachable (rs_ledger rs)" "lane_reachable (rs_leases rs)" "0 < ttl"
    and "lease_current (ck_reserve ck) (ra_lane (bo_binding bo)) (bo_lease_scope_key bo) (rs_leases rs) = None"
    and "ledger_entry (rs_ledger rs) (ir_idempotency_key (bo_operation_ir bo)) = None"
    and "fence_of (rs_leases rs) (ra_lane (bo_binding bo), bo_lease_scope_key bo) + 1 < 2 ^ 63"
    and "\<forall>u\<in>{ck_gate ck, ck_begin ck, ck_finalize ck, ck_done ck}. u < ck_reserve ck + ttl"
    and "\<forall>g rs. \<exists>m. backend bo g rs = (Inr m, rs) \<and> mechanical_ok bo m"
  shows "\<exists>out rs'. run_green_dispatch frepr bo snapshot current_ref backend now ttl parent ck rs = (Inr out, rs') \<and>
    dr_terminal_status out = ''COMPLETED'' \<and> dr_execution_started out \<and> dr_lease_released out \<and> \<not> dr_replayed out \<and>
    ledger_status (ir_idempotency_key (bo_operation_ir bo)) (rs_ledger rs') = Some ''COMPLETED'' \<and>
    lane_leases (rs_leases rs') (ra_lane (bo_binding bo), bo_lease_scope_key bo) = None"
proof -
  have ready: "green_ready t bo current_ref ttl ck rs" using assms(3,5-12) by (simp add: green_ready_def)
  have "green_guard bo = Inr ()" using bound_runner_green [OF assms(2)] by (simp add: green_guard_def)
  then show ?thesis
    using green_body_completes [where frepr = frepr and parent = parent and backend = backend, OF assms(1,2,4) ready assms(13)] fresh_dispatch [OF assms(6,10)]
    by (auto simp: run_green_dispatch_def from_green_receipt_def)
qed

subsection \<open>Witnesses\<close>

definition demo_exact_node :: node_snapshot where
  "demo_exact_node = \<lparr>nd_node_id = ''node:a'', nd_generation = 1, nd_route_rank = 0,
     nd_capabilities = [''repository_read'', ''test_execution''], nd_supported_adapters = [''adapter:repo-codegen''],
     nd_supported_lanes = [CODEGEN], nd_privacy_classes = [PUBLIC_SAFE], nd_resource_patterns = [''repo:src/a.py''],
     nd_observed_at = 0, nd_expires_at = 100, nd_attestation_ref = ''attestation:1''\<rparr>"

definition demo_mechanical :: "string \<Rightarrow> mechanical_result" where
  "demo_mechanical res = \<lparr>mr_succeeded = True, mr_reason_code = ''OK'', mr_touched_resources = [res],
     mr_before_state_ref = ''git:a'', mr_after_state_ref = ''git:b'', mr_validation_status = ''PASS'', mr_rollback_requested = False\<rparr>"

definition demo_backend :: "string \<Rightarrow> bound_operation \<Rightarrow> 'g \<Rightarrow> (runner_state, mechanical_result) op" where
  "demo_backend res bound g rs = (Inr (demo_mechanical res), rs)"

definition demo_clock :: dispatch_clock where
  "demo_clock = \<lparr>ck_reserve = 0, ck_release = 1, ck_gate = 2, ck_begin = 3, ck_finalize = 4, ck_done = 5\<rparr>"

lemma demo_backend_leaves: "backend_via (demo_backend res)" "backend_leases (demo_backend res)"
proof -
  have "\<exists>cs. rs_ledger rs = snd (run_ops ledger_exec cs (rs_ledger rs))" for rs :: runner_state by (rule exI [of _ "[]"]) simp
  then show "backend_via (demo_backend res)" by (simp add: backend_via_def demo_backend_def)
qed (simp add: backend_leases_def demo_backend_def)

lemma demo_node_ids: "node_id_ok ''node:a''" "partition_ref ''attestation:1''" "token_ok ''repository_read''" "token_ok ''test_execution''"
    "token_ok ''publish_pull_request''" "partition_ref ''adapter:repo-codegen''" "partition_ref ''adapter:exact-operator-merge''"
    "bounded_pattern partition_ref ''repo:src/a.py''" "bounded_pattern partition_ref ''repo:x''"
  by code_simp+

lemma demo_exact:
  assumes "bind_runner_operation demo_runner_task ''code_generation'' ''codegen'' (Some ''issue:7'') None = Inr bo"
  shows "\<exists>nodes. exact_node_registry bo demo_exact_node 10 = Inr nodes"
proof -
  note u = bind_runner_task [OF assms] and p = demo_preparable [OF assms]
  have fields: "task_target_resources (bo_universal_task bo) = [''repo:src/a.py'']"
      "task_required_capabilities (bo_universal_task bo) = [''repository_read'', ''test_execution'']" "task_privacy (bo_universal_task bo) = PUBLIC_SAFE"
    unfolding u(8,10,11) by (simp_all add: demo_runner_task_def runner_task_privacy_def)
  have "validate_snapshot demo_exact_node 10 = Inr ()"
    using demo_node_ids by (simp add: validate_snapshot_def demo_exact_node_def nonempty_unique_def route_resource_pattern_def)
  then show ?thesis
    using fields p(2,3) by (simp add: exact_node_registry_def register_cases) (simp add: demo_exact_node_def)
qed

lemma demo_mechanical_ok:
  assumes "bind_runner_operation demo_runner_task ''code_generation'' ''codegen'' (Some ''issue:7'') None = Inr bo"
  shows "mechanical_ok bo (demo_mechanical ''repo:src/a.py'')"
proof -
  have "public_ref ''git:a''" "public_ref ''git:b''" by code_simp+
  then show ?thesis
    unfolding mechanical_ok_def bind_runner_task(4) [OF assms]
    by (simp add: demo_mechanical_def demo_runner_task_def upper_digits_underscore_def)
qed

lemma demo_backend_ok:
  assumes bo: "bind_runner_operation demo_runner_task ''code_generation'' ''codegen'' (Some ''issue:7'') None = Inr bo"
  shows "\<forall>g rs. \<exists>m. demo_backend ''repo:src/a.py'' bo g rs = (Inr m, rs) \<and> mechanical_ok bo m"
  using demo_mechanical_ok [OF bo] by (simp add: demo_backend_def)

lemma demo_green_ready:
  assumes "preparable t bo"
  shows "green_ready t bo (\<lambda>h. bo_target_state_ref bo) 30 demo_clock empty_runner"
  using assms empty_runner_reachable
  by (simp add: green_ready_def empty_runner_def empty_lane_store_def lease_current_def lease_row_def fence_of_def empty_ledger_def
      ledger_entry_def ledger_reservation_def demo_clock_def)

theorem green_dispatch_completes_witness:
  "\<exists>bo out rs'. bind_runner_operation demo_runner_task ''code_generation'' ''codegen'' (Some ''issue:7'') None = Inr bo \<and>
    run_green_dispatch demo_repr bo demo_exact_node (\<lambda>h. bo_target_state_ref bo) (demo_backend ''repo:src/a.py'') 10 30 [] demo_clock empty_runner =
      (Inr out, rs') \<and> dr_terminal_status out = ''COMPLETED''"
proof -
  obtain bo where bo: "bind_runner_operation demo_runner_task ''code_generation'' ''codegen'' (Some ''issue:7'') None = Inr bo"
    using demo_bound by blast
  obtain nodes where n: "exact_node_registry bo demo_exact_node 10 = Inr nodes" using demo_exact [OF bo] by blast
  from demo_green_ready [OF demo_preparable(1) [OF bo], unfolded green_ready_def]
  have r: "\<forall>h. (\<lambda>h. bo_target_state_ref bo) h = bo_target_state_ref bo" "ledger_reachable (rs_ledger empty_runner)" "lane_reachable (rs_leases empty_runner)"
      "0 < (30 :: real)" "lease_current (ck_reserve demo_clock) (ra_lane (bo_binding bo)) (bo_lease_scope_key bo) (rs_leases empty_runner) = None"
      "ledger_entry (rs_ledger empty_runner) (ir_idempotency_key (bo_operation_ir bo)) = None"
      "fence_of (rs_leases empty_runner) (ra_lane (bo_binding bo), bo_lease_scope_key bo) + 1 < 2 ^ 63"
      "\<forall>u\<in>{ck_gate demo_clock, ck_begin demo_clock, ck_finalize demo_clock, ck_done demo_clock}. u < ck_reserve demo_clock + 30"
    by blast+
  from green_dispatch_completes [where frepr = demo_repr and parent = "[]" and current_ref = "\<lambda>h. bo_target_state_ref bo"
      and backend = "demo_backend ''repo:src/a.py''", OF demo_task_accepted bo demo_preparable(1) [OF bo] n r demo_backend_ok [OF bo]] bo
  show ?thesis by auto
qed

theorem green_dispatch_replays_witness:
  "\<exists>bo out rs' again. run_green_dispatch demo_repr bo demo_exact_node (\<lambda>h. bo_target_state_ref bo) (demo_backend ''repo:src/a.py'') 10 30 []
      demo_clock empty_runner = (Inr out, rs') \<and>
    run_green_dispatch demo_repr bo demo_exact_node (\<lambda>h. ''git:moved'') (demo_backend ''repo:b'') 20 30 [] demo_clock rs' = (Inr again, rs') \<and>
    dr_replayed again \<and> dr_touched_resources again = dr_touched_resources out"
proof -
  obtain bo where bo: "bind_runner_operation demo_runner_task ''code_generation'' ''codegen'' (Some ''issue:7'') None = Inr bo"
    using demo_bound by blast
  obtain nodes where n: "exact_node_registry bo demo_exact_node 10 = Inr nodes" using demo_exact [OF bo] by blast
  have fresh: "ledger_entry (rs_ledger empty_runner) (ir_idempotency_key (bo_operation_ir bo)) = None"
    using demo_green_ready [OF demo_preparable(1) [OF bo]] by (simp add: green_ready_def)
  obtain x rs' where "green_body demo_repr bo demo_exact_node (\<lambda>h. bo_target_state_ref bo) (demo_backend ''repo:src/a.py'') 10 30 [] demo_clock empty_runner =
      (Inr (from_green_receipt bo x), rs')"
    using green_body_completes [where frepr = demo_repr and parent = "[]" and backend = "demo_backend ''repo:src/a.py''",
      OF demo_task_accepted bo n demo_green_ready [OF demo_preparable(1) [OF bo]] demo_backend_ok [OF bo]] by auto
  then have run: "run_green_dispatch demo_repr bo demo_exact_node (\<lambda>h. bo_target_state_ref bo) (demo_backend ''repo:src/a.py'') 10 30 [] demo_clock
      empty_runner = (Inr (from_green_receipt bo x), rs')"
    using fresh_dispatch [OF empty_runner_reachable(1) fresh] bound_runner_green [OF bo] by (simp add: run_green_dispatch_def green_guard_def)
  have "rs_ledger rs' = snd (run_ops ledger_exec [] (rs_ledger rs'))" by simp
  from green_dispatch_replays [where snapshot' = demo_exact_node and current_ref' = "\<lambda>h. ''git:moved''" and backend' = "demo_backend ''repo:b''"
      and now' = 20 and ttl' = 30 and parent' = "[]" and ck' = demo_clock, OF empty_runner_reachable(1) demo_backend_leaves(1) run this] run
  show ?thesis
    by (intro exI [of _ bo] exI [of _ "from_green_receipt bo x"] exI [of _ rs'] exI [of _ "from_green_receipt bo x\<lparr>dr_replayed := True,
      dr_execution_started := True, dr_lease_released := True\<rparr>"]) simp
qed

definition demo_merge_node :: node_snapshot where
  "demo_merge_node = \<lparr>nd_node_id = ''node:a'', nd_generation = 1, nd_route_rank = 0,
     nd_capabilities = [''publish_pull_request''], nd_supported_adapters = [''adapter:exact-operator-merge''],
     nd_supported_lanes = [MERGE], nd_privacy_classes = [PUBLIC_SAFE], nd_resource_patterns = [''repo:x''],
     nd_observed_at = 0, nd_expires_at = 100, nd_attestation_ref = ''attestation:1''\<rparr>"

lemma demo_merge_admitted:
  assumes bo: "bind_privileged_operation ''merge'' ''merge'' demo_privileged_input = Inr bo"
  shows "privileged_admission demo_repr bo demo_merge_node (\<lambda>b. ''git:a'') 10 = Inr ()" "privileged_guard bo = Inr ()"
    "bo_target_state_ref bo = ''git:a''" "task_id (bo_universal_task bo) \<noteq> ''task:other''"
proof -
  note b = bind_privileged_InrD [OF bo]
  have bind: "bo_binding bo = projr (binding_for ''merge'' ''merge'')" unfolding b(1) by simp
  have fields: "ra_adapter_id (bo_binding bo) = ''adapter:exact-operator-merge''" "ra_lane (bo_binding bo) = MERGE"
    unfolding bind by (simp_all add: binding_for_def route_bindings_def)
  show target: "bo_target_state_ref bo = ''git:a''" unfolding b(8) by (simp add: demo_privileged_input_def)
  show "privileged_guard bo = Inr ()" using privileged_class [OF bo] by (simp add: privileged_guard_def)
  show "task_id (bo_universal_task bo) \<noteq> ''task:other''" unfolding b(10) by (simp add: bound_name_def)
  have task: "task_target_resources (bo_universal_task bo) = [''repo:x'']" "task_required_capabilities (bo_universal_task bo) = [''publish_pull_request'']"
      "task_privacy (bo_universal_task bo) = PUBLIC_SAFE"
    unfolding b(10) by (simp_all add: demo_privileged_input_def)
  have "validate_snapshot demo_merge_node 10 = Inr ()"
    using demo_node_ids by (simp add: validate_snapshot_def demo_merge_node_def nonempty_unique_def route_resource_pattern_def)
  then obtain nodes where n: "exact_node_registry bo demo_merge_node 10 = Inr nodes"
    using task fields by (simp add: exact_node_registry_def register_cases) (simp add: demo_merge_node_def)
  have h: "set (bo_source_binding_hash bo) \<subseteq> set hex_lower" "bo_source_binding_hash bo \<noteq> []"
    unfolding b(13) by (simp_all only: json_digest_chars json_digest_shape not_False_eq_True)
  have id: "task_id (bo_universal_task bo) = bound_name ''task'' ''merge'' (bo_source_binding_hash bo)" unfolding b(10) by simp
  have pt: "partition_ref (task_id (bo_universal_task bo))" unfolding id using bound_names(2) [OF binding_forD [OF b(1)] h] by simp
  have pre: "prefix ''task:'' (task_id (bo_universal_task bo))" unfolding id by (simp add: bound_name_def)
  have rx: "partition_ref ''repo:x''" "list_all plain_char ''repo:x''" by code_simp+
  have "route_checked (bo_universal_task bo) (ra_adapter_id (bo_binding bo))"
    by (rule exact_checked [OF n pt pre]) (use task rx in simp)
  from exact_routed [OF n this] task rx
  obtain rp where "plan_route demo_repr nodes (bo_universal_task bo) (ra_adapter_id (bo_binding bo)) (ra_lane (bo_binding bo)) 10 = Inr rp"
      "rp_status rp = ''ROUTED''" "rp_selected_node_id rp = Some (nd_node_id demo_merge_node)" by fastforce
  then show "privileged_admission demo_repr bo demo_merge_node (\<lambda>b. ''git:a'') 10 = Inr ()"
    using n target by (simp add: privileged_admission_def)
qed

lemma demo_merge_envelope:
  assumes bo: "bind_privileged_operation ''merge'' ''merge'' demo_privileged_input = Inr bo"
  obtains env s' where "privileged_envelope bo 1 = Inr env" "validate_envelope env = Inr ()" "ev_resources env = [''repo:x'']"
    "reserve_privileged_authority bo 1 empty_ledger = (Inr env, s')" "reserved_for env s'" "ledger_reachable s'"
proof -
  obtain env s' where r: "reserve_privileged_authority bo 1 empty_ledger = (Inr env, s')" "reserved_for env s'" "validate_envelope env = Inr ()"
    using demo_merge [OF bo] by blast
  have "privileged_envelope bo 1 = Inr env"
    using r(1) by (auto simp: reserve_privileged_authority_def guarded_Inr_iff sbind_Inr_iff Let_def)
  moreover have "ev_resources env = [''repo:x'']"
    using reserve_privileged_InrD(3) [OF r(1)] bind_privileged_InrD(11) [OF bo] by (simp add: demo_privileged_input_def)
  moreover have "ledger_reachable s'" by (rule privileged_reservation(1) [OF ledger_init r(1)])
  ultimately show thesis using that r by blast
qed

lemma demo_empty_state:
  "ledger_entry (rs_ledger empty_runner) k = None" "fence_of (rs_leases empty_runner) q = 0" "lease_current t lane scope (rs_leases empty_runner) = None"
  "rs_ledger empty_runner = empty_ledger"
  by (simp_all add: empty_runner_def empty_ledger_def ledger_entry_def ledger_reservation_def empty_lane_store_def fence_of_def lease_current_def lease_row_def)

theorem privileged_dispatch_replays_witness:
  "\<exists>bo out rs' again. bind_privileged_operation ''merge'' ''merge'' demo_privileged_input = Inr bo \<and>
    run_privileged_dispatch demo_repr bo demo_merge_node (\<lambda>b. ''git:a'') (\<lambda>b. ''git:a'') (demo_backend ''repo:x'') [''op:approval''] True 10 30 0 1
      empty_runner = (Inr out, rs') \<and>
    run_privileged_dispatch demo_repr bo demo_merge_node (\<lambda>b. ''git:b'') (\<lambda>b. ''git:b'') (demo_backend ''repo:y'') [] False 20 30 2 3 rs' =
      (Inr again, rs') \<and> dr_replayed again \<and> dr_touched_resources again = dr_touched_resources out"
proof -
  obtain bo where bo: "bind_privileged_operation ''merge'' ''merge'' demo_privileged_input = Inr bo" using demo_privileged by blast
  note adm = demo_merge_admitted [OF bo]
  obtain env where env: "privileged_envelope bo 1 = Inr env" "validate_envelope env = Inr ()" "ev_resources env = [''repo:x'']"
    using demo_merge_envelope [OF bo] by metis
  have refs: "public_ref ''git:a''" "public_ref ''git:b''" "public_ref ''repo:x''" "public_ref ''op:approval''" by code_simp+
  have v: "validate_privileged_result bo g (demo_mechanical ''repo:x'') = Inr ()"
    if "pg_execution_authorized g" "pg_resources g = ev_resources env" for g
    using that env(3) refs adm(3) by (simp add: validate_privileged_result_def demo_mechanical_def upper_digits_underscore_def)
  have b: "demo_backend ''repo:x'' bo g rs = (Inr (demo_mechanical ''repo:x''), rs)" for g rs by (simp add: demo_backend_def)
  obtain rs' where steps: "privileged_steps bo ''node:a'' (\<lambda>b. ''git:a'') (demo_backend ''repo:x'') [''op:approval''] True 30 0 1 empty_runner =
      (Inr (demo_mechanical ''repo:x'', True), rs')"
  proof -
    have "\<exists>rs'. privileged_steps bo ''node:a'' (\<lambda>b. ''git:a'') (demo_backend ''repo:x'') [''op:approval''] True 30 0 1 empty_runner =
        (Inr (demo_mechanical ''repo:x'', True), rs')"
      by (rule privileged_progress [where f = 1 and env = env and backend = "demo_backend ''repo:x''", OF empty_runner_reachable _ _
            demo_empty_state(3) demo_empty_state(1) _ _ env(1,2) _ _ _ _ b v])
        (use refs(4) adm(3) in \<open>simp_all add: demo_empty_state(2)\<close>)
    then show thesis using that by blast
  qed
  have "run_privileged_dispatch demo_repr bo demo_merge_node (\<lambda>b. ''git:a'') (\<lambda>b. ''git:a'') (demo_backend ''repo:x'') [''op:approval''] True 10 30 0 1
      empty_runner = (Inr (privileged_receipt bo (demo_mechanical ''repo:x'') True), rs')"
    using steps adm(1,2) fresh_dispatch [OF empty_runner_reachable(1) demo_empty_state(1)]
    by (simp add: run_privileged_dispatch_def privileged_body_def privileged_checked_def sbind_def demo_merge_node_def)
  note run = this
  have "rs_ledger rs' = snd (run_ops ledger_exec [] (rs_ledger rs'))" by simp
  from privileged_dispatch_replays [where snapshot' = demo_merge_node and ref1' = "\<lambda>b. ''git:b''" and ref2' = "\<lambda>b. ''git:b''"
      and backend' = "demo_backend ''repo:y''" and evidence' = "[]" and fresh' = False and now' = 20 and ttl' = 30 and t1' = 2 and t2' = 3,
      OF empty_runner_reachable(1) demo_backend_leaves(1) run this] run bo
  show ?thesis
    by (intro exI [of _ bo] exI [of _ "privileged_receipt bo (demo_mechanical ''repo:x'') True"] exI [of _ rs']
        exI [of _ "privileged_receipt bo (demo_mechanical ''repo:x'') True\<lparr>dr_replayed := True, dr_execution_started := True, dr_lease_released := True\<rparr>"]) simp
qed

theorem privileged_failure_holds_lease_witness:
  "\<exists>bo e rs'. run_privileged_dispatch demo_repr bo demo_merge_node (\<lambda>b. ''git:a'') (\<lambda>b. ''git:a'') (demo_backend ''repo:x'') [] True 10 30 0 1
      empty_runner = (Inl e, rs') \<and>
    scheduler_reserve 20 \<lparr>rq_task_id = ''task:other'', rq_lane = PRIVILEGED, rq_owner = ''node:b'', rq_scope_key = privileged_scope,
      rq_ttl_seconds = 30, rq_target_state_ref = None\<rparr> (rs_leases rs') = (Inl (LeaseError ''LEASE_CONFLICT_ACTIVE_OWNER''), rs_leases rs')"
proof -
  obtain bo where bo: "bind_privileged_operation ''merge'' ''merge'' demo_privileged_input = Inr bo" using demo_privileged by blast
  note adm = demo_merge_admitted [OF bo]
  obtain env s' where env: "reserve_privileged_authority bo 1 empty_ledger = (Inr env, s')" "ledger_reachable s'"
    using demo_merge_envelope [OF bo] by metis
  obtain e where cl: "privileged_clearance bo env [] True (\<lambda>b. ''git:a'') s' = Inl e"
    using clearance_InrD(3) [OF ledger_reachable_ok [OF env(2)], of bo env "[]" True "\<lambda>b. ''git:a''"]
    by (cases "privileged_clearance bo env [] True (\<lambda>b. ''git:a'') s'") auto
  obtain lease ls where l: "scheduler_reserve 0 (privileged_request bo ''node:a'' 30) (rs_leases empty_runner) = (Inr lease, ls)"
      "lr_fence_token lease = 1" "lease_current 20 PRIVILEGED privileged_scope ls \<noteq> None"
  proof -
    have "(0::real) < 30" by simp
    note a = acquire_free [OF this demo_empty_state(3) [of 0 PRIVILEGED privileged_scope]]
    show thesis
      using that a [of "task_id (bo_universal_task bo)" "''node:a''" "Some (bo_target_state_ref bo)"] unfolding scheduler_reserve_def
      by (simp add: privileged_request_def demo_empty_state(2) lease_current_def lease_row_def expired_def)
  qed
  let ?rs' = "\<lparr>rs_leases = ls, rs_ledger = s'\<rparr>"
  have "privileged_steps bo ''node:a'' (\<lambda>b. ''git:a'') (demo_backend ''repo:x'') [] True 30 0 1 empty_runner = (Inl e, ?rs')"
    using l(1,2) env(1) cl by (simp add: privileged_steps_def sbind_def on_leases_def on_ledger_def demo_empty_state)
  then have run: "run_privileged_dispatch demo_repr bo demo_merge_node (\<lambda>b. ''git:a'') (\<lambda>b. ''git:a'') (demo_backend ''repo:x'') [] True 10 30 0 1
      empty_runner = (Inl (privileged_handler e), ?rs')"
    using adm(1,2) fresh_dispatch [OF empty_runner_reachable(1) demo_empty_state(1)]
    by (simp add: run_privileged_dispatch_def privileged_body_def privileged_checked_def sbind_def demo_merge_node_def)
  have "?rs' \<noteq> empty_runner" using l(3) demo_empty_state(3) [of 20 PRIVILEGED privileged_scope] by (metis runner_state.select_convs(1))
  with privileged_failure_holds_lease [OF empty_runner_reachable(1) demo_backend_leaves run] l(3) adm(4)
  have "scheduler_reserve 20 \<lparr>rq_task_id = ''task:other'', rq_lane = PRIVILEGED, rq_owner = ''node:b'', rq_scope_key = privileged_scope,
      rq_ttl_seconds = 30, rq_target_state_ref = None\<rparr> ls = (Inl (LeaseError ''LEASE_CONFLICT_ACTIVE_OWNER''), ls)"
    by auto
  then show ?thesis using run by (intro exI [of _ bo] exI [of _ "privileged_handler e"] exI [of _ ?rs']) simp
qed

definition demo_privileged_lanes :: lane_store where
  "demo_privileged_lanes = snd (run_ops lease_exec [Acquire 0 ''task:1'' PRIVILEGED ''node:a'' privileged_scope 1 None,
     Acquire 10 ''task:2'' PRIVILEGED ''node:a'' privileged_scope 1 None] empty_lane_store)"

lemma demo_privileged_lanes_fence: "lane_reachable demo_privileged_lanes" "fence_of demo_privileged_lanes (PRIVILEGED, privileged_scope) = 2"
proof -
  show "lane_reachable demo_privileged_lanes" unfolding demo_privileged_lanes_def by (rule lane_run_reachable [OF lane_init])
  show "fence_of demo_privileged_lanes (PRIVILEGED, privileged_scope) = 2"
    by (simp add: demo_privileged_lanes_def fence_of_acquire acquire_free lease_current_def lease_row_def expired_def empty_lane_store_def fence_of_def)
qed

theorem privileged_reservation_orphaned_witness:
  "\<exists>bo rs res rs'. bind_privileged_operation ''merge'' ''merge'' demo_privileged_input = Inr bo \<and>
    run_privileged_dispatch demo_repr bo demo_merge_node (\<lambda>b. ''git:a'') (\<lambda>b. ''git:a'') (demo_backend ''repo:x'') [''op:approval''] True 10 30 100 101 rs =
      (res, rs') \<and> (\<exists>e. res = Inl e) \<and> outgrown bo rs'"
proof -
  obtain bo where bo: "bind_privileged_operation ''merge'' ''merge'' demo_privileged_input = Inr bo" using demo_privileged by blast
  obtain env s' where env: "reserve_privileged_authority bo 1 empty_ledger = (Inr env, s')" "reserved_for env s'" "ledger_reachable s'"
    using demo_merge_envelope [OF bo] by metis
  note ids = privileged_reservation(3) [OF ledger_init env(1) refl]
  let ?rs = "\<lparr>rs_leases = demo_privileged_lanes, rs_ledger = s'\<rparr>"
  have out: "outgrown bo ?rs"
    using env(2,3) ids demo_privileged_lanes_fence by (auto simp: outgrown_def reserved_for_def)
  obtain res rs' where run: "run_privileged_dispatch demo_repr bo demo_merge_node (\<lambda>b. ''git:a'') (\<lambda>b. ''git:a'') (demo_backend ''repo:x'') [''op:approval'']
      True 10 30 100 101 ?rs = (res, rs')"
    by (cases "run_privileged_dispatch demo_repr bo demo_merge_node (\<lambda>b. ''git:a'') (\<lambda>b. ''git:a'') (demo_backend ''repo:x'') [''op:approval'']
      True 10 30 100 101 ?rs")
  from privileged_reservation_orphaned [OF out demo_backend_leaves(1) run] show ?thesis using bo run by blast
qed

end
