(* ===== verification/LiveCodegen.thy ===== *)
theory LiveCodegen
  imports Dispatch
begin

text \<open>
  \<^verbatim>\<open>core/runner_vnext_live_codegen.py\<close>: the code generation backend behind the GREEN path.  A validated task
  is compiled to a plan (a public repository edit with exactly three capabilities and no protected file),
  a grant is checked against the plan before the backend runs, and the result against the grant after it.
  The callables the poller injects (the code generator, the list of changed files, the validation
  commands, the state of the workspace and the classifier of the output) are parameters: they act on a
  workspace of any type \<open>'w\<close> and may raise.  \<^verbatim>\<open>RunnerGate.is_protected_path\<close> is that of
  \<^verbatim>\<open>core/runner_gate.py\<close> for a gate with its default protected paths.
\<close>

subsection \<open>Definitions\<close>

abbreviation codegen_error :: "string \<Rightarrow> 'a res" where
  "codegen_error reason \<equiv> Inl (RunnerVNextLiveCodegenError reason)"

definition protected_paths :: "string list" where
  "protected_paths = [
     ''BOOT_MANIFEST.yaml'',
     ''PROJECT_TREE.yaml'',
     ''OPERATOR_RULES.yaml'',
     ''CAPABILITY_REGISTRY.yaml'',
     ''.github/workflows'',
     ''scripts/runner_poll_github_tasks.py'',
     ''core/gate_engine.py'',
     ''core/action_gate.py'',
     ''secrets'',
     ''deploy'',
     ''server'',
     ''finance'',
     ''legal'',
     ''governance'',
     ''Runner_core'',
     ''adapter_boundaries'']"

definition protected_path_prefixes :: "string list" where
  "protected_path_prefixes = [''core/runner_'']"

definition is_protected_path :: "string \<Rightarrow> bool" where
  "is_protected_path path \<longleftrightarrow>
     list_ex (\<lambda>p. path = p \<or> py_startswith path (p @ ''/'')) protected_paths \<or>
     list_ex (py_startswith path) protected_path_prefixes"

record live_codegen_plan =
  lp_bound :: bound_operation

definition plan_runner_task_hash :: "live_codegen_plan \<Rightarrow> string res" where
  "plan_runner_task_hash plan =
     (case bo_runner_task_hash (lp_bound plan) of None \<Rightarrow> Inl (OtherException ''AssertionError'') | Some h \<Rightarrow> Inr h)"

definition plan_source_task_ref :: "live_codegen_plan \<Rightarrow> string" where
  "plan_source_task_ref plan = bo_source_task_ref (lp_bound plan)"

definition plan_source_binding_hash :: "live_codegen_plan \<Rightarrow> string" where
  "plan_source_binding_hash plan = bo_source_binding_hash (lp_bound plan)"

record codegen_receipt =
  cb_runner_task_hash :: string
  cb_source_task_ref :: string
  cb_source_binding_hash :: string
  cb_grant_operation_id :: string
  cb_grant_idempotency_key :: string
  cb_adapter_id :: string
  cb_result :: green_result
  cb_publication_attempted :: bool

type_synonym 'w codegen_backend = "runner_task \<Rightarrow> string \<Rightarrow> green_grant \<Rightarrow> ('w, green_result) op"

record 'w poller_backend =
  pb_task_content :: string
  pb_workdir :: string
  pb_run_mechanics :: "string \<Rightarrow> string \<Rightarrow> runner_task \<Rightarrow> ('w, int \<times> string) op"
  pb_changed_files :: "string \<Rightarrow> ('w, string list) op"
  pb_run_validation_command :: "string list \<Rightarrow> string \<Rightarrow> ('w, int \<times> string) op"
  pb_workspace_state_ref :: "string \<Rightarrow> ('w, string) op"
  pb_classify_mechanics_status :: "string \<Rightarrow> int \<Rightarrow> ('w, string) op"

record 'w live_adapter =
  la_runner_task :: runner_task
  la_source_task_ref :: string
  la_backend :: "'w codegen_backend"
  la_plan :: live_codegen_plan

definition immutable_runner_task_hash :: "runner_task \<Rightarrow> string" where
  "immutable_runner_task_hash t = sha256_hex (to_json t)"

definition compile_live_codegen_plan :: "runner_task \<Rightarrow> string \<Rightarrow> live_codegen_plan res" where
  "compile_live_codegen_plan t src =
     rbind (guards [
       (rt_privacy_boundary t \<noteq> ''PUBLIC_SAFE_REPOSITORY_ONLY'',
          RunnerVNextLiveCodegenError ''LIVE_CODEGEN_PUBLIC_REPOSITORY_PRIVACY_REQUIRED''),
       (rt_task_kind t \<noteq> ''code_edit'', RunnerVNextLiveCodegenError ''LIVE_CODEGEN_TASK_KIND_UNSUPPORTED''),
       (rt_requested_capabilities t \<noteq> [''repository_read'', ''repository_write_allowlisted'', ''test_execution''],
          RunnerVNextLiveCodegenError ''LIVE_CODEGEN_EXACT_CAPABILITIES_REQUIRED''),
       (list_ex is_protected_path (rt_allowed_files t), RunnerVNextLiveCodegenError ''LIVE_CODEGEN_PROTECTED_TARGET'')]) (\<lambda>_.
     rbind (bind_runner_operation t ''code_generation'' ''codegen'' (Some src) None) (\<lambda>bound.
     rbind (raise_if (pd_effect_class (bo_policy_decision bound) \<noteq> GREEN)
       (RunnerVNextLiveCodegenError ''LIVE_CODEGEN_GREEN_POLICY_REQUIRED'')) (\<lambda>_.
     Inr \<lparr>lp_bound = bound\<rparr>)))"

definition validate_codegen_grant :: "runner_task \<Rightarrow> string \<Rightarrow> green_grant \<Rightarrow> live_codegen_plan option \<Rightarrow> unit res" where
  "validate_codegen_grant t src g plan =
     rbind (case plan of Some p \<Rightarrow> Inr p | None \<Rightarrow> compile_live_codegen_plan t src) (\<lambda>expected_plan.
     rbind (plan_runner_task_hash expected_plan) (\<lambda>task_hash.
     let bound = lp_bound expected_plan; e = gg_planner_envelope g in
     guards [
       (immutable_runner_task_hash t \<noteq> task_hash, RunnerVNextLiveCodegenError ''LIVE_CODEGEN_RUNNER_TASK_HASH_MISMATCH''),
       (src \<noteq> plan_source_task_ref expected_plan, RunnerVNextLiveCodegenError ''LIVE_CODEGEN_SOURCE_TASK_REF_MISMATCH''),
       (gg_lane g \<noteq> lane_value (ra_lane (bo_binding bound)) \<or> gg_adapter_id g \<noteq> ra_adapter_id (bo_binding bound),
          RunnerVNextLiveCodegenError ''LIVE_CODEGEN_GRANT_LANE_ADAPTER_MISMATCH''),
       (\<not> gg_execution_authorized g \<or> gg_effect_execution_started g,
          RunnerVNextLiveCodegenError ''LIVE_CODEGEN_FRESH_GRANT_REQUIRED''),
       (gg_planner_envelope_hash g \<noteq> planner_envelope_hash e,
          RunnerVNextLiveCodegenError ''LIVE_CODEGEN_PLANNER_HASH_MISMATCH''),
       (ev_effect_class e \<noteq> GREEN, RunnerVNextLiveCodegenError ''LIVE_CODEGEN_GREEN_GRANT_REQUIRED''),
       (privacy_value (ev_privacy e) \<noteq> ''PUBLIC_SAFE'', RunnerVNextLiveCodegenError ''LIVE_CODEGEN_PUBLIC_PRIVACY_REQUIRED''),
       ((gg_task_id g, gg_operation_id g, gg_idempotency_key g, gg_adapter_id g, gg_target_state_ref g,
         ev_resources e, ev_effects e, ev_required_capabilities e) \<noteq>
        (task_id (bo_universal_task bound), ir_operation_id (bo_operation_ir bound), ir_idempotency_key (bo_operation_ir bound),
         ra_adapter_id (bo_binding bound), bo_target_state_ref bound, ir_resources (bo_operation_ir bound),
         ir_effects (bo_operation_ir bound), task_required_capabilities (bo_universal_task bound)),
          RunnerVNextLiveCodegenError ''LIVE_CODEGEN_GRANT_SCOPE_MISMATCH''),
       (ev_operation_id e \<noteq> gg_operation_id g \<or> ev_idempotency_key e \<noteq> gg_idempotency_key g \<or>
        ev_adapter_id e \<noteq> gg_adapter_id g \<or> ev_target_state_ref e \<noteq> gg_target_state_ref g \<or>
        ev_fence_token e \<noteq> gg_fence_token g,
          RunnerVNextLiveCodegenError ''LIVE_CODEGEN_GRANT_ENVELOPE_MISMATCH''),
       (rt_requested_capabilities t \<noteq> ev_required_capabilities e,
          RunnerVNextLiveCodegenError ''LIVE_CODEGEN_CAPABILITY_BINDING_MISMATCH'')]))"

fun is_green_execution_error :: "exn \<Rightarrow> bool" where
  "is_green_execution_error (GreenExecutionError r) = True" | "is_green_execution_error e = False"

definition validate_codegen_result :: "green_grant \<Rightarrow> green_result \<Rightarrow> unit res" where
  "validate_codegen_result g r =
     rbind (raise_if
       ((er_operation_id r, er_idempotency_key r, er_adapter_id r, er_target_state_ref r, er_fence_token r, er_effects r) \<noteq>
        (gg_operation_id g, gg_idempotency_key g, gg_adapter_id g, gg_target_state_ref g, gg_fence_token g,
         ev_effects (gg_planner_envelope g)))
       (RunnerVNextLiveCodegenError ''LIVE_CODEGEN_RESULT_BINDING_MISMATCH'')) (\<lambda>_.
     rbind (reraise_as RunnerVNextLiveCodegenError is_green_execution_error
       (validate_actual_touched_resources r (ev_resources (gg_planner_envelope g)))) (\<lambda>_.
     guards [
       (er_outcome r = ''SUCCEEDED'' \<and> er_validation_status r \<noteq> ''PASS'',
          RunnerVNextLiveCodegenError ''LIVE_CODEGEN_SUCCESS_REQUIRES_VALIDATION_PASS''),
       (er_outcome r \<noteq> ''SUCCEEDED'' \<and> er_validation_status r \<noteq> ''FAIL'',
          RunnerVNextLiveCodegenError ''LIVE_CODEGEN_FAILURE_REQUIRES_VALIDATION_FAIL'')]))"

text \<open>\<^verbatim>\<open>_run_exact_validation\<close>: the commands in order, up to the first that fails.\<close>

fun run_exact_validation :: "'w poller_backend \<Rightarrow> string list list \<Rightarrow> ('w, bool) op" where
  "run_exact_validation b [] w = (Inr True, w)"
| "run_exact_validation b (command # commands) w =
     sbind (pb_run_validation_command b command (pb_workdir b)) (\<lambda>(code, output) w.
       if code \<noteq> 0 then (Inr False, w) else run_exact_validation b commands w) w"

definition poller_run_codegen :: "'w poller_backend \<Rightarrow> 'w codegen_backend" where
  "poller_run_codegen b t src g =
     guarded (compile_live_codegen_plan t src) (\<lambda>plan.
     guarded (raise_if (src \<noteq> plan_source_task_ref plan)
       (RunnerVNextLiveCodegenError ''LIVE_CODEGEN_SOURCE_TASK_REF_MISMATCH'')) (\<lambda>_.
     sbind (pb_workspace_state_ref b (pb_workdir b)) (\<lambda>before_ref.
     sbind (pb_run_mechanics b (pb_task_content b) (pb_workdir b) t) (\<lambda>(code, output).
     sbind (pb_changed_files b (pb_workdir b)) (\<lambda>files.
     let touched = map (\<lambda>path. ''repo:'' @ path) files in
     sbind (pb_classify_mechanics_status b output code) (\<lambda>status.
     sbind (if code = 0 \<and> status = ''DONE'' \<and> touched \<noteq> [] then run_exact_validation b (rt_validation_commands t)
            else (\<lambda>w. (Inr False, w))) (\<lambda>validation_passed.
     sbind (pb_workspace_state_ref b (pb_workdir b)) (\<lambda>after_ref w.
     let succeeded = code = 0 \<and> status = ''DONE'' \<and> touched \<noteq> [] \<and> validation_passed in
     (Inr \<lparr>er_operation_id = gg_operation_id g, er_idempotency_key = gg_idempotency_key g, er_adapter_id = gg_adapter_id g,
        er_target_state_ref = gg_target_state_ref g, er_fence_token = gg_fence_token g, er_resources = touched,
        er_effects = ev_effects (gg_planner_envelope g),
        er_outcome = (if succeeded then ''SUCCEEDED'' else ''FAILED''),
        er_reason_code = (if succeeded then ''EXECUTION_PASS'' else ''EXECUTION_FAILED''),
        er_before_state_ref = before_ref, er_after_state_ref = after_ref,
        er_validation_status = (if succeeded then ''PASS'' else ''FAIL''), er_rollback_requested = False\<rparr>, w)))))))))"

definition mk_live_adapter :: "runner_task \<Rightarrow> string \<Rightarrow> 'w codegen_backend \<Rightarrow> 'w live_adapter res" where
  "mk_live_adapter t src backend = rbind (compile_live_codegen_plan t src) (\<lambda>plan.
     Inr \<lparr>la_runner_task = t, la_source_task_ref = src, la_backend = backend, la_plan = plan\<rparr>)"

definition live_adapter_execute :: "'w live_adapter \<Rightarrow> green_grant \<Rightarrow> ('w, green_result) op" where
  "live_adapter_execute a g =
     guarded (validate_codegen_grant (la_runner_task a) (la_source_task_ref a) g (Some (la_plan a))) (\<lambda>_.
     sbind (la_backend a (la_runner_task a) (la_source_task_ref a) g) (\<lambda>result.
     guarded (validate_codegen_result g result) (\<lambda>_ w. (Inr result, w))))"

definition run_authorized_live_codegen :: "runner_task \<Rightarrow> string \<Rightarrow> green_grant \<Rightarrow> 'w codegen_backend \<Rightarrow> ('w, codegen_receipt) op" where
  "run_authorized_live_codegen t src g backend =
     guarded (compile_live_codegen_plan t src) (\<lambda>plan.
     guarded (validate_codegen_grant t src g (Some plan)) (\<lambda>_.
     sbind (backend t src g) (\<lambda>result.
     guarded (validate_codegen_result g result) (\<lambda>_.
     guarded (plan_runner_task_hash plan) (\<lambda>task_hash w.
     (Inr \<lparr>cb_runner_task_hash = task_hash, cb_source_task_ref = src, cb_source_binding_hash = plan_source_binding_hash plan,
        cb_grant_operation_id = gg_operation_id g, cb_grant_idempotency_key = gg_idempotency_key g,
        cb_adapter_id = gg_adapter_id g, cb_result = result, cb_publication_attempted = False\<rparr>, w))))))"

definition codegen_public_projection :: "codegen_receipt \<Rightarrow> json" where
  "codegen_public_projection r = JObj [
     (''schema'', JStr ''skeleton.runner_vnext_live_codegen_receipt.v1''),
     (''runner_task_hash'', JStr (cb_runner_task_hash r)),
     (''source_task_ref_hash'', JStr (text_hash (cb_source_task_ref r))),
     (''source_binding_hash'', JStr (cb_source_binding_hash r)),
     (''operation_id_hash'', JStr (text_hash (cb_grant_operation_id r))),
     (''idempotency_key_hash'', JStr (text_hash (cb_grant_idempotency_key r))),
     (''adapter_id'', JStr (cb_adapter_id r)),
     (''result_outcome'', JStr (er_outcome (cb_result r))),
     (''result_validation_status'', JStr (er_validation_status (cb_result r))),
     (''publication_attempted'', JBool (cb_publication_attempted r))]"

text \<open>The adapter as the execution lifecycle calls it, once, on a workspace: the stores are not its state.\<close>

definition codegen_executor :: "'w live_adapter \<Rightarrow> 'w \<Rightarrow> green_executor" where
  "codegen_executor a w g rs = (fst (live_adapter_execute a g w), rs)"

subsection \<open>Plans and grants\<close>

lemma compile_InrD:
  assumes "compile_live_codegen_plan t src = Inr plan"
  shows "rt_privacy_boundary t = ''PUBLIC_SAFE_REPOSITORY_ONLY''" "rt_task_kind t = ''code_edit''"
    "rt_requested_capabilities t = [''repository_read'', ''repository_write_allowlisted'', ''test_execution'']"
    "\<forall>path\<in>set (rt_allowed_files t). \<not> is_protected_path path"
    "bind_runner_operation t ''code_generation'' ''codegen'' (Some src) None = Inr (lp_bound plan)"
    "plan_source_task_ref plan = src" "plan_runner_task_hash plan = Inr (immutable_runner_task_hash t)"
proof -
  show bo: "bind_runner_operation t ''code_generation'' ''codegen'' (Some src) None = Inr (lp_bound plan)"
    and "rt_privacy_boundary t = ''PUBLIC_SAFE_REPOSITORY_ONLY''" "rt_task_kind t = ''code_edit''"
    "rt_requested_capabilities t = [''repository_read'', ''repository_write_allowlisted'', ''test_execution'']"
    "\<forall>path\<in>set (rt_allowed_files t). \<not> is_protected_path path"
    using assms by (auto simp: compile_live_codegen_plan_def list_ex_iff)
  show "plan_source_task_ref plan = src"
    using bind_runner_InrD(8) [OF bo] by (simp add: plan_source_task_ref_def source_ref_def)
  show "plan_runner_task_hash plan = Inr (immutable_runner_task_hash t)"
    using bind_runner_InrD(7) [OF bo] by (simp add: plan_runner_task_hash_def immutable_runner_task_hash_def runner_task_hash_def)
qed

text \<open>The test of the policy class never fails: every operation bound from a task is GREEN.\<close>

lemma compile_Inr:
  assumes "rt_privacy_boundary t = ''PUBLIC_SAFE_REPOSITORY_ONLY''" "rt_task_kind t = ''code_edit''"
    and "rt_requested_capabilities t = [''repository_read'', ''repository_write_allowlisted'', ''test_execution'']"
    and "\<forall>path\<in>set (rt_allowed_files t). \<not> is_protected_path path"
    and bo: "bind_runner_operation t ''code_generation'' ''codegen'' (Some src) None = Inr bo"
  shows "compile_live_codegen_plan t src = Inr \<lparr>lp_bound = bo\<rparr>"
  using assms bound_runner_green [OF bo] by (auto simp: compile_live_codegen_plan_def list_ex_iff guards.simps)

lemma codegen_binding:
  assumes "bind_runner_operation t ''code_generation'' ''codegen'' source issue = Inr bo"
  shows "ra_lane (bo_binding bo) = CODEGEN" "ra_adapter_id (bo_binding bo) = ''adapter:repo-codegen''"
proof -
  have "bo_binding bo = projr (binding_for ''code_generation'' ''codegen'')" unfolding bind_runner_InrD(1) [OF assms] by simp
  then show "ra_lane (bo_binding bo) = CODEGEN" "ra_adapter_id (bo_binding bo) = ''adapter:repo-codegen''"
    by (simp_all add: binding_for_def route_bindings_def)
qed

text \<open>A compiled task needs nothing more to be preparable than names without \<^verbatim>\<open>..\<close>.\<close>

lemma compiled_preparable:
  assumes "compile_live_codegen_plan t src = Inr plan" "\<forall>f\<in>set (rt_allowed_files t). \<not> sublist ''..'' f" "\<not> sublist ''..'' (rt_repo t)"
  shows "preparable t (lp_bound plan)"
proof -
  note c = compile_InrD [OF assms(1)]
  show ?thesis
    using c(1,3) assms(2,3) codegen_binding(2) [OF c(5)]
    by (simp add: preparable_def default_authority_manifests_def repo_manifest_def)
qed

lemma codegen_grantD:
  assumes "compile_live_codegen_plan t src = Inr plan" "validate_codegen_grant t src g (Some plan) = Inr ()"
  shows "ev_resources (gg_planner_envelope g) = map (\<lambda>path. ''repo:'' @ path) (rt_allowed_files t)"
    "gg_idempotency_key g = ir_idempotency_key (bo_operation_ir (lp_bound plan))"
    "gg_operation_id g = ir_operation_id (bo_operation_ir (lp_bound plan))"
    "gg_target_state_ref g = ''git:'' @ rt_base_sha t" "gg_lane g = ''codegen''"
    "gg_adapter_id g = ''adapter:repo-codegen''" "ev_effect_class (gg_planner_envelope g) = GREEN"
    "gg_execution_authorized g" "\<not> gg_effect_execution_started g"
proof -
  note c = compile_InrD [OF assms(1)]
  show "ev_resources (gg_planner_envelope g) = map (\<lambda>path. ''repo:'' @ path) (rt_allowed_files t)"
    "gg_idempotency_key g = ir_idempotency_key (bo_operation_ir (lp_bound plan))"
    "gg_operation_id g = ir_operation_id (bo_operation_ir (lp_bound plan))"
    "gg_target_state_ref g = ''git:'' @ rt_base_sha t" "gg_lane g = ''codegen''"
    "gg_adapter_id g = ''adapter:repo-codegen''" "ev_effect_class (gg_planner_envelope g) = GREEN"
    "gg_execution_authorized g" "\<not> gg_effect_execution_started g"
    using assms(2) c(7) codegen_binding [OF c(5)] bind_runner_task(4) [OF c(5)] bind_runner_InrD(10) [OF c(5)]
    by (simp_all add: validate_codegen_grant_def Let_def)
qed

text \<open>The grant that the gate issues for the prepared plan passes the adapter's own check.\<close>

lemma prepared_codegen_grant:
  assumes plan: "compile_live_codegen_plan t src = Inr plan" and reach: "ledger_reachable (rs_ledger rs)"
    and prep: "prepare frepr nodes envs planner (green_request (lp_bound plan) ttl now parent) t1 t2 rs = (Inr h, rs')"
    and g: "gate_grant frepr nodes envs current_ref u now h rs' = Inr g" and scope: "public_ref (bo_lease_scope_key (lp_bound plan))"
  shows "validate_codegen_grant t src g (Some plan) = Inr ()"
proof -
  let ?bo = "lp_bound plan"
  note c = compile_InrD [OF plan] and p = prepare_success [OF reach prep] and d = grant_InrD(8) [OF g]
  have "validate_green_grant ?bo g = Inr ()" by (rule prepared_green_grant [OF reach prep g])
  moreover have "validate_grant g = Inr ()" using granted_startable(1) [OF reach prep g] scope by (simp add: green_request_def)
  moreover have "ev_effect_class (gh_envelope h) = GREEN" "ev_privacy (gh_envelope h) = PUBLIC_SAFE"
  proof -
    obtain dec where a: "adapter_plan planner (ra_adapter_id (bo_binding ?bo)) (bo_universal_task ?bo) (bo_operation_ir ?bo) (bo_policy_input ?bo) dec
        (bo_target_state_ref ?bo) (gh_fence_token h) = Inr (gh_envelope h)"
      using p(3) bind_runner_task(12) [OF c(5)] by (auto simp: green_request_def)
    then show "ev_effect_class (gh_envelope h) = GREEN"
      using bound_runner_green [OF c(5)] bind_runner_InrD(12) [OF c(5)] by (auto elim!: adapter_plan_InrD)
    have "task_privacy (bo_universal_task ?bo) = PUBLIC_SAFE"
      unfolding bind_runner_task(11) [OF c(5)] using c(1) by (simp add: runner_task_privacy_def)
    then show "ev_privacy (gh_envelope h) = PUBLIC_SAFE" using a by (auto elim!: adapter_plan_InrD)
  qed
  moreover have "gg_lane g = lane_value (ra_lane (bo_binding ?bo))" using d p(6) by (simp add: green_request_def)
  ultimately show ?thesis
    using d c(3,6,7) bind_runner_task(10) [OF c(5)]
    by (simp add: validate_codegen_grant_def validate_green_grant_def validate_grant_def Let_def)
qed

lemma codegen_resultD:
  assumes "validate_codegen_result g r = Inr ()"
  shows "er_idempotency_key r = gg_idempotency_key g" "er_fence_token r = gg_fence_token g" "distinct (er_resources r)"
    "set (er_resources r) \<subseteq> set (ev_resources (gg_planner_envelope g))"
    "er_validation_status r = (if er_outcome r = ''SUCCEEDED'' then ''PASS'' else ''FAIL'')"
    "er_resources r = [] \<Longrightarrow> er_before_state_ref r = er_after_state_ref r \<and> er_outcome r \<noteq> ''SUCCEEDED''"
  using assms by (auto simp: validate_codegen_result_def validate_actual_touched_resources_def Let_def touched_ref_def split: if_splits)

lemma adapter_InrD:
  assumes "mk_live_adapter t src backend = Inr a"
  shows "la_runner_task a = t" "la_source_task_ref a = src" "la_backend a = backend" "compile_live_codegen_plan t src = Inr (la_plan a)"
  using assms by (auto simp: mk_live_adapter_def)

text \<open>The one-call entry is the adapter with a receipt around its result.\<close>

lemma authorized_is_adapter:
  "run_authorized_live_codegen t src g backend w = (Inr rc, w') \<longleftrightarrow>
     (\<exists>a r. mk_live_adapter t src backend = Inr a \<and> live_adapter_execute a g w = (Inr r, w') \<and>
        rc = \<lparr>cb_runner_task_hash = immutable_runner_task_hash t, cb_source_task_ref = src,
          cb_source_binding_hash = plan_source_binding_hash (la_plan a), cb_grant_operation_id = gg_operation_id g,
          cb_grant_idempotency_key = gg_idempotency_key g, cb_adapter_id = gg_adapter_id g, cb_result = r,
          cb_publication_attempted = False\<rparr>)"
proof (cases "compile_live_codegen_plan t src")
  case (Inr plan)
  then show ?thesis
    using compile_InrD(7) [OF Inr]
    by (auto simp: run_authorized_live_codegen_def mk_live_adapter_def live_adapter_execute_def guarded_Inr_iff sbind_Inr_iff)
qed (simp add: run_authorized_live_codegen_def mk_live_adapter_def)

subsection \<open>The poller backend\<close>

text \<open>The reference for the validation: every command in order, with all the exit codes.\<close>

fun run_all_commands :: "'w poller_backend \<Rightarrow> string list list \<Rightarrow> ('w, int list) op" where
  "run_all_commands b [] w = (Inr [], w)"
| "run_all_commands b (command # commands) w =
     sbind (pb_run_validation_command b command (pb_workdir b)) (\<lambda>(code, output).
     sbind (run_all_commands b commands) (\<lambda>codes w. (Inr (code # codes), w))) w"

lemma validation_passes:
  "run_exact_validation b commands w = (Inr True, w') \<longleftrightarrow>
     (\<exists>codes. run_all_commands b commands w = (Inr codes, w') \<and> set codes \<subseteq> {0})"
  by (induction b commands w rule: run_exact_validation.induct) (auto simp: sbind_Inr_iff split: prod.splits if_splits)

lemma validation_total:
  assumes "\<forall>c\<in>set commands. \<forall>w. \<exists>code out w'. pb_run_validation_command b c (pb_workdir b) w = (Inr (code, out), w')"
  shows "\<exists>codes w' passed w''. run_all_commands b commands w = (Inr codes, w') \<and>
    run_exact_validation b commands w = (Inr passed, w'') \<and> (passed \<longleftrightarrow> set codes \<subseteq> {0})"
  using assms
proof (induction commands arbitrary: w)
  case (Cons c cs)
  obtain code out w1 where "pb_run_validation_command b c (pb_workdir b) w = (Inr (code, out), w1)" using Cons(2) by (meson list.set_intros(1))
  then show ?case using Cons(1) [of w1] Cons(2) by auto
qed simp

text \<open>What the backend returns when none of its callables raises.\<close>

lemma poller_answer:
  assumes plan: "compile_live_codegen_plan t src = Inr plan"
    and steps: "pb_workspace_state_ref b (pb_workdir b) w = (Inr before, w1)"
      "pb_run_mechanics b (pb_task_content b) (pb_workdir b) t w1 = (Inr (code, output), w2)"
      "pb_changed_files b (pb_workdir b) w2 = (Inr files, w3)"
      "pb_classify_mechanics_status b output code w3 = (Inr status, w4)"
    and cmds: "\<forall>c\<in>set (rt_validation_commands t). \<forall>w. \<exists>code out w'. pb_run_validation_command b c (pb_workdir b) w = (Inr (code, out), w')"
    and ref: "\<forall>w. \<exists>ref w'. pb_workspace_state_ref b (pb_workdir b) w = (Inr ref, w')"
  shows "\<exists>codes w5 w6 r w'. run_all_commands b (rt_validation_commands t) w4 = (Inr codes, w5) \<and>
    poller_run_codegen b t src g w = (Inr r, w') \<and> er_resources r = map (\<lambda>path. ''repo:'' @ path) files \<and>
    er_outcome r = (if code = 0 \<and> status = ''DONE'' \<and> files \<noteq> [] \<and> set codes \<subseteq> {0} then ''SUCCEEDED'' else ''FAILED'') \<and>
    er_validation_status r = (if er_outcome r = ''SUCCEEDED'' then ''PASS'' else ''FAIL'') \<and>
    er_reason_code r = (if er_outcome r = ''SUCCEEDED'' then ''EXECUTION_PASS'' else ''EXECUTION_FAILED'') \<and>
    er_before_state_ref r = before \<and> pb_workspace_state_ref b (pb_workdir b) w6 = (Inr (er_after_state_ref r), w') \<and>
    \<not> er_rollback_requested r \<and>
    (er_operation_id r, er_idempotency_key r, er_adapter_id r, er_target_state_ref r, er_fence_token r, er_effects r) =
      (gg_operation_id g, gg_idempotency_key g, gg_adapter_id g, gg_target_state_ref g, gg_fence_token g, ev_effects (gg_planner_envelope g))"
proof -
  let ?tried = "code = 0 \<and> status = ''DONE'' \<and> files \<noteq> []"
  obtain codes w5 passed w6 where c: "run_all_commands b (rt_validation_commands t) w4 = (Inr codes, w5)"
      "run_exact_validation b (rt_validation_commands t) w4 = (Inr passed, w6)" "passed \<longleftrightarrow> set codes \<subseteq> {0}"
    using validation_total [OF cmds] by blast
  let ?w = "if ?tried then w6 else w4"
  obtain after w' where a: "pb_workspace_state_ref b (pb_workdir b) ?w = (Inr after, w')" using ref by blast
  have v: "(if ?tried then run_exact_validation b (rt_validation_commands t) else (\<lambda>w. (Inr False, w))) w4 = (Inr (?tried \<and> passed), ?w)"
    using c(2) by simp
  show ?thesis
    using steps c(1,3) a v compile_InrD(6) [OF plan] plan
    by (intro exI [of _ codes] exI [of _ w5] exI [of _ ?w])
      (simp add: poller_run_codegen_def sbind_def Let_def split: if_splits)
qed

lemma codegen_accepts:
  assumes a: "mk_live_adapter t src backend = Inr a" and g: "validate_codegen_grant t src g (Some (la_plan a)) = Inr ()"
    and run: "backend t src g w = (Inr r, w')"
    and bind: "(er_operation_id r, er_idempotency_key r, er_adapter_id r, er_target_state_ref r, er_fence_token r, er_effects r) =
      (gg_operation_id g, gg_idempotency_key g, gg_adapter_id g, gg_target_state_ref g, gg_fence_token g, ev_effects (gg_planner_envelope g))"
    and ok: "er_outcome r = ''SUCCEEDED''" "er_validation_status r = ''PASS''" "er_reason_code r = ''EXECUTION_PASS''"
      "er_resources r = map (\<lambda>path. ''repo:'' @ path) files" "files \<noteq> []" "distinct files" "set files \<subseteq> set (rt_allowed_files t)"
      "public_ref (er_before_state_ref r)" "public_ref (er_after_state_ref r)"
    and pub: "\<forall>path\<in>set (rt_allowed_files t). public_ref (''repo:'' @ path)"
  shows "live_adapter_execute a g w = (Inr r, w')" "result_accepted g r"
proof -
  note d = adapter_InrD [OF a] and e = codegen_grantD(1) [OF adapter_InrD(4) [OF a] g]
  have touched: "validate_actual_touched_resources r (ev_resources (gg_planner_envelope g)) = Inr ()"
    using ok pub unfolding e by (auto simp: validate_actual_touched_resources_def touched_ref_def Let_def distinct_map inj_on_def)
  show "live_adapter_execute a g w = (Inr r, w')"
    using d(1-3) g run bind ok(1,2) touched by (simp add: live_adapter_execute_def validate_codegen_result_def sbind_def guards.simps)
  show "result_accepted g r"
    using bind ok touched by (simp add: result_accepted_def validate_result_def upper_digits_underscore_def list_ex_iff guards.simps)
qed

lemma poller_completed:
  assumes t: "from_mapping v = Inr t" and a: "mk_live_adapter t src (poller_run_codegen b) = Inr a" and pr: "preparable t bo"
    and g: "validate_codegen_grant t src g (Some (la_plan a)) = Inr ()"
    and steps: "pb_workspace_state_ref b (pb_workdir b) w = (Inr before, w1)"
      "pb_run_mechanics b (pb_task_content b) (pb_workdir b) t w1 = (Inr (0, output), w2)"
      "pb_changed_files b (pb_workdir b) w2 = (Inr files, w3)"
      "pb_classify_mechanics_status b output 0 w3 = (Inr ''DONE'', w4)"
    and files: "files \<noteq> []" "distinct files" "set files \<subseteq> set (rt_allowed_files t)"
    and cmds: "\<forall>c\<in>set (rt_validation_commands t). \<forall>w. \<exists>out w'. pb_run_validation_command b c (pb_workdir b) w = (Inr (0, out), w')"
    and ref: "\<forall>w. \<exists>ref w'. pb_workspace_state_ref b (pb_workdir b) w = (Inr ref, w') \<and> public_ref ref"
  shows "\<exists>r w'. live_adapter_execute a g w = (Inr r, w') \<and> result_accepted g r \<and> er_outcome r = ''SUCCEEDED'' \<and>
    er_resources r = map (\<lambda>path. ''repo:'' @ path) files"
proof -
  have total: "\<forall>c\<in>set (rt_validation_commands t). \<forall>w. \<exists>code out w'. pb_run_validation_command b c (pb_workdir b) w = (Inr (code, out), w')"
      "\<forall>w. \<exists>ref w'. pb_workspace_state_ref b (pb_workdir b) w = (Inr ref, w')" using cmds ref by blast+
  have zero: "set codes \<subseteq> {0}" if "run_all_commands b cs w = (Inr codes, w')" "set cs \<subseteq> set (rt_validation_commands t)" for cs codes w w'
    using that
  proof (induction cs arbitrary: w codes)
    case (Cons c cs)
    obtain out w1 where "pb_run_validation_command b c (pb_workdir b) w = (Inr (0, out), w1)" using cmds Cons(3) by (meson list.set_intros(1) subsetD)
    then obtain rest where "run_all_commands b cs w1 = (Inr rest, w')" "codes = 0 # rest" using Cons(2) by (auto simp: sbind_Inr_iff)
    then show ?case using Cons(1,3) by simp
  qed simp
  have public: "public_ref ref" if "pb_workspace_state_ref b (pb_workdir b) w = (Inr ref, w')" for w ref w'
  proof -
    obtain ref' w'' where "pb_workspace_state_ref b (pb_workdir b) w = (Inr ref', w'')" "public_ref ref'" using ref by blast
    then show ?thesis using that by simp
  qed
  obtain codes w5 w6 r w' where c: "run_all_commands b (rt_validation_commands t) w4 = (Inr codes, w5)"
      and r: "poller_run_codegen b t src g w = (Inr r, w')" "er_resources r = map (\<lambda>path. ''repo:'' @ path) files"
      "er_outcome r = (if files \<noteq> [] \<and> set codes \<subseteq> {0} then ''SUCCEEDED'' else ''FAILED'')"
      "er_validation_status r = (if er_outcome r = ''SUCCEEDED'' then ''PASS'' else ''FAIL'')"
      "er_reason_code r = (if er_outcome r = ''SUCCEEDED'' then ''EXECUTION_PASS'' else ''EXECUTION_FAILED'')"
      "er_before_state_ref r = before" "pb_workspace_state_ref b (pb_workdir b) w6 = (Inr (er_after_state_ref r), w')"
      "(er_operation_id r, er_idempotency_key r, er_adapter_id r, er_target_state_ref r, er_fence_token r, er_effects r) =
        (gg_operation_id g, gg_idempotency_key g, gg_adapter_id g, gg_target_state_ref g, gg_fence_token g, ev_effects (gg_planner_envelope g))"
    using poller_answer [OF adapter_InrD(4) [OF a] steps total, of g] by auto
  have s: "er_outcome r = ''SUCCEEDED''" using r(3) files(1) zero [OF c] by simp
  have "\<forall>path\<in>set (rt_allowed_files t). public_ref (''repo:'' @ path)" using accepted_refs(1) [OF t pr] by auto
  then show ?thesis
    using codegen_accepts [OF a g r(1) r(8) s _ _ r(2) files] s r(2,4-7) public [OF steps(1)] public [OF r(7)] by auto
qed

subsection \<open>Properties\<close>

text \<open>
  C11. Whatever backend the adapter is given, a result it lets through touches only files the task allows,
  each once and none of them protected, carries the identity and the fence of the grant, calls itself
  validated exactly when it succeeded, and names no file only if nothing changed.
\<close>

theorem codegen_confined:
  assumes "mk_live_adapter t src backend = Inr a" "live_adapter_execute a g w = (Inr r, w')"
  shows "(\<forall>ref\<in>set (er_resources r). \<exists>path\<in>set (rt_allowed_files t). ref = ''repo:'' @ path \<and> \<not> is_protected_path path) \<and>
    distinct (er_resources r) \<and> er_idempotency_key r = ir_idempotency_key (bo_operation_ir (lp_bound (la_plan a))) \<and>
    er_fence_token r = gg_fence_token g \<and>
    er_validation_status r = (if er_outcome r = ''SUCCEEDED'' then ''PASS'' else ''FAIL'') \<and>
    (er_resources r = [] \<longrightarrow> er_outcome r \<noteq> ''SUCCEEDED'' \<and> er_before_state_ref r = er_after_state_ref r)"
proof -
  note d = adapter_InrD [OF assms(1)]
  have v: "validate_codegen_grant t src g (Some (la_plan a)) = Inr ()" "validate_codegen_result g r = Inr ()"
    using assms(2) d by (auto simp: live_adapter_execute_def guarded_Inr_iff sbind_Inr_iff)
  note g = codegen_grantD [OF d(4) v(1)] and r = codegen_resultD [OF v(2)]
  show ?thesis using r g(1,2) compile_InrD(4) [OF d(4)] by auto
qed

text \<open>
  C12. The adapter of one task runs no other.  Presented with a grant that the gate issued for an operation
  bound from any validated task, on any route, it refuses before the backend touches the workspace, or
  the operation is the very one its own task was compiled to; payloads without floats, and unless the
  two source payloads or the two task documents are a SHA-256 collision.
\<close>

theorem codegen_grant_exclusive:
  assumes "from_mapping v = Inr t" "mk_live_adapter t src backend = Inr a"
    and "from_mapping v' = Inr t'" "bind_runner_operation t' route operation source issue = Inr bo"
    and "ledger_reachable (rs_ledger rs)" "prepare frepr nodes envs planner (green_request bo ttl now parent) t1 t2 rs = (Inr h, rs')"
    and "gate_grant frepr nodes envs current_ref u now h rs' = Inr g"
    and "no_floats (rt_payload t)" "no_floats (rt_payload t')" "no_collision (task_json t) (task_json t')"
    and "no_collision (JObj (source_payload t src ''adapter:repo-codegen'' ''code_generation'' ''codegen''))
      (JObj (source_payload t' (bo_source_task_ref bo) (ra_adapter_id (bo_binding bo)) route operation))"
  shows "(\<exists>e. live_adapter_execute a g w = (Inl e, w)) \<or>
    t = t' \<and> route = ''code_generation'' \<and> operation = ''codegen'' \<and> bo = lp_bound (la_plan a)"
proof (cases "validate_codegen_grant t src g (Some (la_plan a))")
  case Inl
  then show ?thesis using adapter_InrD [OF assms(2)] by (simp add: live_adapter_execute_def)
next
  case (Inr x)
  note d = adapter_InrD [OF assms(2)] and c = compile_InrD [OF adapter_InrD(4) [OF assms(2)]]
  have "gg_idempotency_key g = ir_idempotency_key (bo_operation_ir bo)"
    using prepared_green_grant [OF assms(5-7)] by (simp add: validate_green_grant_def)
  then have key: "ir_idempotency_key (bo_operation_ir (lp_bound (la_plan a))) = ir_idempotency_key (bo_operation_ir bo)"
    using codegen_grantD(2) [OF d(4)] Inr by simp
  have src: "bo_source_task_ref (lp_bound (la_plan a)) = src" using c(6) by (simp add: plan_source_task_ref_def)
  show ?thesis
    using bound_key_inject [OF assms(1) c(5) assms(3,4) key assms(8-10)] assms(11) src codegen_binding(2) [OF c(5)] by auto
qed

text \<open>
  C13. When none of its callables raises, the poller backend always answers, and with SUCCEEDED exactly when
  the generator exited with 0, its output was classified DONE, some file changed and every validation
  command of the task, run in order, exits with 0, although the loop stops at the first that does not.  The
  touched resources are the changed files, the state after the run is read last, and rollback is never requested.
\<close>

theorem poller_success_exact:
  assumes "compile_live_codegen_plan t src = Inr plan"
    and "pb_workspace_state_ref b (pb_workdir b) w = (Inr before, w1)"
      "pb_run_mechanics b (pb_task_content b) (pb_workdir b) t w1 = (Inr (code, output), w2)"
      "pb_changed_files b (pb_workdir b) w2 = (Inr files, w3)"
      "pb_classify_mechanics_status b output code w3 = (Inr status, w4)"
    and "\<forall>c\<in>set (rt_validation_commands t). \<forall>w. \<exists>code out w'. pb_run_validation_command b c (pb_workdir b) w = (Inr (code, out), w')"
    and "\<forall>w. \<exists>ref w'. pb_workspace_state_ref b (pb_workdir b) w = (Inr ref, w')"
  shows "\<exists>codes w5 w6 r w'. run_all_commands b (rt_validation_commands t) w4 = (Inr codes, w5) \<and>
    poller_run_codegen b t src g w = (Inr r, w') \<and> er_resources r = map (\<lambda>path. ''repo:'' @ path) files \<and>
    er_outcome r = (if code = 0 \<and> status = ''DONE'' \<and> files \<noteq> [] \<and> set codes \<subseteq> {0} then ''SUCCEEDED'' else ''FAILED'') \<and>
    er_validation_status r = (if er_outcome r = ''SUCCEEDED'' then ''PASS'' else ''FAIL'') \<and>
    er_before_state_ref r = before \<and> pb_workspace_state_ref b (pb_workdir b) w6 = (Inr (er_after_state_ref r), w') \<and>
    \<not> er_rollback_requested r"
  using poller_answer [OF assms, of g] by blast

text \<open>
  C10. A validated task is generated to completion.  For a task the adapter compiles, with exact node
  evidence and stores that are ready for it, a poller whose generator exits with 0 and DONE, whose changed
  files are distinct and allowed, whose validation commands exit with 0 and whose state references are
  public: preparation, grant and run all return, the receipt is COMPLETED with exactly the changed files,
  the ledger says COMPLETED and the lane is free.
\<close>

theorem codegen_completes:
  assumes t: "from_mapping v = Inr t" and a: "mk_live_adapter t src (poller_run_codegen b) = Inr a"
    and bo: "bo = lp_bound (la_plan a)" and ex: "exact_node_registry bo snapshot now = Inr nodes"
    and ready: "green_ready t bo current_ref ttl ck rs"
    and steps: "pb_workspace_state_ref b (pb_workdir b) w = (Inr before, w1)"
      "pb_run_mechanics b (pb_task_content b) (pb_workdir b) t w1 = (Inr (0, output), w2)"
      "pb_changed_files b (pb_workdir b) w2 = (Inr files, w3)"
      "pb_classify_mechanics_status b output 0 w3 = (Inr ''DONE'', w4)"
    and files: "files \<noteq> []" "distinct files" "set files \<subseteq> set (rt_allowed_files t)"
    and cmds: "\<forall>c\<in>set (rt_validation_commands t). \<forall>w. \<exists>out w'. pb_run_validation_command b c (pb_workdir b) w = (Inr (0, out), w')"
    and ref: "\<forall>w. \<exists>ref w'. pb_workspace_state_ref b (pb_workdir b) w = (Inr ref, w') \<and> public_ref ref"
  shows "\<exists>h rs1 g out rs2. prepare_green_authority frepr bo nodes ttl now parent (ck_reserve ck) (ck_release ck) rs = (Inr h, rs1) \<and>
    grant_green_authority frepr h nodes current_ref (ck_gate ck) now rs1 = Inr g \<and>
    exec_run (ck_begin ck) (ck_finalize ck) (ck_done ck) (codegen_executor a w) g rs1 = (Inr out, rs2) \<and>
    xr_terminal_status out = ''COMPLETED'' \<and> xr_touched_resource_refs out = map (\<lambda>path. ''repo:'' @ path) files \<and>
    ledger_status (ir_idempotency_key (bo_operation_ir bo)) (rs_ledger rs2) = Some ''COMPLETED'' \<and>
    lane_leases (rs_leases rs2) (CODEGEN, bo_lease_scope_key bo) = None"
proof -
  let ?q = "green_request bo ttl now parent"
  note d = adapter_InrD [OF a] and c = compile_InrD [OF adapter_InrD(4) [OF a], folded bo]
  have reach: "ledger_reachable (rs_ledger rs)" and pr: "preparable t bo" using ready by (simp_all add: green_ready_def)
  obtain h rs1 g where p: "prepare frepr nodes default_lane_policies default_authority_manifests ?q (ck_reserve ck) (ck_release ck) rs = (Inr h, rs1)"
    and g: "gate_grant frepr nodes default_lane_policies current_ref (ck_gate ck) now h rs1 = Inr g" and sc: "public_ref (pq_lease_scope_key ?q)"
    and lives: "\<forall>u\<in>{ck_begin ck, ck_finalize ck, ck_done ck}. lease_current u (pq_lane ?q) (pq_lease_scope_key ?q) (rs_leases rs1) \<noteq> None"
    and key: "gh_idempotency_key h = ir_idempotency_key (bo_operation_ir bo)"
    using green_granted [OF t c(5) ex ready] by blast
  have v: "validate_codegen_grant t src g (Some (la_plan a)) = Inr ()"
    using prepared_codegen_grant [OF d(4) reach p [unfolded bo] g] sc bo by (simp add: green_request_def)
  obtain r w' where r: "live_adapter_execute a g w = (Inr r, w')" "result_accepted g r" "er_outcome r = ''SUCCEEDED''"
      "er_resources r = map (\<lambda>path. ''repo:'' @ path) files"
    using poller_completed [OF t a pr v steps files cmds ref] by blast
  then have run: "\<exists>r. codegen_executor a w g rs = (Inr r, rs) \<and> result_accepted g r \<and> er_outcome r = ''SUCCEEDED''" for rs
    by (simp add: codegen_executor_def)
  obtain out rs2 where x: "exec_run (ck_begin ck) (ck_finalize ck) (ck_done ck) (codegen_executor a w) g rs1 = (Inr out, rs2)"
      "xr_terminal_status out = ''COMPLETED''" "ledger_status (gh_idempotency_key h) (rs_ledger rs2) = Some ''COMPLETED''"
      "lane_leases (rs_leases rs2) (pq_lane ?q, pq_lease_scope_key ?q) = None"
    using granted_run_completes [where executor = "codegen_executor a w", OF reach p g sc lives run] by blast
  have "xr_touched_resource_refs out = map (\<lambda>path. ''repo:'' @ path) files"
    using run_InrD [OF x(1)] r(1,4) by (auto simp: codegen_executor_def exec_finalize_def guarded_Inr_iff sbind_Inr_iff mk_exec_receipt_def)
  then show ?thesis
    using p g x key codegen_binding(1) [OF c(5)] bound_runner_green [OF c(5)]
    by (auto simp: prepare_green_authority_def grant_green_authority_def default_registries green_request_def)
qed

subsection \<open>Witnesses\<close>

definition codegen_capabilities :: "string list" where
  "codegen_capabilities = [''repository_read'', ''repository_write_allowlisted'', ''test_execution'']"

definition demo_codegen_task :: runner_task where
  "demo_codegen_task = demo_runner_task\<lparr>rt_requested_capabilities := codegen_capabilities\<rparr>"

definition demo_codegen_fields :: "(py_key \<times> py_obj) list" where
  "demo_codegen_fields = AList.update (KStr ''requested_capabilities'') (OList (map OStr codegen_capabilities)) demo_task_fields"

definition demo_codegen_node :: node_snapshot where
  "demo_codegen_node = demo_exact_node\<lparr>nd_capabilities := codegen_capabilities\<rparr>"

text \<open>A workspace that remembers whether the generator has run; \<open>code\<close> is what every validation command exits with.\<close>

definition demo_poller :: "int \<Rightarrow> bool poller_backend" where
  "demo_poller code = \<lparr>pb_task_content = ''edit'', pb_workdir = ''/w'', pb_run_mechanics = (\<lambda>content dir t w. (Inr (0, ''ok''), True)),
     pb_changed_files = (\<lambda>dir w. (Inr (if w then [''src/a.py''] else []), w)),
     pb_run_validation_command = (\<lambda>command dir w. (Inr (code, ''out''), w)),
     pb_workspace_state_ref = (\<lambda>dir w. (Inr (if w then ''git:b'' else ''git:a''), w)),
     pb_classify_mechanics_status = (\<lambda>out code w. (Inr ''DONE'', w))\<rparr>"

lemma demo_codegen_accepted: "from_mapping (OMap demo_codegen_fields) = Inr demo_codegen_task"
  unfolding from_mapping_Inr
proof (intro exI [of _ demo_codegen_fields] conjI)
  have "field_value demo_codegen_fields ''payload'' = field_value demo_task_fields ''payload''" by code_simp
  then show "rt_payload_of (field_value demo_codegen_fields ''payload'') = Inr (rt_payload demo_codegen_task)"
    using demo_payload by (simp add: demo_codegen_task_def)
qed code_simp+

lemma demo_codegen_compiled: "\<exists>plan. compile_live_codegen_plan demo_codegen_task ''issue:7'' = Inr plan"
proof -
  obtain b where b: "binding_for ''code_generation'' ''codegen'' = Inr b" "ra_requires_runner_task b"
      "ra_operation_kind b = ''workspace_write''" "ra_adapter_id b = ''adapter:repo-codegen''"
    by (simp add: binding_for_def route_bindings_def)
  have refs: "public_ref ''adapter:repo-codegen''" "public_ref ''issue:7''" by code_simp+
  have "source_ref (Some ''issue:7'') None = Inr ''issue:7''" using refs(2) by (simp add: source_ref_def require_public_ref_def)
  then obtain bo where bo: "bind_runner_operation demo_codegen_task ''code_generation'' ''codegen'' (Some ''issue:7'') None = Inr bo"
    using b refs by (simp add: bind_runner_operation_def demo_codegen_task_def demo_runner_task_def source_authority_identity_def require_public_ref_def
      mk_operation_ir_def ordinary_operation_kinds_def green_effects_def Let_def)
  have "\<not> is_protected_path ''src/a.py''" by code_simp
  then have "compile_live_codegen_plan demo_codegen_task ''issue:7'' = Inr \<lparr>lp_bound = bo\<rparr>"
    by (intro compile_Inr [OF _ _ _ _ bo]) (simp_all add: demo_codegen_task_def demo_runner_task_def codegen_capabilities_def)
  then show ?thesis by blast
qed

lemma demo_codegen_exact:
  assumes "compile_live_codegen_plan demo_codegen_task ''issue:7'' = Inr plan"
  shows "\<exists>nodes. exact_node_registry (lp_bound plan) demo_codegen_node 10 = Inr nodes" "preparable demo_codegen_task (lp_bound plan)"
proof -
  note c = compile_InrD(5) [OF assms]
  have fields: "task_target_resources (bo_universal_task (lp_bound plan)) = [''repo:src/a.py'']"
      "task_required_capabilities (bo_universal_task (lp_bound plan)) = codegen_capabilities" "task_privacy (bo_universal_task (lp_bound plan)) = PUBLIC_SAFE"
    unfolding bind_runner_task(8,10,11) [OF c] by (simp_all add: demo_codegen_task_def demo_runner_task_def runner_task_privacy_def)
  have "token_ok ''repository_write_allowlisted''" by code_simp
  then have "validate_snapshot demo_codegen_node 10 = Inr ()"
    using demo_node_ids
    by (simp add: validate_snapshot_def demo_codegen_node_def demo_exact_node_def codegen_capabilities_def nonempty_unique_def route_resource_pattern_def)
  then show "\<exists>nodes. exact_node_registry (lp_bound plan) demo_codegen_node 10 = Inr nodes"
    using fields codegen_binding [OF c]
    by (simp add: exact_node_registry_def register_cases) (simp add: demo_codegen_node_def demo_exact_node_def)
  have "\<not> sublist ''..'' ''src/a.py''" "\<not> sublist ''..'' ''o/r''" by code_simp+
  then show "preparable demo_codegen_task (lp_bound plan)"
    by (intro compiled_preparable [OF assms]) (simp_all add: demo_codegen_task_def demo_runner_task_def)
qed

lemma demo_poller_steps:
  fixes b :: "bool poller_backend" and code :: int
  defines "b \<equiv> demo_poller code"
  shows "pb_workspace_state_ref b (pb_workdir b) False = (Inr ''git:a'', False)"
    "pb_run_mechanics b (pb_task_content b) (pb_workdir b) t False = (Inr (0, ''ok''), True)"
    "pb_changed_files b (pb_workdir b) True = (Inr [''src/a.py''], True)"
    "pb_classify_mechanics_status b ''ok'' 0 True = (Inr ''DONE'', True)"
    "\<forall>c\<in>set cs. \<forall>w. \<exists>out w'. pb_run_validation_command b c (pb_workdir b) w = (Inr (code, out), w')"
    "\<forall>w. \<exists>ref w'. pb_workspace_state_ref b (pb_workdir b) w = (Inr ref, w') \<and> public_ref ref"
proof -
  have "public_ref ''git:a''" "public_ref ''git:b''" by code_simp+
  then show "\<forall>w. \<exists>ref w'. pb_workspace_state_ref b (pb_workdir b) w = (Inr ref, w') \<and> public_ref ref"
    by (simp add: b_def demo_poller_def)
qed (simp_all add: b_def demo_poller_def)

lemma demo_codegen_files: "set [''src/a.py''] \<subseteq> set (rt_allowed_files demo_codegen_task)"
  by (simp add: demo_codegen_task_def demo_runner_task_def)

lemma demo_codegen_granted:
  "\<exists>a nodes h rs1 g. mk_live_adapter demo_codegen_task ''issue:7'' (poller_run_codegen (demo_poller 0)) = Inr a \<and>
    prepare demo_repr nodes default_lane_policies default_authority_manifests (green_request (lp_bound (la_plan a)) 30 10 []) 0 1 empty_runner = (Inr h, rs1) \<and>
    gate_grant demo_repr nodes default_lane_policies (\<lambda>h. bo_target_state_ref (lp_bound (la_plan a))) 2 10 h rs1 = Inr g \<and>
    (\<exists>r w'. live_adapter_execute a g False = (Inr r, w') \<and> er_outcome r = ''SUCCEEDED'')"
proof -
  obtain plan where plan: "compile_live_codegen_plan demo_codegen_task ''issue:7'' = Inr plan" using demo_codegen_compiled by blast
  then obtain a where a: "mk_live_adapter demo_codegen_task ''issue:7'' (poller_run_codegen (demo_poller 0)) = Inr a" "la_plan a = plan"
    by (auto simp: mk_live_adapter_def)
  note x = demo_codegen_exact [OF plan] and c = compile_InrD(5) [OF plan]
  obtain nodes where n: "exact_node_registry (lp_bound plan) demo_codegen_node 10 = Inr nodes" using x(1) by blast
  obtain h rs1 g where g: "prepare demo_repr nodes default_lane_policies default_authority_manifests (green_request (lp_bound plan) 30 10 []) 0 1 empty_runner =
      (Inr h, rs1)" "gate_grant demo_repr nodes default_lane_policies (\<lambda>h. bo_target_state_ref (lp_bound plan)) 2 10 h rs1 = Inr g"
      "public_ref (bo_lease_scope_key (lp_bound plan))"
    using green_granted [where frepr = demo_repr and parent = "[]", OF demo_codegen_accepted c n demo_green_ready [OF x(2)]]
    by (auto simp: demo_clock_def green_request_def)
  have v: "validate_codegen_grant demo_codegen_task ''issue:7'' g (Some (la_plan a)) = Inr ()"
    unfolding a(2) by (rule prepared_codegen_grant [OF plan empty_runner_reachable(1) g])
  from poller_completed [OF demo_codegen_accepted a(1) x(2) v demo_poller_steps(1-4) _ _ demo_codegen_files demo_poller_steps(5,6)]
  obtain r w' where "live_adapter_execute a g False = (Inr r, w')" "er_outcome r = ''SUCCEEDED''" by auto
  then show ?thesis using a g(1,2) by blast
qed

theorem codegen_confined_witness:
  "\<exists>a g r w'. mk_live_adapter demo_codegen_task ''issue:7'' (poller_run_codegen (demo_poller 0)) = Inr a \<and>
    live_adapter_execute a g False = (Inr r, w') \<and> er_resources r = [''repo:src/a.py'']"
proof -
  obtain a g r w' where x: "mk_live_adapter demo_codegen_task ''issue:7'' (poller_run_codegen (demo_poller 0)) = Inr a"
      "live_adapter_execute a g False = (Inr r, w')" "er_outcome r = ''SUCCEEDED''"
    using demo_codegen_granted by blast
  have "set (er_resources r) \<subseteq> {''repo:src/a.py''}" "distinct (er_resources r)" "er_resources r \<noteq> []"
    using codegen_confined [OF x(1,2)] x(3) by (auto simp: demo_codegen_task_def demo_runner_task_def)
  then have "er_resources r = [''repo:src/a.py'']" by (cases "er_resources r"; cases "tl (er_resources r)") auto
  then show ?thesis using x(1,2) by blast
qed

theorem codegen_grant_exclusive_witness:
  "\<exists>a nodes h rs1 g. mk_live_adapter demo_codegen_task ''issue:7'' (poller_run_codegen (demo_poller 0)) = Inr a \<and>
    prepare demo_repr nodes default_lane_policies default_authority_manifests (green_request (lp_bound (la_plan a)) 30 10 []) 0 1 empty_runner = (Inr h, rs1) \<and>
    gate_grant demo_repr nodes default_lane_policies (\<lambda>h. bo_target_state_ref (lp_bound (la_plan a))) 2 10 h rs1 = Inr g \<and>
    ((\<exists>e. live_adapter_execute a g False = (Inl e, False)) \<or> bo_operation (lp_bound (la_plan a)) = ''codegen'')"
proof -
  obtain a nodes h rs1 g where x: "mk_live_adapter demo_codegen_task ''issue:7'' (poller_run_codegen (demo_poller 0)) = Inr a"
      "prepare demo_repr nodes default_lane_policies default_authority_manifests (green_request (lp_bound (la_plan a)) 30 10 []) 0 1 empty_runner = (Inr h, rs1)"
      "gate_grant demo_repr nodes default_lane_policies (\<lambda>h. bo_target_state_ref (lp_bound (la_plan a))) 2 10 h rs1 = Inr g"
    using demo_codegen_granted by blast
  note c = compile_InrD [OF adapter_InrD(4) [OF x(1)]]
  have f: "no_floats (rt_payload demo_codegen_task)" by (simp add: demo_codegen_task_def demo_runner_task_def)
  have "bo_source_task_ref (lp_bound (la_plan a)) = ''issue:7''" using c(6) by (simp add: plan_source_task_ref_def)
  then have col: "no_collision (JObj (source_payload demo_codegen_task ''issue:7'' ''adapter:repo-codegen'' ''code_generation'' ''codegen''))
      (JObj (source_payload demo_codegen_task (bo_source_task_ref (lp_bound (la_plan a))) (ra_adapter_id (bo_binding (lp_bound (la_plan a))))
        ''code_generation'' ''codegen''))"
    using codegen_binding(2) [OF c(5)] by simp
  from codegen_grant_exclusive [where w = False, OF demo_codegen_accepted x(1) demo_codegen_accepted c(5) empty_runner_reachable(1) x(2,3) f f no_collision_refl col]
  show ?thesis using x bind_runner_InrD(5) [OF c(5)] by blast
qed

text \<open>A green run and one whose validation fails.\<close>

theorem poller_success_exact_witness:
  "\<forall>g. \<exists>r w' r' w''.
     poller_run_codegen (demo_poller 0) demo_codegen_task ''issue:7'' g False = (Inr r, w') \<and> er_outcome r = ''SUCCEEDED'' \<and>
     poller_run_codegen (demo_poller 1) demo_codegen_task ''issue:7'' g False = (Inr r', w'') \<and> er_outcome r' = ''FAILED''"
proof
  fix g
  obtain plan where plan: "compile_live_codegen_plan demo_codegen_task ''issue:7'' = Inr plan" using demo_codegen_compiled by blast
  have run: "\<exists>r w'. poller_run_codegen (demo_poller code) demo_codegen_task ''issue:7'' g False = (Inr r, w') \<and>
      er_outcome r = (if code = 0 then ''SUCCEEDED'' else ''FAILED'')" for code
  proof -
    have v: "\<forall>c\<in>set (rt_validation_commands demo_codegen_task). \<forall>w. \<exists>code' out w'.
        pb_run_validation_command (demo_poller code) c (pb_workdir (demo_poller code)) w = (Inr (code', out), w')"
      "\<forall>w. \<exists>ref w'. pb_workspace_state_ref (demo_poller code) (pb_workdir (demo_poller code)) w = (Inr ref, w')"
      "run_all_commands (demo_poller code) (rt_validation_commands demo_codegen_task) True = (Inr [code], True)"
      by (simp_all add: demo_poller_def demo_codegen_task_def demo_runner_task_def sbind_def)
    from poller_success_exact [OF plan demo_poller_steps(1-4) v(1,2), of g] v(3) show ?thesis by auto
  qed
  show "\<exists>r w' r' w''.
     poller_run_codegen (demo_poller 0) demo_codegen_task ''issue:7'' g False = (Inr r, w') \<and> er_outcome r = ''SUCCEEDED'' \<and>
     poller_run_codegen (demo_poller 1) demo_codegen_task ''issue:7'' g False = (Inr r', w'') \<and> er_outcome r' = ''FAILED''"
    using run [of 0] run [of 1] by auto
qed

theorem codegen_completes_witness:
  "\<exists>a nodes h rs1 g out rs2. mk_live_adapter demo_codegen_task ''issue:7'' (poller_run_codegen (demo_poller 0)) = Inr a \<and>
    prepare_green_authority demo_repr (lp_bound (la_plan a)) nodes 30 10 [] 0 1 empty_runner = (Inr h, rs1) \<and>
    grant_green_authority demo_repr h nodes (\<lambda>h. bo_target_state_ref (lp_bound (la_plan a))) 2 10 rs1 = Inr g \<and>
    exec_run 3 4 5 (codegen_executor a False) g rs1 = (Inr out, rs2) \<and> xr_terminal_status out = ''COMPLETED'' \<and>
    xr_touched_resource_refs out = [''repo:src/a.py'']"
proof -
  obtain plan where plan: "compile_live_codegen_plan demo_codegen_task ''issue:7'' = Inr plan" using demo_codegen_compiled by blast
  then obtain a where a: "mk_live_adapter demo_codegen_task ''issue:7'' (poller_run_codegen (demo_poller 0)) = Inr a" "la_plan a = plan"
    by (auto simp: mk_live_adapter_def)
  note x = demo_codegen_exact [OF plan]
  obtain nodes where n: "exact_node_registry (lp_bound plan) demo_codegen_node 10 = Inr nodes" using x(1) by blast
  from codegen_completes [where frepr = demo_repr and parent = "[]", OF demo_codegen_accepted a(1) refl n [folded a(2)]
      demo_green_ready [OF x(2) [folded a(2)]] demo_poller_steps(1-4) _ _ demo_codegen_files demo_poller_steps(5,6)]
  obtain h rs1 g out rs2 where "prepare_green_authority demo_repr (lp_bound (la_plan a)) nodes 30 10 [] 0 1 empty_runner = (Inr h, rs1)"
      "grant_green_authority demo_repr h nodes (\<lambda>h. bo_target_state_ref (lp_bound (la_plan a))) 2 10 rs1 = Inr g"
      "exec_run 3 4 5 (codegen_executor a False) g rs1 = (Inr out, rs2)" "xr_terminal_status out = ''COMPLETED''"
      "xr_touched_resource_refs out = [''repo:src/a.py'']"
    by (auto simp: demo_clock_def)
  then show ?thesis using a(1) by blast
qed

end
