(* ===== verification/RunnerLease.thy ===== *)
theory RunnerLease
  imports Json "HOL-Library.Multiset"
begin

text \<open>
  \<^verbatim>\<open>core/runner_lease_store.py\<close>: the execution and recovery ledger of the runner.  A row is one attempt at a
  task; a new attempt is only made when the last one failed or was abandoned.  The table is the list of its
  rows in the order of their ids; the columns of one row are a record, the \<^verbatim>\<open>checkpoint_json\<close> column
  is the document its text encodes.  A transaction rolls back on every exception except an expired lease, which
  is committed as abandoned.  The clock reading and the token a caller does not give are
  arguments.  Statuses outside the five of the CHECK constraint and a checkpoint text that is not a JSON
  object cannot be written, so the two corruption errors of \<^verbatim>\<open>_record\<close> have no branch.
\<close>

subsection \<open>Definitions\<close>

datatype lease_status = Leased | Running | Completed | Failed | Abandoned

definition active_statuses :: "lease_status list" where
  "active_statuses = [Leased, Running]"

record rl_record =
  rl_key :: string
  rl_task_reference :: string
  rl_repo :: string
  rl_branch :: string
  rl_base_sha :: string
  rl_attempt :: int
  rl_status :: lease_status
  rl_token :: string
  rl_acquired_at :: real
  rl_heartbeat_at :: real
  rl_expires_at :: real
  rl_pid :: "int option"
  rl_checkpoint :: "json option"
  rl_receipt_hash :: "string option"
  rl_terminal_reason :: "string option"
  rl_updated_at :: real

record rl_row = rl_record +
  rl_id :: int

record rl_store =
  st_rows :: "rl_row list"
  st_last_id :: int
  st_version :: "string option"
  st_closed :: bool

abbreviation rl_error :: "string \<Rightarrow> 'a res" where
  "rl_error reason \<equiv> Inl (RunnerLeaseStoreError reason)"

definition rl_schema_version :: string where
  "rl_schema_version = ''1''"

text \<open>Opening a database: \<^verbatim>\<open>__init__\<close> with \<^verbatim>\<open>_initialize_schema\<close>.\<close>

definition new_database :: rl_store where
  "new_database = \<lparr>st_rows = [], st_last_id = 0, st_version = None, st_closed = True\<rparr>"

definition rl_open :: "(rl_store, unit) op" where
  "rl_open s = (case st_version s of
     None \<Rightarrow> (Inr (), s\<lparr>st_version := Some rl_schema_version, st_closed := False\<rparr>)
   | Some v \<Rightarrow> if v \<noteq> rl_schema_version then (rl_error ''SCHEMA_VERSION_MISMATCH'', s) else (Inr (), s\<lparr>st_closed := False\<rparr>))"

definition rl_close :: "(rl_store, unit) op" where
  "rl_close s = (Inr (), s\<lparr>st_closed := True\<rparr>)"

text \<open>The argument checks.\<close>

definition rl_text :: "nat \<Rightarrow> string \<Rightarrow> string res" where
  "rl_text max_length v =
     (if v = [] \<or> py_strip v \<noteq> v then rl_error ''INVALID_METADATA''
      else if length v > max_length \<or> list_ex (\<lambda>c. code_point c < 32) v then rl_error ''INVALID_METADATA'' else Inr v)"

definition hex_any :: string where
  "hex_any = ''0123456789abcdefABCDEF''"

definition rl_sha :: "string \<Rightarrow> string res" where
  "rl_sha v = rbind (rl_text 40 v) (\<lambda>t.
     if length t \<noteq> 40 \<or> list_ex (\<lambda>c. c \<notin> set hex_any) t then rl_error ''INVALID_METADATA'' else Inr (py_lower t))"

definition rl_receipt :: "string \<Rightarrow> string res" where
  "rl_receipt v = rbind (rl_text 64 v) (\<lambda>t.
     if length t \<noteq> 64 \<or> list_ex (\<lambda>c. c \<notin> set hex_any) t then rl_error ''INVALID_RECEIPT_HASH'' else Inr (py_lower t))"

definition max_lease_seconds :: real where
  "max_lease_seconds = 7 * 24 * 60 * 60"

definition rl_duration :: "real \<Rightarrow> real res" where
  "rl_duration d = (if d \<le> 0 \<or> d > max_lease_seconds then rl_error ''INVALID_LEASE_DURATION'' else Inr d)"

definition rl_timestamp :: "real \<Rightarrow> real res" where
  "rl_timestamp t = (if t < 0 then rl_error ''INVALID_TIMESTAMP'' else Inr t)"

text \<open>
  The number of bytes of \<^verbatim>\<open>json.dumps(value, ensure_ascii=False, separators=(",", ":"))\<close> in UTF-8; sorting
  the keys does not change it.
\<close>

definition char_size :: "char \<Rightarrow> nat" where
  "char_size c = (let n = code_point c in
     if n \<in> {34, 92, 8, 9, 10, 12, 13} then 2 else if n < 32 then 6 else if n < 128 then 1 else 2)"

definition text_size :: "string \<Rightarrow> nat" where
  "text_size s = 2 + sum_list (map char_size s)"

fun json_size :: "json \<Rightarrow> nat"
and json_size_items :: "json list \<Rightarrow> nat"
and json_size_fields :: "(string \<times> json) list \<Rightarrow> nat" where
  "json_size JNull = 4"
| "json_size (JBool b) = (if b then 4 else 5)"
| "json_size (JInt i) = length (int_text i)"
| "json_size (JFloat t) = length t"
| "json_size (JStr s) = text_size s"
| "json_size (JArr xs) = 2 + json_size_items xs"
| "json_size (JObj kvs) = 2 + json_size_fields kvs"
| "json_size_items [] = 0"
| "json_size_items [x] = json_size x"
| "json_size_items (x # y # ys) = json_size x + 1 + json_size_items (y # ys)"
| "json_size_fields [] = 0"
| "json_size_fields [(k, v)] = text_size k + 1 + json_size v"
| "json_size_fields ((k, v) # f # fs) = text_size k + 1 + json_size v + 1 + json_size_fields (f # fs)"

definition max_checkpoint_bytes :: nat where
  "max_checkpoint_bytes = 32 * 1024"

definition rl_checkpoint_json :: "json \<Rightarrow> json res" where
  "rl_checkpoint_json v = (case v of
     JObj kvs \<Rightarrow> if \<not> printable_ints v \<or> json_size v > max_checkpoint_bytes then rl_error ''INVALID_CHECKPOINT'' else Inr (sort_keys v)
   | _ \<Rightarrow> rl_error ''INVALID_CHECKPOINT'')"

definition rl_key_set :: "string list \<Rightarrow> string list res" where
  "rl_key_set values = rbind (for_each (\<lambda>v. rbind (rl_text 512 v) (\<lambda>_. Inr ())) values) (\<lambda>_.
     if length (remdups values) \<noteq> length values then rl_error ''INVALID_AUTHORITATIVE_SNAPSHOT'' else Inr values)"

text \<open>The queries and the row update.\<close>

definition key_rows :: "string \<Rightarrow> rl_store \<Rightarrow> rl_row list" where
  "key_rows k s = filter (\<lambda>r. rl_key r = k) (st_rows s)"

definition latest_row :: "string \<Rightarrow> rl_store \<Rightarrow> rl_row option" where
  "latest_row k s = (case sort_key rl_attempt (key_rows k s) of [] \<Rightarrow> None | r # rs \<Rightarrow> Some (last (r # rs)))"

definition update_row :: "int \<Rightarrow> (rl_row \<Rightarrow> rl_row) \<Rightarrow> rl_store \<Rightarrow> rl_store" where
  "update_row i f s = s\<lparr>st_rows := map (\<lambda>r. if rl_id r = i then f r else r) (st_rows s)\<rparr>"

definition abandoned :: "string \<Rightarrow> real \<Rightarrow> rl_row \<Rightarrow> rl_row" where
  "abandoned reason now r = r\<lparr>rl_status := Abandoned, rl_terminal_reason := Some reason, rl_updated_at := now\<rparr>"

definition rl_record_of :: "rl_row \<Rightarrow> rl_record" where
  "rl_record_of r = rl_record.truncate r"

definition record_by_id :: "int \<Rightarrow> rl_store \<Rightarrow> rl_record res" where
  "record_by_id i s = (case find (\<lambda>r. rl_id r = i) (st_rows s) of
     None \<Rightarrow> Inl (OtherException ''AssertionError'') | Some r \<Rightarrow> Inr (rl_record_of r))"

text \<open>The checks on entering a transaction, also made by the two reading calls.\<close>

definition rl_ready :: "rl_store \<Rightarrow> unit res" where
  "rl_ready s = guards [
     (st_closed s, RunnerLeaseStoreError ''STORE_CLOSED''),
     (st_version s \<noteq> Some rl_schema_version, RunnerLeaseStoreError ''SCHEMA_VERSION_MISMATCH'')]"

definition rl_transaction :: "(rl_store, 'a) op \<Rightarrow> (rl_store, 'a) op" where
  "rl_transaction body s = guarded (rl_ready s) (\<lambda>_ s. case body s of
     (Inr v, s') \<Rightarrow> (Inr v, s')
   | (Inl e, s') \<Rightarrow> (Inl e, if e = RunnerLeaseStoreError ''LEASE_EXPIRED'' then s' else s)) s"

text \<open>INSERT with the two UNIQUE constraints.\<close>

definition rl_insert :: "rl_row \<Rightarrow> (rl_store, rl_record) op" where
  "rl_insert r s =
     (if list_ex (\<lambda>x. rl_token x = rl_token r \<or> rl_key x = rl_key r \<and> rl_attempt x = rl_attempt r) (st_rows s)
      then (rl_error ''LEASE_CONFLICT'', s)
      else let s' = s\<lparr>st_rows := st_rows s @ [r\<lparr>rl_id := st_last_id s + 1\<rparr>], st_last_id := st_last_id s + 1\<rparr> in
        (case latest_row (rl_key r) s' of
           None \<Rightarrow> (Inl (OtherException ''AssertionError''), s')
         | Some l \<Rightarrow> (Inr (rl_record_of l), s')))"

record rl_request =
  ra_key :: string
  ra_reference :: string
  ra_repo :: string
  ra_branch :: string
  ra_sha :: string
  ra_duration :: real
  ra_now :: real
  ra_token :: string

definition new_attempt :: "rl_request \<Rightarrow> int \<Rightarrow> rl_row" where
  "new_attempt q n = \<lparr>rl_key = ra_key q, rl_task_reference = ra_reference q, rl_repo = ra_repo q, rl_branch = ra_branch q,
     rl_base_sha = ra_sha q, rl_attempt = n, rl_status = Leased, rl_token = ra_token q, rl_acquired_at = ra_now q,
     rl_heartbeat_at = ra_now q, rl_expires_at = ra_now q + ra_duration q, rl_pid = None, rl_checkpoint = None,
     rl_receipt_hash = None, rl_terminal_reason = None, rl_updated_at = ra_now q, rl_id = 0\<rparr>"

definition same_task :: "rl_request \<Rightarrow> rl_row \<Rightarrow> bool" where
  "same_task q r \<longleftrightarrow> (rl_task_reference r, rl_repo r, rl_branch r, rl_base_sha r) = (ra_reference q, ra_repo q, ra_branch q, ra_sha q)"

definition acquire_body :: "rl_request \<Rightarrow> (rl_store, rl_record) op" where
  "acquire_body q s = (case latest_row (ra_key q) s of
     None \<Rightarrow> rl_insert (new_attempt q 1) s
   | Some l \<Rightarrow>
       if \<not> same_task q l then (rl_error ''IDEMPOTENCY_METADATA_MISMATCH'', s)
       else if rl_status l = Completed then (rl_error ''COMPLETED_REPLAY_BLOCKED'', s)
       else if rl_status l \<in> set active_statuses then
         (if rl_expires_at l > ra_now q then (rl_error ''LEASE_CONFLICT'', s)
          else rl_insert (new_attempt q (rl_attempt l + 1))
            (update_row (rl_id l) (abandoned ''lease expired before reacquire'' (ra_now q)) s))
       else rl_insert (new_attempt q (rl_attempt l + 1)) s)"

text \<open>\<^verbatim>\<open>lease_token or self._token_factory()\<close>\<close>

definition given_or :: "string option \<Rightarrow> string \<Rightarrow> string" where
  "given_or v d = (case v of Some t \<Rightarrow> if t = [] then d else t | None \<Rightarrow> d)"

definition acquire_args ::
    "string \<Rightarrow> string \<Rightarrow> string \<Rightarrow> string \<Rightarrow> string \<Rightarrow> real \<Rightarrow> real \<Rightarrow> string option \<Rightarrow> string \<Rightarrow> rl_request res" where
  "acquire_args key reference repo branch base_sha lease_seconds now lease_token factory_token =
     rbind (rl_text 512 key) (\<lambda>k. rbind (rl_text 512 reference) (\<lambda>r. rbind (rl_text 512 repo) (\<lambda>p. rbind (rl_text 512 branch) (\<lambda>b.
     rbind (rl_sha base_sha) (\<lambda>h. rbind (rl_duration lease_seconds) (\<lambda>d. rbind (rl_timestamp now) (\<lambda>t.
     rbind (rl_text 512 (given_or lease_token factory_token)) (\<lambda>tok.
     Inr \<lparr>ra_key = k, ra_reference = r, ra_repo = p, ra_branch = b, ra_sha = h, ra_duration = d, ra_now = t, ra_token = tok\<rparr>))))))))"

definition rl_acquire ::
    "string \<Rightarrow> string \<Rightarrow> string \<Rightarrow> string \<Rightarrow> string \<Rightarrow> real \<Rightarrow> real \<Rightarrow> string option \<Rightarrow> string \<Rightarrow> (rl_store, rl_record) op" where
  "rl_acquire key reference repo branch base_sha lease_seconds now lease_token factory_token =
     guarded (acquire_args key reference repo branch base_sha lease_seconds now lease_token factory_token) (\<lambda>q. rl_transaction (acquire_body q))"

definition active_row :: "string \<Rightarrow> string \<Rightarrow> real \<Rightarrow> (rl_store, rl_row) op" where
  "active_row key token now s =
     guarded (rbind (rl_text 512 key) (\<lambda>_. rl_text 512 token)) (\<lambda>_ s. case latest_row key s of
        None \<Rightarrow> (rl_error ''LEASE_NOT_ACTIVE'', s)
      | Some r \<Rightarrow>
          if rl_status r \<notin> set active_statuses then (rl_error ''LEASE_NOT_ACTIVE'', s)
          else if rl_token r \<noteq> token then (rl_error ''LEASE_TOKEN_MISMATCH'', s)
          else if rl_expires_at r \<le> now then (rl_error ''LEASE_EXPIRED'', update_row (rl_id r) (abandoned ''lease expired'' now) s)
          else (Inr r, s)) s"

text \<open>The shape the five calls of a lease holder share: one UPDATE of the active row, which is then read back.\<close>

definition holder_update :: "string \<Rightarrow> string \<Rightarrow> real \<Rightarrow> unit res \<Rightarrow> (rl_row \<Rightarrow> rl_row) \<Rightarrow> (rl_store, rl_record) op" where
  "holder_update key token now bindable f =
     rl_transaction (sbind (active_row key token now) (\<lambda>row. guarded bindable (\<lambda>_ s.
       (record_by_id (rl_id row) (update_row (rl_id row) f s), update_row (rl_id row) f s))))"

definition rl_heartbeat :: "string \<Rightarrow> string \<Rightarrow> real \<Rightarrow> real \<Rightarrow> (rl_store, rl_record) op" where
  "rl_heartbeat key token lease_seconds now =
     guarded (rbind (rl_duration lease_seconds) (\<lambda>d. rbind (rl_timestamp now) (\<lambda>t. Inr (d, t)))) (\<lambda>(d, t).
       holder_update key token t (Inr ()) (\<lambda>r. r\<lparr>rl_heartbeat_at := t, rl_expires_at := t + d, rl_updated_at := t\<rparr>))"

definition rl_set_running_pid :: "string \<Rightarrow> string \<Rightarrow> int \<Rightarrow> real \<Rightarrow> (rl_store, rl_record) op" where
  "rl_set_running_pid key token pid now =
     guarded (rbind (raise_if (pid \<le> 0) (RunnerLeaseStoreError ''INVALID_PID'')) (\<lambda>_. rl_timestamp now)) (\<lambda>t.
       holder_update key token t (raise_if (pid \<ge> 2 ^ 63) (OtherException ''OverflowError''))
         (\<lambda>r. r\<lparr>rl_status := Running, rl_pid := Some pid, rl_updated_at := t\<rparr>))"

definition rl_save_checkpoint :: "string \<Rightarrow> string \<Rightarrow> json \<Rightarrow> real \<Rightarrow> (rl_store, rl_record) op" where
  "rl_save_checkpoint key token checkpoint now =
     guarded (rbind (rl_checkpoint_json checkpoint) (\<lambda>c. rbind (rl_timestamp now) (\<lambda>t. Inr (c, t)))) (\<lambda>(c, t).
       holder_update key token t (Inr ()) (\<lambda>r. r\<lparr>rl_checkpoint := Some c, rl_updated_at := t\<rparr>))"

definition rl_finish ::
    "string \<Rightarrow> string \<Rightarrow> lease_status \<Rightarrow> string option \<Rightarrow> string option \<Rightarrow> real \<Rightarrow> (rl_store, rl_record) op" where
  "rl_finish key token status receipt reason now =
     guarded (rbind (raise_if (status \<notin> {Completed, Failed}) (ValueError ''unsupported terminal status'')) (\<lambda>_. rl_timestamp now)) (\<lambda>t.
       holder_update key token t (Inr ())
       (\<lambda>r. r\<lparr>rl_status := status, rl_receipt_hash := receipt, rl_terminal_reason := reason, rl_expires_at := t, rl_updated_at := t\<rparr>))"

definition rl_complete :: "string \<Rightarrow> string \<Rightarrow> string \<Rightarrow> real \<Rightarrow> (rl_store, rl_record) op" where
  "rl_complete key token receipt_hash now =
     guarded (rl_receipt receipt_hash) (\<lambda>h. rl_finish key token Completed (Some h) None now)"

definition rl_fail :: "string \<Rightarrow> string \<Rightarrow> string \<Rightarrow> real \<Rightarrow> (rl_store, rl_record) op" where
  "rl_fail key token reason now =
     guarded (rl_text 2048 reason) (\<lambda>r. rl_finish key token Failed None (Some r) now)"

definition rl_get_latest :: "string \<Rightarrow> rl_store \<Rightarrow> rl_record option res" where
  "rl_get_latest key s = rbind (rl_text 512 key) (\<lambda>k. rbind (rl_ready s) (\<lambda>_. Inr (map_option rl_record_of (latest_row k s))))"

abbreviation by_key_attempt :: "rl_row list \<Rightarrow> rl_row list" where
  "by_key_attempt \<equiv> sort_key (\<lambda>r. (rl_key r, rl_attempt r))"

definition rl_list_active :: "real \<Rightarrow> rl_store \<Rightarrow> rl_record list res" where
  "rl_list_active now s = rbind (rl_timestamp now) (\<lambda>t. rbind (rl_ready s) (\<lambda>_.
     Inr (map rl_record_of (by_key_attempt (filter (\<lambda>r. rl_status r \<in> set active_statuses \<and> rl_expires_at r > t) (st_rows s))))))"

fun reconcile_rows :: "string list \<Rightarrow> real \<Rightarrow> rl_row list \<Rightarrow> rl_store \<Rightarrow> string list \<times> rl_store" where
  "reconcile_rows keys now [] s = ([], s)"
| "reconcile_rows keys now (r # rs) s =
     (let expired = rl_expires_at r \<le> now; missing = rl_key r \<notin> set keys in
      if \<not> expired \<and> \<not> missing then reconcile_rows keys now rs s
      else (let reason = (if expired then ''lease expired during reconciliation'' else ''task no longer active in GitHub snapshot'') in
        (case reconcile_rows keys now rs (update_row (rl_id r) (abandoned reason now) s) of (ks, s') \<Rightarrow> (rl_key r # ks, s'))))"

definition rl_reconcile :: "string list \<Rightarrow> real \<Rightarrow> (rl_store, string list) op" where
  "rl_reconcile authoritative_active_keys now =
     guarded (rbind (rl_key_set authoritative_active_keys) (\<lambda>keys. rbind (rl_timestamp now) (\<lambda>t. Inr (keys, t)))) (\<lambda>(keys, t).
       rl_transaction (\<lambda>s. case reconcile_rows keys t (by_key_attempt (filter (\<lambda>r. rl_status r \<in> set active_statuses) (st_rows s))) s of
         (ks, s') \<Rightarrow> (Inr (sort ks), s')))"

text \<open>The calls that may write, and the databases they can produce.\<close>

datatype rl_call =
    RlOpen
  | RlClose
  | RlAcquire string string string string string real real "string option" string
  | RlHeartbeat string string real real
  | RlSetRunningPid string string int real
  | RlSaveCheckpoint string string json real
  | RlComplete string string string real
  | RlFail string string string real
  | RlReconcile "string list" real

datatype rl_reply = NoReply | Acquired rl_record | Updated rl_record | Reconciled "string list"

definition mapped :: "('a \<Rightarrow> 'b) \<Rightarrow> 'a res \<times> 's \<Rightarrow> 'b res \<times> 's" where
  "mapped f out = (case out of (r, s) \<Rightarrow> (map_sum id f r, s))"

fun rl_exec :: "rl_call \<Rightarrow> (rl_store, rl_reply) op" where
  "rl_exec RlOpen s = mapped (\<lambda>_. NoReply) (rl_open s)"
| "rl_exec RlClose s = mapped (\<lambda>_. NoReply) (rl_close s)"
| "rl_exec (RlAcquire k ref repo b sha d t tok fac) s = mapped Acquired (rl_acquire k ref repo b sha d t tok fac s)"
| "rl_exec (RlHeartbeat k tok d t) s = mapped Updated (rl_heartbeat k tok d t s)"
| "rl_exec (RlSetRunningPid k tok pid t) s = mapped Updated (rl_set_running_pid k tok pid t s)"
| "rl_exec (RlSaveCheckpoint k tok c t) s = mapped Updated (rl_save_checkpoint k tok c t s)"
| "rl_exec (RlComplete k tok h t) s = mapped Updated (rl_complete k tok h t s)"
| "rl_exec (RlFail k tok reason t) s = mapped Updated (rl_fail k tok reason t s)"
| "rl_exec (RlReconcile ks t) s = mapped Reconciled (rl_reconcile ks t s)"

inductive rl_reachable :: "rl_store \<Rightarrow> bool" where
  rl_init: "rl_reachable new_database"
| rl_call: "rl_reachable s \<Longrightarrow> rl_reachable (snd (rl_exec c s))"

subsection \<open>One key\<close>

text \<open>
  What the calls keep of a row: its identity.  What they write: only the last row of a key, and only while that
  row is active.
\<close>

definition row_identity :: "rl_row \<Rightarrow> int \<times> string \<times> int \<times> string \<times> string \<times> string \<times> string \<times> string \<times> real" where
  "row_identity r = (rl_id r, rl_key r, rl_attempt r, rl_token r, rl_task_reference r, rl_repo r, rl_branch r, rl_base_sha r, rl_acquired_at r)"

definition task_of :: "rl_row \<Rightarrow> string \<times> string \<times> string \<times> string" where
  "task_of r = (rl_task_reference r, rl_repo r, rl_branch r, rl_base_sha r)"

definition row_active :: "rl_row \<Rightarrow> bool" where
  "row_active r \<longleftrightarrow> rl_status r \<in> set active_statuses"

definition row_dead :: "rl_row \<Rightarrow> bool" where
  "row_dead r \<longleftrightarrow> rl_status r \<in> {Failed, Abandoned}"

definition row_ok :: "rl_row \<Rightarrow> bool" where
  "row_ok r \<longleftrightarrow>
     (rl_status r = Completed \<longleftrightarrow> rl_receipt_hash r \<noteq> None) \<and>
     (row_dead r \<longleftrightarrow> rl_terminal_reason r \<noteq> None) \<and>
     (rl_status r = Running \<longrightarrow> rl_pid r \<noteq> None) \<and>
     (\<forall>p. rl_pid r = Some p \<longrightarrow> 0 < p \<and> p < 2 ^ 63) \<and>
     (\<forall>c. rl_checkpoint r = Some c \<longrightarrow> json_size c \<le> max_checkpoint_bytes) \<and>
     (row_active r \<longrightarrow> rl_heartbeat_at r < rl_expires_at r \<and> rl_expires_at r \<le> rl_heartbeat_at r + max_lease_seconds)"

text \<open>The rows of one key, in order: numbered attempts at one task, all but the last of them dead.\<close>

definition attempt_chain :: "rl_row list \<Rightarrow> bool" where
  "attempt_chain rs \<longleftrightarrow>
     map rl_attempt rs = [1..int (length rs)] \<and>
     (\<forall>r\<in>set (butlast rs). row_dead r) \<and>
     (\<forall>r\<in>set rs. row_ok r \<and> task_of r = task_of (hd rs))"

definition rl_ok :: "rl_store \<Rightarrow> bool" where
  "rl_ok s \<longleftrightarrow> 0 \<le> st_last_id s \<and> map rl_id (st_rows s) = [1..st_last_id s] \<and>
     distinct (map rl_token (st_rows s)) \<and> (\<forall>k. attempt_chain (key_rows k s))"

lemma row_kinds:
  "row_active r \<longleftrightarrow> rl_status r = Leased \<or> rl_status r = Running"
  "\<not> row_active r \<longleftrightarrow> row_dead r \<or> rl_status r = Completed"
  "row_active r \<Longrightarrow> \<not> row_dead r"
  by (cases "rl_status r"; auto simp: row_active_def row_dead_def active_statuses_def)+

lemma row_identity_simps [simp]:
  "row_identity r = row_identity r' \<longleftrightarrow> rl_id r = rl_id r' \<and> rl_key r = rl_key r' \<and> rl_attempt r = rl_attempt r' \<and> rl_token r = rl_token r' \<and>
     task_of r = task_of r' \<and> rl_acquired_at r = rl_acquired_at r'"
  by (auto simp: row_identity_def task_of_def)

lemma chain_Nil [simp]: "attempt_chain []"
  by (simp add: attempt_chain_def)

lemma upto_snoc: "0 \<le> n \<Longrightarrow> [1..n + 1] = [1..n] @ [n + 1]" for n :: int
  by (simp add: upto_rec2)

lemma chain_snoc:
  "attempt_chain (rs @ [r]) \<longleftrightarrow> map rl_attempt rs = [1..int (length rs)] \<and> rl_attempt r = int (length rs) + 1 \<and>
     (\<forall>x\<in>set rs. row_dead x \<and> row_ok x \<and> task_of x = task_of r) \<and> row_ok r"
proof -
  have "map rl_attempt (rs @ [r]) = [1..int (length (rs @ [r]))] \<longleftrightarrow>
      map rl_attempt rs = [1..int (length rs)] \<and> rl_attempt r = int (length rs) + 1"
    using upto_snoc [of "int (length rs)"] by (simp add: ac_simps)
  then show ?thesis
    by (cases rs) (auto simp: attempt_chain_def)
qed

lemma chain_attempts_sorted: "attempt_chain rs \<Longrightarrow> sorted (map rl_attempt rs)"
  by (simp add: attempt_chain_def)

lemma latest_row_last: "rl_ok s \<Longrightarrow> latest_row k s = (if key_rows k s = [] then None else Some (last (key_rows k s)))"
  using sort_key_fixed [OF chain_attempts_sorted, of "key_rows k s"] by (auto simp: latest_row_def rl_ok_def split: list.splits)

lemma latest_row_None: "rl_ok s \<Longrightarrow> latest_row k s = None \<longleftrightarrow> key_rows k s = []"
  by (simp add: latest_row_last)

lemma latest_row_Some: "rl_ok s \<Longrightarrow> latest_row k s = Some l \<longleftrightarrow> (\<exists>rs. key_rows k s = rs @ [l])"
  by (cases "key_rows k s" rule: rev_cases) (auto simp: latest_row_last)

lemma latest_row_attempt: "rl_ok s \<Longrightarrow> latest_row k s = Some l \<Longrightarrow> rl_attempt l = int (length (key_rows k s))"
  by (metis One_nat_def add.commute chain_snoc latest_row_Some length_append_singleton of_nat_Suc rl_ok_def)

lemma latest_row_in: "rl_ok s \<Longrightarrow> latest_row k s = Some l \<Longrightarrow> l \<in> set (st_rows s) \<and> rl_key l = k"
  using last_in_set [of "key_rows k s"] by (auto simp: latest_row_last key_rows_def split: if_splits)

lemma ids_distinct: "rl_ok s \<Longrightarrow> distinct (map rl_id (st_rows s))"
  by (simp add: rl_ok_def)

lemma same_id: "rl_ok s \<Longrightarrow> r \<in> set (st_rows s) \<Longrightarrow> r' \<in> set (st_rows s) \<Longrightarrow> rl_id r = rl_id r' \<Longrightarrow> r = r'"
  using ids_distinct by (metis distinct_map inj_on_def)

lemma same_token: "rl_ok s \<Longrightarrow> r \<in> set (st_rows s) \<Longrightarrow> r' \<in> set (st_rows s) \<Longrightarrow> rl_token r = rl_token r' \<Longrightarrow> r = r'"
  by (metis distinct_map inj_on_def rl_ok_def)

text \<open>A row that is not dead is the last of its key.\<close>

lemma live_row_latest:
  assumes ok: "rl_ok s" and r: "r \<in> set (st_rows s)" "\<not> row_dead r"
  shows "latest_row (rl_key r) s = Some r"
proof -
  have mem: "r \<in> set (key_rows (rl_key r) s)" using r by (simp add: key_rows_def)
  then obtain rs l where rs: "key_rows (rl_key r) s = rs @ [l]" by (cases "key_rows (rl_key r) s" rule: rev_cases) auto
  then have "\<forall>x\<in>set rs. row_dead x" using ok by (metis chain_snoc rl_ok_def)
  then show ?thesis using mem rs r(2) ok by (auto simp: latest_row_Some)
qed

subsection \<open>The two ways a row is written\<close>

definition keeps_identity :: "(rl_row \<Rightarrow> rl_row) \<Rightarrow> bool" where
  "keeps_identity f \<longleftrightarrow> (\<forall>r. row_identity (f r) = row_identity r)"

definition add_row :: "rl_row \<Rightarrow> rl_store \<Rightarrow> rl_store" where
  "add_row r s = s\<lparr>st_rows := st_rows s @ [r\<lparr>rl_id := st_last_id s + 1\<rparr>], st_last_id := st_last_id s + 1\<rparr>"

inductive rl_step :: "rl_store \<Rightarrow> rl_store \<Rightarrow> bool" where
  connection: "rl_step s (s\<lparr>st_version := v, st_closed := b\<rparr>)"
| touch: "latest_row k s = Some l \<Longrightarrow> row_active l \<Longrightarrow> keeps_identity f \<Longrightarrow> row_ok (f l) \<Longrightarrow> rl_step s (update_row (rl_id l) f s)"
| attempt: "rl_token r \<notin> rl_token ` set (st_rows s) \<Longrightarrow> row_ok r \<Longrightarrow> rl_attempt r = int (length (key_rows (rl_key r) s)) + 1 \<Longrightarrow>
    (\<And>l. latest_row (rl_key r) s = Some l \<Longrightarrow> row_dead l \<and> task_of l = task_of r) \<Longrightarrow> rl_step s (add_row r s)"

lemma keeps_identityD: "keeps_identity f \<Longrightarrow>
    rl_id (f r) = rl_id r \<and> rl_key (f r) = rl_key r \<and> rl_attempt (f r) = rl_attempt r \<and> rl_token (f r) = rl_token r \<and> task_of (f r) = task_of r"
  by (simp add: keeps_identity_def)

lemma key_rows_add: "key_rows k (add_row r s) = key_rows k s @ (if rl_key r = k then [r\<lparr>rl_id := st_last_id s + 1\<rparr>] else [])"
  by (simp add: key_rows_def add_row_def)

lemma key_rows_connection [simp]: "key_rows k (s\<lparr>st_version := v, st_closed := b\<rparr>) = key_rows k s"
  by (simp add: key_rows_def)

lemma key_rows_update:
  "keeps_identity f \<Longrightarrow> key_rows k (update_row i f s) = map (\<lambda>r. if rl_id r = i then f r else r) (key_rows k s)"
  unfolding key_rows_def update_row_def
  by (induction "st_rows s" arbitrary: s) (auto simp: filter_map comp_def keeps_identityD cong: filter_cong)

lemma key_rows_touch:
  assumes ok: "rl_ok s" and l: "latest_row k s = Some l" and f: "keeps_identity f"
  shows "key_rows k' (update_row (rl_id l) f s) = (if k' = k then butlast (key_rows k s) @ [f l] else key_rows k' s)"
proof -
  have others: "r = l" if "r \<in> set (key_rows k' s)" "rl_id r = rl_id l" for r k'
    using that same_id [OF ok] latest_row_in [OF ok l] by (auto simp: key_rows_def)
  obtain rs where rs: "key_rows k s = rs @ [l]" using l ok by (auto simp: latest_row_Some)
  have "distinct (map rl_id (key_rows k s))"
    using ids_distinct [OF ok] by (simp add: key_rows_def distinct_map_filter)
  then have "\<forall>r\<in>set rs. rl_id r \<noteq> rl_id l" using rs by (auto simp: image_iff)
  then have "map (\<lambda>r. if rl_id r = rl_id l then f r else r) rs = rs" by (auto intro: map_idI)
  moreover have "map (\<lambda>r. if rl_id r = rl_id l then f r else r) (key_rows k' s) = key_rows k' s" if "k' \<noteq> k"
    using others that latest_row_in [OF ok l] by (intro map_idI) (auto simp: key_rows_def)
  ultimately show ?thesis using rs by (simp add: key_rows_update [OF f])
qed

lemma row_ok_id [simp]: "row_ok (r\<lparr>rl_id := i\<rparr>) = row_ok r" "task_of (r\<lparr>rl_id := i\<rparr>) = task_of r" "row_dead (r\<lparr>rl_id := i\<rparr>) = row_dead r"
  by (simp_all add: row_ok_def row_dead_def row_active_def task_of_def)

lemma chain_touch: "attempt_chain rs \<Longrightarrow> rs \<noteq> [] \<Longrightarrow> keeps_identity f \<Longrightarrow> row_ok (f (last rs)) \<Longrightarrow> attempt_chain (butlast rs @ [f (last rs)])"
  by (cases rs rule: rev_cases) (auto simp: chain_snoc keeps_identityD)

lemma chain_attempt:
  assumes "attempt_chain rs" "row_ok r" "rl_attempt r = int (length rs) + 1" "rs \<noteq> [] \<Longrightarrow> row_dead (last rs) \<and> task_of (last rs) = task_of r"
  shows "attempt_chain (rs @ [r])"
proof (cases rs rule: rev_cases)
  case (snoc ys y)
  with assms show ?thesis
    unfolding chain_snoc [of rs] by (auto simp: chain_snoc upto_snoc add.commute [of 1])
qed (use assms in \<open>simp add: chain_snoc [of "[]", simplified]\<close>)

lemma rl_step_ok: "rl_step s s' \<Longrightarrow> rl_ok s \<Longrightarrow> rl_ok s'"
proof (induction rule: rl_step.induct)
  case (connection s v b)
  then show ?case by (simp add: rl_ok_def)
next
  case (touch k s l f)
  have rows: "map rl_id (st_rows (update_row (rl_id l) f s)) = map rl_id (st_rows s)"
    "map rl_token (st_rows (update_row (rl_id l) f s)) = map rl_token (st_rows s)"
    using keeps_identityD [OF touch.hyps(3)] by (simp_all add: update_row_def)
  obtain rs where "key_rows k s = rs @ [l]" using touch by (auto simp: latest_row_Some)
  then have "attempt_chain (butlast (key_rows k s) @ [f l])"
    using chain_touch [of "rs @ [l]" f] touch unfolding rl_ok_def by (metis append_is_Nil_conv last_snoc not_Cons_self2)
  then show ?case
    using touch.prems rows by (simp add: rl_ok_def key_rows_touch [OF touch.prems touch.hyps(1,3)]) (simp add: update_row_def)
next
  case (attempt r s)
  have "attempt_chain (key_rows (rl_key r) s @ [r\<lparr>rl_id := st_last_id s + 1\<rparr>])"
  proof (rule chain_attempt)
    show "attempt_chain (key_rows (rl_key r) s)" using attempt.prems by (simp add: rl_ok_def)
    assume "key_rows (rl_key r) s \<noteq> []"
    then have "latest_row (rl_key r) s = Some (last (key_rows (rl_key r) s))"
      using attempt.prems by (simp add: latest_row_last)
    then show "row_dead (last (key_rows (rl_key r) s)) \<and> task_of (last (key_rows (rl_key r) s)) = task_of (r\<lparr>rl_id := st_last_id s + 1\<rparr>)"
      using attempt.hyps(4) by simp
  qed (use attempt.hyps in simp_all)
  then show ?case
    using attempt upto_snoc [of "st_last_id s"] by (simp add: rl_ok_def key_rows_add) (auto simp: add_row_def image_iff)
qed

lemma rl_steps_ok: "rl_step\<^sup>*\<^sup>* s s' \<Longrightarrow> rl_ok s \<Longrightarrow> rl_ok s'"
  by (induction rule: rtranclp_induct) (auto dest: rl_step_ok)

subsection \<open>Every call is a sequence of steps\<close>

text \<open>Sorting the keys of a document does not change its size.\<close>

lemma json_size_fields_sum: "json_size_fields kvs = sum_list (map (\<lambda>(k, v). text_size k + 2 + json_size v) kvs) - 1"
  by (induction kvs rule: induct_list012) (auto split: prod.splits)

lemma json_size_items_sum: "json_size_items xs = sum_list (map (\<lambda>x. 1 + json_size x) xs) - 1"
  by (induction xs rule: induct_list012) auto

lemma sum_list_sort_key: "sum_list (map g (sort_key f xs)) = sum_list (map g xs)" for g :: "'a \<Rightarrow> nat"
  by (metis mset_map mset_sort sum_mset_sum_list)

lemma json_size_sort_keys:
  "json_size (sort_keys j) = json_size j"
  "map json_size (sort_keys_items xs) = map json_size xs"
  "map (\<lambda>(k, v). text_size k + 2 + json_size v) (sort_keys_fields kvs) = map (\<lambda>(k, v). text_size k + 2 + json_size v) kvs"
proof (induction j and xs and kvs rule: sort_keys_sort_keys_items_sort_keys_fields.induct)
  case (1 xs)
  then have "map (\<lambda>x. 1 + json_size x) (sort_keys_items xs) = map (\<lambda>x. 1 + json_size x) xs"
    by (metis (mono_tags, lifting) map_eq_conv map_map comp_apply list.map_comp)
  then show ?case by (simp add: json_size_items_sum)
next
  case (2 kvs)
  then show ?case by (simp add: json_size_fields_sum sum_list_sort_key)
qed simp_all

text \<open>The transaction and the row the holder of a token reaches.\<close>

lemmas rl_op_defs = rl_transaction_def guarded_def sbind_def mapped_def

definition lease_expired :: exn where
  "lease_expired = RunnerLeaseStoreError ''LEASE_EXPIRED''"

lemma abandoned_keeps: "keeps_identity (abandoned reason t)"
  by (simp add: keeps_identity_def abandoned_def task_of_def)

lemma abandoned_ok: "row_ok l \<Longrightarrow> row_active l \<Longrightarrow> row_ok (abandoned reason t l)"
  using row_kinds(3) [of l] by (auto simp: row_ok_def row_kinds(1) row_dead_def abandoned_def)

lemma abandoned_dead [simp]: "row_dead (abandoned reason t l)"
  by (simp add: row_dead_def abandoned_def)

lemma find_updated: "rl_ok s \<Longrightarrow> l \<in> set (st_rows s) \<Longrightarrow> keeps_identity f \<Longrightarrow>
    find (\<lambda>r. rl_id r = rl_id l) (st_rows (update_row (rl_id l) f s)) = Some (f l)"
proof -
  assume ok: "rl_ok s" and l: "l \<in> set (st_rows s)" and f: "keeps_identity f"
  have f': "rl_id (f r) = rl_id r" for r using keeps_identityD [OF f] by blast
  have all: "x = f l" if "x \<in> set (st_rows (update_row (rl_id l) f s))" "rl_id x = rl_id l" for x
  proof -
    from that obtain y where y: "y \<in> set (st_rows s)" "x = (if rl_id y = rl_id l then f y else y)" by (auto simp: update_row_def)
    with that f' have "rl_id y = rl_id l" by (simp split: if_splits)
    then show ?thesis using y same_id [OF ok y(1) l] by simp
  qed
  have "f l \<in> set (st_rows (update_row (rl_id l) f s))" using imageI [OF l, of "\<lambda>r. if rl_id r = rl_id l then f r else r"] by (simp add: update_row_def)
  then have "find (\<lambda>r. rl_id r = rl_id l) (st_rows (update_row (rl_id l) f s)) \<noteq> None"
    using f' [of l] unfolding find_None_iff_all by blast
  then obtain x where x: "find (\<lambda>r. rl_id r = rl_id l) (st_rows (update_row (rl_id l) f s)) = Some x" by blast
  then have "x = f l" using find_SomeD [OF x] by (intro all) simp_all
  then show ?thesis using x by simp
qed

lemma rl_text_Inr: "rl_text n v = Inr w \<Longrightarrow> w = v"
  by (auto simp: rl_text_def split: if_splits)

lemma holder_update_cases:
  assumes ok: "rl_ok s" and f: "keeps_identity f" and run: "holder_update k tok t bindable f s = (r, s')"
  obtains (failed) e where "r = Inl e" "s' = s"
  | (expired) l where "latest_row k s = Some l" "row_active l" "rl_token l = tok" "rl_expires_at l \<le> t"
      "r = Inl lease_expired" "s' = update_row (rl_id l) (abandoned ''lease expired'' t) s"
  | (updated) l where "latest_row k s = Some l" "row_active l" "rl_token l = tok" "t < rl_expires_at l" "bindable = Inr ()"
      "r = Inr (rl_record_of (f l))" "s' = update_row (rl_id l) f s"
proof -
  have readback: "latest_row k s = Some l \<Longrightarrow> record_by_id (rl_id l) (update_row (rl_id l) f s) = Inr (rl_record_of (f l))" for l
    using find_updated [OF ok _ f] latest_row_in [OF ok] by (simp add: record_by_id_def)
  show ?thesis
  proof (cases "rl_ready s = Inr () \<and> rl_text 512 k = Inr k \<and> rl_text 512 tok = Inr tok")
    case False
    with run have "\<exists>e. r = Inl e \<and> s' = s"
      by (cases "rl_ready s"; cases "rl_text 512 k"; cases "rl_text 512 tok")
        (auto simp: holder_update_def active_row_def rl_transaction_def sbind_def dest: rl_text_Inr)
    then show ?thesis using failed by blast
  next
    case True
    note open_simps = holder_update_def active_row_def rl_transaction_def sbind_def
    show ?thesis
    proof (cases "latest_row k s")
      case None
      with True run show ?thesis by (intro failed) (auto simp: open_simps)
    next
      case (Some l)
      show ?thesis
      proof (cases "row_active l \<and> rl_token l = tok")
        case False
        with Some True run have "\<exists>e. r = Inl e \<and> s' = s" by (auto simp: open_simps row_active_def split: if_splits)
        then show ?thesis using failed by blast
      next
        case active: True
        show ?thesis
        proof (cases "rl_expires_at l \<le> t")
          case True
          with \<open>rl_ready s = _ \<and> _\<close> Some active run show ?thesis
            by (intro expired [OF Some]) (auto simp: open_simps row_active_def lease_expired_def)
        next
          case False
          with True Some active run readback [OF Some] show ?thesis
            by (cases bindable) (auto intro: failed updated [OF Some] simp: open_simps row_active_def split: if_splits)
        qed
      qed
    qed
  qed
qed

fun holds_with :: "rl_call \<Rightarrow> (string \<times> string) option" where
  "holds_with (RlHeartbeat k tok d t) = Some (k, tok)"
| "holds_with (RlSetRunningPid k tok pid t) = Some (k, tok)"
| "holds_with (RlSaveCheckpoint k tok c t) = Some (k, tok)"
| "holds_with (RlComplete k tok h t) = Some (k, tok)"
| "holds_with (RlFail k tok reason t) = Some (k, tok)"
| "holds_with _ = None"

fun call_time :: "rl_call \<Rightarrow> real" where
  "call_time (RlAcquire k ref repo b sha d t tok fac) = t"
| "call_time (RlHeartbeat k tok d t) = t"
| "call_time (RlSetRunningPid k tok pid t) = t"
| "call_time (RlSaveCheckpoint k tok c t) = t"
| "call_time (RlComplete k tok h t) = t"
| "call_time (RlFail k tok reason t) = t"
| "call_time (RlReconcile ks t) = t"
| "call_time RlOpen = 0"
| "call_time RlClose = 0"

text \<open>A call of a lease holder: it fails, or the lease had run out, or it moves the row to another good one.\<close>

definition good_update :: "(rl_row \<Rightarrow> rl_row) \<Rightarrow> bool" where
  "good_update f \<longleftrightarrow> keeps_identity f \<and> (\<forall>l. row_ok l \<longrightarrow> row_active l \<longrightarrow> row_ok (f l))"

definition holder_shape :: "string \<Rightarrow> string \<Rightarrow> real \<Rightarrow> rl_store \<Rightarrow> rl_reply res \<times> rl_store \<Rightarrow> bool" where
  "holder_shape k tok t s out \<longleftrightarrow> (\<exists>e. out = (Inl e, s)) \<or>
     (\<exists>b f. (b = Inr () \<longrightarrow> good_update f) \<and> keeps_identity f \<and> out = mapped Updated (holder_update k tok t b f s))"

lemma shape_failed: "holder_shape k tok t s (mapped Updated (Inl e, s))"
  by (simp add: holder_shape_def mapped_def)

lemma shape_update: "good_update f \<Longrightarrow> holder_shape k tok t s (mapped Updated (holder_update k tok t b f s))"
  unfolding holder_shape_def good_update_def by blast

lemma shape_update_if:
  "(b = Inr () \<Longrightarrow> good_update f) \<Longrightarrow> keeps_identity f \<Longrightarrow> holder_shape k tok t s (mapped Updated (holder_update k tok t b f s))"
  unfolding holder_shape_def by blast

lemma rl_timestamp_Inr: "rl_timestamp t = Inr u \<longleftrightarrow> 0 \<le> t \<and> u = t"
  by (auto simp: rl_timestamp_def)

lemma rl_duration_Inr: "rl_duration d = Inr u \<longleftrightarrow> 0 < d \<and> d \<le> max_lease_seconds \<and> u = d"
  by (auto simp: rl_duration_def)

lemmas good_update_defs = good_update_def keeps_identity_def row_ok_def row_kinds(1) row_dead_def task_of_def

lemma good_updates:
  "0 < d \<Longrightarrow> d \<le> max_lease_seconds \<Longrightarrow> good_update (\<lambda>r. r\<lparr>rl_heartbeat_at := t, rl_expires_at := t + d, rl_updated_at := t\<rparr>)"
  "0 < pid \<Longrightarrow> pid < 2 ^ 63 \<Longrightarrow> good_update (\<lambda>r. r\<lparr>rl_status := Running, rl_pid := Some pid, rl_updated_at := t\<rparr>)"
  "rl_checkpoint_json v = Inr c \<Longrightarrow> good_update (\<lambda>r. r\<lparr>rl_checkpoint := Some c, rl_updated_at := t\<rparr>)"
  "good_update (\<lambda>r. r\<lparr>rl_status := Completed, rl_receipt_hash := Some h, rl_terminal_reason := None, rl_expires_at := t, rl_updated_at := t\<rparr>)"
  "good_update (\<lambda>r. r\<lparr>rl_status := Failed, rl_receipt_hash := None, rl_terminal_reason := Some reason, rl_expires_at := t, rl_updated_at := t\<rparr>)"
proof -
  assume "rl_checkpoint_json v = Inr c"
  then have "json_size c \<le> max_checkpoint_bytes"
    using json_size_sort_keys(1) [of v]
    by (auto simp: rl_checkpoint_json_def simp del: sort_keys.simps json_size.simps printable_ints.simps split: json.splits if_splits)
  then show "good_update (\<lambda>r. r\<lparr>rl_checkpoint := Some c, rl_updated_at := t\<rparr>)" by (auto simp: good_update_defs)
qed (auto simp: good_update_defs)

lemma holder_exec: "holds_with c = Some (k, tok) \<Longrightarrow> holder_shape k tok (call_time c) s (rl_exec c s)"
proof (cases c)
  case (RlHeartbeat k' tok' d t)
  moreover assume "holds_with c = Some (k, tok)"
  ultimately show ?thesis
    by (cases "0 < d \<and> d \<le> max_lease_seconds"; cases "0 \<le> t") (auto simp: rl_heartbeat_def rl_duration_def rl_timestamp_def shape_failed shape_update good_updates)
next
  case (RlSetRunningPid k' tok' pid t)
  moreover assume "holds_with c = Some (k, tok)"
  moreover have "keeps_identity (\<lambda>r. r\<lparr>rl_status := Running, rl_pid := Some pid, rl_updated_at := t\<rparr>)"
    by (simp add: keeps_identity_def task_of_def)
  ultimately show ?thesis
    by (cases "0 < pid"; cases "0 \<le> t")
      (auto intro!: shape_failed shape_update_if good_updates simp: rl_timestamp_def rl_set_running_pid_def)
next
  case (RlSaveCheckpoint k' tok' v t)
  moreover assume "holds_with c = Some (k, tok)"
  ultimately show ?thesis
    by (cases "rl_checkpoint_json v"; cases "0 \<le> t") (simp_all add: rl_timestamp_def rl_save_checkpoint_def shape_failed shape_update good_updates)
next
  case (RlComplete k' tok' h t)
  moreover assume "holds_with c = Some (k, tok)"
  ultimately show ?thesis
    by (cases "rl_receipt h"; cases "0 \<le> t") (simp_all add: rl_timestamp_def rl_complete_def rl_finish_def shape_failed shape_update good_updates)
next
  case (RlFail k' tok' reason t)
  moreover assume "holds_with c = Some (k, tok)"
  ultimately show ?thesis
    by (cases "rl_text 2048 reason"; cases "0 \<le> t") (simp_all add: rl_timestamp_def rl_fail_def rl_finish_def shape_failed shape_update good_updates)
qed simp_all

lemma holder_call_cases:
  assumes ok: "rl_ok s" and c: "holds_with c = Some (k, tok)" and run: "rl_exec c s = (r, s')"
  obtains (failed) e where "r = Inl e" "s' = s"
  | (expired) l where "latest_row k s = Some l" "row_active l" "rl_token l = tok" "rl_expires_at l \<le> call_time c"
      "r = Inl lease_expired" "s' = update_row (rl_id l) (abandoned ''lease expired'' (call_time c)) s"
  | (updated) l f where "latest_row k s = Some l" "row_active l" "rl_token l = tok" "call_time c < rl_expires_at l" "good_update f"
      "r = Inr (Updated (rl_record_of (f l)))" "s' = update_row (rl_id l) f s"
proof (use holder_exec [OF c, of s, unfolded holder_shape_def] in \<open>elim disjE exE conjE\<close>)
  fix e assume "rl_exec c s = (Inl e, s)"
  then show ?thesis using run failed by simp
next
  fix b f
  assume good: "b = Inr () \<longrightarrow> good_update f" and keeps: "keeps_identity f"
    and ex: "rl_exec c s = mapped Updated (holder_update k tok (call_time c) b f s)"
  obtain r0 s0 where out: "holder_update k tok (call_time c) b f s = (r0, s0)" by fastforce
  with ex run have r: "r = map_sum id Updated r0" "s' = s0" by (simp_all add: mapped_def)
  from holder_update_cases [OF ok keeps out] show ?thesis
    by cases (use r good failed expired updated in auto)
qed

text \<open>Acquiring: it fails and is rolled back, or the last attempt is dead and a fresh row is added.\<close>

lemma new_attempt_simps [simp]:
  "rl_key (new_attempt q n) = ra_key q" "rl_token (new_attempt q n) = ra_token q" "rl_attempt (new_attempt q n) = n"
  "task_of (new_attempt q n) = (ra_reference q, ra_repo q, ra_branch q, ra_sha q)" "rl_status (new_attempt q n) = Leased"
  by (simp_all add: new_attempt_def task_of_def)

lemma new_attempt_ok: "0 < ra_duration q \<Longrightarrow> ra_duration q \<le> max_lease_seconds \<Longrightarrow> row_ok (new_attempt q n)"
  by (simp add: row_ok_def row_dead_def row_kinds(1)) (simp add: new_attempt_def)

lemma acquire_argsD:
  assumes "acquire_args k ref repo b sha d t tok fac = Inr q"
  shows "ra_key q = k \<and> ra_reference q = ref \<and> ra_repo q = repo \<and> ra_branch q = b \<and> ra_duration q = d \<and> ra_now q = t \<and>
    ra_token q = given_or tok fac \<and> 0 < d \<and> d \<le> max_lease_seconds \<and> 0 \<le> t \<and> rl_sha sha = Inr (ra_sha q)"
  using assms by (auto simp: acquire_args_def rl_duration_Inr rl_timestamp_Inr dest!: rl_text_Inr)

lemma latest_row_add:
  assumes ok: "rl_ok (add_row r s)"
  shows "latest_row (rl_key r) (add_row r s) = Some (r\<lparr>rl_id := st_last_id s + 1\<rparr>)"
  using ok by (simp add: latest_row_Some key_rows_add)

text \<open>The store an attempt is added to: the expired lease of the key, if any, is abandoned in it.\<close>

definition cleared :: "string \<Rightarrow> real \<Rightarrow> rl_store \<Rightarrow> rl_store" where
  "cleared k t s = (case latest_row k s of
     Some l \<Rightarrow> if row_active l then update_row (rl_id l) (abandoned ''lease expired before reacquire'' t) s else s
   | None \<Rightarrow> s)"

definition next_attempt :: "string \<Rightarrow> rl_store \<Rightarrow> int" where
  "next_attempt k s = int (length (key_rows k s)) + 1"

definition acquirable :: "rl_request \<Rightarrow> rl_store \<Rightarrow> bool" where
  "acquirable q s \<longleftrightarrow> ra_token q \<notin> rl_token ` set (st_rows s) \<and>
     (\<forall>l. latest_row (ra_key q) s = Some l \<longrightarrow> same_task q l \<and> rl_status l \<noteq> Completed \<and> (row_active l \<longrightarrow> rl_expires_at l \<le> ra_now q))"

lemma update_row_tokens: "keeps_identity f \<Longrightarrow> rl_token ` set (st_rows (update_row i f s)) = rl_token ` set (st_rows s)"
proof -
  assume "keeps_identity f"
  then have "map rl_token (st_rows (update_row i f s)) = map rl_token (st_rows s)" by (simp add: update_row_def keeps_identityD)
  then show ?thesis by (metis list.set_map)
qed

lemma cleared_steps:
  assumes ok: "rl_ok s"
  shows "rl_step\<^sup>*\<^sup>* s (cleared k t s)"
proof (cases "\<exists>l. latest_row k s = Some l \<and> row_active l")
  case True
  then obtain l where l: "latest_row k s = Some l" "row_active l" by blast
  then have "row_ok l" using ok latest_row_Some [OF ok, of k l] by (auto simp: rl_ok_def chain_snoc dest: spec [of _ k])
  then show ?thesis
    using l rl_step.touch [OF l abandoned_keeps abandoned_ok] by (simp add: cleared_def r_into_rtranclp)
qed (auto simp: cleared_def split: option.splits)

lemma cleared_facts:
  assumes ok: "rl_ok s"
  shows "rl_token ` set (st_rows (cleared k t s)) = rl_token ` set (st_rows s)"
    and "length (key_rows k (cleared k t s)) = length (key_rows k s)"
    and "k' \<noteq> k \<Longrightarrow> key_rows k' (cleared k t s) = key_rows k' s"
    and "latest_row k (cleared k t s) = (case latest_row k s of None \<Rightarrow> None
       | Some l \<Rightarrow> Some (if row_active l then abandoned ''lease expired before reacquire'' t l else l))"
    and "st_last_id (cleared k t s) = st_last_id s"
proof -
  have ok': "rl_ok (cleared k t s)" using rl_steps_ok [OF cleared_steps ok] ok by blast
  show tokens: "rl_token ` set (st_rows (cleared k t s)) = rl_token ` set (st_rows s)"
    by (simp add: cleared_def update_row_tokens abandoned_keeps split: option.splits)
  show "st_last_id (cleared k t s) = st_last_id s" by (simp add: cleared_def update_row_def split: option.splits)
  have "length (key_rows k (cleared k t s)) = length (key_rows k s) \<and> (k' \<noteq> k \<longrightarrow> key_rows k' (cleared k t s) = key_rows k' s) \<and>
    latest_row k (cleared k t s) = (case latest_row k s of None \<Rightarrow> None
       | Some l \<Rightarrow> Some (if row_active l then abandoned ''lease expired before reacquire'' t l else l))"
  proof (cases "\<exists>l. latest_row k s = Some l \<and> row_active l")
    case True
    then obtain l where l: "latest_row k s = Some l" "row_active l" by blast
    then have "key_rows k s \<noteq> []" using ok by (simp add: latest_row_last split: if_splits)
    moreover have "key_rows k' (cleared k t s) =
        (if k' = k then butlast (key_rows k s) @ [abandoned ''lease expired before reacquire'' t l] else key_rows k' s)" for k'
      using l key_rows_touch [OF ok l(1) abandoned_keeps] by (simp add: cleared_def)
    ultimately show ?thesis using l by (simp add: latest_row_last [OF ok'])
  next
    case False
    then have "cleared k t s = s" by (auto simp: cleared_def split: option.splits)
    then show ?thesis using False by (auto split: option.splits)
  qed
  then show "length (key_rows k (cleared k t s)) = length (key_rows k s)" "k' \<noteq> k \<Longrightarrow> key_rows k' (cleared k t s) = key_rows k' s"
    "latest_row k (cleared k t s) = (case latest_row k s of None \<Rightarrow> None
       | Some l \<Rightarrow> Some (if row_active l then abandoned ''lease expired before reacquire'' t l else l))" by blast+
qed

lemma acquire_step:
  assumes ok: "rl_ok s" and q: "0 < ra_duration q" "ra_duration q \<le> max_lease_seconds" and free: "acquirable q s"
  shows "rl_step (cleared (ra_key q) (ra_now q) s) (add_row (new_attempt q (next_attempt (ra_key q) s)) (cleared (ra_key q) (ra_now q) s))"
proof (rule rl_step.attempt)
  fix l assume "latest_row (rl_key (new_attempt q (next_attempt (ra_key q) s))) (cleared (ra_key q) (ra_now q) s) = Some l"
  then obtain l0 where l0: "latest_row (ra_key q) s = Some l0"
      and l: "l = (if row_active l0 then abandoned ''lease expired before reacquire'' (ra_now q) l0 else l0)"
    by (auto simp: cleared_facts(4) [OF ok] split: option.splits)
  then have "same_task q l0" "\<not> row_active l0 \<Longrightarrow> row_dead l0"
    using free row_kinds(2) [of l0] by (auto simp: acquirable_def)
  then show "row_dead l \<and> task_of l = task_of (new_attempt q (next_attempt (ra_key q) s))"
    using l keeps_identityD [OF abandoned_keeps] by (auto simp: same_task_def) (auto simp: task_of_def)
qed (use free q in \<open>auto simp: acquirable_def cleared_facts [OF ok] new_attempt_ok next_attempt_def\<close>)

lemma insert_row:
  assumes "rl_ok (add_row r s)" "rl_token r \<notin> rl_token ` set (st_rows s)" "rl_attempt r = int (length (key_rows (rl_key r) s)) + 1" "rl_ok s"
  shows "rl_insert r s = (Inr (rl_record_of r), add_row r s)"
proof -
  have "rl_attempt x \<noteq> rl_attempt r" if "x \<in> set (key_rows (rl_key r) s)" for x
  proof -
    have "rl_attempt x \<in> set (map rl_attempt (key_rows (rl_key r) s))" using that by simp
    also have "map rl_attempt (key_rows (rl_key r) s) = [1..int (length (key_rows (rl_key r) s))]"
      using assms(4) by (simp add: rl_ok_def attempt_chain_def)
    finally show ?thesis using assms(3) by simp
  qed
  then have "\<not> list_ex (\<lambda>x. rl_token x = rl_token r \<or> rl_key x = rl_key r \<and> rl_attempt x = rl_attempt r) (st_rows s)"
    using assms(2) by (auto simp: list_ex_iff key_rows_def image_iff)
  moreover have "rl_record_of (r\<lparr>rl_id := i\<rparr>) = rl_record_of r" for i
    by (simp add: rl_record_of_def rl_record.truncate_def)
  ultimately show ?thesis
    using latest_row_add [OF assms(1)] by (simp add: rl_insert_def Let_def flip: add_row_def)
qed

lemma insert_conflict: "rl_token r \<in> rl_token ` set (st_rows s) \<Longrightarrow> rl_insert r s = (rl_error ''LEASE_CONFLICT'', s)"
  by (force simp: rl_insert_def list_ex_iff)

lemma acquire_body_ok:
  assumes ok: "rl_ok s" and q: "0 < ra_duration q" "ra_duration q \<le> max_lease_seconds" and free: "acquirable q s"
  shows "acquire_body q s = (Inr (rl_record_of (new_attempt q (next_attempt (ra_key q) s))),
    add_row (new_attempt q (next_attempt (ra_key q) s)) (cleared (ra_key q) (ra_now q) s))"
proof -
  let ?c = "cleared (ra_key q) (ra_now q) s" and ?r = "new_attempt q (next_attempt (ra_key q) s)"
  have c: "rl_ok ?c" using rl_steps_ok [OF cleared_steps ok] ok by blast
  have ins: "rl_insert ?r ?c = (Inr (rl_record_of ?r), add_row ?r ?c)"
    using free by (intro insert_row rl_step_ok [OF acquire_step [OF ok q free]] c)
      (simp_all add: acquirable_def cleared_facts [OF ok] next_attempt_def)
  show ?thesis
  proof (cases "latest_row (ra_key q) s")
    case None
    then have "?c = s" "next_attempt (ra_key q) s = 1" using latest_row_None [OF ok, of "ra_key q"] by (simp_all add: cleared_def next_attempt_def)
    then show ?thesis using None ins by (simp add: acquire_body_def)
  next
    case (Some l)
    then have "rl_attempt l + 1 = next_attempt (ra_key q) s" using latest_row_attempt [OF ok] by (simp add: next_attempt_def)
    then show ?thesis using Some ins free by (auto simp: acquire_body_def acquirable_def cleared_def row_active_def)
  qed
qed

lemma acquire_body_stuck:
  assumes ok: "rl_ok s" and q: "\<not> acquirable q s"
  shows "\<exists>e s'. acquire_body q s = (Inl e, s') \<and> e \<noteq> lease_expired"
proof (cases "ra_token q \<in> rl_token ` set (st_rows s)")
  case True
  then have "rl_insert (new_attempt q n) s = (rl_error ''LEASE_CONFLICT'', s)"
    "rl_insert (new_attempt q n) (update_row i (abandoned reason t) s) = (rl_error ''LEASE_CONFLICT'', update_row i (abandoned reason t) s)"
      for n i reason t
    by (simp_all add: insert_conflict update_row_tokens abandoned_keeps)
  then show ?thesis
    by (simp add: acquire_body_def lease_expired_def split: option.splits)
next
  case False
  with q obtain l where "latest_row (ra_key q) s = Some l" "\<not> same_task q l \<or> rl_status l = Completed \<or> row_active l \<and> ra_now q < rl_expires_at l"
    by (auto simp: acquirable_def not_le)
  then show ?thesis by (auto simp: acquire_body_def row_active_def lease_expired_def)
qed

lemma acquire_cases:
  assumes ok: "rl_ok s" and run: "rl_acquire k ref repo b sha d t tok fac s = (r, s')"
  obtains (failed) e where "r = Inl e" "s' = s"
  | (acquired) q where "acquire_args k ref repo b sha d t tok fac = Inr q" "acquirable q s" "rl_ready s = Inr ()"
      "r = Inr (rl_record_of (new_attempt q (next_attempt k s)))" "s' = add_row (new_attempt q (next_attempt k s)) (cleared k t s)"
proof (cases "acquire_args k ref repo b sha d t tok fac")
  case (Inl e)
  then show ?thesis using run failed by (auto simp: rl_acquire_def)
next
  case (Inr q)
  note q = acquire_argsD [OF Inr]
  show ?thesis
  proof (cases "acquirable q s")
    case False
    from acquire_body_stuck [OF ok False] show ?thesis
      using run failed Inr by (cases "rl_ready s") (auto simp: rl_acquire_def rl_transaction_def lease_expired_def)
  next
    case True
    have body: "acquire_body q s = (Inr (rl_record_of (new_attempt q (next_attempt k s))),
        add_row (new_attempt q (next_attempt k s)) (cleared k t s))"
      using acquire_body_ok [OF ok _ _ True] q by simp
    show ?thesis
    proof (cases "rl_ready s")
      case (Inl e)
      then show ?thesis using run \<open>acquire_args _ _ _ _ _ _ _ _ _ = _\<close> by (intro failed [of e]) (simp_all add: rl_acquire_def rl_transaction_def)
    next
      case ready: (Inr u)
      then show ?thesis using run Inr by (intro acquired [OF Inr True]) (simp_all add: rl_acquire_def rl_transaction_def body)
    qed
  qed
qed

text \<open>Reconciling abandons the active rows that have run out or are not in the snapshot, and no other row.\<close>

definition stale :: "string list \<Rightarrow> real \<Rightarrow> rl_row \<Rightarrow> bool" where
  "stale keys t r \<longleftrightarrow> row_active r \<and> (rl_expires_at r \<le> t \<or> rl_key r \<notin> set keys)"

definition stale_reason :: "real \<Rightarrow> rl_row \<Rightarrow> string" where
  "stale_reason t r = (if rl_expires_at r \<le> t then ''lease expired during reconciliation'' else ''task no longer active in GitHub snapshot'')"

lemma row_ok_of: "rl_ok s \<Longrightarrow> r \<in> set (st_rows s) \<Longrightarrow> row_ok r"
  by (auto simp: rl_ok_def attempt_chain_def key_rows_def dest: spec [of _ "rl_key r"])

lemma active_keys_distinct: "rl_ok s \<Longrightarrow> distinct (map rl_key (filter row_active (st_rows s)))"
proof -
  assume ok: "rl_ok s"
  have "inj_on rl_key (set (filter row_active (st_rows s)))"
  proof (rule inj_onI)
    fix x y assume "x \<in> set (filter row_active (st_rows s))" "y \<in> set (filter row_active (st_rows s))" "rl_key x = rl_key y"
    then have x: "x \<in> set (st_rows s)" "row_active x" and y: "y \<in> set (st_rows s)" "row_active y" and k: "rl_key x = rl_key y" by auto
    have "latest_row (rl_key x) s = Some x" by (rule live_row_latest [OF ok x(1) row_kinds(3) [OF x(2)]])
    moreover have "latest_row (rl_key y) s = Some y" by (rule live_row_latest [OF ok y(1) row_kinds(3) [OF y(2)]])
    ultimately show "x = y" unfolding k by (rule_tac option.inject [THEN iffD1]) simp
  qed
  then show ?thesis
    using ids_distinct [OF ok] by (simp add: distinct_map)
qed

lemma reconcile_rows_steps:
  assumes "rl_ok s" "distinct (map rl_key rs)" "\<forall>r\<in>set rs. row_active r \<and> latest_row (rl_key r) s = Some r"
  shows "rl_step\<^sup>*\<^sup>* s (snd (reconcile_rows keys t rs s))"
  using assms
proof (induction rs arbitrary: s)
  case (Cons r rs)
  show ?case
  proof (cases "rl_expires_at r \<le> t \<or> rl_key r \<notin> set keys")
    case True
    let ?s = "update_row (rl_id r) (abandoned (stale_reason t r) t) s"
    have l: "latest_row (rl_key r) s = Some r" "row_active r" using Cons.prems by simp_all
    then have step: "rl_step s ?s"
      using latest_row_in [OF Cons.prems(1)] by (intro rl_step.touch abandoned_keeps abandoned_ok row_ok_of [OF Cons.prems(1)]) auto
    have ok': "rl_ok ?s" using rl_step_ok [OF step Cons.prems(1)] .
    have "latest_row (rl_key x) ?s = latest_row (rl_key x) s" if "x \<in> set rs" for x
    proof -
      have "rl_key x \<noteq> rl_key r" using that Cons.prems(2) by (auto simp: image_iff)
      then show ?thesis
        using key_rows_touch [OF Cons.prems(1) l(1) abandoned_keeps] by (simp add: latest_row_last [OF ok'] latest_row_last [OF Cons.prems(1)])
    qed
    then have "rl_step\<^sup>*\<^sup>* ?s (snd (reconcile_rows keys t rs ?s))"
      using Cons.prems ok' by (intro Cons.IH) simp_all
    then show ?thesis
      using True step by (auto simp: Let_def stale_reason_def split: prod.splits intro: converse_rtranclp_into_rtranclp)
  qed (use Cons in \<open>simp add: Let_def\<close>)
qed simp

lemma reconcile_rows_exact:
  assumes "\<forall>r\<in>set rs. \<forall>x\<in>set (st_rows s). rl_id x = rl_id r \<longrightarrow> x = r" "distinct (map rl_id rs)" "\<forall>r\<in>set rs. row_active r"
  shows "reconcile_rows keys t rs s = (map rl_key (filter (stale keys t) rs),
    s\<lparr>st_rows := map (\<lambda>x. if x \<in> set rs \<and> stale keys t x then abandoned (stale_reason t x) t x else x) (st_rows s)\<rparr>)"
  using assms
proof (induction rs arbitrary: s)
  case (Cons r rs)
  show ?case
  proof (cases "stale keys t r")
    case True
    let ?s = "update_row (rl_id r) (abandoned (stale_reason t r) t) s"
    have id: "rl_id (abandoned reason t x) = rl_id x" for reason x using keeps_identityD [OF abandoned_keeps] by blast
    have "reconcile_rows keys t rs ?s = (map rl_key (filter (stale keys t) rs),
        ?s\<lparr>st_rows := map (\<lambda>x. if x \<in> set rs \<and> stale keys t x then abandoned (stale_reason t x) t x else x) (st_rows ?s)\<rparr>)"
      using Cons.prems by (intro Cons.IH) (auto simp: update_row_def id image_iff split: if_splits)
    moreover have "map (\<lambda>x. if x \<in> set rs \<and> stale keys t x then abandoned (stale_reason t x) t x else x) (st_rows ?s) =
        map (\<lambda>x. if x \<in> set (r # rs) \<and> stale keys t x then abandoned (stale_reason t x) t x else x) (st_rows s)"
    proof -
      have "abandoned (stale_reason t r) t r \<notin> set rs"
        using Cons.prems(2) imageI [of "abandoned (stale_reason t r) t r" "set rs" rl_id] by (auto simp: id)
      then have pointwise: "(if f x \<in> set rs \<and> stale keys t (f x) then abandoned (stale_reason t (f x)) t (f x) else f x) =
          (if x \<in> set (r # rs) \<and> stale keys t x then abandoned (stale_reason t x) t x else x)"
        if "x \<in> set (st_rows s)" "f = (\<lambda>x. if rl_id x = rl_id r then abandoned (stale_reason t r) t x else x)" for x f
      proof (cases "rl_id x = rl_id r")
        case same: True
        then have "x = r" using Cons.prems(1) that(1) by simp
        then show ?thesis using that(2) True \<open>_ \<notin> set rs\<close> by simp
      next
        case False
        then show ?thesis using that(2) by auto
      qed
      moreover have rows: "st_rows ?s = map (\<lambda>x. if rl_id x = rl_id r then abandoned (stale_reason t r) t x else x) (st_rows s)"
        by (simp add: update_row_def)
      show ?thesis
        unfolding rows list.map_comp by (rule list.map_cong0, unfold comp_apply, rule pointwise [OF _ refl])
    qed
    moreover have "reconcile_rows keys t (r # rs) s = (case reconcile_rows keys t rs ?s of (ks, s') \<Rightarrow> (rl_key r # ks, s'))"
      using True by (auto simp: Let_def stale_def stale_reason_def)
    moreover have "?s\<lparr>st_rows := rows\<rparr> = s\<lparr>st_rows := rows\<rparr>" for rows by (simp add: update_row_def)
    ultimately show ?thesis
      using True by (simp only: split filter.simps if_True list.map)
  qed (use Cons in \<open>auto simp: Let_def stale_def\<close>)
qed simp

lemma rl_reconcile_cases:
  assumes ok: "rl_ok s" and run: "rl_reconcile keys t s = (r, s')"
  obtains (failed) e where "r = Inl e" "s' = s"
  | (reconciled) "rl_key_set keys = Inr keys" "0 \<le> t" "rl_ready s = Inr ()" "r = Inr (sort (map rl_key (filter (stale keys t) (st_rows s))))"
      "s' = s\<lparr>st_rows := map (\<lambda>x. if stale keys t x then abandoned (stale_reason t x) t x else x) (st_rows s)\<rparr>" "rl_step\<^sup>*\<^sup>* s s'"
proof -
  let ?rs = "by_key_attempt (filter (\<lambda>r. rl_status r \<in> set active_statuses) (st_rows s))"
  have rs: "set ?rs = {r \<in> set (st_rows s). row_active r}" by (simp add: row_active_def)
  have filt: "filter (\<lambda>r. rl_status r \<in> set active_statuses) (st_rows s) = filter row_active (st_rows s)"
    by (simp add: row_active_def [abs_def])
  have "mset (map rl_key ?rs) = mset (map rl_key (filter row_active (st_rows s)))" by (simp add: filt)
  then have keys: "distinct (map rl_key ?rs)" using active_keys_distinct [OF ok] mset_eq_imp_distinct_iff by blast
  have ids: "distinct (map rl_id ?rs)"
    using ids_distinct [OF ok] by (simp add: distinct_map inj_on_def)
  have exact: "reconcile_rows keys t ?rs s = (map rl_key (filter (stale keys t) ?rs),
      s\<lparr>st_rows := map (\<lambda>x. if x \<in> set ?rs \<and> stale keys t x then abandoned (stale_reason t x) t x else x) (st_rows s)\<rparr>)"
    using same_id [OF ok] ids rs by (intro reconcile_rows_exact) auto
  have steps: "rl_step\<^sup>*\<^sup>* s (snd (reconcile_rows keys t ?rs s))"
    using live_row_latest [OF ok] row_kinds(3) rs by (intro reconcile_rows_steps ok keys) auto
  have "mset (filter (stale keys t) ?rs) = mset (filter (stale keys t) (st_rows s))"
    unfolding filt mset_filter mset_sort filter_filter_mset
    by (rule filter_mset_cong) (auto simp: stale_def)
  then have "mset (map rl_key (filter (stale keys t) ?rs)) = mset (map rl_key (filter (stale keys t) (st_rows s)))"
    by (simp only: mset_map)
  then have sorted: "sort (map rl_key (filter (stale keys t) ?rs)) = sort (map rl_key (filter (stale keys t) (st_rows s)))"
    by (intro properties_for_sort) (simp_all only: mset_sort sorted_sort)
  have rows: "map (\<lambda>x. if x \<in> set ?rs \<and> stale keys t x then abandoned (stale_reason t x) t x else x) (st_rows s) =
      map (\<lambda>x. if stale keys t x then abandoned (stale_reason t x) t x else x) (st_rows s)"
    by (auto simp: stale_def row_active_def)
  note exact' = exact [unfolded rows]
  show ?thesis
  proof (cases "rl_key_set keys = Inr keys \<and> 0 \<le> t \<and> rl_ready s = Inr ()")
    case True
    then have "rl_reconcile keys t s = (Inr (sort (map rl_key (filter (stale keys t) (st_rows s)))),
        s\<lparr>st_rows := map (\<lambda>x. if stale keys t x then abandoned (stale_reason t x) t x else x) (st_rows s)\<rparr>)"
      by (simp add: rl_reconcile_def rl_transaction_def rl_timestamp_def exact' sorted)
    then show ?thesis
      using True run steps [unfolded exact' snd_conv] reconciled by simp
  next
    case False
    moreover have "rl_key_set keys = Inr ks \<Longrightarrow> ks = keys" for ks by (auto simp: rl_key_set_def split: if_splits)
    ultimately have "\<exists>e. rl_reconcile keys t s = (Inl e, s)"
      by (cases "rl_key_set keys"; cases "0 \<le> t"; cases "rl_ready s")
        (auto simp: rl_reconcile_def rl_transaction_def rl_timestamp_def)
    then show ?thesis using run failed by auto
  qed
qed

text \<open>All nine calls.\<close>

lemma mapped_iff [simp]:
  "mapped f out = (Inr v, s') \<longleftrightarrow> (\<exists>w. out = (Inr w, s') \<and> v = f w)"
  "mapped f out = (Inl e, s') \<longleftrightarrow> out = (Inl e, s')"
  by (cases out; cases "fst out"; auto simp: mapped_def)+

lemma touched: "rl_ok s \<Longrightarrow> latest_row k s = Some l \<Longrightarrow> row_active l \<Longrightarrow> good_update f \<Longrightarrow> rl_step s (update_row (rl_id l) f s)"
  using row_ok_of latest_row_in unfolding good_update_def by (metis rl_step.touch)

lemma abandoned_good: "good_update (abandoned reason t)"
  by (simp add: good_update_def abandoned_keeps abandoned_ok)

lemma exec_steps:
  assumes ok: "rl_ok s"
  shows "rl_step\<^sup>*\<^sup>* s (snd (rl_exec c s))"
proof (cases "holds_with c")
  case (Some kt)
  obtain k tok where kt: "holds_with c = Some (k, tok)" using Some by (cases kt) simp
  obtain r s' where run: "rl_exec c s = (r, s')" by fastforce
  from holder_call_cases [OF ok kt run] show ?thesis
    by cases (use run touched [OF ok] abandoned_good in auto)
next
  case None
  show ?thesis
  proof (cases c)
    case RlOpen
    have "rl_step s (s\<lparr>st_closed := False\<rparr>)" using rl_step.connection [where s = s and v = "st_version s" and b = False] by simp
    then show ?thesis using RlOpen rl_step.connection [of s] by (auto simp: rl_open_def mapped_def split: option.splits)
  next
    case RlClose
    then show ?thesis using rl_step.connection [where s = s and v = "st_version s" and b = True] by (simp add: rl_close_def mapped_def r_into_rtranclp)
  next
    case (RlAcquire k ref repo b sha d t tok fac)
    obtain r s' where run: "rl_acquire k ref repo b sha d t tok fac s = (r, s')" by fastforce
    have "rl_step\<^sup>*\<^sup>* s s'"
      using ok run
    proof (cases rule: acquire_cases)
      case (acquired q)
      with acquire_step [OF ok, of q] acquire_argsD [OF acquired(1)] have "rl_step (cleared k t s) s'" by simp
      with cleared_steps [OF ok] show ?thesis by (metis rtranclp.rtrancl_into_rtrancl)
    qed simp
    then show ?thesis using RlAcquire run by (simp add: mapped_def)
  next
    case (RlReconcile keys t)
    obtain r s' where run: "rl_reconcile keys t s = (r, s')" by fastforce
    from rl_reconcile_cases [OF ok run] have "rl_step\<^sup>*\<^sup>* s s'" by cases simp_all
    then show ?thesis using RlReconcile run by (simp add: mapped_def)
  qed (use None in simp_all)
qed

lemma exec_ok: "rl_ok s \<Longrightarrow> rl_ok (snd (rl_exec c s))"
  using rl_steps_ok [OF exec_steps] by blast

lemma reachable_ok: "rl_reachable s \<Longrightarrow> rl_ok s"
proof (induction rule: rl_reachable.induct)
  case rl_init
  show ?case by (simp add: rl_ok_def new_database_def key_rows_def)
qed (rule exec_ok)

lemma reachable_run: "rl_reachable s \<Longrightarrow> rl_reachable (snd (run_ops rl_exec cs s))"
  by (induction cs arbitrary: s) (auto intro: rl_call)

text \<open>The attempt number of a key is a fencing token: every acquire gives a larger one.\<close>

definition attempt_given :: "rl_reply \<Rightarrow> (string \<times> int) option" where
  "attempt_given v = (case v of Acquired r \<Rightarrow> Some (rl_key r, rl_attempt r) | _ \<Rightarrow> None)"

lemma record_of_simps [simp]:
  "rl_key (rl_record_of r) = rl_key r" "rl_attempt (rl_record_of r) = rl_attempt r" "rl_token (rl_record_of r) = rl_token r"
  "rl_status (rl_record_of r) = rl_status r" "rl_expires_at (rl_record_of r) = rl_expires_at r"
  by (simp_all add: rl_record_of_def rl_record.truncate_def)

lemma step_attempts: "rl_step s s' \<Longrightarrow> length (key_rows k s) \<le> length (key_rows k s')"
  by (induction rule: rl_step.induct) (simp_all add: key_rows_update key_rows_add)

lemma steps_attempts: "rl_step\<^sup>*\<^sup>* s s' \<Longrightarrow> length (key_rows k s) \<le> length (key_rows k s')"
  by (induction rule: rtranclp_induct) (auto dest!: step_attempts [of _ _ k])

interpretation attempts: fencing rl_exec rl_ok "\<lambda>s k. int (length (key_rows k s))" attempt_given
proof unfold_locales
  fix s x v s' k t
  assume ok: "rl_ok s" and run: "rl_exec x s = (Inr v, s')" and given: "attempt_given v = Some (k, t)"
  show "int (length (key_rows k s)) < t \<and> int (length (key_rows k s')) = t"
  proof (cases x)
    case (RlAcquire k' ref repo b sha d now tok fac)
    then obtain r where acq: "rl_acquire k' ref repo b sha d now tok fac s = (Inr r, s')" "v = Acquired r"
      using run by auto
    show ?thesis
    proof (rule acquire_cases [OF ok acq(1)])
      fix q
      assume acquired: "acquire_args k' ref repo b sha d now tok fac = Inr q"
        "Inr r = Inr (rl_record_of (new_attempt q (next_attempt k' s)))" "s' = add_row (new_attempt q (next_attempt k' s)) (cleared k' now s)"
      then show ?thesis
        using given acq(2) acquire_argsD [OF acquired(1)] cleared_facts(2) [OF ok]
        by (auto simp: attempt_given_def next_attempt_def key_rows_add)
    qed simp
  qed (use run given in \<open>auto simp: attempt_given_def\<close>)
qed (use exec_ok steps_attempts [OF exec_steps] in auto)

subsection \<open>What lasts\<close>

lemma latest_row_cong: "key_rows k s' = key_rows k s \<Longrightarrow> latest_row k s' = latest_row k s"
  by (simp add: latest_row_def)

text \<open>A row that is not active is never written again, and a completed attempt is the last one of its key.\<close>

lemma step_keeps_inactive:
  assumes "rl_step s s'" "rl_ok s" "r \<in> set (st_rows s)" "\<not> row_active r"
  shows "r \<in> set (st_rows s')"
  using assms
proof (induction rule: rl_step.induct)
  case (touch k s l f)
  have "rl_id r \<noteq> rl_id l" using same_id [OF touch.prems(1,2)] latest_row_in [OF touch.prems(1) touch.hyps(1)] touch.prems(3) touch.hyps(2) by blast
  then show ?case
    using touch.prems(2) imageI [of r "set (st_rows s)" "\<lambda>x. if rl_id x = rl_id l then f x else x"] by (simp add: update_row_def)
qed (simp_all add: add_row_def)

lemma steps_keep_inactive:
  "rl_step\<^sup>*\<^sup>* s s' \<Longrightarrow> rl_ok s \<Longrightarrow> r \<in> set (st_rows s) \<Longrightarrow> \<not> row_active r \<Longrightarrow> r \<in> set (st_rows s')"
proof (induction rule: rtranclp_induct)
  case (step y z)
  have "rl_ok y" using rl_steps_ok [OF step.hyps(1) step.prems(1)] .
  then show ?case using step_keeps_inactive [OF step.hyps(2)] step by blast
qed

lemma completed_is_latest: "rl_ok s \<Longrightarrow> r \<in> set (st_rows s) \<Longrightarrow> rl_status r = Completed \<Longrightarrow> latest_row (rl_key r) s = Some r"
  by (rule live_row_latest) (simp_all add: row_dead_def)

lemma run_ok: "rl_ok s \<Longrightarrow> rl_ok (snd (run_ops rl_exec cs s))"
  by (rule attempts.run_inv)

lemma run_keeps_inactive:
  "rl_ok s \<Longrightarrow> r \<in> set (st_rows s) \<Longrightarrow> \<not> row_active r \<Longrightarrow> r \<in> set (st_rows (snd (run_ops rl_exec cs s)))"
proof (induction cs arbitrary: s)
  case (Cons c cs)
  have "r \<in> set (st_rows (snd (rl_exec c s)))" using steps_keep_inactive [OF exec_steps] Cons.prems by blast
  then show ?case using Cons.IH exec_ok Cons.prems by simp
qed simp

text \<open>Which key and which token a call names.\<close>

fun call_key :: "rl_call \<Rightarrow> string option" where
  "call_key (RlAcquire k ref repo b sha d t tok fac) = Some k"
| "call_key c = map_option fst (holds_with c)"

fun call_token :: "rl_call \<Rightarrow> string option" where
  "call_token (RlAcquire k ref repo b sha d t tok fac) = Some (given_or tok fac)"
| "call_token c = map_option snd (holds_with c)"

text \<open>A call that succeeds for a key finds its last row active with the right token, or may add an attempt.\<close>

lemma acquire_fails:
  assumes ok: "rl_ok s" and no: "\<And>q. acquire_args k ref repo b sha d t tok fac = Inr q \<Longrightarrow> \<not> acquirable q s"
  shows "\<exists>e. rl_exec (RlAcquire k ref repo b sha d t tok fac) s = (Inl e, s)"
proof -
  obtain r s' where run: "rl_acquire k ref repo b sha d t tok fac s = (r, s')" by fastforce
  with ok have "\<exists>e. r = Inl e \<and> s' = s" by (cases rule: acquire_cases) (use no in auto)
  then show ?thesis using run by (auto simp: mapped_def)
qed

lemma holder_fails:
  assumes ok: "rl_ok s" and c: "holds_with c = Some (k, tok)"
    and no: "\<And>l. latest_row k s = Some l \<Longrightarrow> row_active l \<Longrightarrow> rl_token l \<noteq> tok"
  shows "\<exists>e. rl_exec c s = (Inl e, s)"
proof -
  obtain r s' where run: "rl_exec c s = (r, s')" by fastforce
  with ok c have "\<exists>e. r = Inl e \<and> s' = s" by (cases rule: holder_call_cases) (use no in auto)
  then show ?thesis using run by simp
qed

lemma call_key_cases:
  assumes "call_key c = Some k"
  obtains ref repo b sha d t tok fac where "c = RlAcquire k ref repo b sha d t tok fac" | tok where "holds_with c = Some (k, tok)"
  using assms by (cases c) auto

lemma call_token_cases:
  assumes "call_token c = Some tok"
  obtains k ref repo b sha d t tk fac where "c = RlAcquire k ref repo b sha d t tk fac" "given_or tk fac = tok" | k where "holds_with c = Some (k, tok)"
  using assms by (cases c) auto

lemma completed_key_closed:
  assumes ok: "rl_ok s" and l: "latest_row k s = Some l" "rl_status l = Completed" and c: "call_key c = Some k"
  shows "\<exists>e. rl_exec c s = (Inl e, s)"
  using c
proof (cases rule: call_key_cases)
  case (1 ref repo b sha d t tok fac)
  have "\<not> acquirable q s" if "acquire_args k ref repo b sha d t tok fac = Inr q" for q
    using l acquire_argsD [OF that] by (auto simp: acquirable_def)
  then show ?thesis unfolding 1 by (rule acquire_fails [OF ok])
next
  case (2 tok)
  then show ?thesis using l by (intro holder_fails [OF ok 2]) (simp add: row_kinds(1))
qed

lemma inactive_token_refused:
  assumes ok: "rl_ok s" and r: "r \<in> set (st_rows s)" "\<not> row_active r" and c: "call_token c = Some (rl_token r)"
  shows "\<exists>e. rl_exec c s = (Inl e, s)"
  using c
proof (cases rule: call_token_cases)
  case (1 k ref repo b sha d t tk fac)
  have "\<not> acquirable q s" if "acquire_args k ref repo b sha d t tk fac = Inr q" for q
    using r 1(2) acquire_argsD [OF that] by (auto simp: acquirable_def)
  then show ?thesis unfolding 1(1) by (rule acquire_fails [OF ok])
next
  case (2 k)
  then show ?thesis
    using r same_token [OF ok _ r(1)] latest_row_in [OF ok] by (intro holder_fails [OF ok 2]) blast
qed

text \<open>A lease is undisturbed by calls before its expiry that do not present its token and do not withdraw its key.\<close>

definition undisturbing :: "rl_row \<Rightarrow> rl_call \<Rightarrow> bool" where
  "undisturbing l c \<longleftrightarrow> holds_with c \<noteq> Some (rl_key l, rl_token l) \<and> call_time c < rl_expires_at l \<and>
     (case c of RlReconcile keys t \<Rightarrow> rl_key l \<in> set keys | _ \<Rightarrow> True)"

lemma live_lease_blocks:
  assumes ok: "rl_ok s" and l: "latest_row k s = Some l" "row_active l" "t < rl_expires_at l"
  shows "\<exists>e. rl_exec (RlAcquire k ref repo b sha d t tok fac) s = (Inl e, s)"
proof (rule acquire_fails [OF ok])
  fix q assume "acquire_args k ref repo b sha d t tok fac = Inr q"
  from acquire_argsD [OF this] show "\<not> acquirable q s" using l by (auto simp: acquirable_def)
qed

lemma holder_other_key:
  assumes ok: "rl_ok s" and c: "holds_with c = Some (k', tok)" and k: "k' \<noteq> k"
  shows "key_rows k (snd (rl_exec c s)) = key_rows k s"
proof -
  obtain r s' where run: "rl_exec c s = (r, s')" by fastforce
  with ok c have "key_rows k s' = key_rows k s"
    by (cases rule: holder_call_cases) (use k key_rows_touch [OF ok] abandoned_good good_update_def in auto)
  then show ?thesis using run by simp
qed

lemma acquire_other_key:
  assumes ok: "rl_ok s" and k: "k' \<noteq> k"
  shows "key_rows k (snd (rl_exec (RlAcquire k' ref repo b sha d t tok fac) s)) = key_rows k s"
proof -
  obtain r s' where run: "rl_acquire k' ref repo b sha d t tok fac s = (r, s')" by fastforce
  with ok have "key_rows k s' = key_rows k s"
    by (cases rule: acquire_cases) (use k acquire_argsD cleared_facts(3) [OF ok] in \<open>auto simp: key_rows_add\<close>)
  then show ?thesis using run by (simp add: mapped_def)
qed

lemma key_rows_reconciled:
  "key_rows k (s\<lparr>st_rows := map (\<lambda>x. if stale keys t x then abandoned (stale_reason t x) t x else x) (st_rows s)\<rparr>) =
     map (\<lambda>x. if stale keys t x then abandoned (stale_reason t x) t x else x) (key_rows k s)"
  by (simp add: key_rows_def filter_map comp_def keeps_identityD [OF abandoned_keeps] cong: if_cong)

lemma reconcile_spares:
  assumes ok: "rl_ok s" and l: "latest_row k s = Some l" "k \<in> set keys" "t < rl_expires_at l"
  shows "latest_row k (snd (rl_exec (RlReconcile keys t) s)) = Some l"
proof -
  obtain r s' where run: "rl_reconcile keys t s = (r, s')" by fastforce
  with ok have "latest_row k s' = Some l"
  proof (cases rule: rl_reconcile_cases)
    case reconciled
    have "rl_ok s'" using rl_steps_ok [OF reconciled(6) ok] .
    moreover have "\<not> stale keys t l" using l latest_row_in [OF ok l(1)] by (simp add: stale_def)
    moreover obtain rs where "key_rows k s = rs @ [l]" using l(1) ok by (auto simp: latest_row_Some)
    ultimately show ?thesis by (simp add: latest_row_Some reconciled(5) key_rows_reconciled)
  qed (use l in simp)
  then show ?thesis using run by (simp add: mapped_def)
qed

lemma undisturbed_step:
  assumes ok: "rl_ok s" and l: "latest_row k s = Some l" "row_active l" and c: "undisturbing l c"
  shows "latest_row k (snd (rl_exec c s)) = Some l"
proof (cases "holds_with c")
  case (Some kt)
  obtain k' tok where kt: "holds_with c = Some (k', tok)" using Some by (cases kt) simp
  show ?thesis
  proof (cases "k' = k")
    case True
    then have "\<exists>e. rl_exec c s = (Inl e, s)"
      using kt l c latest_row_in [OF ok l(1)] by (intro holder_fails [OF ok kt]) (auto simp: undisturbing_def)
    then show ?thesis using l by auto
  qed (use holder_other_key [OF ok kt] l latest_row_cong in metis)
next
  case None
  show ?thesis
  proof (cases c)
    case RlOpen
    then show ?thesis using l by (auto simp: rl_open_def mapped_def latest_row_def key_rows_def split: option.splits)
  next
    case RlClose
    then show ?thesis using l by (simp add: rl_close_def mapped_def latest_row_def key_rows_def)
  next
    case (RlAcquire k' ref repo b sha d t tok fac)
    then have "t < rl_expires_at l" using c by (simp add: undisturbing_def)
    then show ?thesis
      using live_lease_blocks [OF ok l] acquire_other_key [OF ok] l latest_row_cong RlAcquire by (cases "k' = k") (metis snd_conv)+
  next
    case (RlReconcile keys t)
    then show ?thesis
      using reconcile_spares [OF ok l(1)] c latest_row_in [OF ok l(1)] by (simp add: undisturbing_def)
  qed (use None in simp_all)
qed

lemma undisturbed_run:
  "rl_ok s \<Longrightarrow> latest_row k s = Some l \<Longrightarrow> row_active l \<Longrightarrow> list_all (undisturbing l) cs \<Longrightarrow>
     latest_row k (snd (run_ops rl_exec cs s)) = Some l"
  by (induction cs arbitrary: s) (simp_all add: undisturbed_step exec_ok)

subsection \<open>Progress\<close>

lemma holder_update_ok:
  assumes "rl_ok s" "rl_ready s = Inr ()" "rl_text 512 k = Inr k" "rl_text 512 tok = Inr tok" "keeps_identity f"
    and "latest_row k s = Some l" "row_active l" "rl_token l = tok" "t < rl_expires_at l"
  shows "holder_update k tok t (Inr ()) f s = (Inr (rl_record_of (f l)), update_row (rl_id l) f s)"
proof -
  have "record_by_id (rl_id l) (update_row (rl_id l) f s) = Inr (rl_record_of (f l))"
    using find_updated [OF assms(1) _ assms(5)] latest_row_in [OF assms(1,6)] by (simp add: record_by_id_def)
  then show ?thesis
    using assms(2-4,6-9) by (simp add: holder_update_def active_row_def rl_transaction_def sbind_def row_active_def)
qed

lemma rl_ready_rows [simp]: "rl_ready (s\<lparr>st_rows := rows\<rparr>) = rl_ready s" "rl_ready (s\<lparr>st_rows := rows, st_last_id := i\<rparr>) = rl_ready s"
  by (simp_all add: rl_ready_def)

lemma rl_ready_writes [simp]: "rl_ready (update_row i f s) = rl_ready s" "rl_ready (add_row r s) = rl_ready s" "rl_ready (cleared k t s) = rl_ready s"
  by (auto simp: update_row_def add_row_def cleared_def split: option.splits)

lemma rl_acquire_ok:
  assumes ok: "rl_ok s" and ready: "rl_ready s = Inr ()" and q: "acquire_args k ref repo b sha d t tok fac = Inr q" "acquirable q s"
  shows "rl_acquire k ref repo b sha d t tok fac s =
    (Inr (rl_record_of (new_attempt q (next_attempt k s))), add_row (new_attempt q (next_attempt k s)) (cleared k t s))"
  using acquire_body_ok [OF ok _ _ q(2)] acquire_argsD [OF q(1)] ready q(1) by (simp add: rl_acquire_def rl_transaction_def)

lemma acquire_args_text: "acquire_args k ref repo b sha d t tok fac = Inr q \<Longrightarrow> rl_text 512 k = Inr k \<and> rl_text 512 (ra_token q) = Inr (ra_token q)"
  unfolding acquire_args_def rbind_Inr_iff by (elim exE conjE) (frule rl_text_Inr [of 512 k], frule rl_text_Inr [of 512 "given_or tok fac"], force)

lemma complete_ok:
  assumes "rl_ok s" "rl_ready s = Inr ()" "rl_text 512 k = Inr k" "rl_text 512 tok = Inr tok" "rl_receipt h = Inr h'" "0 \<le> t"
    and "latest_row k s = Some l" "row_active l" "rl_token l = tok" "t < rl_expires_at l"
  shows "\<exists>r s'. rl_complete k tok h t s = (Inr r, s') \<and> rl_status r = Completed \<and> rl_receipt_hash r = Some h' \<and> rl_attempt r = rl_attempt l"
  using assms good_updates(4) [unfolded good_update_def]
  by (simp add: rl_complete_def rl_finish_def rl_timestamp_def holder_update_ok) (simp add: rl_record_of_def rl_record.truncate_def)

subsection \<open>Properties\<close>

text \<open>
  C16. The recovery ledger is well formed after every sequence of calls: ids number the rows, no token is used twice,
  and the rows of one key are attempts 1, 2, ... at one and the same task, of which every one but the last has
  failed or been abandoned.
\<close>

theorem lease_attempts_chained:
  assumes "rl_reachable s"
  shows "map rl_id (st_rows s) = [1..st_last_id s] \<and> distinct (map rl_token (st_rows s)) \<and> (\<forall>k. attempt_chain (key_rows k s))"
  using reachable_ok [OF assms] by (simp add: rl_ok_def)

text \<open>
  A call that raises leaves the database as it was, with one exception: a holder call that finds its own lease
  expired commits exactly that row as abandoned before it raises LEASE_EXPIRED.
\<close>

theorem lease_call_failure:
  assumes "rl_reachable s" "rl_exec c s = (Inl e, s')"
  shows "s' = s \<or> e = lease_expired \<and> (\<exists>k l. holds_with c = Some (k, rl_token l) \<and> latest_row k s = Some l \<and> row_active l \<and>
    rl_expires_at l \<le> call_time c \<and> s' = update_row (rl_id l) (abandoned ''lease expired'' (call_time c)) s)"
proof (cases "holds_with c")
  case (Some kt)
  then obtain k tok where kt: "holds_with c = Some (k, tok)" by (cases kt) simp
  show ?thesis
    using reachable_ok [OF assms(1)] kt assms(2) by (cases rule: holder_call_cases) (use kt in auto)
next
  case None
  note ok = reachable_ok [OF assms(1)]
  show ?thesis
  proof (cases c)
    case (RlAcquire k ref repo b sha d t tok fac)
    then have "rl_acquire k ref repo b sha d t tok fac s = (Inl e, s')" using assms(2) by simp
    with ok show ?thesis by (cases rule: acquire_cases) auto
  next
    case (RlReconcile keys t)
    then have "rl_reconcile keys t s = (Inl e, s')" using assms(2) by simp
    with ok show ?thesis by (cases rule: rl_reconcile_cases) auto
  qed (use None assms(2) in \<open>auto simp: rl_open_def rl_close_def split: option.splits if_splits\<close>)
qed

text \<open>
  C17. An active lease is exclusive until it expires: after any calls made before its expiry that do not present its
  token, and whose GitHub snapshots still list the task, it is still the unchanged last row of its key, and
  every attempt to acquire the key before the expiry fails and changes nothing.
\<close>

theorem lease_exclusive:
  assumes "rl_reachable s" "latest_row k s = Some l" "row_active l" "list_all (undisturbing l) cs" "t < rl_expires_at l"
    and "s' = snd (run_ops rl_exec cs s)"
  shows "latest_row k s' = Some l \<and> (\<exists>e. rl_exec (RlAcquire k ref repo b sha d t tok fac) s' = (Inl e, s'))"
proof -
  have "latest_row k s' = Some l"
    using undisturbed_run [OF reachable_ok [OF assms(1)] assms(2-4)] assms(6) by simp
  then show ?thesis
    using live_lease_blocks [OF run_ok [OF reachable_ok [OF assms(1)]]] assms(3,5,6) by blast
qed

text \<open>
  C18. A completed task stays completed: whatever calls follow, the completed row is the unchanged last row of its key,
  and every later acquire, heartbeat, checkpoint, completion or failure of that key is refused without a change.
\<close>

theorem lease_completed_forever:
  assumes "rl_reachable s" "r \<in> set (st_rows s)" "rl_status r = Completed" "call_key c = Some (rl_key r)"
    and "s' = snd (run_ops rl_exec cs s)"
  shows "latest_row (rl_key r) s' = Some r \<and> (\<exists>e. rl_exec c s' = (Inl e, s'))"
proof -
  note ok = reachable_ok [OF assms(1)]
  have ok': "rl_ok s'" using run_ok [OF ok] assms(5) by simp
  have "\<not> row_active r" using assms(3) by (simp add: row_kinds(1))
  then have "r \<in> set (st_rows s')" using run_keeps_inactive [OF ok assms(2)] assms(5) by simp
  then have "latest_row (rl_key r) s' = Some r" using completed_is_latest [OF ok'] assms(3) by blast
  then show ?thesis using completed_key_closed [OF ok' _ assms(3,4)] by blast
qed

text \<open>
  A lease token is dead once its attempt has ended: whatever calls follow, no call that presents it, for any key,
  succeeds or changes the database, and it is never issued again.
\<close>

theorem lease_token_dead:
  assumes "rl_reachable s" "r \<in> set (st_rows s)" "\<not> row_active r" "call_token c = Some (rl_token r)"
    and "s' = snd (run_ops rl_exec cs s)"
  shows "\<exists>e. rl_exec c s' = (Inl e, s')"
proof -
  note ok = reachable_ok [OF assms(1)]
  have "r \<in> set (st_rows s')" using run_keeps_inactive [OF ok assms(2,3)] assms(5) by simp
  then show ?thesis using inactive_token_refused [OF _ _ assms(3,4)] run_ok [OF ok] assms(5) by blast
qed

text \<open>
  C19. Reconciling with the GitHub snapshot abandons exactly the active rows that have expired or whose key the snapshot
  does not list, returns their keys in order without repetition, leaves every other row alone, and is idempotent;
  afterwards only keys of the snapshot are listed as active.
\<close>

theorem lease_reconcile_exact:
  assumes "rl_reachable s" "rl_reconcile keys t s = (Inr gone, s')"
  shows "gone = sort (map rl_key (filter (stale keys t) (st_rows s))) \<and> distinct gone \<and>
    st_rows s' = map (\<lambda>r. if stale keys t r then abandoned (stale_reason t r) t r else r) (st_rows s) \<and>
    rl_reconcile keys t s' = (Inr [], s') \<and>
    (\<exists>active. rl_list_active t s' = Inr active \<and> rl_key ` set active \<subseteq> set keys)"
  using reachable_ok [OF assms(1)] assms(2)
proof (cases rule: rl_reconcile_cases)
  case reconciled
  note ok = reachable_ok [OF assms(1)]
  have rows: "st_rows s' = map (\<lambda>r. if stale keys t r then abandoned (stale_reason t r) t r else r) (st_rows s)"
    using reconciled(5) by simp
  have none: "\<not> stale keys t x" if "x \<in> set (st_rows s')" for x
  proof -
    have "\<not> stale keys t (abandoned reason t r)" for reason r
      using row_kinds(3) [of "abandoned reason t r"] by (auto simp: stale_def)
    then show ?thesis using that rows by auto
  qed
  have ready: "rl_ready s' = Inr ()" using reconciled(3,5) by simp
  obtain r2 s2 where again: "rl_reconcile keys t s' = (Inr r2, s2)"
    using reconciled(1,2) ready
    by (cases "reconcile_rows keys t (by_key_attempt (filter (\<lambda>r. rl_status r \<in> set active_statuses) (st_rows s'))) s'")
      (simp add: rl_reconcile_def rl_transaction_def rl_timestamp_def)
  have "rl_reconcile keys t s' = (Inr [], s')"
    using rl_steps_ok [OF reconciled(6) ok] again
  proof (cases rule: rl_reconcile_cases)
    case again': reconciled
    have "filter (stale keys t) (st_rows s') = []" using none by (simp add: filter_empty_conv)
    moreover have "map (\<lambda>x. if stale keys t x then abandoned (stale_reason t x) t x else x) (st_rows s') = st_rows s'"
      using none by (intro map_idI) simp
    ultimately show ?thesis using again again'(4,5) by simp
  qed simp
  moreover have "distinct (map rl_key (filter (stale keys t) (st_rows s)))"
  proof -
    have "filter (stale keys t) (st_rows s) = filter (\<lambda>r. rl_expires_at r \<le> t \<or> rl_key r \<notin> set keys) (filter row_active (st_rows s))"
      by (auto simp: stale_def intro!: filter_cong)
    then show ?thesis using distinct_map_filter [OF active_keys_distinct [OF ok]] by simp
  qed
  moreover have "\<exists>active. rl_list_active t s' = Inr active \<and> rl_key ` set active \<subseteq> set keys"
    using none ready reconciled(2) by (auto simp: rl_list_active_def rl_timestamp_def stale_def row_active_def)
  ultimately show ?thesis using reconciled(4) rows by simp
qed simp

text \<open>
  C20. No crash blocks a task: on every open store, a task with valid metadata whose last attempt failed, was abandoned
  or has expired (or that has none) is acquired with a fresh token as the next attempt, and a holder that completes
  before the expiry gets the completed record with the receipt hash.
\<close>

theorem lease_task_completes:
  assumes "rl_reachable s" "rl_ready s = Inr ()" "acquire_args k ref repo b sha d t tok fac = Inr q" "acquirable q s"
    and "rl_receipt h = Inr h'" "0 \<le> t'" "t' < t + d"
  shows "\<exists>r s1 r2 s2. rl_acquire k ref repo b sha d t tok fac s = (Inr r, s1) \<and> rl_attempt r = next_attempt k s \<and> rl_token r = given_or tok fac \<and>
    rl_complete k (rl_token r) h t' s1 = (Inr r2, s2) \<and> rl_status r2 = Completed \<and> rl_receipt_hash r2 = Some h' \<and> rl_attempt r2 = rl_attempt r"
proof -
  note ok = reachable_ok [OF assms(1)] and q = acquire_argsD [OF assms(3)]
  let ?r = "new_attempt q (next_attempt k s)" and ?s = "add_row (new_attempt q (next_attempt k s)) (cleared k t s)"
  have ok1: "rl_ok (cleared k t s)" using rl_steps_ok [OF cleared_steps ok] ok by blast
  have ok2: "rl_ok ?s" using rl_step_ok [OF acquire_step [OF ok _ _ assms(4)]] ok1 q by simp
  have l: "latest_row k ?s = Some (?r\<lparr>rl_id := st_last_id (cleared k t s) + 1\<rparr>)" using latest_row_add [OF ok2] q by simp
  have "\<exists>r2 s2. rl_complete k (ra_token q) h t' ?s = (Inr r2, s2) \<and> rl_status r2 = Completed \<and> rl_receipt_hash r2 = Some h' \<and>
      rl_attempt r2 = rl_attempt (?r\<lparr>rl_id := st_last_id (cleared k t s) + 1\<rparr>)"
    using acquire_args_text [OF assms(3)] assms q
    by (intro complete_ok [OF ok2 _ _ _ _ _ l]) (simp_all add: row_kinds(1), simp add: new_attempt_def)
  then show ?thesis using rl_acquire_ok [OF ok assms(2-4)] q by simp
qed

subsection \<open>Witnesses\<close>

definition demo_sha :: string where
  "demo_sha = replicate 40 (CHR ''a'')"

definition demo_lease :: "real \<Rightarrow> string \<Rightarrow> rl_call" where
  "demo_lease t token = RlAcquire ''task:1'' ''issue:1'' ''o/r'' ''main'' demo_sha 10 t (Some token) []"

definition demo_open :: rl_store where
  "demo_open = snd (rl_exec RlOpen new_database)"

definition demo_request :: "real \<Rightarrow> string \<Rightarrow> rl_request" where
  "demo_request t token = \<lparr>ra_key = ''task:1'', ra_reference = ''issue:1'', ra_repo = ''o/r'', ra_branch = ''main'', ra_sha = demo_sha,
     ra_duration = 10, ra_now = t, ra_token = token\<rparr>"

definition demo_leased :: rl_store where
  "demo_leased = snd (rl_exec (demo_lease 0 ''tok-a'') demo_open)"

definition demo_receipt :: string where
  "demo_receipt = replicate 64 (CHR ''b'')"

definition demo_completed :: rl_store where
  "demo_completed = snd (rl_exec (RlComplete ''task:1'' ''tok-a'' demo_receipt 5) demo_leased)"

lemma demo_lease_reachable: "rl_reachable demo_open" "rl_reachable demo_leased" "rl_reachable demo_completed"
  unfolding demo_completed_def demo_leased_def demo_open_def by (intro rl_call rl_init)+

lemma demo_texts:
  "rl_text 512 ''task:1'' = Inr ''task:1''" "rl_text 512 ''issue:1'' = Inr ''issue:1''" "rl_text 512 ''o/r'' = Inr ''o/r''"
  "rl_text 512 ''main'' = Inr ''main''" "rl_text 512 ''tok-a'' = Inr ''tok-a''" "rl_text 512 ''tok-b'' = Inr ''tok-b''"
  by (simp_all add: rl_text_def py_strip_def py_isspace_def)

lemma demo_sha_ok: "rl_sha demo_sha = Inr demo_sha"
  by (simp add: rl_sha_def rl_text_def demo_sha_def py_strip_def py_isspace_def hex_any_def py_lower_def py_lower_char_def list_ex_iff)

lemma demo_receipt_ok: "rl_receipt demo_receipt = Inr demo_receipt"
  by (simp add: rl_receipt_def rl_text_def demo_receipt_def py_strip_def py_isspace_def hex_any_def py_lower_def py_lower_char_def list_ex_iff)

lemma demo_args: "0 \<le> t \<Longrightarrow> rl_text 512 token = Inr token \<Longrightarrow> token \<noteq> [] \<Longrightarrow>
    acquire_args ''task:1'' ''issue:1'' ''o/r'' ''main'' demo_sha 10 t (Some token) [] = Inr (demo_request t token)"
  by (simp add: acquire_args_def demo_texts demo_sha_ok demo_request_def rl_duration_def rl_timestamp_def max_lease_seconds_def given_or_def)

definition demo_row :: rl_row where
  "demo_row = (new_attempt (demo_request 0 ''tok-a'') 1)\<lparr>rl_id := 1\<rparr>"

lemma demo_open_eq: "demo_open = \<lparr>st_rows = [], st_last_id = 0, st_version = Some ''1'', st_closed = False\<rparr>"
  by (simp add: demo_open_def rl_open_def new_database_def mapped_def rl_schema_version_def)

lemma demo_leased_eq: "demo_leased = \<lparr>st_rows = [demo_row], st_last_id = 1, st_version = Some ''1'', st_closed = False\<rparr>"
proof -
  have "rl_acquire ''task:1'' ''issue:1'' ''o/r'' ''main'' demo_sha 10 0 (Some ''tok-a'') [] demo_open =
      (Inr (rl_record_of (new_attempt (demo_request 0 ''tok-a'') (next_attempt ''task:1'' demo_open))),
       add_row (new_attempt (demo_request 0 ''tok-a'') (next_attempt ''task:1'' demo_open)) (cleared ''task:1'' 0 demo_open))"
    by (rule rl_acquire_ok [OF reachable_ok [OF demo_lease_reachable(1)]])
      (simp_all add: demo_args demo_texts acquirable_def, simp_all add: demo_open_eq rl_ready_def rl_schema_version_def latest_row_def key_rows_def)
  then show ?thesis
    by (simp add: demo_leased_def demo_lease_def mapped_def demo_open_eq cleared_def latest_row_def key_rows_def next_attempt_def add_row_def demo_row_def)
qed

lemma demo_row_simps [simp]:
  "rl_key demo_row = ''task:1''" "rl_token demo_row = ''tok-a''" "rl_expires_at demo_row = 10" "rl_attempt demo_row = 1" "row_active demo_row"
  by (simp_all add: demo_row_def new_attempt_def demo_request_def row_active_def active_statuses_def)

lemma demo_latest: "latest_row ''task:1'' demo_leased = Some demo_row"
  by (simp add: demo_leased_eq latest_row_def key_rows_def)

lemma demo_ready: "rl_ready demo_leased = Inr ()"
  by (simp add: demo_leased_eq rl_ready_def rl_schema_version_def)

theorem lease_attempts_chained_witness: "attempt_chain (key_rows ''task:1'' demo_leased) \<and> key_rows ''task:1'' demo_leased = [demo_row]"
  using lease_attempts_chained [OF demo_lease_reachable(2)] by (simp del: split_paired_All) (simp add: demo_leased_eq key_rows_def)

theorem lease_call_failure_witness:
  "\<exists>e s'. rl_exec (demo_lease 3 ''tok-b'') demo_leased = (Inl e, s') \<and> (s' = demo_leased \<or> e = lease_expired)"
proof -
  obtain e where e: "rl_exec (demo_lease 3 ''tok-b'') demo_leased = (Inl e, demo_leased)"
    unfolding demo_lease_def using live_lease_blocks [OF reachable_ok [OF demo_lease_reachable(2)] demo_latest demo_row_simps(5), of 3]
    by (simp del: rl_exec.simps) blast
  then show ?thesis using lease_call_failure [OF demo_lease_reachable(2) e] by auto
qed

theorem lease_exclusive_witness:
  "latest_row ''task:1'' (snd (run_ops rl_exec [demo_lease 2 ''tok-b'', RlFail ''task:1'' ''tok-b'' ''no'' 3, RlReconcile [''task:1''] 4] demo_leased)) = Some demo_row"
  using lease_exclusive [OF demo_lease_reachable(2) demo_latest, of "[demo_lease 2 ''tok-b'', RlFail ''task:1'' ''tok-b'' ''no'' 3, RlReconcile [''task:1''] 4]" 5]
  by (simp add: undisturbing_def demo_lease_def)

definition demo_done :: rl_row where
  "demo_done = demo_row\<lparr>rl_status := Completed, rl_receipt_hash := Some demo_receipt, rl_terminal_reason := None, rl_expires_at := 5, rl_updated_at := 5\<rparr>"

lemma demo_completed_rows: "st_rows demo_completed = [demo_done]"
proof -
  have "holder_update ''task:1'' ''tok-a'' 5 (Inr ())
      (\<lambda>r. r\<lparr>rl_status := Completed, rl_receipt_hash := Some demo_receipt, rl_terminal_reason := None, rl_expires_at := 5, rl_updated_at := 5\<rparr>) demo_leased =
      (Inr (rl_record_of demo_done), update_row (rl_id demo_row)
        (\<lambda>r. r\<lparr>rl_status := Completed, rl_receipt_hash := Some demo_receipt, rl_terminal_reason := None, rl_expires_at := 5, rl_updated_at := 5\<rparr>) demo_leased)"
    unfolding demo_done_def using good_updates(4) [unfolded good_update_def]
    by (intro holder_update_ok reachable_ok demo_lease_reachable demo_ready demo_texts demo_latest) simp_all
  then show ?thesis
    by (simp add: demo_completed_def rl_complete_def rl_finish_def demo_receipt_ok rl_timestamp_def mapped_def)
      (simp add: update_row_def demo_leased_eq demo_done_def)
qed

lemma demo_done_simps: "rl_status demo_done = Completed" "rl_key demo_done = ''task:1''" "rl_token demo_done = ''tok-a''" "\<not> row_active demo_done"
  by (simp_all add: demo_done_def row_kinds(1))

theorem lease_completed_forever_witness:
  "\<exists>e. rl_exec (demo_lease 99 ''tok-b'') (snd (run_ops rl_exec [RlReconcile [] 50] demo_completed)) =
     (Inl e, snd (run_ops rl_exec [RlReconcile [] 50] demo_completed))"
  using lease_completed_forever [OF demo_lease_reachable(3), of demo_done "demo_lease 99 ''tok-b''" _ "[RlReconcile [] 50]"]
  by (simp add: demo_completed_rows demo_done_simps demo_lease_def)

theorem lease_token_dead_witness:
  "\<exists>e. rl_exec (RlHeartbeat ''task:1'' ''tok-a'' 10 6) (snd (run_ops rl_exec [RlClose, RlOpen] demo_completed)) =
     (Inl e, snd (run_ops rl_exec [RlClose, RlOpen] demo_completed))"
  using lease_token_dead [OF demo_lease_reachable(3), of demo_done "RlHeartbeat ''task:1'' ''tok-a'' 10 6" _ "[RlClose, RlOpen]"]
  by (simp add: demo_completed_rows demo_done_simps)

theorem lease_reconcile_exact_witness:
  "\<exists>s'. rl_reconcile [] 4 demo_leased = (Inr [''task:1''], s') \<and> rl_reconcile [] 4 s' = (Inr [], s')"
proof -
  have run: "rl_reconcile [] 4 demo_leased =
      (Inr [''task:1''], update_row 1 (abandoned ''task no longer active in GitHub snapshot'' 4) demo_leased)"
  proof -
    have "rl_status demo_row \<in> set active_statuses" "rl_id demo_row = 1" "rl_key_set [] = Inr []"
      using demo_row_simps(5) by (simp_all add: row_active_def demo_row_def rl_key_set_def)
    then show ?thesis
      using demo_ready by (simp add: rl_reconcile_def rl_timestamp_def rl_transaction_def demo_leased_eq)
  qed
  show ?thesis using lease_reconcile_exact [OF demo_lease_reachable(2) run] run by blast
qed

theorem lease_task_completes_witness:
  "\<exists>r s1 r2 s2. rl_acquire ''task:1'' ''issue:1'' ''o/r'' ''main'' demo_sha 10 20 (Some ''tok-b'') [] demo_leased = (Inr r, s1) \<and> rl_attempt r = 2 \<and>
    rl_complete ''task:1'' (rl_token r) demo_receipt 25 s1 = (Inr r2, s2) \<and> rl_status r2 = Completed"
proof -
  have "acquirable (demo_request 20 ''tok-b'') demo_leased"
    using demo_latest
    by (simp add: acquirable_def demo_request_def same_task_def) (simp add: demo_leased_eq demo_row_def new_attempt_def demo_request_def)
  moreover have "next_attempt ''task:1'' demo_leased = 2" by (simp add: next_attempt_def demo_leased_eq key_rows_def)
  ultimately show ?thesis
    using lease_task_completes [OF demo_lease_reachable(2) demo_ready demo_args [of 20 "''tok-b''"] _ demo_receipt_ok, of 25]
    by (simp add: demo_texts) blast
qed

end
