(* ===== verification/TaskText.thy ===== *)
theory TaskText
  imports RunnerTask "HOL-Library.AList"
begin

text \<open>
  \<^verbatim>\<open>RunnerTask.from_json\<close> of \<^verbatim>\<open>core/runner_task.py\<close>: the text of a task is read with \<^verbatim>\<open>json.loads\<close> and validated.  The
  decoder of the standard library is modelled as CPython's scanner works: white space, the five escapes of one letter
  and \<^verbatim>\<open>\uXXXX\<close>, strict control characters, the number grammar, \<^verbatim>\<open>NaN\<close> and the infinities, dictionaries in which
  the last of several equal keys wins at the place of the first, the ValueError of an int with more than 4300 digits,
  and the RecursionError of a text nested too deeply.  How many containers the interpreter lets the scanner enter inside one
  another depends on its limits and on the stack at the call: it is the parameter \<open>limit\<close>.  The \<^verbatim>\<open>repr\<close> of the float that
  a decimal text with a fraction or an exponent denotes is the parameter \<open>read_float\<close>, with None for an infinite one.
  A \<^verbatim>\<open>\uXXXX\<close> escape above code point 255 has no character in the model and is kept apart as \<open>outside_alphabet\<close>.  The scanner
  recurses on its input, so the model counts steps: \<open>loads\<close> gives it two for every character, and it is shown that
  this is always enough.
\<close>

subsection \<open>The decoder\<close>

definition decode_error :: exn where
  "decode_error = ValueError ''JSONDecodeError''"

definition outside_alphabet :: exn where
  "outside_alphabet = OtherException ''code point above 255''"

definition recursion_error :: exn where
  "recursion_error = OtherException ''RecursionError''"

definition out_of_steps :: exn where
  "out_of_steps = OtherException ''decoder steps''"

definition json_space :: "char \<Rightarrow> bool" where
  "json_space c \<longleftrightarrow> code_point c \<in> {32, 9, 10, 13}"

definition skip_ws :: "string \<Rightarrow> string" where
  "skip_ws s = dropWhile json_space s"

text \<open>String literals, after the opening quote.\<close>

definition hex_val :: "char \<Rightarrow> nat" where
  "hex_val c = (let n = code_point c in if n \<le> 57 then n - 48 else if n \<le> 70 then n - 55 else n - 87)"

definition simple_escape :: "char \<Rightarrow> char option" where
  "simple_escape c = map_of [(CHR 0x22, CHR 0x22), (CHR 0x5C, CHR 0x5C), (CHR ''/'', CHR ''/''), (CHR ''b'', CHR 0x08),
     (CHR ''f'', CHR 0x0C), (CHR ''n'', CHR 0x0A), (CHR ''r'', CHR 0x0D), (CHR ''t'', CHR 0x09)] c"

definition scanned :: "char \<Rightarrow> (string \<times> string) res \<Rightarrow> (string \<times> string) res" where
  "scanned c r = rbind r (\<lambda>(s, rest). Inr (c # s, rest))"

fun scan_unicode :: "string \<Rightarrow> (nat \<times> string) res" where
  "scan_unicode (a # b # c # d # rest) =
     (if list_all hex_char [a, b, c, d]
      then Inr (((hex_val a * 16 + hex_val b) * 16 + hex_val c) * 16 + hex_val d, rest) else Inl decode_error)"
| "scan_unicode _ = Inl decode_error"

lemma scan_unicode_shorter: "scan_unicode s = Inr (n, rest) \<Longrightarrow> length rest + 4 = length s"
  by (induction s rule: scan_unicode.induct) (auto split: if_splits)

function scan_string :: "string \<Rightarrow> (string \<times> string) res" where
  "scan_string s = (case s of
     [] \<Rightarrow> Inl decode_error
   | c # cs \<Rightarrow>
       if c = CHR 0x22 then Inr ([], cs)
       else if c = CHR 0x5C then
         (case cs of
            [] \<Rightarrow> Inl decode_error
          | e # r \<Rightarrow>
              if e = CHR ''u'' then
                (case scan_unicode r of
                   Inl x \<Rightarrow> Inl x
                 | Inr (n, rest) \<Rightarrow> if n > 255 then Inl outside_alphabet else scanned (char_of n) (scan_string rest))
              else (case simple_escape e of None \<Rightarrow> Inl decode_error | Some x \<Rightarrow> scanned x (scan_string r)))
       else if code_point c < 32 then Inl decode_error
       else scanned c (scan_string cs))"
  by pat_completeness auto
termination
  by (relation "measure length") (auto dest: scan_unicode_shorter)

declare scan_string.simps [simp del]

text \<open>Numbers: \<^verbatim>\<open>(-?(?:0|[1-9]\d*))(\.\d+)?([eE][-+]?\d+)?\<close>\<close>

definition int_part :: "string \<Rightarrow> string" where
  "int_part s = (case s of [] \<Rightarrow> [] | c # cs \<Rightarrow> if c = CHR ''0'' then [c] else takeWhile is_digit s)"

definition frac_part :: "string \<Rightarrow> string" where
  "frac_part s = (case s of c # cs \<Rightarrow> if c = CHR ''.'' \<and> takeWhile is_digit cs \<noteq> [] then c # takeWhile is_digit cs else [] | [] \<Rightarrow> [])"

definition exp_part :: "string \<Rightarrow> string" where
  "exp_part s = (case s of
     c # cs \<Rightarrow>
       if c \<in> {CHR ''e'', CHR ''E''} then
         (let sg = (case cs of d # ds \<Rightarrow> if d \<in> {CHR ''-'', CHR ''+''} then [d] else [] | [] \<Rightarrow> []);
              ds = takeWhile is_digit (drop (length sg) cs)
          in if ds = [] then [] else c # sg @ ds)
       else []
   | [] \<Rightarrow> [])"

definition scan_number :: "(string \<Rightarrow> string option) \<Rightarrow> string \<Rightarrow> (py_obj \<times> string) res" where
  "scan_number read_float s =
     (let sg = (if s \<noteq> [] \<and> hd s = CHR ''-'' then [CHR ''-''] else []);
          s1 = drop (length sg) s; ip = int_part s1; s2 = drop (length ip) s1; fp = frac_part s2; s3 = drop (length fp) s2; ep = exp_part s3 in
      if ip = [] then Inl decode_error
      else if fp = [] \<and> ep = [] then
        (if length ip > max_int_digits then Inl int_limit_error
         else Inr (OInt (if sg = [] then int (text_val ip) else - int (text_val ip)), s2))
      else Inr (case read_float (sg @ ip @ fp @ ep) of Some t \<Rightarrow> OFloat t | None \<Rightarrow> ONonFinite, drop (length ep) s3))"

definition literal :: "string \<Rightarrow> py_obj option" where
  "literal s = (if prefix ''null'' s then Some ONone else if prefix ''true'' s then Some (OBool True)
     else if prefix ''false'' s then Some (OBool False) else if prefix ''NaN'' s then Some ONonFinite
     else if prefix ''Infinity'' s then Some ONonFinite else if prefix ''-Infinity'' s then Some ONonFinite else None)"

definition literal_length :: "string \<Rightarrow> nat" where
  "literal_length s = (if prefix ''null'' s \<or> prefix ''true'' s then 4 else if prefix ''false'' s then 5 else if prefix ''NaN'' s then 3
     else if prefix ''Infinity'' s then 8 else 9)"

text \<open>\<^verbatim>\<open>dict(pairs)\<close>\<close>

definition dict_of :: "(string \<times> py_obj) list \<Rightarrow> (py_key \<times> py_obj) list" where
  "dict_of kvs = foldl (\<lambda>d (k, v). AList.update (KStr k) v d) [] kvs"

definition expect :: "string \<Rightarrow> (char \<Rightarrow> string \<Rightarrow> 'a res) \<Rightarrow> 'a res" where
  "expect s f = (case skip_ws s of [] \<Rightarrow> Inl decode_error | c # r \<Rightarrow> f c r)"

fun decode_value :: "(string \<Rightarrow> string option) \<Rightarrow> nat \<Rightarrow> nat \<Rightarrow> string \<Rightarrow> (py_obj \<times> string) res"
and decode_items :: "(string \<Rightarrow> string option) \<Rightarrow> nat \<Rightarrow> nat \<Rightarrow> string \<Rightarrow> (py_obj list \<times> string) res"
and decode_fields :: "(string \<Rightarrow> string option) \<Rightarrow> nat \<Rightarrow> nat \<Rightarrow> string \<Rightarrow> ((string \<times> py_obj) list \<times> string) res" where
  "decode_value rf d 0 s = Inl out_of_steps"
| "decode_value rf d (Suc n) s = (case s of
     [] \<Rightarrow> Inl decode_error
   | c # r \<Rightarrow>
       if c = CHR 0x22 then rbind (scan_string r) (\<lambda>(t, r'). Inr (OStr t, r'))
       else if c = CHR ''{'' then if d = 0 then Inl recursion_error else expect r (\<lambda>x r'.
         if x = CHR ''}'' then Inr (OMap [], r')
         else if x = CHR 0x22 then rbind (decode_fields rf (d - 1) n r') (\<lambda>(kvs, r''). Inr (OMap (dict_of kvs), r''))
         else Inl decode_error)
       else if c = CHR ''['' then if d = 0 then Inl recursion_error else expect r (\<lambda>x r'.
         if x = CHR '']'' then Inr (OList [], r') else rbind (decode_items rf (d - 1) n (x # r')) (\<lambda>(xs, r''). Inr (OList xs, r'')))
       else (case literal s of Some v \<Rightarrow> Inr (v, drop (literal_length s) s) | None \<Rightarrow> scan_number rf s))"
| "decode_items rf d 0 s = Inl out_of_steps"
| "decode_items rf d (Suc n) s = rbind (decode_value rf d n s) (\<lambda>(v, r). expect r (\<lambda>x r'.
     if x = CHR '']'' then Inr ([v], r')
     else if x = CHR '','' then rbind (decode_items rf d n (skip_ws r')) (\<lambda>(xs, r''). Inr (v # xs, r''))
     else Inl decode_error))"
| "decode_fields rf d 0 s = Inl out_of_steps"
| "decode_fields rf d (Suc n) s = rbind (scan_string s) (\<lambda>(k, r). expect r (\<lambda>x r1.
     if x \<noteq> CHR '':'' then Inl decode_error
     else rbind (decode_value rf d n (skip_ws r1)) (\<lambda>(v, r2). expect r2 (\<lambda>x r3.
       if x = CHR ''}'' then Inr ([(k, v)], r3)
       else if x = CHR '','' then expect r3 (\<lambda>x r4.
         if x = CHR 0x22 then rbind (decode_fields rf d n r4) (\<lambda>(kvs, r5). Inr ((k, v) # kvs, r5)) else Inl decode_error)
       else Inl decode_error))))"

definition loads :: "(string \<Rightarrow> string option) \<Rightarrow> nat \<Rightarrow> string \<Rightarrow> py_obj res" where
  "loads read_float limit s = (let s0 = skip_ws s in
     rbind (decode_value read_float limit (2 * length s0 + 1) s0) (\<lambda>(v, r). if skip_ws r = [] then Inr v else Inl decode_error))"

definition from_json :: "(string \<Rightarrow> string option) \<Rightarrow> nat \<Rightarrow> string \<Rightarrow> runner_task res" where
  "from_json read_float limit s =
     (case loads read_float limit s of
        Inl e \<Rightarrow> Inl (if e = decode_error then RunnerTaskValidationError ''INVALID_TASK_JSON'' else e)
      | Inr parsed \<Rightarrow> from_mapping parsed)"

subsection \<open>Steps and causes\<close>

text \<open>
  What every part of the scanner does on an input: it answers with a value and a proper suffix of the input, or with an
  error that the input explains, and never because the steps have run out.
\<close>

definition opens :: "string \<Rightarrow> nat" where
  "opens s = length (filter (\<lambda>c. c \<in> {CHR ''{'', CHR ''[''}) s)"

definition long_digits :: "string \<Rightarrow> bool" where
  "long_digits s \<longleftrightarrow> (\<exists>ds. sublist ds s \<and> max_int_digits < length ds \<and> list_all is_digit ds)"

definition explains :: "nat \<Rightarrow> string \<Rightarrow> exn \<Rightarrow> bool" where
  "explains d s e \<longleftrightarrow> e = decode_error \<or> e = outside_alphabet \<and> sublist [CHR 0x5C, CHR ''u''] s \<or>
     e = int_limit_error \<and> long_digits s \<or> e = recursion_error \<and> d < opens s"

definition advances :: "('a \<Rightarrow> bool) \<Rightarrow> nat \<Rightarrow> string \<Rightarrow> ('a \<times> string) res \<Rightarrow> bool" where
  "advances P d s out \<longleftrightarrow> (case out of Inl e \<Rightarrow> explains d s e | Inr (x, rest) \<Rightarrow> strict_suffix rest s \<and> P x)"

lemma opens_suffix: "suffix u s \<Longrightarrow> opens u \<le> opens s"
  by (auto simp: opens_def suffix_def)

lemma explains_mono:
  "explains d u e \<Longrightarrow> (\<And>x. sublist x u \<Longrightarrow> sublist x s) \<Longrightarrow> (d < opens u \<Longrightarrow> d' < opens s) \<Longrightarrow> explains d' s e"
  unfolding explains_def long_digits_def by blast

lemma sublist_suffix: "sublist x u \<Longrightarrow> suffix u s \<Longrightarrow> sublist x s"
  using suffix_imp_sublist sublist_order.order.trans by blast

lemma explains_suffix: "explains d u e \<Longrightarrow> suffix u s \<Longrightarrow> explains d s e"
  using explains_mono [of d u e s d] sublist_suffix [of _ u s] opens_suffix [of u s] by fastforce

lemma explains_open:
  assumes "explains d u e" "suffix u cs" "c \<in> {CHR ''{'', CHR ''[''}"
  shows "explains (Suc d) (c # cs) e"
  using explains_mono [of d u e "c # cs" "Suc d"] sublist_suffix [of _ u "c # cs"] suffix_ConsI [OF assms(2), of c] opens_suffix [OF assms(2)] assms(1,3)
  by (fastforce simp: opens_def)

lemma advances_Inl [simp]: "advances P d s (Inl e) \<longleftrightarrow> explains d s e"
  by (simp add: advances_def)

lemma advances_Inr [simp]: "advances P d s (Inr (x, rest)) \<longleftrightarrow> strict_suffix rest s \<and> P x"
  by (simp add: advances_def)

lemma explains_decode_error [simp]: "explains d s decode_error"
  by (simp add: explains_def)

lemma suffix_tail: "suffix (c # cs) u \<Longrightarrow> strict_suffix cs u"
  by (auto simp: strict_suffix_def suffix_def)

lemma suffix_tail_trans: "suffix (c # cs) u \<Longrightarrow> strict_suffix u s \<Longrightarrow> strict_suffix cs s"
  by (rule suffix_order.less_trans [OF suffix_tail])

lemma advances_bind:
  assumes "advances P d u out" "suffix u s" "\<And>x rest. P x \<Longrightarrow> strict_suffix rest u \<Longrightarrow> advances Q d s (f (x, rest))"
  shows "advances Q d s (rbind out f)"
  using assms explains_suffix [OF _ assms(2)] by (cases out) (auto simp: advances_def)

lemma advances_open:
  assumes "advances P d u out" "suffix u cs" "c \<in> {CHR ''{'', CHR ''[''}" "\<And>x. P x \<Longrightarrow> Q (g x)"
  shows "advances Q (Suc d) (c # cs) (rbind out (\<lambda>(x, rest). Inr (g x, rest)))"
proof (cases out)
  case (Inl e)
  then show ?thesis using assms(1) explains_open [OF _ assms(2,3)] by simp
next
  case (Inr p)
  obtain x rest where p: "p = (x, rest)" by (cases p)
  then have "strict_suffix rest u" "P x" using assms(1) Inr by simp_all
  moreover have "suffix u (c # cs)" using assms(2) by (rule suffix_ConsI)
  ultimately show ?thesis using Inr p assms(4) suffix_order.less_le_trans by auto
qed

lemma advances_expect:
  assumes "\<And>c cs. suffix (c # cs) u \<Longrightarrow> advances Q d s (f c cs)"
  shows "advances Q d s (expect u f)"
proof (cases "skip_ws u")
  case (Cons c cs)
  then have "suffix (c # cs) u" by (metis skip_ws_def suffix_dropWhile)
  then show ?thesis using assms Cons by (simp add: expect_def)
qed (simp add: expect_def)

lemma advances_scanned: "advances (\<lambda>_. True) d u out \<Longrightarrow> suffix u s \<Longrightarrow> advances (\<lambda>_. True) d s (scanned c out)"
  unfolding scanned_def by (erule advances_bind) (auto dest: suffix_order.less_le_trans)

lemma scan_unicode_advances: "advances (\<lambda>_. True) d s (scan_unicode s)"
proof (induction s rule: scan_unicode.induct)
  case (1 a b c d rest)
  have "strict_suffix rest (a # b # c # d # rest)" by (auto simp: strict_suffix_def suffix_def)
  then show ?case by simp
qed simp_all

lemma scan_string_advances: "advances (\<lambda>_. True) d s (scan_string s)"
proof (induction s rule: measure_induct_rule [of length])
  case (less s)
  have IH: "advances (\<lambda>_. True) d s (scanned c (scan_string u))" if "strict_suffix u s" for c u
    using less.IH [OF suffix_length_less [OF that]] that by (auto intro: advances_scanned suffix_order.less_imp_le)
  show ?case
  proof (cases s)
    case (Cons c cs)
    have tail: "strict_suffix cs s" unfolding Cons by (rule suffix_tail [of c]) simp
    show ?thesis
    proof (cases cs)
      case Nil
      then show ?thesis using IH [of cs] Cons tail by (subst scan_string.simps) auto
    next
      case (Cons e r)
      have r: "strict_suffix r s" using tail unfolding Cons by (meson suffix_order.less_imp_le suffix_tail)
      have uni: "advances (\<lambda>_. True) d s (case scan_unicode r of Inl x \<Rightarrow> Inl x
          | Inr (n, rest) \<Rightarrow> if n > 255 then Inl outside_alphabet else scanned (char_of n) (scan_string rest))"
        if "c = CHR 0x5C" "e = CHR ''u''"
      proof -
        have "sublist [CHR 0x5C, CHR ''u''] s" unfolding \<open>s = c # cs\<close> Cons that by (rule prefix_imp_sublist) simp
        then have "explains d s outside_alphabet" by (simp add: explains_def)
        moreover have "strict_suffix rest s" if "scan_unicode r = Inr (n, rest)" for n rest
          using scan_unicode_advances [of d r] that r suffix_order.less_trans by simp
        moreover have "explains d s x" if "scan_unicode r = Inl x" for x
          using scan_unicode_advances [of d r] that explains_suffix suffix_order.less_imp_le [OF r] by simp
        ultimately show ?thesis using IH by (auto split: sum.splits)
      qed
      have esc: "advances (\<lambda>_. True) d s (case simple_escape e of None \<Rightarrow> Inl decode_error | Some x \<Rightarrow> scanned x (scan_string r))"
        using IH [OF r] by (simp split: option.splits)
      show ?thesis
        using uni esc IH [OF tail] tail Cons \<open>s = c # cs\<close> by (subst scan_string.simps) auto
    qed
  qed (simp add: scan_string.simps)
qed

text \<open>The ints of a decoded object are short enough to be printed again.\<close>

fun printable_obj :: "py_obj \<Rightarrow> bool"
and printable_objs :: "py_obj list \<Rightarrow> bool"
and printable_values :: "(py_key \<times> py_obj) list \<Rightarrow> bool" where
  "printable_obj (OInt i) = printable_int i"
| "printable_obj (OList xs) = printable_objs xs"
| "printable_obj (OTuple xs) = printable_objs xs"
| "printable_obj (OMap kvs) = printable_values kvs"
| "printable_obj v = True"
| "printable_objs [] = True"
| "printable_objs (x # xs) = (printable_obj x \<and> printable_objs xs)"
| "printable_values [] = True"
| "printable_values ((k, v) # kvs) = (printable_obj v \<and> printable_values kvs)"

abbreviation printable_pairs :: "(string \<times> py_obj) list \<Rightarrow> bool" where
  "printable_pairs kvs \<equiv> list_all (\<lambda>(k, v). printable_obj v) kvs"

lemma printable_values_iff: "printable_values kvs \<longleftrightarrow> (\<forall>(k, v)\<in>set kvs. printable_obj v)"
  by (induction kvs) auto

lemma printable_dict: "printable_pairs kvs \<Longrightarrow> printable_values (dict_of kvs)"
proof (induction kvs rule: rev_induct)
  case (snoc kv kvs)
  have "printable_values (AList.update k v d)" if "printable_values d" "printable_obj v" for k v d
    using that by (induction d) auto
  then show ?case using snoc by (auto simp: dict_of_def split: prod.splits)
qed (simp add: dict_of_def)

lemma nat_text_length: "n < 10 ^ k \<Longrightarrow> 0 < k \<Longrightarrow> length (nat_text n) \<le> k"
proof (induction n arbitrary: k rule: nat_text.induct)
  case (1 n)
  show ?case
  proof (cases "n < 10")
    case True
    then show ?thesis using 1(3) by (simp add: nat_text.simps [of n])
  next
    case False
    then obtain j where j: "k = Suc j" "0 < j" using 1(2,3) by (cases k; cases "k - 1") auto
    then have "n div 10 < 10 ^ j" using 1(2) by (simp add: less_mult_imp_div_less)
    then show ?thesis using 1(1) [OF False _ j(2)] False j(1) by (simp add: nat_text.simps [of n])
  qed
qed

lemma text_val_bound: "list_all is_digit ds \<Longrightarrow> text_val ds < 10 ^ length ds"
proof (induction ds rule: rev_induct)
  case (snoc c ds)
  then have "text_val ds < 10 ^ length ds" "digit_val c < 10" by (auto simp: is_digit_def digit_val_def)
  then show ?case by (simp add: text_val_def)
qed (simp add: text_val_def)

lemma int_part_digits: "prefix (int_part u) u \<and> list_all is_digit (int_part u)"
  by (auto simp: int_part_def is_digit_def takeWhile_is_prefix list_all_iff dest: set_takeWhileD split: list.splits)

lemma number_advances:
  assumes ip: "prefix ip u" "list_all is_digit ip" and u: "suffix u s"
  shows "advances printable_obj d s (if ip = [] then Inl decode_error
      else if fp = [] \<and> ep = [] then
        (if length ip > max_int_digits then Inl int_limit_error
         else Inr (OInt (if sg = [] then int (text_val ip) else - int (text_val ip)), drop (length ip) u))
      else Inr (case rf text of Some t \<Rightarrow> OFloat t | None \<Rightarrow> ONonFinite, drop (length ep) (drop (length fp) (drop (length ip) u))))"
proof -
  have num: "printable_int (int (text_val ip))" "printable_int (- int (text_val ip))" if "ip \<noteq> []" "length ip \<le> max_int_digits"
    using nat_text_length [OF text_val_bound [OF ip(2)]] that by (auto simp: printable_int_def)
  have long: "long_digits s" if "max_int_digits < length ip"
    using that ip(2) sublist_suffix [OF prefix_imp_sublist [OF ip(1)] u] unfolding long_digits_def by blast
  have rest: "strict_suffix (drop k u) s" if "ip \<noteq> []" "length ip \<le> k" for k
  proof -
    have "0 < length ip" "length ip \<le> length u" using that(1) prefix_length_le [OF ip(1)] by simp_all
    then have "length (drop k u) < length u" unfolding length_drop using that(2) by linarith
    then have "strict_suffix (drop k u) u" using suffix_drop [of k u] by (auto simp: strict_suffix_def simp del: length_drop)
    then show ?thesis using u by (rule suffix_order.less_le_trans)
  qed
  show ?thesis using num long rest by (auto simp: explains_def split: option.split)
qed

lemma scan_number_advances: "advances printable_obj d s (scan_number rf s)"
  unfolding scan_number_def Let_def by (rule number_advances) (use int_part_digits suffix_drop in blast)+

lemma literal_advances: "literal s = Some v \<Longrightarrow> advances printable_obj d s (Inr (v, drop (literal_length s) s))"
proof -
  assume l: "literal s = Some v"
  then have "s \<noteq> []" "0 < literal_length s" "printable_obj v"
    by (auto simp: literal_def literal_length_def split: if_splits)
  moreover from this have "length (drop (literal_length s) s) < length s" by simp
  ultimately show ?thesis using suffix_drop [of "literal_length s" s] by (auto simp: strict_suffix_def simp del: length_drop)
qed

lemma value_advances:
  assumes items: "\<And>d u. 2 * length u + 2 \<le> n \<Longrightarrow> advances printable_objs d u (decode_items rf d n u)"
    and fields: "\<And>d u. 2 * length u + 1 \<le> n \<Longrightarrow> advances printable_pairs d u (decode_fields rf d n u)"
    and n: "2 * length s + 1 \<le> Suc n"
  shows "advances printable_obj d s (decode_value rf d (Suc n) s)"
proof (cases s)
  case (Cons c cs)
  have str: "advances printable_obj d s (rbind (scan_string cs) (\<lambda>(t, r'). Inr (OStr t, r')))"
    by (rule advances_bind [OF scan_string_advances]) (auto simp: Cons suffix_ConsI intro: suffix_order.less_le_trans)
  have deep: "explains 0 s recursion_error" if "c \<in> {CHR ''{'', CHR ''[''}"
    using that by (auto simp: explains_def opens_def Cons)
  have obj: "advances printable_obj (Suc m) s (expect cs (\<lambda>x r'.
         if x = CHR ''}'' then Inr (OMap [], r')
         else if x = CHR 0x22 then rbind (decode_fields rf m n r') (\<lambda>(kvs, r''). Inr (OMap (dict_of kvs), r''))
         else Inl decode_error))" if "c = CHR ''{''" for m
  proof (rule advances_expect)
    fix x r assume x: "suffix (x # r) cs"
    have r: "suffix r cs" "strict_suffix r s" "2 * length r + 1 \<le> n"
      using suffix_tail [OF x] n suffix_length_less [OF suffix_tail [OF x]] by (auto simp: Cons suffix_ConsI intro: suffix_order.less_imp_le suffix_order.less_le_trans)
    have "advances printable_obj (Suc m) s (rbind (decode_fields rf m n r) (\<lambda>(kvs, r''). Inr (OMap (dict_of kvs), r'')))"
      unfolding Cons by (rule advances_open [OF fields [OF r(3)] r(1)]) (auto simp: that printable_dict)
    then show "advances printable_obj (Suc m) s (if x = CHR ''}'' then Inr (OMap [], r)
         else if x = CHR 0x22 then rbind (decode_fields rf m n r) (\<lambda>(kvs, r''). Inr (OMap (dict_of kvs), r'')) else Inl decode_error)"
      using r(2) by simp
  qed
  have arr: "advances printable_obj (Suc m) s (expect cs (\<lambda>x r'.
         if x = CHR '']'' then Inr (OList [], r') else rbind (decode_items rf m n (x # r')) (\<lambda>(xs, r''). Inr (OList xs, r''))))" if "c = CHR ''[''" for m
  proof (rule advances_expect)
    fix x r assume x: "suffix (x # r) cs"
    have r: "strict_suffix r s" "2 * length (x # r) + 2 \<le> n"
      using suffix_tail [OF x] n suffix_length_le [OF x] by (auto simp: Cons suffix_ConsI intro: suffix_order.less_le_trans)
    have "advances printable_obj (Suc m) s (rbind (decode_items rf m n (x # r)) (\<lambda>(xs, r''). Inr (OList xs, r'')))"
      unfolding Cons by (rule advances_open [OF items [OF r(2)] x]) (auto simp: that)
    then show "advances printable_obj (Suc m) s (if x = CHR '']'' then Inr (OList [], r)
         else rbind (decode_items rf m n (x # r)) (\<lambda>(xs, r''). Inr (OList xs, r'')))"
      using r(1) by simp
  qed
  have lit: "advances printable_obj d s (case literal s of Some v \<Rightarrow> Inr (v, drop (literal_length s) s) | None \<Rightarrow> scan_number rf s)"
    using literal_advances [of s] scan_number_advances [of d s rf] by (simp split: option.splits)
  show ?thesis
  proof (cases d)
    case 0
    then show ?thesis using str [unfolded Cons] lit [unfolded Cons] deep [unfolded Cons] unfolding Cons by auto
  next
    case (Suc m)
    then show ?thesis using str [unfolded Cons] lit [unfolded Cons] obj [unfolded Cons] arr [unfolded Cons] unfolding Cons by (auto cong: if_cong)
  qed
qed simp

lemma items_advances:
  assumes v: "\<And>u. 2 * length u + 1 \<le> n \<Longrightarrow> advances printable_obj d u (decode_value rf d n u)"
    and items: "\<And>u. 2 * length u + 2 \<le> n \<Longrightarrow> advances printable_objs d u (decode_items rf d n u)"
    and n: "2 * length s + 2 \<le> Suc n"
  shows "advances printable_objs d s (decode_items rf d (Suc n) s)"
proof -
  have rest: "advances printable_objs d s (rbind (decode_items rf d n (skip_ws r)) (\<lambda>(xs, r''). Inr (x # xs, r'')))"
    if "printable_obj x" "strict_suffix r u" "strict_suffix u s" for x r u
  proof -
    have r: "suffix (skip_ws r) r" by (simp add: skip_ws_def suffix_dropWhile)
    have "length (skip_ws r) + 1 < length s" using suffix_length_le [OF r] suffix_length_less [OF that(2)] suffix_length_less [OF that(3)] by linarith
    then have "advances printable_objs d (skip_ws r) (decode_items rf d n (skip_ws r))" using n by (intro items) simp
    moreover have "strict_suffix (skip_ws r) s" using r that(2,3) by (meson suffix_order.le_less_trans suffix_order.less_trans)
    ultimately show ?thesis
      using that(1) by (auto intro!: advances_bind [of printable_objs d "skip_ws r"] intro: suffix_order.less_trans suffix_order.less_imp_le)
  qed
  show ?thesis
    unfolding decode_items.simps
  proof (rule advances_bind [OF v])
    fix x r assume x: "printable_obj x" and r: "strict_suffix r s"
    show "advances printable_objs d s (case (x, r) of (v, r) \<Rightarrow> expect r (\<lambda>x r'. if x = CHR '']'' then Inr ([v], r')
        else if x = CHR '','' then rbind (decode_items rf d n (skip_ws r')) (\<lambda>(xs, r''). Inr (v # xs, r'')) else Inl decode_error))"
      unfolding prod.case
    proof (rule advances_expect)
      fix c cs assume "suffix (c # cs) r"
      then have "strict_suffix cs r" by (rule suffix_tail)
      then show "advances printable_objs d s (if c = CHR '']'' then Inr ([x], cs)
          else if c = CHR '','' then rbind (decode_items rf d n (skip_ws cs)) (\<lambda>(xs, r''). Inr (x # xs, r'')) else Inl decode_error)"
        using rest [OF x _ r, of cs] x r by (auto intro: suffix_order.less_trans)
    qed
  qed (use n in simp_all)
qed

lemma fields_advances:
  assumes v: "\<And>u. 2 * length u + 1 \<le> n \<Longrightarrow> advances printable_obj d u (decode_value rf d n u)"
    and fields: "\<And>u. 2 * length u + 1 \<le> n \<Longrightarrow> advances printable_pairs d u (decode_fields rf d n u)"
    and n: "2 * length s + 1 \<le> Suc n"
  shows "advances printable_pairs d s (decode_fields rf d (Suc n) s)"
proof -
  have fuel: "2 * length u + 1 \<le> n" if "strict_suffix u s" for u using suffix_length_less [OF that] n by linarith
  have rest: "advances printable_pairs d s (rbind (decode_fields rf d n u) (\<lambda>(kvs, r5). Inr ((k, x) # kvs, r5)))"
    if "printable_obj x" "strict_suffix u s" for k x u
    using that by (intro advances_bind [OF fields [OF fuel [OF that(2)]]]) (auto intro: suffix_order.less_trans suffix_order.less_imp_le)
  have tail: "advances printable_pairs d s (expect r2 (\<lambda>c r3.
       if c = CHR ''}'' then Inr ([(k, x)], r3)
       else if c = CHR '','' then expect r3 (\<lambda>c r4.
         if c = CHR 0x22 then rbind (decode_fields rf d n r4) (\<lambda>(kvs, r5). Inr ((k, x) # kvs, r5)) else Inl decode_error)
       else Inl decode_error))" if x: "printable_obj x" and r2: "strict_suffix r2 s" for k x r2
  proof (rule advances_expect)
    fix c r3 assume "suffix (c # r3) r2"
    then have r3: "strict_suffix r3 s" using r2 by (rule suffix_tail_trans)
    have "advances printable_pairs d s (expect r3 (\<lambda>c r4.
         if c = CHR 0x22 then rbind (decode_fields rf d n r4) (\<lambda>(kvs, r5). Inr ((k, x) # kvs, r5)) else Inl decode_error))"
    proof (rule advances_expect)
      fix c r4 assume "suffix (c # r4) r3"
      then have "strict_suffix r4 s" using r3 by (rule suffix_tail_trans)
      then show "advances printable_pairs d s
          (if c = CHR 0x22 then rbind (decode_fields rf d n r4) (\<lambda>(kvs, r5). Inr ((k, x) # kvs, r5)) else Inl decode_error)"
        using rest [OF x] by simp
    qed
    then show "advances printable_pairs d s (if c = CHR ''}'' then Inr ([(k, x)], r3)
       else if c = CHR '','' then expect r3 (\<lambda>c r4.
         if c = CHR 0x22 then rbind (decode_fields rf d n r4) (\<lambda>(kvs, r5). Inr ((k, x) # kvs, r5)) else Inl decode_error)
       else Inl decode_error)"
      using x r3 by simp
  qed
  have val: "advances printable_pairs d s (rbind (decode_value rf d n (skip_ws r1)) (\<lambda>(x, r2). expect r2 (\<lambda>c r3.
       if c = CHR ''}'' then Inr ([(k, x)], r3)
       else if c = CHR '','' then expect r3 (\<lambda>c r4.
         if c = CHR 0x22 then rbind (decode_fields rf d n r4) (\<lambda>(kvs, r5). Inr ((k, x) # kvs, r5)) else Inl decode_error)
       else Inl decode_error)))" if r1: "strict_suffix r1 s" for k r1
  proof -
    have u: "strict_suffix (skip_ws r1) s"
      using r1 suffix_dropWhile [of json_space r1] unfolding skip_ws_def by (meson suffix_order.le_less_trans)
    show ?thesis
      using tail u by (intro advances_bind [OF v [OF fuel [OF u]]]) (auto intro: suffix_order.less_trans suffix_order.less_imp_le)
  qed
  show ?thesis
    unfolding decode_fields.simps
  proof (rule advances_bind [OF scan_string_advances suffix_order.order_refl])
    fix k r assume r: "strict_suffix r s"
    have "advances printable_pairs d s (expect r f)" if "\<And>c r1. strict_suffix r1 s \<Longrightarrow> advances printable_pairs d s (f c r1)" for f
      by (intro advances_expect that suffix_tail_trans [OF _ r])
    then show "advances printable_pairs d s (case (k, r) of (k, r) \<Rightarrow> expect r (\<lambda>c r1. if c \<noteq> CHR '':'' then Inl decode_error
        else rbind (decode_value rf d n (skip_ws r1)) (\<lambda>(v, r2). expect r2 (\<lambda>c r3.
          if c = CHR ''}'' then Inr ([(k, v)], r3)
          else if c = CHR '','' then expect r3 (\<lambda>c r4.
            if c = CHR 0x22 then rbind (decode_fields rf d n r4) (\<lambda>(kvs, r5). Inr ((k, v) # kvs, r5)) else Inl decode_error)
          else Inl decode_error))))"
      using val by simp
  qed
qed

lemma decode_advances:
  "(\<forall>d s. 2 * length s + 1 \<le> n \<longrightarrow> advances printable_obj d s (decode_value rf d n s)) \<and>
   (\<forall>d s. 2 * length s + 2 \<le> n \<longrightarrow> advances printable_objs d s (decode_items rf d n s)) \<and>
   (\<forall>d s. 2 * length s + 1 \<le> n \<longrightarrow> advances printable_pairs d s (decode_fields rf d n s))"
proof (induction n)
  case (Suc n)
  then have IH: "\<And>d u. 2 * length u + 1 \<le> n \<Longrightarrow> advances printable_obj d u (decode_value rf d n u)"
      "\<And>d u. 2 * length u + 2 \<le> n \<Longrightarrow> advances printable_objs d u (decode_items rf d n u)"
      "\<And>d u. 2 * length u + 1 \<le> n \<Longrightarrow> advances printable_pairs d u (decode_fields rf d n u)" by blast+
  show ?case using value_advances [OF IH(2,3)] items_advances [OF IH(1,2)] fields_advances [OF IH(1,3)] by blast
qed simp

subsection \<open>Reading what was printed\<close>

text \<open>Strings.\<close>

lemma hex_digit_read: "n < 16 \<Longrightarrow> hex_char (hex_digit n)" "n < 16 \<Longrightarrow> hex_val (hex_digit n) = n"
  by (cases "n < 10"; simp add: hex_digit_def hex_char_def hex_val_def Let_def)+

lemma scan_escape_char: "scan_string (escape_char c @ rest) = scanned c (scan_string rest)"
proof -
  let ?n = "code_point c"
  consider "?n \<in> {34, 92, 8, 9, 10, 12, 13}" | "32 \<le> ?n" "?n \<le> 126" "?n \<notin> {34, 92}" | "?n < 32 \<or> 126 < ?n" "?n \<notin> {34, 92, 8, 9, 10, 12, 13}"
    by fastforce
  then show ?thesis
  proof cases
    case 1
    then have "c \<in> {CHR 0x22, CHR 0x5C, CHR 0x08, CHR 0x09, CHR 0x0A, CHR 0x0C, CHR 0x0D}"
      by (simp add: of_char_eq_iff [where 'a = nat, of c, symmetric] del: of_char_eq_iff)
    then show ?thesis
      by (elim insertE emptyE) (simp_all add: escape_char_def Let_def scan_string.simps [of "CHR 0x5C # _"] simple_escape_def)
  next
    case 2
    then have "c \<noteq> CHR 0x22" "c \<noteq> CHR 0x5C" by auto
    then show ?thesis using 2 by (simp add: escape_char_def Let_def scan_string.simps [of "c # _"])
  next
    case 3
    have small: "?n < 256" by simp
    then have n: "?n div 16 < 16" "?n mod 16 < 16" "?n \<le> 255" by linarith+
    have "escape_char c @ rest = CHR 0x5C # CHR ''u'' # CHR ''0'' # CHR ''0'' # hex_digit (?n div 16) # hex_digit (?n mod 16) # rest"
      using 3 by (auto simp: escape_char_def Let_def)
    moreover have "hex_char (CHR ''0'')" "hex_val (CHR ''0'') = 0" by code_simp+
    ultimately show ?thesis
      using n hex_digit_read by (simp add: scan_string.simps [of "CHR 0x5C # _"])
  qed
qed

lemma scan_quoted: "scan_string (escape t @ CHR 0x22 # rest) = Inr (t, rest)"
  by (induction t) (simp_all add: escape_def scan_escape_char scanned_def scan_string.simps [of "CHR 0x22 # _"])

text \<open>Numbers.\<close>

definition after_value :: "string \<Rightarrow> bool" where
  "after_value rest \<longleftrightarrow> rest = [] \<or> hd rest \<in> {CHR '','', CHR '']'', CHR ''}''}"

lemma after_valueD:
  assumes "after_value rest"
  shows "takeWhile is_digit rest = []" "frac_part rest = []" "exp_part rest = []"
  using assms by (cases rest; auto simp: after_value_def is_digit_def frac_part_def exp_part_def)+

lemma nat_text_lead: "hd (nat_text n) = CHR ''0'' \<Longrightarrow> n = 0"
proof (induction n rule: nat_text.induct)
  case (1 n)
  show ?case
  proof (cases "n < 10")
    case True
    then have "code_point (hd (nat_text n)) = 48 + n" by (simp add: nat_text.simps [of n])
    then show ?thesis using 1(2) by simp
  next
    case False
    then have "hd (nat_text n) = hd (nat_text (n div 10))" by (simp add: nat_text.simps [of n])
    then show ?thesis using 1 False by simp
  qed
qed

lemma int_part_nat: "takeWhile is_digit rest = [] \<Longrightarrow> int_part (nat_text n @ rest) = nat_text n"
proof -
  assume rest: "takeWhile is_digit rest = []"
  have tw: "takeWhile is_digit (nat_text n @ rest) = nat_text n"
    using rest nat_text_digits by (simp add: takeWhile_append2)
  show ?thesis
  proof (cases "n = 0")
    case True
    moreover have "char_of (48 :: nat) = CHR ''0''" by (simp add: char_of_eq_iff)
    ultimately show ?thesis by (simp add: int_part_def nat_text.simps [of 0])
  next
    case False
    then have "hd (nat_text n) \<noteq> CHR ''0''" using nat_text_lead by blast
    then show ?thesis using tw by (cases "nat_text n") (auto simp: int_part_def)
  qed
qed

lemma scan_int: "after_value rest \<Longrightarrow> printable_int i \<Longrightarrow> scan_number rf (int_text i @ rest) = Inr (OInt i, rest)"
proof -
  assume r: "after_value rest" and p: "printable_int i"
  have "hd (nat_text n) \<noteq> CHR ''-''" for n using hd_nat_text [of n] minus_not_digit by metis
  then show ?thesis
    using after_valueD [OF r] p by (auto simp: scan_number_def int_text_def Let_def int_part_nat text_val_nat_text printable_int_def)
qed

text \<open>Documents: the keys of every object are distinct, as they are in a dictionary.\<close>

fun distinct_keys :: "json \<Rightarrow> bool"
and distinct_keys_items :: "json list \<Rightarrow> bool"
and distinct_keys_fields :: "(string \<times> json) list \<Rightarrow> bool" where
  "distinct_keys (JArr js) = distinct_keys_items js"
| "distinct_keys (JObj fs) = (distinct (map fst fs) \<and> distinct_keys_fields fs)"
| "distinct_keys j = True"
| "distinct_keys_items [] = True"
| "distinct_keys_items (j # js) = (distinct_keys j \<and> distinct_keys_items js)"
| "distinct_keys_fields [] = True"
| "distinct_keys_fields ((k, j) # fs) = (distinct_keys j \<and> distinct_keys_fields fs)"

lemma dict_of_distinct: "distinct (map fst kvs) \<Longrightarrow> dict_of kvs = map (\<lambda>(k, v). (KStr k, v)) kvs"
proof (induction kvs rule: rev_induct)
  case (snoc kv kvs)
  obtain k v where kv: "kv = (k, v)" by fastforce
  have "KStr k \<notin> set (map fst (map (\<lambda>(k, v). (KStr k, v)) kvs))" using snoc.prems kv by (auto simp: image_iff)
  then have "AList.update (KStr k) v (map (\<lambda>(k, v). (KStr k, v)) kvs) = map (\<lambda>(k, v). (KStr k, v)) kvs @ [(KStr k, v)]"
    by (induction kvs) auto
  then show ?case using snoc kv by (simp add: dict_of_def)
qed (simp add: dict_of_def)

definition thaw_pairs :: "(string \<times> json) list \<Rightarrow> (string \<times> py_obj) list" where
  "thaw_pairs fs = map (\<lambda>(k, j). (k, thaw_json j)) fs"

lemma dict_of_thaw: "distinct (map fst fs) \<Longrightarrow> dict_of (thaw_pairs fs) = thaw_fields fs"
proof -
  assume "distinct (map fst fs)"
  moreover have "map fst (thaw_pairs fs) = map fst fs" by (induction fs) (auto simp: thaw_pairs_def)
  ultimately show ?thesis by (simp add: dict_of_distinct) (auto simp: thaw_pairs_def thaw_fields_map)
qed

text \<open>The first character of a printed value tells what it is, and is no white space.\<close>

lemma int_text_start: "\<exists>c cs. int_text i = c # cs \<and> (is_digit c \<or> c = CHR ''-'' \<and> cs \<noteq> [] \<and> is_digit (hd cs))"
proof (cases "i < 0")
  case True
  then show ?thesis using hd_nat_text [of "nat (- i)"] by (simp add: int_text_def)
next
  case False
  obtain c cs where "nat_text (nat i) = c # cs" using nat_text_nonempty by (meson neq_Nil_conv)
  then show ?thesis using hd_nat_text [of "nat i"] False by (simp add: int_text_def)
qed

lemma digit_start:
  assumes "is_digit c"
  shows "c \<noteq> CHR 0x22" "c \<noteq> CHR ''{''" "c \<noteq> CHR ''[''" "c \<noteq> CHR '']''" "\<not> json_space c" "c \<noteq> CHR ''-''"
    "c \<noteq> CHR ''n''" "c \<noteq> CHR ''t''" "c \<noteq> CHR ''f''" "c \<noteq> CHR ''N''" "c \<noteq> CHR ''I''"
proof -
  have n: "48 \<le> code_point c" "code_point c \<le> 57" using assms by (simp_all add: is_digit_def)
  show "\<not> json_space c" using n by (simp add: json_space_def)
  show "c \<noteq> CHR 0x22" "c \<noteq> CHR ''{''" "c \<noteq> CHR ''[''" "c \<noteq> CHR '']''" "c \<noteq> CHR ''-''"
    "c \<noteq> CHR ''n''" "c \<noteq> CHR ''t''" "c \<noteq> CHR ''f''" "c \<noteq> CHR ''N''" "c \<noteq> CHR ''I''" using n by auto
qed

lemma int_no_literal: "literal (int_text i @ rest) = None"
proof -
  obtain c cs where c: "int_text i = c # cs" "is_digit c \<or> c = CHR ''-'' \<and> cs \<noteq> [] \<and> is_digit (hd cs)" using int_text_start by blast
  then consider "is_digit c" | d ds where "c = CHR ''-''" "cs = d # ds" "is_digit d" by (cases cs) auto
  then show ?thesis
  proof cases
    case 1
    then show ?thesis unfolding c(1) using digit_start [OF 1] by (simp add: literal_def)
  next
    case (2 d ds)
    then show ?thesis unfolding c(1) using digit_start [OF 2(3)] by (simp add: literal_def)
  qed
qed

lemma render_start:
  assumes "no_floats j"
  shows "\<exists>c cs. render j = c # cs \<and> \<not> json_space c \<and> c \<noteq> CHR '']''"
proof (cases j)
  case (JInt i)
  then show ?thesis using int_text_start [of i] digit_start by (auto simp: json_space_def)
qed (use assms in \<open>auto simp: quote_def json_space_def\<close>)

lemma skip_ws_printed: "\<not> json_space c \<Longrightarrow> skip_ws (c # cs) = c # cs"
  by (simp add: skip_ws_def)

lemma expect_printed [simp]: "\<not> json_space c \<Longrightarrow> expect (c # cs) f = f c cs"
  by (simp add: expect_def skip_ws_printed)

lemma punctuation [simp]: "\<not> json_space (CHR '','')" "\<not> json_space (CHR '']'')" "\<not> json_space (CHR ''}'')" "\<not> json_space (CHR '':'')"
    "\<not> json_space (CHR 0x22)" "after_value (CHR '','' # r)" "after_value (CHR '']'' # r)" "after_value (CHR ''}'' # r)"
  by (simp_all add: json_space_def after_value_def)

lemma skip_ws_render: "no_floats j \<Longrightarrow> skip_ws (render j @ rest) = render j @ rest"
  using render_start [of j] skip_ws_printed by fastforce

lemma skip_ws_render_items: "no_floats j \<Longrightarrow> skip_ws (render_items (j # js) @ rest) = render_items (j # js) @ rest"
  using skip_ws_render [of j] by (cases js) simp_all

lemma render_fields_quote: "render_fields ((k, j) # fs) @ rest = CHR 0x22 # escape k @ CHR 0x22 # CHR '':'' # render j @
    (case fs of [] \<Rightarrow> CHR ''}'' # rest | _ \<Rightarrow> CHR '','' # render_fields fs @ rest)"
  by (cases fs) (simp_all add: quote_def)

lemma render_items_rest: "render_items (j # js) @ rest = render j @
    (case js of [] \<Rightarrow> CHR '']'' # rest | _ \<Rightarrow> CHR '','' # render_items js @ rest)"
  by (cases js) simp_all

text \<open>The scanner reads a printed document back, in enough steps.\<close>

fun json_steps :: "json \<Rightarrow> nat"
and json_steps_items :: "json list \<Rightarrow> nat"
and json_steps_fields :: "(string \<times> json) list \<Rightarrow> nat" where
  "json_steps (JArr js) = Suc (json_steps_items js)"
| "json_steps (JObj fs) = Suc (json_steps_fields fs)"
| "json_steps j = 1"
| "json_steps_items [] = 0"
| "json_steps_items (j # js) = Suc (max (json_steps j) (json_steps_items js))"
| "json_steps_fields [] = 0"
| "json_steps_fields ((k, j) # fs) = Suc (max (json_steps j) (json_steps_fields fs))"

lemma decode_scalar:
  assumes "0 < n" "0 < d" "after_value rest" "no_floats j" "printable_ints j" "json_steps j = 1"
  shows "decode_value rf d n (render j @ rest) = Inr (thaw_json j, rest)"
proof (cases j)
  case (JInt i)
  obtain c cs where c: "int_text i = c # cs" "is_digit c \<or> c = CHR ''-''" using int_text_start by blast
  then have "c \<noteq> CHR 0x22" "c \<noteq> CHR ''{''" "c \<noteq> CHR ''[''" using digit_start(1-3) by auto
  moreover obtain m where "n = Suc m" using assms(1) gr0_conv_Suc by blast
  ultimately show ?thesis
    using JInt c(1) int_no_literal [of i rest] scan_int [OF assms(3), of i rf] assms(5) by simp
next
  case (JStr t)
  then show ?thesis using assms(1) scan_quoted [of t rest] by (cases n) (simp_all add: quote_def)
next
  case (JArr js)
  then show ?thesis using assms by (cases js) (simp_all, cases n, simp_all)
next
  case (JObj fs)
  then show ?thesis using assms by (cases fs) (auto, cases n, simp_all)
qed (use assms in \<open>cases n; simp add: literal_def literal_length_def\<close>)+

lemma decode_printed:
  "no_floats j \<Longrightarrow> printable_ints j \<Longrightarrow> distinct_keys j \<Longrightarrow> json_depth j < d \<Longrightarrow> json_steps j \<le> n \<Longrightarrow> after_value rest \<Longrightarrow>
     decode_value rf d n (render j @ rest) = Inr (thaw_json j, rest)"
  "no_floats_items js \<Longrightarrow> printable_items js \<Longrightarrow> distinct_keys_items js \<Longrightarrow> json_depth_items js \<le> d \<Longrightarrow> json_steps_items js \<le> n \<Longrightarrow> js \<noteq> [] \<Longrightarrow>
     decode_items rf d n (render_items js @ rest) = Inr (thaw_items js, rest)"
  "no_floats_fields fs \<Longrightarrow> printable_fields fs \<Longrightarrow> distinct_keys_fields fs \<Longrightarrow> json_depth_fields fs \<le> d \<Longrightarrow> json_steps_fields fs \<le> n \<Longrightarrow> fs \<noteq> [] \<Longrightarrow>
     decode_fields rf d n (tl (render_fields fs @ rest)) = Inr (thaw_pairs fs, rest)"
proof (induction j and js and fs arbitrary: d n rest and d n rest and d n rest rule: json_steps_json_steps_items_json_steps_fields.induct)
  case (1 js)
  then obtain m e where m: "n = Suc m" "json_steps_items js \<le> m" "d = Suc e" by (cases n; cases d) auto
  show ?case
  proof (cases js)
    case (Cons x xs)
    then have "no_floats x" using 1 by simp
    then obtain c cs where c: "render_items js @ rest = c # cs" "\<not> json_space c" "c \<noteq> CHR '']''"
      using render_start [of x] Cons render_items_rest [of x xs rest] by auto
    have "decode_items rf e m (render_items js @ rest) = Inr (thaw_items js, rest)" using 1 m Cons by simp
    then show ?thesis using c m(1,3) by simp
  qed (use m in simp)
next
  case (2 fs)
  then obtain m e where m: "n = Suc m" "json_steps_fields fs \<le> m" "d = Suc e" by (cases n; cases d) auto
  show ?case
  proof (cases fs)
    case (Cons f fs')
    have "decode_fields rf e m (tl (render_fields fs @ rest)) = Inr (thaw_pairs fs, rest)" using 2 m Cons by simp
    moreover obtain cs where "render_fields fs @ rest = CHR 0x22 # cs"
      using Cons render_fields_quote [of "fst f" "snd f" fs' rest] by simp
    moreover have "distinct (map fst fs)" using 2 by simp
    ultimately show ?thesis using m(1,3) by (simp add: dict_of_thaw)
  qed (use m in simp)
next
  case (5 j js)
  then obtain m where m: "n = Suc m" "json_steps j \<le> m" "json_steps_items js \<le> m" by (cases n) auto
  have j: "decode_value rf d m (render j @ r) = Inr (thaw_json j, r)" if "after_value r" for r using 5 m that by simp
  show ?case
  proof (cases js)
    case Nil
    then show ?thesis using m(1) j [of "CHR '']'' # rest"] by simp
  next
    case (Cons x xs)
    have "decode_items rf d m (render_items js @ rest) = Inr (thaw_items js, rest)" using 5 m Cons by simp
    moreover have "skip_ws (render_items js @ rest) = render_items js @ rest" using 5 Cons skip_ws_render_items by simp
    ultimately show ?thesis
      using m(1) j [of "CHR '','' # render_items js @ rest"] Cons by (simp add: render_items_rest [of j js rest, simplified])
  qed
next
  case (7 k j fs)
  then obtain m where m: "n = Suc m" "json_steps j \<le> m" "json_steps_fields fs \<le> m" by (cases n) auto
  have j: "decode_value rf d m (skip_ws (render j @ r)) = Inr (thaw_json j, r)" if "after_value r" for r
    using 7 m that skip_ws_render [of j r] by simp
  show ?case
  proof (cases fs)
    case Nil
    then show ?thesis
      using m(1) j [of "CHR ''}'' # rest"] scan_quoted by (simp add: render_fields_quote thaw_pairs_def del: render_fields.simps)
  next
    case (Cons f fs')
    obtain cs where cs: "render_fields fs @ rest = CHR 0x22 # cs"
      using Cons render_fields_quote [of "fst f" "snd f" fs' rest] by simp
    have "decode_fields rf d m (tl (render_fields fs @ rest)) = Inr (thaw_pairs fs, rest)" using 7 m Cons by simp
    moreover have "tl (render_fields ((k, j) # fs) @ rest) = escape k @ CHR 0x22 # CHR '':'' # render j @ CHR '','' # render_fields fs @ rest"
      using render_fields_quote [of k j fs rest] Cons by simp
    ultimately show ?thesis
      using m(1) j [of "CHR '','' # render_fields fs @ rest"] cs
      by (simp add: scan_quoted thaw_pairs_def del: render_fields.simps)
  qed
qed (auto intro!: decode_scalar simp del: render.simps thaw_json.simps)

lemma int_text_pos: "Suc 0 \<le> length (int_text i)"
  using int_text_start [of i] by auto

lemma steps_bounded:
  "no_floats j \<Longrightarrow> json_steps j \<le> 2 * length (render j)"
  "no_floats_items js \<Longrightarrow> json_steps_items js \<le> 2 * length (render_items js)"
  "no_floats_fields fs \<Longrightarrow> json_steps_fields fs \<le> 2 * length (render_fields fs)"
proof (induction j and js and fs rule: json_steps_json_steps_items_json_steps_fields.induct)
  case (5 j js)
  then show ?case using render_items_rest [of j js "[]"] by (cases js) auto
next
  case (7 k j fs)
  then show ?case using render_fields_quote [of k j fs "[]"] by (cases fs) auto
qed (auto simp: quote_def int_text_pos)

lemma loads_printed:
  assumes "no_floats j" "distinct_keys j" "printable_ints j" "json_depth j < limit"
  shows "loads rf limit (render j) = Inr (thaw_json j)"
proof -
  have "skip_ws (render j) = render j" using skip_ws_render [OF assms(1), of "[]"] by simp
  moreover have "decode_value rf limit (2 * length (render j) + 1) (render j @ []) = Inr (thaw_json j, [])"
    using steps_bounded(1) [OF assms(1)] by (intro decode_printed(1) assms) (auto simp: after_value_def)
  ultimately show ?thesis by (simp add: loads_def skip_ws_def)
qed

subsection \<open>The text of a task\<close>

text \<open>A Python object whose dictionaries have distinct keys, as every dictionary has.\<close>

fun dict_obj :: "py_obj \<Rightarrow> bool"
and dict_items :: "py_obj list \<Rightarrow> bool"
and dict_fields :: "(py_key \<times> py_obj) list \<Rightarrow> bool" where
  "dict_obj (OList xs) = dict_items xs"
| "dict_obj (OTuple xs) = dict_items xs"
| "dict_obj (OMap kvs) = (distinct (map fst kvs) \<and> dict_fields kvs)"
| "dict_obj v = True"
| "dict_items [] = True"
| "dict_items (x # xs) = (dict_obj x \<and> dict_items xs)"
| "dict_fields [] = True"
| "dict_fields ((k, v) # kvs) = (dict_obj v \<and> dict_fields kvs)"

lemma dict_fields_iff: "dict_fields kvs \<longleftrightarrow> (\<forall>(k, v)\<in>set kvs. dict_obj v)"
  by (induction kvs) auto

lemma distinct_keys_fields_iff: "distinct_keys_fields fs \<longleftrightarrow> (\<forall>(k, j)\<in>set fs. distinct_keys j)"
  by (induction fs) auto

lemma freeze_distinct:
  "dict_obj v \<Longrightarrow> freeze_json v d = Inr j \<Longrightarrow> distinct_keys j"
  "dict_items vs \<Longrightarrow> freeze_items vs d = Inr js \<Longrightarrow> distinct_keys_items js"
  "dict_fields kvs \<Longrightarrow> (k, Inr j) \<in> set (freeze_fields kvs d) \<Longrightarrow> distinct_keys j"
proof (induction v d and vs d and kvs d arbitrary: j and js and k j rule: freeze_json_freeze_items_freeze_fields.induct)
  case (7 kvs d)
  then obtain fs where fs: "j = JObj fs" "length kvs \<le> max_payload_items" "\<not> list_ex bad_key (map fst kvs)"
      "sort_key fst (freeze_fields kvs (Suc d)) = map (\<lambda>(k, j). (k, Inr j)) fs"
    by (auto simp: collect_fields_Inr split: if_splits)
  have keys: "map fst fs = map fst (sort_key fst (freeze_fields kvs (Suc d)))" unfolding fs(4) by (induction fs) auto
  have "map fst (freeze_fields kvs (Suc d)) = map key_text (map fst kvs)" by (simp add: freeze_fields_map case_prod_beta)
  moreover have "inj_on key_text (set (map fst kvs))"
  proof (rule inj_onI)
    fix x y assume xy: "x \<in> set (map fst kvs)" "y \<in> set (map fst kvs)" "key_text x = key_text y"
    then have "\<not> bad_key x" "\<not> bad_key y" using fs(3) unfolding list_ex_iff by blast+
    then show "x = y" using xy(3) by (cases x; cases y) (simp_all add: bad_key_def)
  qed
  ultimately have "distinct (map fst (freeze_fields kvs (Suc d)))" using 7(2) by (simp only: distinct_map [of key_text] dict_obj.simps)
  then have "distinct (map fst fs)" unfolding keys by (metis distinct_map distinct_sort set_sort)
  moreover have "distinct_keys x" if "(k, x) \<in> set fs" for k x
  proof -
    have "(k, Inr x) \<in> set (sort_key fst (freeze_fields kvs (Suc d)))" unfolding fs(4) using that by force
    then show ?thesis using 7 fs(2,3) by simp
  qed
  ultimately show ?case using fs(1) by (auto simp: distinct_keys_fields_iff)
qed (auto split: if_splits)

lemma accepted_distinct:
  assumes "dict_obj v" "from_mapping v = Inr t"
  shows "distinct_keys (rt_payload t)"
proof -
  obtain kvs where kvs: "envelope_fields v = Inr kvs" and p: "rt_payload_of (field_value kvs ''payload'') = Inr (rt_payload t)"
    using assms(2) unfolding from_mapping_Inr by blast
  have "v = OMap kvs" using kvs by (auto simp: envelope_fields_def split: py_obj.splits if_splits)
  then have "dict_obj (field_value kvs ''payload'')"
    using assms(1) by (auto simp: field_value_def dict_fields_iff split: option.splits dest: map_of_SomeD)
  then show ?thesis using p freeze_distinct(1) by (auto simp: rt_payload_of_Inr)
qed

text \<open>The order of the items of a dictionary does not matter to the validators.\<close>

lemma from_mapping_order:
  assumes "set kvs = set kvs'" "distinct (map fst kvs)" "distinct (map fst kvs')"
  shows "from_mapping (OMap kvs) = from_mapping (OMap kvs')"
proof -
  have "map_of kvs = map_of kvs'" using map_of_inject_set [OF assms(2,3)] assms(1) by simp
  then have "field_value kvs = field_value kvs'" by (simp add: field_value_def [abs_def])
  moreover have keys: "set (map fst kvs) = set (map fst kvs')" using assms(1) by simp
  have "envelope_fields (OMap kvs) = Inr kvs \<and> envelope_fields (OMap kvs') = Inr kvs' \<or>
      (\<exists>e. envelope_fields (OMap kvs) = Inl e \<and> envelope_fields (OMap kvs') = Inl e)"
    unfolding envelope_fields_def py_obj.case list_ex_iff keys by simp
  ultimately show ?thesis unfolding from_mapping_def by auto
qed

definition task_fields_json :: "runner_task \<Rightarrow> (string \<times> json) list" where
  "task_fields_json t = (case task_json t of JObj fs \<Rightarrow> fs | _ \<Rightarrow> [])"

lemma printable_fields_iff: "printable_fields fs \<longleftrightarrow> (\<forall>(k, j)\<in>set fs. printable_ints j)"
  by (induction fs) auto

lemma json_depth_fields_le: "json_depth_fields fs \<le> m \<longleftrightarrow> (\<forall>(k, j)\<in>set fs. json_depth j < m)"
  by (induction fs) auto

lemma jstrs_facts: "distinct_keys (jstrs ss)" "printable_ints (jstrs ss)" "json_depth (jstrs ss) \<le> 1"
    "distinct_keys_items (map jstrs cs)" "printable_items (map jstrs cs)" "json_depth_items (map jstrs cs) \<le> 2"
proof -
  show j: "distinct_keys (jstrs ss)" "printable_ints (jstrs ss)" "json_depth (jstrs ss) \<le> 1" for ss
    by (induction ss) (auto simp: jstrs_def)
  show "distinct_keys_items (map jstrs cs)" "printable_items (map jstrs cs)" "json_depth_items (map jstrs cs) \<le> 2"
    by (induction cs) (use j in auto)
qed

lemma task_fields_facts:
  assumes "sort_keys (rt_payload t) = rt_payload t"
  shows "task_json t = JObj (task_fields_json t)" "sort_keys_fields (task_fields_json t) = task_fields_json t"
    "distinct (map fst (task_fields_json t))"
    "no_floats (rt_payload t) \<Longrightarrow> no_floats_fields (task_fields_json t)"
    "distinct_keys (rt_payload t) \<Longrightarrow> distinct_keys_fields (task_fields_json t)"
    "printable_ints (rt_payload t) \<Longrightarrow> printable_int (rt_validation_timeout_seconds t) \<Longrightarrow> printable_fields (task_fields_json t)"
    "json_depth (rt_payload t) \<le> 16 \<Longrightarrow> json_depth_fields (task_fields_json t) \<le> 17"
proof -
  show "task_json t = JObj (task_fields_json t)" "sort_keys_fields (task_fields_json t) = task_fields_json t"
      "distinct (map fst (task_fields_json t))" "no_floats (rt_payload t) \<Longrightarrow> no_floats_fields (task_fields_json t)"
      "distinct_keys (rt_payload t) \<Longrightarrow> distinct_keys_fields (task_fields_json t)"
      "printable_ints (rt_payload t) \<Longrightarrow> printable_int (rt_validation_timeout_seconds t) \<Longrightarrow> printable_fields (task_fields_json t)"
    using assms jstrs_facts by (simp_all add: task_fields_json_def task_json_def)
  have "json_depth (jstrs ss) \<le> 16" "json_depth_items (map jstrs cs) \<le> 16" for ss cs
    using jstrs_facts(3) [of ss] jstrs_facts(6) [of cs] by linarith+
  then show "json_depth (rt_payload t) \<le> 16 \<Longrightarrow> json_depth_fields (task_fields_json t) \<le> 17"
    by (simp add: json_depth_fields_le task_fields_json_def task_json_def)
qed

text \<open>What the text of an accepted task needs of the decoder: short ints, and eighteen nested containers.\<close>

lemma accepted_printable:
  assumes "from_mapping v = Inr t"
  shows "printable_ints (rt_payload t)" "printable_int (rt_validation_timeout_seconds t)" "json_depth (rt_payload t) \<le> 16"
proof -
  obtain kvs where f: "rt_payload_of (field_value kvs ''payload'') = Inr (rt_payload t)"
      "rt_timeout (field_value kvs ''validation_timeout_seconds'') = Inr (rt_validation_timeout_seconds t)"
    using assms unfolding from_mapping_Inr by blast
  show "printable_ints (rt_payload t)" using f(1) by (simp add: rt_payload_of_Inr)
  have "1 \<le> rt_validation_timeout_seconds t" "rt_validation_timeout_seconds t \<le> 3600"
    using f(2) by (auto simp: rt_timeout_def split: py_obj.splits if_splits)
  then have "length (nat_text (nat \<bar>rt_validation_timeout_seconds t\<bar>)) \<le> 4" by (intro nat_text_length) simp_all
  then show "printable_int (rt_validation_timeout_seconds t)" by (simp add: printable_int_def max_int_digits_def)
  show "json_depth (rt_payload t) \<le> 16"
    using canonical_depth(1) [of "rt_payload t" 0] accepted_shape(1) [OF assms] by (simp add: max_payload_depth_def)
qed

lemma task_text_read:
  assumes "from_mapping v = Inr t" "no_floats (rt_payload t)" "distinct_keys (rt_payload t)" "18 \<le> limit"
  shows "loads rf limit (to_json t) = Inr (OMap (thaw_fields (sort_key fst (task_fields_json t))))"
proof -
  note f = task_fields_facts [OF accepted_shape(2) [OF assms(1)]] and p = accepted_printable [OF assms(1)]
  let ?j = "JObj (sort_key fst (task_fields_json t))"
  have "to_json t = render ?j" using f(1,2) by (simp add: to_json_def dumps_sorted_def)
  moreover have "no_floats ?j" using f(4) [OF assms(2)] by (simp add: no_floats_fields_iff)
  moreover have "distinct_keys ?j"
  proof -
    have "distinct (map fst (sort_key fst (task_fields_json t)))" using f(3) by (simp add: distinct_map)
    then show ?thesis using f(5) [OF assms(3)] by (simp add: distinct_keys_fields_iff)
  qed
  moreover have "printable_ints ?j" using f(6) [OF p(1,2)] by (simp add: printable_fields_iff)
  moreover have "json_depth_fields (sort_key fst (task_fields_json t)) \<le> 17"
    using f(7) [OF p(3)] by (simp add: json_depth_fields_le)
  then have "json_depth ?j < limit" using assms(4) by simp
  ultimately show ?thesis using loads_printed [of ?j limit rf] by simp
qed

text \<open>
  The validators raise nothing but validation errors, and the ValueError of an int in the payload that cannot be printed.
\<close>

definition task_errors :: "'a res \<Rightarrow> bool" where
  "task_errors r \<longleftrightarrow> (\<forall>e. r = Inl e \<longrightarrow> (\<exists>reason. e = RunnerTaskValidationError reason))"

lemma task_errors_simps [simp]: "task_errors (Inr x)" "task_errors (task_error reason)"
  by (simp_all add: task_errors_def)

lemma task_errors_bind: "task_errors r \<Longrightarrow> (\<And>x. r = Inr x \<Longrightarrow> task_errors (f x)) \<Longrightarrow> task_errors (rbind r f)"
  by (cases r) (auto simp: task_errors_def)

lemma task_errors_depth: "task_errors r \<Longrightarrow> task_errors (at_depth d r)"
  by (simp add: at_depth_def)

lemma collect_errors: "(\<And>k r. (k, r) \<in> set fs \<Longrightarrow> task_errors r) \<Longrightarrow> task_errors (collect_fields fs)"
proof (induction fs)
  case (Cons f fs)
  then show ?case by (cases f) (auto intro!: task_errors_bind)
qed simp

lemma freeze_errors:
  "task_errors (freeze_json v d)" "task_errors (freeze_items vs d)" "(k, r) \<in> set (freeze_fields kvs d) \<Longrightarrow> task_errors r"
  by (induction v d and vs d and kvs d arbitrary: and and k r rule: freeze_json_freeze_items_freeze_fields.induct)
    (auto intro!: task_errors_depth task_errors_bind collect_errors)

lemma accept_errors: "task_errors (accept_strs ok reason vs)"
  by (induction ok reason vs rule: accept_strs.induct) (auto intro: task_errors_bind)

lemma sequence_errors: "task_errors (rt_sequence v field)" "task_errors (reject_duplicates xs field)"
  unfolding rt_sequence_def reject_duplicates_def by (auto intro!: task_errors_bind split: py_obj.split simp: raise_if_def)

lemma scalar_errors:
  "task_errors (envelope_fields v)" "task_errors (exact_string v expected)" "task_errors (rt_repository v)" "task_errors (rt_branch_of v)"
  "task_errors (rt_base_sha_of v)" "task_errors (enum_string v field allowed)" "task_errors (safe_token v field)" "task_errors (rt_timeout v)"
  by (simp_all add: envelope_fields_def exact_string_def rt_repository_def rt_branch_of_def rt_base_sha_of_def enum_string_def safe_token_def
      rt_timeout_def split: py_obj.splits)

lemma command_errors: "task_errors (rt_command v)"
  by (auto simp: rt_command_def intro!: task_errors_bind sequence_errors accept_errors)

lemma command_loop_errors: "task_errors (rt_command_loop vs)"
  by (induction vs) (auto intro!: task_errors_bind command_errors)

lemma list_errors:
  "task_errors (rt_capabilities v)" "task_errors (rt_files v)" "task_errors (bounded_text_items v field so)" "task_errors (rt_commands v)"
  by (auto simp: rt_capabilities_def rt_files_def bounded_text_items_def rt_commands_def Let_def split: py_obj.splits
      intro!: task_errors_bind sequence_errors accept_errors command_loop_errors)

lemma freeze_printable:
  "printable_obj v \<Longrightarrow> freeze_json v d = Inr j \<Longrightarrow> printable_ints j"
  "printable_objs vs \<Longrightarrow> freeze_items vs d = Inr js \<Longrightarrow> printable_items js"
  "printable_values kvs \<Longrightarrow> (k, Inr j) \<in> set (freeze_fields kvs d) \<Longrightarrow> printable_ints j"
proof (induction v d and vs d and kvs d arbitrary: j and js and k j rule: freeze_json_freeze_items_freeze_fields.induct)
  case (7 kvs d)
  then obtain fs where fs: "j = JObj fs" "length kvs \<le> max_payload_items" "\<not> list_ex bad_key (map fst kvs)"
      "sort_key fst (freeze_fields kvs (Suc d)) = map (\<lambda>(k, j). (k, Inr j)) fs"
    by (auto simp: collect_fields_Inr split: if_splits)
  have "printable_ints x" if "(k, x) \<in> set fs" for k x
  proof -
    have "(k, Inr x) \<in> set (sort_key fst (freeze_fields kvs (Suc d)))" unfolding fs(4) using that by force
    then show ?thesis using 7 fs(2,3) by simp
  qed
  then show ?case using fs(1) by (auto simp: printable_fields_iff)
qed (auto split: if_splits)

lemma payload_errors: "printable_obj v \<Longrightarrow> task_errors (rt_payload_of v)"
  using freeze_printable(1) [of v 0] freeze_errors(1) [of v 0]
  by (cases v; cases "freeze_json v 0") (auto simp: rt_payload_of_def task_errors_def simp del: freeze_json.simps printable_obj.simps)

lemma from_mapping_errors: "printable_obj v \<Longrightarrow> task_errors (from_mapping v)"
proof -
  assume v: "printable_obj v"
  have "printable_obj (field_value kvs ''payload'')" if "envelope_fields v = Inr kvs" for kvs
  proof -
    have "v = OMap kvs" using that by (auto simp: envelope_fields_def split: py_obj.splits if_splits)
    then show ?thesis using v by (auto simp: field_value_def printable_values_iff split: option.splits dest: map_of_SomeD)
  qed
  then show ?thesis
    unfolding from_mapping_def Let_def by (intro task_errors_bind scalar_errors list_errors payload_errors task_errors_simps)
qed

text \<open>What \<^verbatim>\<open>json.loads\<close> returns or raises.\<close>

lemma loads_answer: "case loads rf limit s of Inl e \<Rightarrow> explains limit s e | Inr v \<Rightarrow> printable_obj v"
proof -
  let ?u = "skip_ws s"
  have u: "suffix ?u s" by (simp add: skip_ws_def suffix_dropWhile)
  have "advances printable_obj limit ?u (decode_value rf limit (2 * length ?u + 1) ?u)" using decode_advances by blast
  then show ?thesis
    using explains_suffix [OF _ u]
    by (cases "decode_value rf limit (2 * length ?u + 1) ?u") (auto simp: loads_def Let_def)
qed

text \<open>The two limits at work.\<close>

lemma decode_nested:
  "2 * limit + 1 \<le> n \<Longrightarrow> decode_value rf limit n (replicate (Suc limit) (CHR ''['') @ rest) = Inl recursion_error"
proof (induction limit arbitrary: n)
  case 0
  then show ?case by (cases n) simp_all
next
  case (Suc limit)
  then obtain m where m: "n = Suc (Suc m)" "2 * limit + 1 \<le> m" by (cases n; cases "n - 1") auto
  then have "decode_value rf limit m (replicate (Suc limit) (CHR ''['') @ rest) = Inl recursion_error" using Suc.IH by blast
  then show ?case using m(1) by (simp add: json_space_def)
qed

lemma nested_escapes: "from_json rf limit (replicate (Suc limit) (CHR ''['')) = Inl recursion_error"
proof -
  let ?s = "replicate (Suc limit) (CHR ''['')"
  have "skip_ws ?s = ?s" by (simp add: skip_ws_def json_space_def)
  moreover have "decode_value rf limit (2 * length ?s + 1) ?s = Inl recursion_error"
    using decode_nested [of limit "2 * length ?s + 1" rf "[]"] by simp
  ultimately show ?thesis by (simp only: from_json_def loads_def Let_def) (simp add: recursion_error_def decode_error_def)
qed

lemma digits_escape:
  assumes "max_int_digits < length ds" "list_all is_digit ds" "hd ds \<noteq> CHR ''0''"
  shows "from_json rf limit ds = Inl int_limit_error"
proof -
  obtain c cs where ds: "ds = c # cs" using assms(1) by (cases ds) auto
  then have c: "is_digit c" using assms(2) by simp
  note st = digit_start [OF c]
  have ip: "int_part ds = ds" using assms(2,3) ds by (auto simp: int_part_def takeWhile_eq_all_conv list_all_iff)
  have "scan_number rf ds = Inl int_limit_error"
    unfolding scan_number_def Let_def using st(6) assms(1) ip ds by (simp add: frac_part_def exp_part_def)
  moreover have "literal ds = None" unfolding ds using st by (simp add: literal_def)
  ultimately have "decode_value rf limit (2 * length ds + 1) ds = Inl int_limit_error" using st ds by simp
  moreover have "skip_ws ds = ds" using st(5) ds by (simp add: skip_ws_def)
  ultimately show ?thesis
    by (simp only: from_json_def loads_def Let_def) (simp add: int_limit_error_def decode_error_def)
qed

subsection \<open>Properties\<close>

text \<open>
  C36. A task survives being written as text and read back: for every accepted task without floats in its payload,
  \<open>from_json\<close> of \<open>to_json\<close> is the same task, whatever the reader of floats is, in every interpreter that lets
  the decoder enter at least eighteen containers inside one another.
\<close>

theorem task_text_roundtrip:
  assumes "dict_obj v" "from_mapping v = Inr t" "no_floats (rt_payload t)" "18 \<le> limit"
  shows "from_json rf limit (to_json t) = Inr t"
proof -
  let ?fs = "task_fields_json t"
  note f = task_fields_facts [OF accepted_shape(2) [OF assms(2)]]
  have keys: "map fst (thaw_fields fs) = map KStr (map fst fs)" for fs by (induction fs rule: list.induct) (auto simp: thaw_fields_map)
  have "distinct (map fst (thaw_fields ?fs))" "distinct (map fst (thaw_fields (sort_key fst ?fs)))"
    unfolding keys using f(3) by (simp_all add: distinct_map inj_on_def)
  then have "from_mapping (OMap (thaw_fields (sort_key fst ?fs))) = from_mapping (OMap (thaw_fields ?fs))"
    by (intro from_mapping_order) (simp_all add: thaw_fields_map)
  moreover have "to_mapping t = OMap (thaw_fields ?fs)" using f(1) by (simp add: to_mapping_def)
  ultimately show ?thesis
    using task_text_read [OF assms(2,3) accepted_distinct [OF assms(1,2)] assms(4)] mapping_reread [OF assms(2)] by (simp add: from_json_def)
qed

text \<open>
  C37. Reading any text ends, and what it can raise is exact.  On every input the scanner answers with a value and a proper
  suffix of the input or with an error, within two steps for every character and one, so the step count is never what
  decides.  \<open>from_json\<close> returns a task or raises a validation error, with three exceptions: the plain ValueError of an int,
  only if the text has a run of more than 4300 digits; RecursionError, only if the text opens more containers than the
  interpreter's limit; and an escape outside the modelled alphabet.  The first two do get through: a number of
  4301 digits and a text of one bracket more than the limit raise them instead of a validation error.
\<close>

theorem task_text_terminates:
  "advances printable_obj limit s (decode_value rf limit (2 * length s + 1) s) \<and>
   ((\<exists>t. from_json rf limit s = Inr t) \<or> (\<exists>reason. from_json rf limit s = Inl (RunnerTaskValidationError reason)) \<or>
    from_json rf limit s = Inl int_limit_error \<and> long_digits s \<or>
    from_json rf limit s = Inl recursion_error \<and> limit < opens s \<or>
    from_json rf limit s = Inl outside_alphabet \<and> sublist [CHR 0x5C, CHR ''u''] s) \<and>
   from_json rf limit (replicate 4301 (CHR ''1'')) = Inl int_limit_error \<and>
   from_json rf limit (replicate (Suc limit) (CHR ''['')) = Inl recursion_error"
proof (intro conjI)
  show "advances printable_obj limit s (decode_value rf limit (2 * length s + 1) s)" using decode_advances by blast
  show "(\<exists>t. from_json rf limit s = Inr t) \<or> (\<exists>reason. from_json rf limit s = Inl (RunnerTaskValidationError reason)) \<or>
      from_json rf limit s = Inl int_limit_error \<and> long_digits s \<or>
      from_json rf limit s = Inl recursion_error \<and> limit < opens s \<or>
      from_json rf limit s = Inl outside_alphabet \<and> sublist [CHR 0x5C, CHR ''u''] s"
  proof (cases "loads rf limit s")
    case (Inl e)
    then show ?thesis using loads_answer [where rf = rf and limit = limit and s = s] by (auto simp: from_json_def explains_def)
  next
    case (Inr v)
    then have "task_errors (from_mapping v)" using loads_answer [where rf = rf and limit = limit and s = s] from_mapping_errors [of v] by simp
    then show ?thesis using Inr by (cases "from_mapping v") (auto simp: from_json_def task_errors_def)
  qed
  show "from_json rf limit (replicate 4301 (CHR ''1'')) = Inl int_limit_error"
    by (rule digits_escape) (simp_all add: max_int_digits_def list_all_iff is_digit_def)
  show "from_json rf limit (replicate (Suc limit) (CHR ''['')) = Inl recursion_error" by (rule nested_escapes)
qed

theorem task_text_roundtrip_witness: "from_json (\<lambda>_. None) 18 (to_json demo_runner_task) = Inr demo_runner_task"
proof (rule task_text_roundtrip [OF _ demo_task_accepted])
  show "dict_obj (OMap demo_task_fields)" by (simp add: demo_task_fields_def)
  show "no_floats (rt_payload demo_runner_task)" by (simp add: demo_runner_task_def)
qed simp

end
