(* ===== verification/Spec2Isabelle.thy ===== *)
theory Spec2Isabelle
  imports Reconciliation Recovery Cutover CutoverBridge LiveCodegen RunnerLease TaskText
begin

text \<open>
  \<^bold>\<open>The program.\<close>  Skeleton is a control plane that executes repository tasks on behalf of an operator.  This
  development covers the core of its task runner, \<^verbatim>\<open>src/core/runner_vnext_*.py\<close>, the task envelope
  \<^verbatim>\<open>src/core/runner_task.py\<close> and the recovery ledger \<^verbatim>\<open>src/core/runner_lease_store.py\<close>.  A task envelope is
  validated and bound to one operation; the operation is classified GREEN, YELLOW or RED; a GREEN one is routed to
  a node, gets a fenced lease of its lane and a reservation in the ledger, is granted just in time, started at most
  once, run by a mechanical backend and finished in the ledger; a YELLOW or RED one goes through an enforcement
  point and a privileged broker.  Unknown outcomes are reconciled, bounded recovery commands are
  executed by a separate kernel, and a bridge decides what the legacy runner may still do.

  \<^bold>\<open>Theories and sources.\<close>
  \<^item> Prelude: exceptions, results, stateful calls, transactions, characters; the locales \<open>atomic_op\<close> (a failing call changes
    nothing), \<open>fencing\<close> (tokens grow), \<open>ref_guard\<close> and \<open>relative_ref_guard\<close> (public references).
  \<^item> Sha256 and Json: the digest on 32-bit words and \<^verbatim>\<open>json.dumps\<close> with sorted keys; Fnmatch: \<^verbatim>\<open>fnmatch.fnmatch\<close>.
  \<^item> Contracts: \<^verbatim>\<open>runner_vnext_contracts.py\<close>, the policy classifier.
  \<^item> Leases: \<^verbatim>\<open>runner_vnext_leases.py\<close> and \<^verbatim>\<open>runner_vnext_scheduler.py\<close>; a store is a record of two maps.
  \<^item> Ledger: \<^verbatim>\<open>runner_vnext_ledger.py\<close>; the event table is the list of its rows.
  \<^item> Adapters, Environment, Routing, Pep: \<^verbatim>\<open>runner_vnext_adapters.py\<close>, \<^verbatim>\<open>_environment.py\<close>, \<^verbatim>\<open>_routing.py\<close>, \<^verbatim>\<open>_pep.py\<close>.
  \<^item> ControlPlane, ExecutionGate, Execution: \<^verbatim>\<open>GreenControlPlane.prepare\<close>, \<^verbatim>\<open>GreenExecutionGate.grant\<close> and
    \<^verbatim>\<open>GreenExecutionLifecycle\<close>; their state is the pair of the lease store and the ledger.
  \<^item> Reconciliation, Recovery: \<^verbatim>\<open>StartedOperationReconciler\<close> and \<^verbatim>\<open>RecoveryKernel\<close>.
  \<^item> Shadow, Cutover, CutoverBridge: \<^verbatim>\<open>runner_vnext_compat.py\<close> with \<^verbatim>\<open>_shadow.py\<close>, \<^verbatim>\<open>_cutover.py\<close>, \<^verbatim>\<open>_cutover_bridge.py\<close>.
  \<^item> RunnerTask and TaskText: \<^verbatim>\<open>runner_task.py\<close>, the second for \<^verbatim>\<open>from_json\<close> with the decoder of \<^verbatim>\<open>json.loads\<close>.
  \<^item> Authority and Dispatch: \<^verbatim>\<open>runner_vnext_authority.py\<close>,
    \<^verbatim>\<open>runner_vnext_authoritative_dispatch.py\<close>; Dispatch composes everything above.
  \<^item> LiveCodegen: \<^verbatim>\<open>runner_vnext_live_codegen.py\<close> and the protected paths of \<^verbatim>\<open>runner_gate.py\<close>; the workspace is a state of
    any type that the injected callables act on.
  \<^item> RunnerLease: \<^verbatim>\<open>runner_lease_store.py\<close>; a row is an attempt, the table is the list of its rows.

  One Python class is one record or datatype, one method one definition of the same or a prefixed name.  A call that may
  raise returns \<open>exn + 'a\<close>, a call on a store has type \<open>'s \<Rightarrow> (exn + 'a) \<times> 's\<close>; \<^verbatim>\<open>except\<close> clauses are
  case distinctions on the exception class.

  \<^bold>\<open>What is shown.\<close>
  \<^item> Ledger: the four writing calls refine a per-key protocol; histories only grow, finished operations never change, a
    stale fence is dead, a repeated call replays its event.
  \<^item> Leases and RunnerLease: tokens and attempts increase, an unexpired lease is exclusive, ended tokens and completed
    tasks stay so, failures are rolled back, reconciliation is exact and idempotent, and no crash blocks a task.
  \<^item> Planning: GREEN, RED and the need of the enforcement point are given exactly by the listed conditions; routes are optimal; plans and child environments are
    confined; fingerprints and idempotency keys bind what they hash, up to a collision of the two texts at hand.
  \<^item> Preparing, granting and running: a handoff is backed by the stores, a failed preparation leaves nothing behind, a
    grant rests on current evidence and copies the handoff, the enforcement point passes only valid reserved envelopes, an effect starts at most once, receipts are what the ledger says.
  \<^item> Dispatch: a good task completes; every later dispatch of a finished operation replays; what a failed
    privileged dispatch leaves behind.
  \<^item> LiveCodegen: results touch only allowed and unprotected files whatever the backend does, an adapter runs no task but
    its own, success means exactly that generation and every validation command passed, and a good task completes.
  \<^item> Reconciliation and Recovery: started operations are resolved once with exactly the facts of the verified evidence, recovery is confined to its bounds.
  \<^item> RunnerTask and TaskText: a task survives being printed and read, as a mapping and as text; every text is answered
    and the exceptions that can escape are listed with their causes; accepted tasks are bounded.  Shadow, Cutover, CutoverBridge: redaction, readiness, what the legacy runner may do.

  \<^bold>\<open>Parameters and bounds.\<close>  The backends, handlers, probes, verifiers and the target-state reader are function arguments;
  what a property needs of them is a named hypothesis (for instance \<open>via_ledger\<close>: the ledger is only written by its own
  calls).  Clock readings, tokens the code draws and the environment are arguments.  Floats are exact reals that are finite, their
  text is the parameter \<open>frepr\<close>; Python ints are unbounded;
  an int that the ledger cannot store in SQLite raises OverflowError, and one of more than 4300 digits in a task or a checkpoint raises
  ValueError where \<^verbatim>\<open>json\<close> reads or prints it (the interpreter's default limit).  The recursion limit that \<^verbatim>\<open>json.loads\<close> meets is the parameter
  \<open>limit\<close>; 18 is enough for every accepted task.
  Strings range over the code points 0 to 255.  Every definition is total: loops are recursion on lists, texts or
  documents.  Only the JSON scanner counts steps; two for every character and one are shown to be always enough.  Concurrency is the
  sequence of committed transactions, since every writing call holds BEGIN IMMEDIATE.  Idealised: a lane issues fewer than 2 to the 63 fence tokens, fences and
  node generations that are hashed have at most 4300 digits, and the target-state readers of the gate and of the dispatch return a
  reference and do not raise.

  \<^bold>\<open>Not modelled.\<close>  Opening and locating SQLite files, the git and
  subprocess calls that the poller hands to the code generation backend, the other checks of \<^verbatim>\<open>RunnerGate\<close>, the GitHub pollers, the privileged socket gateway, and the subsystems
  of the repository that the task runner does not call: the general scheduler, the memory and intake services, the mail, page,
  Telegram, Android and home gateways.
\<close>

end
